(* ===== verification/Go_Prelude.thy ===== *)
theory Go_Prelude
  imports Main "HOL-Library.Char_ord" "HOL-Library.List_Lexorder" "HOL-Library.Product_Lexorder"
begin

text \<open>
  The part of Go that every component of the service uses: results with an error, the byte
  strings of package \<^verbatim>\<open>strings\<close>, decimal printing, and the list facts the component
  theories share.

  A Go \<^verbatim>\<open>string\<close> is a sequence of bytes, and so is a HOL \<^typ>\<open>string\<close>: \<^verbatim>\<open>len(s)\<close> is
  \<^term>\<open>length s\<close>, \<^verbatim>\<open>s < t\<close> is the lexicographic order of bytes that
  \<^verbatim>\<open>HOL-Library.List_Lexorder\<close> gives, and SQLite's BINARY collation is the same order.
  White space is recognised by its UTF-8 encoding, so \<^verbatim>\<open>strings.Fields\<close> and
  \<^verbatim>\<open>strings.TrimSpace\<close> agree with Go outside ASCII too; case folding is modelled on ASCII
  letters and leaves every other byte alone.
\<close>

named_theorems go_simps \<open>unfolding of the small Go library functions\<close>

section \<open>Results\<close>

text \<open>
  A Go function with an error result is a sum: \<^term>\<open>Inl\<close> the error, \<^term>\<open>Inr\<close> the value.
  \<open>bindE\<close> is \<^verbatim>\<open>if err != nil { return err }\<close>.
\<close>

definition bindE :: "'e + 'a \<Rightarrow> ('a \<Rightarrow> 'e + 'b) \<Rightarrow> 'e + 'b" where
  "bindE m f = (case m of Inl e \<Rightarrow> Inl e | Inr x \<Rightarrow> f x)"

lemma bindE_simps [simp]: "bindE (Inl e) f = Inl e" "bindE (Inr x) f = f x"
  by (simp_all add: bindE_def)

lemma bindE_eq_Inr [simp]: "bindE m f = Inr y \<longleftrightarrow> (\<exists>x. m = Inr x \<and> f x = Inr y)"
  by (cases m) simp_all

lemma bindE_eq_Inl: "bindE m f = Inl e \<longleftrightarrow> m = Inl e \<or> (\<exists>x. m = Inr x \<and> f x = Inl e)"
  by (cases m) simp_all

text \<open>The value of a call that is known to succeed.\<close>

definition the_Inr :: "'e + 'a \<Rightarrow> 'a" where
  "the_Inr m = (case m of Inr x \<Rightarrow> x | Inl e \<Rightarrow> undefined)"

lemma the_Inr_Inr [simp]: "the_Inr (Inr x) = x"
  by (simp add: the_Inr_def)

text \<open>A loop whose body may return an error: it stops at the first one.\<close>

fun foldE :: "('a \<Rightarrow> 's \<Rightarrow> 'e + 's) \<Rightarrow> 'a list \<Rightarrow> 's \<Rightarrow> 'e + 's" where
  "foldE f [] s = Inr s"
| "foldE f (x # xs) s = bindE (f x s) (foldE f xs)"

lemma foldE_append: "foldE f (xs @ ys) s = bindE (foldE f xs s) (foldE f ys)"
  by (induction xs arbitrary: s) (auto simp: bindE_def split: sum.splits)

lemma foldE_invariant:
  assumes "foldE f xs s = Inr t" and "P s"
    and "\<And>x s t. x \<in> set xs \<Longrightarrow> P s \<Longrightarrow> f x s = Inr t \<Longrightarrow> P t"
  shows "P t"
  using assms by (induction xs arbitrary: s) auto

section \<open>Byte strings\<close>

definition has_prefix :: "string \<Rightarrow> string \<Rightarrow> bool" where
  "has_prefix s p \<longleftrightarrow> take (length p) s = p"

definition has_suffix :: "string \<Rightarrow> string \<Rightarrow> bool" where
  "has_suffix s p \<longleftrightarrow> length p \<le> length s \<and> drop (length s - length p) s = p"

fun str_contains :: "string \<Rightarrow> string \<Rightarrow> bool" where
  "str_contains [] p = (p = [])"
| "str_contains (c # cs) p = (has_prefix (c # cs) p \<or> str_contains cs p)"

definition trim_suffix :: "string \<Rightarrow> string \<Rightarrow> string" where
  "trim_suffix s p = (if has_suffix s p then take (length s - length p) s else s)"

text \<open>\<^verbatim>\<open>strings.Split(s, sep)\<close> and \<^verbatim>\<open>bytes.Split\<close> for a separator of one byte.\<close>

fun split_on :: "char \<Rightarrow> string \<Rightarrow> string list" where
  "split_on c [] = [[]]"
| "split_on c (x # xs) =
     (if x = c then [] # split_on c xs
      else (case split_on c xs of [] \<Rightarrow> [[x]] | y # ys \<Rightarrow> (x # y) # ys))"

fun join :: "string \<Rightarrow> string list \<Rightarrow> string" where
  "join sep [] = []"
| "join sep [s] = s"
| "join sep (s # t # ss) = s @ sep @ join sep (t # ss)"

definition lower_char :: "char \<Rightarrow> char" where
  "lower_char c = (let n = of_char c :: nat in
     if 65 \<le> n \<and> n \<le> 90 then char_of (n + 32) else c)"

definition to_lower :: "string \<Rightarrow> string" where
  "to_lower s = map lower_char s"

text \<open>
  \<^verbatim>\<open>unicode.IsSpace\<close> on the UTF-8 encoding: the width in bytes of the white-space rune at
  the head of the string, 0 if there is none. A byte that starts such a rune never occurs
  inside another rune, so a scan by bytes finds the same runes as Go's scan by runes.
\<close>

definition byte :: "char \<Rightarrow> nat" where "byte c = of_char c"

fun space_width :: "string \<Rightarrow> nat" where
  "space_width [] = 0"
| "space_width (a # s) =
     (if byte a \<in> {9, 10, 11, 12, 13, 32} then 1
      else (case s of
        b # t \<Rightarrow>
          (if byte a = 194 \<and> byte b \<in> {133, 160} then 2
           else (case t of
             c # u \<Rightarrow>
               (if byte a = 225 \<and> byte b = 154 \<and> byte c = 128
                 \<or> byte a = 226 \<and> byte b = 128 \<and> (128 \<le> byte c \<and> byte c \<le> 138 \<or> byte c \<in> {168, 169, 175})
                 \<or> byte a = 226 \<and> byte b = 129 \<and> byte c = 159
                 \<or> byte a = 227 \<and> byte b = 128 \<and> byte c = 128
                then 3 else 0)
           | [] \<Rightarrow> 0))
      | [] \<Rightarrow> 0))"

lemma space_width_le: "space_width s \<le> length s"
  by (cases s rule: space_width.cases) (auto split: list.splits)

text \<open>\<^verbatim>\<open>strings.Fields\<close>: \<open>cur\<close> is the field being read, in reverse.\<close>

function fields_from :: "string \<Rightarrow> string \<Rightarrow> string list" where
  "fields_from cur [] = (if cur = [] then [] else [rev cur])"
| "fields_from cur (c # cs) =
     (if 0 < space_width (c # cs)
      then (if cur = [] then [] else [rev cur]) @ fields_from [] (drop (space_width (c # cs)) (c # cs))
      else fields_from (c # cur) cs)"
  by pat_completeness auto
termination
  by (relation "measure (\<lambda>(cur, s). length s)") (use space_width_le in auto)

definition fields :: "string \<Rightarrow> string list" where
  "fields s = fields_from [] s"

function trim_left :: "string \<Rightarrow> string" where
  "trim_left s = (if 0 < space_width s then trim_left (drop (space_width s) s) else s)"
  by pat_completeness auto
termination
proof (relation "measure length", simp)
  fix s :: string
  assume "0 < space_width s"
  moreover have "space_width s \<le> length s" by (rule space_width_le)
  ultimately show "(drop (space_width s) s, s) \<in> measure length" by simp
qed

declare trim_left.simps [simp del]

fun trim_right :: "string \<Rightarrow> string" where
  "trim_right [] = []"
| "trim_right (c # cs) = (if trim_left (c # cs) = [] then [] else c # trim_right cs)"

definition trim_space :: "string \<Rightarrow> string" where
  "trim_space s = trim_right (trim_left s)"

text \<open>\<^verbatim>\<open>strings.ContainsAny(s, cs)\<close> for a set of ASCII bytes.\<close>

definition contains_any :: "string \<Rightarrow> char list \<Rightarrow> bool" where
  "contains_any s cs \<longleftrightarrow> (\<exists>c \<in> set s. c \<in> set cs)"

definition NUL :: char where "NUL = CHR 0x00"
definition LF :: char where "LF = CHR 0x0A"
definition CR :: char where "CR = CHR 0x0D"

lemmas control_chars = NUL_def LF_def CR_def

section \<open>Decimal printing\<close>

definition digit_char :: "nat \<Rightarrow> char" where
  "digit_char d = char_of (48 + d)"

fun nat_dec :: "nat \<Rightarrow> string" where
  "nat_dec n = (if n < 10 then [digit_char n] else nat_dec (n div 10) @ [digit_char (n mod 10)])"

declare nat_dec.simps [simp del]

definition int_dec :: "int \<Rightarrow> string" where
  "int_dec i = (if i < 0 then CHR ''-'' # nat_dec (nat (- i)) else nat_dec (nat i))"

text \<open>\<^verbatim>\<open>fmt.Sprintf("%0wd", n)\<close> for a natural number.\<close>

definition pad0 :: "nat \<Rightarrow> nat \<Rightarrow> string" where
  "pad0 w n = replicate (w - length (nat_dec n)) (CHR ''0'') @ nat_dec n"

section \<open>Shared list facts\<close>

lemma has_prefix_append [simp]: "has_prefix (p @ s) p"
  by (simp add: has_prefix_def)

lemma has_prefix_iff: "has_prefix s p \<longleftrightarrow> (\<exists>t. s = p @ t)"
  by (metis append_take_drop_id append_eq_conv_conj has_prefix_def)

lemma join_fields_Nil: "join sep xs = [] \<Longrightarrow> x \<in> set xs \<Longrightarrow> x = []"
  by (induction sep xs rule: join.induct) auto

lemma split_on_not_Nil [simp]: "split_on c s \<noteq> []"
  by (induction s) (auto split: list.splits)

lemma join_split_on: "join [c] (split_on c s) = s"
proof (induction s)
  case Nil
  then show ?case by simp
next
  case (Cons x xs)
  obtain y ys where y: "split_on c xs = y # ys"
    by (cases "split_on c xs") auto
  with Cons show ?case by (cases ys) auto
qed

lemma split_on_no_sep: "p \<in> set (split_on c s) \<Longrightarrow> c \<notin> set p"
  by (induction s arbitrary: p) (auto split: list.splits if_splits)

lemma split_on_snoc_sep:
  "c \<notin> set p \<Longrightarrow> split_on c (p @ c # s) = p # split_on c s"
  by (induction p) auto

lemma split_on_single: "c \<notin> set p \<Longrightarrow> split_on c p = [p]"
  by (induction p) auto

end
