(* ===== verification/Sql_Table.thy ===== *)
theory Sql_Table
  imports Go_Prelude "HOL-Library.Multiset"
begin

text \<open>
  The SQL statements that \<^verbatim>\<open>internal/store/store.go\<close> runs, on a table given as the list of its
  rows. A statement that a PRIMARY KEY or UNIQUE constraint can refuse says so with an error;
  every \<^verbatim>\<open>SELECT\<close> of the store that returns more than one row has an ORDER BY, so the order of
  the list is never observed.

  The locale \<open>upsert_table\<close> is the contract the store relies on when it writes
  \<^verbatim>\<open>INSERT ... ON CONFLICT(key) DO UPDATE\<close>: what a lookup returns afterwards, and that the key
  stays a key. The store interprets it once per table it upserts into.
\<close>

section \<open>Statements\<close>

text \<open>\<^verbatim>\<open>SELECT ... WHERE key = k\<close> read with \<^verbatim>\<open>QueryRow\<close>.\<close>

definition t_get :: "('r \<Rightarrow> 'k) \<Rightarrow> 'k \<Rightarrow> 'r list \<Rightarrow> 'r option" where
  "t_get key k rows = find (\<lambda>r. key r = k) rows"

text \<open>\<^verbatim>\<open>INSERT\<close>: refused when a row it clashes with is present.\<close>

definition t_insert :: "('r \<Rightarrow> 'r \<Rightarrow> bool) \<Rightarrow> 'r \<Rightarrow> 'r list \<Rightarrow> 'r list option" where
  "t_insert clash r rows = (if \<exists>x \<in> set rows. clash r x then None else Some (rows @ [r]))"

text \<open>\<^verbatim>\<open>INSERT OR IGNORE\<close>, with the number of rows it inserted.\<close>

definition t_insert_ignore :: "('r \<Rightarrow> 'k) \<Rightarrow> 'r \<Rightarrow> 'r list \<Rightarrow> 'r list \<times> nat" where
  "t_insert_ignore key r rows = (if key r \<in> key ` set rows then (rows, 0) else (rows @ [r], 1))"

text \<open>\<^verbatim>\<open>INSERT ... ON CONFLICT(key) DO UPDATE\<close>; \<open>merge\<close> takes the stored row and \<^verbatim>\<open>excluded\<close>.\<close>

definition t_upsert :: "('r \<Rightarrow> 'k) \<Rightarrow> ('r \<Rightarrow> 'r \<Rightarrow> 'r) \<Rightarrow> 'r \<Rightarrow> 'r list \<Rightarrow> 'r list" where
  "t_upsert key merge r rows =
     (if key r \<in> key ` set rows
      then map (\<lambda>x. if key x = key r then merge x r else x) rows
      else rows @ [r])"

definition t_update :: "('r \<Rightarrow> bool) \<Rightarrow> ('r \<Rightarrow> 'r) \<Rightarrow> 'r list \<Rightarrow> 'r list" where
  "t_update P f rows = map (\<lambda>x. if P x then f x else x) rows"

definition t_delete :: "('r \<Rightarrow> bool) \<Rightarrow> 'r list \<Rightarrow> 'r list" where
  "t_delete P rows = filter (\<lambda>x. \<not> P x) rows"

section \<open>Facts about every table\<close>

text \<open>A list of rows of which \<open>key\<close> is a key.\<close>

definition keyed :: "('r \<Rightarrow> 'k) \<Rightarrow> 'r list \<Rightarrow> bool" where
  "keyed key rows \<longleftrightarrow> distinct (map key rows)"

lemma keyed_Nil [simp]: "keyed key []"
  by (simp add: keyed_def)

lemma keyed_delete [simp]: "keyed key rows \<Longrightarrow> keyed key (t_delete P rows)"
  by (simp add: keyed_def t_delete_def distinct_map_filter)

lemma map_key_update:
  "(\<And>x. key (f x) = key x) \<Longrightarrow> map key (t_update P f rows) = map key rows"
  by (induction rows) (auto simp: t_update_def)

lemma keyed_update: "(\<And>x. key (f x) = key x) \<Longrightarrow> keyed key (t_update P f rows) = keyed key rows"
  by (simp add: keyed_def map_key_update)

text \<open>An ORDER BY loses and duplicates no row.\<close>

lemma keyed_sort [simp]: "keyed key (sort_key f rows) = keyed key rows"
  unfolding keyed_def by (rule mset_eq_imp_distinct_iff) simp

lemma keyed_snoc: "keyed key (rows @ [r]) \<longleftrightarrow> keyed key rows \<and> key r \<notin> key ` set rows"
  by (auto simp: keyed_def)

lemma keyed_eqD: "keyed key rows \<Longrightarrow> x \<in> set rows \<Longrightarrow> y \<in> set rows \<Longrightarrow> key x = key y \<Longrightarrow> x = y"
  by (auto simp: keyed_def distinct_map dest: inj_onD)

lemma t_get_None: "t_get key k rows = None \<longleftrightarrow> k \<notin> key ` set rows"
  by (auto simp: t_get_def find_None_iff)

lemma t_get_SomeD: "t_get key k rows = Some r \<Longrightarrow> r \<in> set rows \<and> key r = k"
  unfolding t_get_def by (induction rows) (auto split: if_splits)

lemma t_get_Some: "keyed key rows \<Longrightarrow> t_get key k rows = Some r \<longleftrightarrow> r \<in> set rows \<and> key r = k"
  unfolding t_get_def keyed_def
  by (induction rows) (auto split: if_splits simp: find_None_iff image_iff)

lemma t_get_append: "t_get key k (xs @ ys) = (case t_get key k xs of None \<Rightarrow> t_get key k ys | r \<Rightarrow> r)"
  unfolding t_get_def by (induction xs) auto

lemma t_get_single: "t_get key k [r] = (if key r = k then Some r else None)"
  by (simp add: t_get_def)

lemma t_get_update:
  assumes "\<And>x. key (f x) = key x"
  shows "t_get key k (t_update P f rows) = map_option (\<lambda>x. if P x then f x else x) (t_get key k rows)"
  unfolding t_get_def t_update_def by (induction rows) (auto simp: assms)

lemma t_get_update_other:
  assumes "\<And>x. P x \<Longrightarrow> key x \<noteq> k" and "\<And>x. key (f x) = key x"
  shows "t_get key k (t_update P f rows) = t_get key k rows"
  unfolding t_get_def t_update_def by (induction rows) (auto simp: assms(2) dest: assms(1))

lemma t_get_delete_key: "t_get key k (t_delete (\<lambda>x. key x = k) rows) = None"
  by (auto simp: t_get_None t_delete_def)

lemma set_t_delete [simp]: "set (t_delete P rows) = {x \<in> set rows. \<not> P x}"
  by (auto simp: t_delete_def)

lemma set_t_update [simp]: "set (t_update P f rows) = (\<lambda>x. if P x then f x else x) ` set rows"
  by (simp add: t_update_def)

lemma t_update_idle: "(\<And>x. x \<in> set rows \<Longrightarrow> \<not> P x) \<Longrightarrow> t_update P f rows = rows"
  unfolding t_update_def by (rule map_idI) auto

lemma t_delete_idle: "(\<And>x. x \<in> set rows \<Longrightarrow> \<not> P x) \<Longrightarrow> t_delete P rows = rows"
  unfolding t_delete_def by simp

lemma t_insert_Some: "t_insert clash r rows = Some rows' \<longleftrightarrow> rows' = rows @ [r] \<and> (\<forall>x \<in> set rows. \<not> clash r x)"
  by (auto simp: t_insert_def)

lemma keyed_insert:
  assumes "t_insert clash r rows = Some rows'" and "\<And>x y. key x = key y \<Longrightarrow> clash x y"
  shows "keyed key rows' = keyed key rows"
  using assms by (auto simp: t_insert_Some keyed_snoc dest: assms(2)[OF sym])

lemma keyed_insert_ignore: "keyed key rows \<Longrightarrow> keyed key (fst (t_insert_ignore key r rows))"
  by (auto simp: t_insert_ignore_def keyed_snoc)

section \<open>The contract of an upsert\<close>

locale upsert_table =
  fixes key :: "'r \<Rightarrow> 'k"
    and merge :: "'r \<Rightarrow> 'r \<Rightarrow> 'r"
  assumes merge_key: "key (merge old new) = key old"
begin

lemma upsert_hit:
  "key r \<in> key ` set rows \<Longrightarrow>
     t_upsert key merge r rows = t_update (\<lambda>x. key x = key r) (\<lambda>x. merge x r) rows"
  by (simp add: t_upsert_def t_update_def)

lemma upsert_miss: "key r \<notin> key ` set rows \<Longrightarrow> t_upsert key merge r rows = rows @ [r]"
  by (simp add: t_upsert_def)

lemma keyed_upsert: "keyed key rows \<Longrightarrow> keyed key (t_upsert key merge r rows)"
  by (cases "key r \<in> key ` set rows")
    (simp_all add: upsert_hit upsert_miss keyed_snoc keyed_update merge_key)

lemma get_upsert:
  "t_get key k (t_upsert key merge r rows) =
     (if k = key r then Some (case t_get key k rows of None \<Rightarrow> r | Some x \<Rightarrow> merge x r)
      else t_get key k rows)"
proof (cases "key r \<in> key ` set rows")
  case True
  then obtain x where "t_get key (key r) rows = Some x"
    by (cases "t_get key (key r) rows") (auto simp: t_get_None)
  with True show ?thesis
    by (cases "t_get key k rows") (auto simp: upsert_hit t_get_update merge_key dest: t_get_SomeD)
next
  case False
  then have "t_get key (key r) rows = None" by (simp add: t_get_None)
  with False show ?thesis
    by (auto simp: upsert_miss t_get_append t_get_single split: option.splits)
qed

lemma get_upsert_same: "t_get key (key r) (t_upsert key merge r rows) \<noteq> None"
  by (simp add: get_upsert)

lemma get_upsert_other: "k \<noteq> key r \<Longrightarrow> t_get key k (t_upsert key merge r rows) = t_get key k rows"
  by (simp add: get_upsert)

lemma keys_upsert: "key ` set (t_upsert key merge r rows) = insert (key r) (key ` set rows)"
proof (cases "key r \<in> key ` set rows")
  case True
  have "set (map key (t_upsert key merge r rows)) = set (map key rows)"
    by (simp only: upsert_hit [OF True] map_key_update merge_key)
  with True show ?thesis by auto
qed (simp add: upsert_miss)

lemma upsert_cases:
  assumes "x \<in> set (t_upsert key merge r rows)"
  obtains (merged) y where "y \<in> set rows" "key y = key r" "x = merge y r"
    | (other) "x \<in> set rows" "key x \<noteq> key r"
    | (fresh) "x = r" "key r \<notin> key ` set rows"
proof (cases "key r \<in> key ` set rows")
  case True
  with assms show thesis by (auto simp: t_upsert_def intro: merged other)
next
  case False
  with assms consider "x = r" | "x \<in> set rows" "key x \<noteq> key r"
    by (auto simp: t_upsert_def image_iff)
  then show thesis using False by cases (auto intro: other fresh)
qed

lemma set_upsert_other:
  "x \<in> set (t_upsert key merge r rows) \<Longrightarrow> key x \<noteq> key r \<Longrightarrow> x \<in> set rows"
  by (auto simp: t_upsert_def merge_key split: if_splits)

end

end
