(* ===== verification/Go_Encoding.thy ===== *)
theory Go_Encoding
  imports Go_Prelude "HOL-Library.Word"
begin

text \<open>
  The encodings of Go's standard library that the service computes identities and envelopes
  with: SHA-256 and hexadecimal digests (\<^verbatim>\<open>crypto/sha256\<close>, \<^verbatim>\<open>encoding/hex\<close>), JSON values and
  their compact encoding (\<^verbatim>\<open>encoding/json\<close>), and RFC 3339 time stamps (\<^verbatim>\<open>time\<close>).

  A \<^verbatim>\<open>time.Time\<close> is an \<^typ>\<open>int\<close>, the nanoseconds since the Unix epoch in UTC.
\<close>

unbundle bit_operations_syntax

section \<open>SHA-256\<close>

type_synonym w32 = "32 word"

definition rotr :: "nat \<Rightarrow> w32 \<Rightarrow> w32" where
  "rotr n x = drop_bit n x OR push_bit (32 - n) x"

text \<open>The round constants and the initial state of FIPS 180-4, in decimal.\<close>

definition sha_k :: "w32 list" where
  "sha_k = [
    1116352408, 1899447441, 3049323471, 3921009573, 961987163, 1508970993, 2453635748, 2870763221,
    3624381080, 310598401, 607225278, 1426881987, 1925078388, 2162078206, 2614888103, 3248222580,
    3835390401, 4022224774, 264347078, 604807628, 770255983, 1249150122, 1555081692, 1996064986,
    2554220882, 2821834349, 2952996808, 3210313671, 3336571891, 3584528711, 113926993, 338241895,
    666307205, 773529912, 1294757372, 1396182291, 1695183700, 1986661051, 2177026350, 2456956037,
    2730485921, 2820302411, 3259730800, 3345764771, 3516065817, 3600352804, 4094571909, 275423344,
    430227734, 506948616, 659060556, 883997877, 958139571, 1322822218, 1537002063, 1747873779,
    1955562222, 2024104815, 2227730452, 2361852424, 2428436474, 2756734187, 3204031479, 3329325298]"

definition sha_init :: "w32 list" where
  "sha_init = [1779033703, 3144134277, 1013904242, 2773480762,
               1359893119, 2600822924, 528734635, 1541459225]"

text \<open>The big-endian bytes of a number, \<open>n\<close> of them.\<close>

fun be_bytes :: "nat \<Rightarrow> nat \<Rightarrow> nat list" where
  "be_bytes 0 v = []"
| "be_bytes (Suc n) v = be_bytes n (v div 256) @ [v mod 256]"

definition sha_pad :: "nat list \<Rightarrow> nat list" where
  "sha_pad m = (let l = length m; z = (119 - l mod 64) mod 64
     in m @ 128 # replicate z 0 @ be_bytes 8 (8 * l))"

fun be_words :: "nat list \<Rightarrow> w32 list" where
  "be_words (a # b # c # d # m) = of_nat (((a * 256 + b) * 256 + c) * 256 + d) # be_words m"
| "be_words m = []"

text \<open>The message schedule, newest word first: 48 words after the 16 of the block.\<close>

definition sha_sched_step :: "w32 list \<Rightarrow> w32 list" where
  "sha_sched_step w =
     (let w15 = w ! 14; w2 = w ! 1;
          s0 = rotr 7 w15 XOR rotr 18 w15 XOR drop_bit 3 w15;
          s1 = rotr 17 w2 XOR rotr 19 w2 XOR drop_bit 10 w2
      in (w ! 15 + s0 + w ! 6 + s1) # w)"

definition sha_schedule :: "w32 list \<Rightarrow> w32 list" where
  "sha_schedule block = rev ((sha_sched_step ^^ 48) (rev block))"

fun sha_round :: "w32 list \<Rightarrow> w32 \<times> w32 \<Rightarrow> w32 list" where
  "sha_round [a, b, c, d, e, f, g, h] (k, w) =
     (let s1 = rotr 6 e XOR rotr 11 e XOR rotr 25 e;
          ch = (e AND f) XOR (NOT e AND g);
          t1 = h + s1 + ch + k + w;
          s0 = rotr 2 a XOR rotr 13 a XOR rotr 22 a;
          maj = (a AND b) XOR (a AND c) XOR (b AND c);
          t2 = s0 + maj
      in [t1 + t2, a, b, c, d + t1, e, f, g])"
| "sha_round st kw = st"

definition sha_block :: "w32 list \<Rightarrow> w32 list \<Rightarrow> w32 list" where
  "sha_block st block = map2 (+) st (foldl sha_round st (zip sha_k (sha_schedule block)))"

function sha_blocks :: "w32 list \<Rightarrow> w32 list \<Rightarrow> w32 list" where
  "sha_blocks st ws = (if length ws < 16 then st else sha_blocks (sha_block st (take 16 ws)) (drop 16 ws))"
  by pat_completeness auto
termination
  by (relation "measure (\<lambda>(st, ws). length ws)") auto

declare sha_blocks.simps [simp del]

definition hex_digit :: "nat \<Rightarrow> char" where
  "hex_digit d = char_of (if d < 10 then 48 + d else 87 + d)"

text \<open>\<^verbatim>\<open>fmt.Sprintf("%x", bs)\<close> and \<^verbatim>\<open>hex.EncodeToString\<close>.\<close>

definition hex_bytes :: "nat list \<Rightarrow> string" where
  "hex_bytes bs = concat (map (\<lambda>b. [hex_digit (b div 16), hex_digit (b mod 16)]) bs)"

definition sha256 :: "string \<Rightarrow> nat list" where
  "sha256 s = concat (map (\<lambda>w. be_bytes 4 (unat w))
     (sha_blocks sha_init (be_words (sha_pad (map byte s)))))"

definition sha256_hex :: "string \<Rightarrow> string" where
  "sha256_hex s = hex_bytes (sha256 s)"

text \<open>\<^verbatim>\<open>fmt.Sprintf("%x", sum[:n])\<close>.\<close>

definition sha256_hex_prefix :: "nat \<Rightarrow> string \<Rightarrow> string" where
  "sha256_hex_prefix n s = hex_bytes (take n (sha256 s))"

lemma length_be_bytes [simp]: "length (be_bytes n v) = n"
  by (induction n arbitrary: v) auto

lemma length_hex_bytes [simp]: "length (hex_bytes bs) = 2 * length bs"
  by (induction bs) (auto simp: hex_bytes_def)

lemma length_sha_sched_step: "length (sha_sched_step w) = Suc (length w)"
  by (simp add: sha_sched_step_def Let_def)

lemma length_sha_sched_steps: "length ((sha_sched_step ^^ n) w) = n + length w"
  by (induction n) (simp_all add: length_sha_sched_step)

lemma length_sha_round: "length st = 8 \<Longrightarrow> length (sha_round st kw) = 8"
  by (induction st kw rule: sha_round.induct) (auto simp: Let_def)

lemma length_sha_rounds: "length st = 8 \<Longrightarrow> length (foldl sha_round st kws) = 8"
  by (induction kws arbitrary: st) (auto simp: length_sha_round)

lemma length_sha_block: "length st = 8 \<Longrightarrow> length (sha_block st b) = 8"
  by (simp add: sha_block_def length_sha_rounds)

lemma length_sha_blocks: "length st = 8 \<Longrightarrow> length (sha_blocks st ws) = 8"
proof (induction st ws rule: sha_blocks.induct)
  case (1 st ws)
  then show ?case
    by (subst sha_blocks.simps) (simp add: length_sha_block)
qed

lemma length_concat_const: "(\<And>x. x \<in> set xs \<Longrightarrow> length (f x) = n) \<Longrightarrow> length (concat (map f xs)) = n * length xs"
  by (induction xs) auto

lemma length_sha256 [simp]: "length (sha256 s) = 32"
proof -
  have "length (sha_blocks sha_init (be_words (sha_pad (map byte s)))) = 8"
    by (rule length_sha_blocks) (simp add: sha_init_def)
  then show ?thesis
    by (simp add: sha256_def length_concat_const [where n = 4])
qed

lemma length_sha256_hex [simp]: "length (sha256_hex s) = 64"
  by (simp add: sha256_hex_def)

section \<open>JSON\<close>

text \<open>
  A Go value as \<^verbatim>\<open>encoding/json\<close> sees it. A struct keeps the order of its fields, a
  \<^verbatim>\<open>map[string]any\<close> is encoded in the order of its keys.
\<close>

datatype json =
    JNull
  | JBool bool
  | JInt int
  | JStr string
  | JArr "json list"
  | JStruct "(string \<times> json) list"
  | JMap "(string \<times> json) list"

text \<open>String escaping of \<^verbatim>\<open>json.Marshal\<close>, bytes above ASCII passed through.\<close>

definition json_escape :: "char \<Rightarrow> string" where
  "json_escape c =
     (let n = byte c in
      if n = 34 then [CHR 0x5C, CHR 0x22] else if n = 92 then [CHR 0x5C, CHR 0x5C]
      else if n = 8 then [CHR 0x5C, CHR ''b''] else if n = 12 then [CHR 0x5C, CHR ''f'']
      else if n = 10 then [CHR 0x5C, CHR ''n''] else if n = 13 then [CHR 0x5C, CHR ''r'']
      else if n = 9 then [CHR 0x5C, CHR ''t'']
      else if n < 32 \<or> n \<in> {38, 60, 62}
      then [CHR 0x5C, CHR ''u'', CHR ''0'', CHR ''0'', hex_digit (n div 16), hex_digit (n mod 16)]
      else [c])"

definition json_string :: "string \<Rightarrow> string" where
  "json_string s = CHR 0x22 # concat (map json_escape s) @ [CHR 0x22]"

text \<open>
  Encoding of the keys first, so that sorting the members of a map happens on pairs whose
  values are already text.
\<close>

fun marshal :: "json \<Rightarrow> string" where
  "marshal JNull = ''null''"
| "marshal (JBool b) = (if b then ''true'' else ''false'')"
| "marshal (JInt i) = int_dec i"
| "marshal (JStr s) = json_string s"
| "marshal (JArr xs) = ''['' @ join '','' (map marshal xs) @ '']''"
| "marshal (JStruct kvs) =
     ''{'' @ join '','' (map (\<lambda>(k, v). json_string k @ '':'' @ v) (map (\<lambda>kv. (fst kv, marshal (snd kv))) kvs)) @ ''}''"
| "marshal (JMap kvs) =
     ''{'' @ join '','' (map (\<lambda>(k, v). json_string k @ '':'' @ v)
       (sort_key fst (map (\<lambda>kv. (fst kv, marshal (snd kv))) kvs))) @ ''}''"

text \<open>\<^verbatim>\<open>json.Unmarshal\<close> of an encoded value into \<^verbatim>\<open>any\<close>: every object becomes a map.\<close>

fun decode_any :: "json \<Rightarrow> json" where
  "decode_any (JArr xs) = JArr (map decode_any xs)"
| "decode_any (JStruct kvs) = JMap (map (\<lambda>kv. (fst kv, decode_any (snd kv))) kvs)"
| "decode_any (JMap kvs) = JMap (map (\<lambda>kv. (fst kv, decode_any (snd kv))) kvs)"
| "decode_any j = j"

section \<open>Time\<close>

definition second_ns :: int where "second_ns = 1000000000"
definition minute_ns :: int where "minute_ns = 60 * second_ns"
definition hour_ns :: int where "hour_ns = 60 * minute_ns"
definition millisecond_ns :: int where "millisecond_ns = 1000000"

lemmas duration_defs = second_ns_def minute_ns_def hour_ns_def millisecond_ns_def

definition unix_milli :: "int \<Rightarrow> int" where "unix_milli t = t div millisecond_ns"
definition of_unix_milli :: "int \<Rightarrow> int" where "of_unix_milli m = m * millisecond_ns"
definition unix_sec :: "int \<Rightarrow> int" where "unix_sec t = t div second_ns"

text \<open>The zero \<^verbatim>\<open>time.Time\<close>, 1 January of the year 1.\<close>

definition zero_time :: int where "zero_time = - 62135596800 * second_ns"

text \<open>The civil date of a day number (days since 1 January 1970).\<close>

definition civil :: "int \<Rightarrow> int \<times> int \<times> int" where
  "civil days =
     (let z = days + 719468;
          era = z div 146097;
          doe = z - era * 146097;
          yoe = (doe - doe div 1460 + doe div 36524 - doe div 146096) div 365;
          doy = doe - (365 * yoe + yoe div 4 - yoe div 100);
          mp = (5 * doy + 2) div 153;
          d = doy - (153 * mp + 2) div 5 + 1;
          m = (if mp < 10 then mp + 3 else mp - 9)
      in (yoe + era * 400 + (if m \<le> 2 then 1 else 0), m, d))"

definition two_digits :: "int \<Rightarrow> string" where "two_digits n = pad0 2 (nat n)"

fun drop_trailing_zeros :: "string \<Rightarrow> string" where
  "drop_trailing_zeros [] = []"
| "drop_trailing_zeros (c # cs) =
     (if list_all (\<lambda>d. d = CHR ''0'') (c # cs) then [] else c # drop_trailing_zeros cs)"

text \<open>\<^verbatim>\<open>t.UTC().Format(time.RFC3339)\<close> and \<^verbatim>\<open>time.RFC3339Nano\<close>.\<close>

definition rfc3339_date :: "int \<Rightarrow> string" where
  "rfc3339_date t =
     (let s = unix_sec t; (y, m, d) = civil (s div 86400); r = s mod 86400
      in pad0 4 (nat y) @ ''-'' @ two_digits m @ ''-'' @ two_digits d @ ''T'' @
         two_digits (r div 3600) @ '':'' @ two_digits (r div 60 mod 60) @ '':'' @ two_digits (r mod 60))"

definition rfc3339 :: "int \<Rightarrow> string" where
  "rfc3339 t = rfc3339_date t @ ''Z''"

definition rfc3339nano :: "int \<Rightarrow> string" where
  "rfc3339nano t =
     (let frac = drop_trailing_zeros (pad0 9 (nat (t mod second_ns)))
      in rfc3339_date t @ (if frac = [] then [] else CHR ''.'' # frac) @ ''Z'')"

lemma unix_milli_of_unix_milli [simp]: "unix_milli (of_unix_milli m) = m"
  by (simp add: unix_milli_def of_unix_milli_def millisecond_ns_def)

lemma unix_milli_mono: "s \<le> t \<Longrightarrow> unix_milli s \<le> unix_milli t"
  by (simp add: unix_milli_def millisecond_ns_def zdiv_mono1)

lemma of_unix_milli_le: "of_unix_milli (unix_milli t) \<le> t"
  unfolding unix_milli_def of_unix_milli_def millisecond_ns_def by presburger

lemma of_unix_milli_gt: "t < of_unix_milli (unix_milli t) + millisecond_ns"
  unfolding unix_milli_def of_unix_milli_def millisecond_ns_def by presburger

section \<open>Decoding\<close>

text \<open>
  \<^verbatim>\<open>encoding/json\<close> into a struct: a member is matched by its name without regard to case, the last
  one wins, \<^verbatim>\<open>null\<close> changes nothing; with \<^verbatim>\<open>DisallowUnknownFields\<close> any other member is an error.
\<close>

fun object_members :: "json \<Rightarrow> (string \<times> json) list option" where
  "object_members (JMap kvs) = Some kvs"
| "object_members (JStruct kvs) = Some kvs"
| "object_members JNull = Some []"
| "object_members _ = None"

definition member :: "string \<Rightarrow> (string \<times> json) list \<Rightarrow> json option" where
  "member k kvs = map_option snd (find (\<lambda>kv. to_lower (fst kv) = to_lower k \<and> snd kv \<noteq> JNull) (rev kvs))"

definition strict_object :: "string list \<Rightarrow> json \<Rightarrow> string + (string \<times> json) list" where
  "strict_object known j =
     (case object_members j of
        None \<Rightarrow> Inl ''cannot unmarshal into struct''
      | Some kvs \<Rightarrow>
          if list_all (\<lambda>kv. to_lower (fst kv) \<in> set (map to_lower known)) kvs then Inr kvs else Inl ''unknown field'')"

definition dec_string :: "string \<Rightarrow> (string \<times> json) list \<Rightarrow> string + string" where
  "dec_string k kvs = (case member k kvs of None \<Rightarrow> Inr [] | Some (JStr s) \<Rightarrow> Inr s | Some _ \<Rightarrow> Inl ''cannot unmarshal into string'')"

definition dec_int :: "string \<Rightarrow> (string \<times> json) list \<Rightarrow> string + int" where
  "dec_int k kvs = (case member k kvs of None \<Rightarrow> Inr 0 | Some (JInt i) \<Rightarrow> Inr i | Some _ \<Rightarrow> Inl ''cannot unmarshal into int'')"

definition dec_bool :: "string \<Rightarrow> (string \<times> json) list \<Rightarrow> string + bool" where
  "dec_bool k kvs = (case member k kvs of None \<Rightarrow> Inr False | Some (JBool b) \<Rightarrow> Inr b | Some _ \<Rightarrow> Inl ''cannot unmarshal into bool'')"

definition dec_list :: "(json \<Rightarrow> string + 'a) \<Rightarrow> string \<Rightarrow> (string \<times> json) list \<Rightarrow> string + 'a list" where
  "dec_list dec k kvs =
     (case member k kvs of
        None \<Rightarrow> Inr []
      | Some (JArr xs) \<Rightarrow> foldE (\<lambda>x acc. bindE (dec x) (\<lambda>y. Inr (acc @ [y]))) xs []
      | Some _ \<Rightarrow> Inl ''cannot unmarshal into slice'')"

text \<open>An element of a \<^verbatim>\<open>[]string\<close>.\<close>

fun dec_element :: "json \<Rightarrow> string + string" where
  "dec_element (JStr s) = Inr s"
| "dec_element JNull = Inr []"
| "dec_element _ = Inl ''cannot unmarshal into string''"

text \<open>A \<^verbatim>\<open>map[string]any\<close>: a key is matched exactly, the last one wins.\<close>

definition raw_member :: "string \<Rightarrow> (string \<times> json) list \<Rightarrow> json option" where
  "raw_member k kvs = map_option snd (find (\<lambda>kv. fst kv = k) (rev kvs))"

definition raw_string :: "string \<Rightarrow> (string \<times> json) list \<Rightarrow> string" where
  "raw_string k kvs = (case raw_member k kvs of Some (JStr s) \<Rightarrow> s | _ \<Rightarrow> [])"

end
