(* ===== verification/Store_Schema.thy ===== *)
theory Store_Schema
  imports Sql_Table Go_Encoding
begin

text \<open>
  The schema of the durable local store, \<^verbatim>\<open>internal/store/store.go\<close>: its tables as lists of
  records. The operations on it are in \<^verbatim>\<open>Store_Sessions\<close> (what is recorded about agent sessions)
  and \<^verbatim>\<open>Store_Queue\<close> (workspaces and the event queue). An operation that changes state takes
  the database and returns it changed beside its result; an error return leaves the caller
  with the database it had, which is what \<^verbatim>\<open>defer tx.Rollback()\<close> does. The time an operation
  reads with \<^verbatim>\<open>time.Now()\<close> is its argument \<open>now\<close>.

  Errors of the driver itself (a closed file, a cancelled context) are not modelled; the errors
  that the statements raise on the data are: no row, a violated PRIMARY KEY or UNIQUE
  constraint, and the messages the source composes.
\<close>

section \<open>Rows and values\<close>

datatype store_error = ErrNoRows | ErrConstraint | ErrText string

type_synonym 'a result = "store_error + 'a"

text \<open>\<^verbatim>\<open>store.Workspace\<close>, and the row of table \<^verbatim>\<open>workspaces\<close> that extends it.\<close>

record workspace =
  w_id :: string
  w_project_id :: string
  w_workstream_id :: string
  w_member_id :: string
  w_device_id :: string
  w_session_id :: string
  w_root :: string
  w_baseline :: string
  w_fingerprint :: string
  w_backend_id :: string
  w_paused :: bool
  w_revision :: int

record workspace_row = workspace +
  w_registration_enqueued :: bool
  w_sequence :: int
  w_intent_revision :: int

text \<open>\<^verbatim>\<open>eventEnvelope\<close>: the JSON document of one queued event.\<close>

record event_envelope =
  env_schema_version :: int
  env_event_id :: string
  env_project_id :: string
  env_member_id :: string
  env_device_id :: string
  env_workspace_id :: string
  env_session_id :: string
  env_sequence :: int
  env_observed_at :: int
  env_sent_at :: int
  env_source :: string
  env_type :: string
  env_payload :: json

text \<open>
  The bytes of column \<^verbatim>\<open>payload\<close>: the encoding of an envelope, or bytes that are not valid JSON.
\<close>

datatype blob = Envelope event_envelope | Malformed string

fun json_valid :: "blob \<Rightarrow> bool" where
  "json_valid (Envelope e) = True"
| "json_valid (Malformed b) = False"

record event_row =
  e_id :: string
  e_workspace_id :: string
  e_sequence :: int
  e_kind :: string
  e_payload :: blob
  e_created_at :: int
  e_acked_at :: "int option"
  e_quarantined_at :: "int option"

text \<open>\<^verbatim>\<open>store.QueueEvent\<close>.\<close>

record queue_event =
  q_id :: string
  q_workspace_id :: string
  q_kind :: string
  q_sequence :: int
  q_payload :: blob

record project_row =
  p_id :: string
  p_backend_id :: string

record workstream_row =
  s_id :: string
  s_project_id :: string
  s_workspace_id :: string
  s_baseline :: string
  s_status :: string

record manifest_row =
  m_workspace_id :: string
  m_revision :: int
  m_manifest_id :: string
  m_workstream_id :: string
  m_baseline_ref :: string
  m_head_ref :: string
  m_content_hash :: string
  m_path_count :: nat
  m_entries :: "json list"
  m_active :: bool

record cursor_row =
  c_workspace_id :: string
  c_last_acked_sequence :: int

record idempotency_row =
  i_workspace_id :: string
  i_method :: string
  i_key :: string
  i_request_hash :: string
  i_response_revision :: int
  i_created_at :: int

record observation_row =
  o_workspace_id :: string
  o_vendor :: string
  o_last_observed_at :: int

text \<open>\<^verbatim>\<open>store.AgentSession\<close>; the row keeps milliseconds.\<close>

record agent_session =
  a_workspace_id :: string
  a_vendor :: string
  a_workstream_id :: string
  a_cwd :: string
  a_status :: string
  a_observed_at :: int

record fingerprint_row =
  f_workspace_id :: string
  f_path :: string
  f_hash :: string
  f_observed_at :: int

text \<open>\<^verbatim>\<open>store.ReadSetEntry\<close> and its row.\<close>

record read_entry =
  r_path :: string
  r_hash :: string
  r_observed_at :: string
  r_fidelity :: string

record read_row = read_entry +
  r_workspace_id :: string
  r_session_workstream_id :: string

record injection_item =
  ii_id :: string
  ii_revision :: int

record delivery_row =
  d_session_key :: string
  d_item :: injection_item
  d_delivered_at :: int

record focus_row =
  fo_session_key :: string
  fo_until :: int
  fo_created_at :: int

record db =
  projects :: "project_row list"
  workspaces :: "workspace_row list"
  workstreams :: "workstream_row list"
  manifests :: "manifest_row list"
  event_queue :: "event_row list"
  cursors :: "cursor_row list"
  boot_count :: int
  idempotency_keys :: "idempotency_row list"
  agent_observations :: "observation_row list"
  agent_sessions :: "agent_session list"
  contract_fingerprints :: "fingerprint_row list"
  session_read_sets :: "read_row list"
  injection_deliveries :: "delivery_row list"
  session_focus :: "focus_row list"

text \<open>The database \<^verbatim>\<open>Open\<close> creates.\<close>

definition empty_db :: db where
  "empty_db = \<lparr>projects = [], workspaces = [], workstreams = [], manifests = [], event_queue = [],
     cursors = [], boot_count = 0, idempotency_keys = [], agent_observations = [], agent_sessions = [],
     contract_fingerprints = [], session_read_sets = [], injection_deliveries = [], session_focus = []\<rparr>"

end
