(* ===== verification/Store_Sessions.thy ===== *)
theory Store_Sessions
  imports Store_Schema
begin

text \<open>
  The part of \<^verbatim>\<open>internal/store/store.go\<close> that records what is known of agent sessions on this
  device: which corrections a session was given (\<^verbatim>\<open>injection_deliveries\<close>), when a vendor and a
  session were last observed, the contract fingerprints and read sets that publishing is
  proportional to, and the focus that keeps corrections out of a session for a bounded time.
  The lemmas show exactly-once delivery of an item revision, that the record of a path never
  loses fidelity, that only drift is reported, and that every focus expires.
\<close>

section \<open>Injection deliveries\<close>

abbreviation delivery_key :: "delivery_row \<Rightarrow> string \<times> injection_item" where
  "delivery_key d \<equiv> (d_session_key d, d_item d)"

definition invalid_item :: "injection_item \<Rightarrow> bool" where
  "invalid_item i \<longleftrightarrow> ii_id i = [] \<or> ii_revision i < 1"

fun claim_items :: "string \<Rightarrow> int \<Rightarrow> injection_item list \<Rightarrow> injection_item list \<Rightarrow> delivery_row list
    \<Rightarrow> (injection_item list \<times> delivery_row list) result" where
  "claim_items key at [] claimed rows = Inr (claimed, rows)"
| "claim_items key at (item # items) claimed rows =
     (if invalid_item item then Inl (ErrText ''injection delivery item identity is invalid'')
      else let (rows', inserted) = t_insert_ignore delivery_key
                 \<lparr>d_session_key = key, d_item = item, d_delivered_at = unix_milli at\<rparr> rows
           in claim_items key at items (if inserted = 1 then claimed @ [item] else claimed) rows')"

definition ClaimInjectionDeliveries ::
    "string \<Rightarrow> injection_item list \<Rightarrow> int \<Rightarrow> db \<Rightarrow> (injection_item list \<times> db) result" where
  "ClaimInjectionDeliveries key items at d =
     (if key = [] then Inl (ErrText ''injection delivery session key is required'')
      else bindE (claim_items key at items [] (injection_deliveries d))
        (\<lambda>(claimed, rows). Inr (claimed, d\<lparr>injection_deliveries := rows\<rparr>)))"

fun undelivered_items :: "string \<Rightarrow> delivery_row list \<Rightarrow> injection_item list \<Rightarrow> injection_item list
    \<Rightarrow> injection_item list result" where
  "undelivered_items key rows [] pending = Inr pending"
| "undelivered_items key rows (item # items) pending =
     (if invalid_item item then Inl (ErrText ''injection delivery item identity is invalid'')
      else undelivered_items key rows items
        (if t_get delivery_key (key, item) rows = None then pending @ [item] else pending))"

definition UndeliveredInjectionItems ::
    "string \<Rightarrow> injection_item list \<Rightarrow> db \<Rightarrow> injection_item list result" where
  "UndeliveredInjectionItems key items d =
     (if key = [] then Inl (ErrText ''injection delivery session key is required'')
      else undelivered_items key (injection_deliveries d) items [])"

section \<open>Agent observations and sessions\<close>

abbreviation observation_key :: "observation_row \<Rightarrow> string \<times> string" where
  "observation_key r \<equiv> (o_workspace_id r, o_vendor r)"

definition merge_observation :: "observation_row \<Rightarrow> observation_row \<Rightarrow> observation_row" where
  "merge_observation old new = old\<lparr>o_last_observed_at := o_last_observed_at new\<rparr>"

definition RecordAgentObservation :: "string \<Rightarrow> string \<Rightarrow> int \<Rightarrow> db \<Rightarrow> db result" where
  "RecordAgentObservation ws vendor at d =
     (if ws = [] \<or> vendor \<noteq> ''codex'' \<and> vendor \<noteq> ''claude'' \<and> vendor \<noteq> ''cursor''
      then Inl (ErrText ''agent observation workspace and supported vendor are required'')
      else Inr (d\<lparr>agent_observations := t_upsert observation_key merge_observation
        \<lparr>o_workspace_id = ws, o_vendor = vendor, o_last_observed_at = unix_milli at\<rparr>
        (agent_observations d)\<rparr>))"

definition AgentObserved :: "string \<Rightarrow> string \<Rightarrow> db \<Rightarrow> int \<times> bool" where
  "AgentObserved ws vendor d =
     (case t_get observation_key (ws, vendor) (agent_observations d) of
        None \<Rightarrow> (zero_time, False)
      | Some r \<Rightarrow> (of_unix_milli (o_last_observed_at r), True))"

definition ClearAgentObservation :: "string \<Rightarrow> string \<Rightarrow> db \<Rightarrow> db" where
  "ClearAgentObservation ws vendor d =
     d\<lparr>agent_observations := t_delete (\<lambda>r. o_workspace_id r = ws \<and> o_vendor r = vendor) (agent_observations d)\<rparr>"

abbreviation session_key :: "agent_session \<Rightarrow> string \<times> string" where
  "session_key r \<equiv> (a_vendor r, a_workstream_id r)"

definition merge_session :: "agent_session \<Rightarrow> agent_session \<Rightarrow> agent_session" where
  "merge_session old new = old\<lparr>a_workspace_id := a_workspace_id new, a_cwd := a_cwd new,
     a_status := a_status new, a_observed_at := a_observed_at new\<rparr>"

definition session_statuses :: "string list" where
  "session_statuses = [''active'', ''idle'', ''waiting'', ''error'', ''done'']"

definition RecordAgentSession :: "agent_session \<Rightarrow> db \<Rightarrow> db result" where
  "RecordAgentSession s d =
     (if a_workspace_id s = [] \<or> a_workstream_id s = [] \<or> a_cwd s = [] \<or> a_observed_at s = zero_time
      then Inl (ErrText ''agent session identity and observation time are required'')
      else if a_vendor s \<noteq> ''codex'' \<and> a_vendor s \<noteq> ''claude''
      then Inl (ErrText ''agent session vendor is unsupported'')
      else if a_status s \<notin> set session_statuses
      then Inl (ErrText ''agent session status is unsupported'')
      else Inr (d\<lparr>agent_sessions := t_upsert session_key merge_session
        (s\<lparr>a_observed_at := unix_milli (a_observed_at s)\<rparr>) (agent_sessions d)\<rparr>))"

definition scan_session :: "agent_session \<Rightarrow> agent_session" where
  "scan_session r = r\<lparr>a_observed_at := of_unix_milli (a_observed_at r)\<rparr>"

definition ActiveAgentSessions ::
    "string \<Rightarrow> string \<Rightarrow> string \<Rightarrow> int \<Rightarrow> db \<Rightarrow> agent_session list result" where
  "ActiveAgentSessions ws vendor cwd active_after d =
     (if ws = [] \<or> cwd = [] \<or> active_after = zero_time \<or> vendor \<noteq> ''codex'' \<and> vendor \<noteq> ''claude''
      then Inl (ErrText ''active agent session query is invalid'')
      else Inr (map scan_session (sort_key a_workstream_id
        (filter (\<lambda>r. a_workspace_id r = ws \<and> a_vendor r = vendor \<and> a_cwd r = cwd \<and>
            a_status r \<noteq> ''done'' \<and> unix_milli active_after \<le> a_observed_at r)
          (agent_sessions d)))))"

definition RecentAgentSessions :: "string \<Rightarrow> int \<Rightarrow> db \<Rightarrow> agent_session list result" where
  "RecentAgentSessions ws active_after d =
     (if ws = [] \<or> active_after = zero_time
      then Inl (ErrText ''recent agent session query is invalid'')
      else Inr (map scan_session (sort_key (\<lambda>r. (a_status r, a_vendor r, a_workstream_id r))
        (filter (\<lambda>r. a_workspace_id r = ws \<and> a_status r \<noteq> ''done'' \<and> unix_milli active_after \<le> a_observed_at r)
          (agent_sessions d)))))"

section \<open>Contract fingerprints and read sets\<close>

definition ReadFidelityRank :: "string \<Rightarrow> nat" where
  "ReadFidelityRank fidelity =
     (if fidelity = ''observed'' then 3
      else if fidelity = ''vendor_inferred'' then 2
      else if fidelity = ''self_declared'' then 1 else 0)"

abbreviation fingerprint_key :: "fingerprint_row \<Rightarrow> string \<times> string" where
  "fingerprint_key r \<equiv> (f_workspace_id r, f_path r)"

definition merge_fingerprint :: "fingerprint_row \<Rightarrow> fingerprint_row \<Rightarrow> fingerprint_row" where
  "merge_fingerprint old new = old\<lparr>f_hash := f_hash new, f_observed_at := f_observed_at new\<rparr>"

text \<open>\<^verbatim>\<open>SELECT file_contract_hash FROM contract_fingerprints WHERE workspace_id=? AND path=?\<close>.\<close>

definition stored_hash :: "string \<Rightarrow> string \<Rightarrow> fingerprint_row list \<Rightarrow> string option" where
  "stored_hash ws path rows = map_option f_hash (t_get fingerprint_key (ws, path) rows)"

text \<open>\<^verbatim>\<open>observed[path]\<close>: a missing key of a Go map reads as the empty string.\<close>

definition observed_hash :: "(string \<rightharpoonup> string) \<Rightarrow> string \<Rightarrow> string" where
  "observed_hash observed path = (case observed path of Some h \<Rightarrow> h | None \<Rightarrow> [])"

text \<open>The Go map \<open>observed\<close> is an association list; its keys are visited in sorted order.\<close>

fun changed_fingerprints :: "string \<Rightarrow> (string \<rightharpoonup> string) \<Rightarrow> int \<Rightarrow> string list \<Rightarrow> string list
    \<Rightarrow> fingerprint_row list \<Rightarrow> string list \<times> fingerprint_row list" where
  "changed_fingerprints ws observed at [] changed rows = (changed, rows)"
| "changed_fingerprints ws observed at (path # paths) changed rows =
     (let hash = observed_hash observed path in
      if stored_hash ws path rows = Some hash
      then changed_fingerprints ws observed at paths changed rows
      else changed_fingerprints ws observed at paths (changed @ [path])
        (t_upsert fingerprint_key merge_fingerprint
          \<lparr>f_workspace_id = ws, f_path = path, f_hash = hash, f_observed_at = unix_milli at\<rparr> rows))"

definition ChangedFingerprints ::
    "string \<Rightarrow> (string \<times> string) list \<Rightarrow> int \<Rightarrow> db \<Rightarrow> (string list \<times> db) result" where
  "ChangedFingerprints ws observed at d =
     (if ws = [] then Inl (ErrText ''contract fingerprint workspace is required'')
      else if observed = [] then Inr ([], d)
      else let (changed, rows) = changed_fingerprints ws (map_of observed) at
                 (sort (remdups (map fst observed))) [] (contract_fingerprints d)
           in Inr (changed, d\<lparr>contract_fingerprints := rows\<rparr>))"

definition FingerprintHash :: "string \<Rightarrow> string \<Rightarrow> db \<Rightarrow> string option" where
  "FingerprintHash ws path d = stored_hash ws path (contract_fingerprints d)"

abbreviation read_key :: "read_row \<Rightarrow> string \<times> string \<times> string" where
  "read_key r \<equiv> (r_workspace_id r, r_session_workstream_id r, r_path r)"

definition merge_read :: "read_row \<Rightarrow> read_row \<Rightarrow> read_row" where
  "merge_read old new = old\<lparr>r_hash := r_hash new, r_observed_at := r_observed_at new, r_fidelity := r_fidelity new\<rparr>"

definition read_row_of :: "string \<Rightarrow> string \<Rightarrow> read_entry \<Rightarrow> read_row" where
  "read_row_of ws stream entry = read_entry.extend entry
     \<lparr>r_workspace_id = ws, r_session_workstream_id = stream\<rparr>"

text \<open>The fidelity that is written: the stronger of the stored one and the observed one.\<close>

definition kept_fidelity :: "read_row option \<Rightarrow> string \<Rightarrow> string" where
  "kept_fidelity stored fidelity =
     (case stored of
        Some r \<Rightarrow> if ReadFidelityRank fidelity < ReadFidelityRank (r_fidelity r) then r_fidelity r else fidelity
      | None \<Rightarrow> fidelity)"

fun changed_reads :: "string \<Rightarrow> string \<Rightarrow> read_entry list \<Rightarrow> string set \<Rightarrow> read_entry list
    \<Rightarrow> read_row list \<Rightarrow> read_entry list \<times> read_row list" where
  "changed_reads ws stream [] seen changed rows = (changed, rows)"
| "changed_reads ws stream (entry # entries) seen changed rows =
     (if r_path entry = [] \<or> r_hash entry = [] \<or> r_path entry \<in> seen
      then changed_reads ws stream entries seen changed rows
      else let stored = t_get read_key (ws, stream, r_path entry) rows;
               entry' = entry\<lparr>r_fidelity := kept_fidelity stored (r_fidelity entry)\<rparr>;
               unchanged = (case stored of None \<Rightarrow> False
                 | Some r \<Rightarrow> r_hash r = r_hash entry' \<and> r_fidelity r = r_fidelity entry');
               rows' = t_upsert read_key merge_read (read_row_of ws stream entry') rows
           in changed_reads ws stream entries (insert (r_path entry) seen)
                (if unchanged then changed else changed @ [entry']) rows')"

definition ChangedReadSet ::
    "string \<Rightarrow> string \<Rightarrow> read_entry list \<Rightarrow> db \<Rightarrow> (read_entry list \<times> db) result" where
  "ChangedReadSet ws stream entries d =
     (if ws = [] \<or> stream = []
      then Inl (ErrText ''read set workspace and session workstream are required'')
      else if entries = [] then Inr ([], d)
      else let (changed, rows) = changed_reads ws stream entries {} [] (session_read_sets d)
           in Inr (changed, d\<lparr>session_read_sets := rows\<rparr>))"

section \<open>Focus\<close>

definition DefaultFocus :: int where "DefaultFocus = hour_ns"
definition MaxFocus :: int where "MaxFocus = 8 * hour_ns"

definition merge_focus :: "focus_row \<Rightarrow> focus_row \<Rightarrow> focus_row" where
  "merge_focus old new = old\<lparr>fo_until := fo_until new\<rparr>"

definition focus_duration :: "int \<Rightarrow> int" where
  "focus_duration d = (let d' = (if d \<le> 0 then DefaultFocus else d) in if MaxFocus < d' then MaxFocus else d')"

definition SetFocus :: "string \<Rightarrow> int \<Rightarrow> int \<Rightarrow> db \<Rightarrow> (int \<times> db) result" where
  "SetFocus key now duration d =
     (if key = [] then Inl (ErrText ''session id required'')
      else let until = now + focus_duration duration
           in Inr (until, d\<lparr>session_focus := t_upsert fo_session_key merge_focus
                \<lparr>fo_session_key = key, fo_until = unix_milli until, fo_created_at = unix_milli now\<rparr>
                (session_focus d)\<rparr>))"

definition ClearFocus :: "string \<Rightarrow> db \<Rightarrow> db" where
  "ClearFocus key d = d\<lparr>session_focus := t_delete (\<lambda>r. fo_session_key r = key) (session_focus d)\<rparr>"

definition ClearAllFocus :: "db \<Rightarrow> nat \<times> db" where
  "ClearAllFocus d = (length (session_focus d), d\<lparr>session_focus := []\<rparr>)"

definition FocusedUntil :: "string \<Rightarrow> int \<Rightarrow> db \<Rightarrow> int \<times> bool" where
  "FocusedUntil key now d =
     (if key = [] then (zero_time, False)
      else case t_get fo_session_key key (session_focus d) of
        None \<Rightarrow> (zero_time, False)
      | Some r \<Rightarrow> if now < of_unix_milli (fo_until r) then (of_unix_milli (fo_until r), True) else (zero_time, False))"

text \<open>\<^verbatim>\<open>store.Focus\<close> is the pair of a session key and its deadline.\<close>

definition ActiveFocus :: "int \<Rightarrow> db \<Rightarrow> (string \<times> int) list \<times> db" where
  "ActiveFocus now d =
     (let rows = t_delete (\<lambda>r. fo_until r \<le> unix_milli now) (session_focus d)
      in (map (\<lambda>r. (fo_session_key r, of_unix_milli (fo_until r))) (sort_key fo_session_key rows),
          d\<lparr>session_focus := rows\<rparr>))"

section \<open>The upserts keep their keys\<close>

interpretation obs_tab: upsert_table observation_key merge_observation
  by unfold_locales (simp add: merge_observation_def)

interpretation ses_tab: upsert_table session_key merge_session
  by unfold_locales (simp add: merge_session_def)

interpretation fin_tab: upsert_table fingerprint_key merge_fingerprint
  by unfold_locales (simp add: merge_fingerprint_def)

interpretation read_tab: upsert_table read_key merge_read
  by unfold_locales (simp add: merge_read_def)

interpretation foc_tab: upsert_table fo_session_key merge_focus
  by unfold_locales (simp add: merge_focus_def)

section \<open>Exactly-once claims\<close>

text \<open>What a session has been given, as a set.\<close>

definition delivered :: "db \<Rightarrow> (string \<times> injection_item) set" where
  "delivered d = delivery_key ` set (injection_deliveries d)"

text \<open>
  Any sequence of claims, by any number of hook processes: the pairs of a session and an item
  that were handed out, in order. A claim that fails hands out nothing.
\<close>

fun claim_run :: "(string \<times> injection_item list \<times> int) list \<Rightarrow> db \<Rightarrow> (string \<times> injection_item) list \<times> db" where
  "claim_run [] d = ([], d)"
| "claim_run ((key, items, at) # calls) d =
     (case ClaimInjectionDeliveries key items at d of
        Inl e \<Rightarrow> claim_run calls d
      | Inr (claimed, d') \<Rightarrow>
          (let (rest, d'') = claim_run calls d' in (map (Pair key) claimed @ rest, d'')))"

lemma claim_items_spec:
  assumes "claim_items key at items claimed rows = Inr (c, rows')"
  shows "\<exists>new. c = claimed @ new \<and> distinct new
      \<and> set new = {i \<in> set items. (key, i) \<notin> delivery_key ` set rows}
      \<and> delivery_key ` set rows' = delivery_key ` set rows \<union> Pair key ` set items
      \<and> list_all (\<lambda>i. \<not> invalid_item i) items"
  using assms
proof (induction key at items claimed rows rule: claim_items.induct)
  case (1 key at claimed rows)
  then show ?case by simp
next
  case (2 key at item items claimed rows)
  then have valid: "\<not> invalid_item item" by (auto split: if_splits)
  let ?row = "\<lparr>d_session_key = key, d_item = item, d_delivered_at = unix_milli at\<rparr>"
  show ?case
  proof (cases "(key, item) \<in> delivery_key ` set rows")
    case True
    with 2 valid show ?thesis
      by (fastforce simp: t_insert_ignore_def Let_def)
  next
    case False
    with 2 valid obtain new where
      "c = (claimed @ [item]) @ new" "distinct new"
      "set new = {i \<in> set items. (key, i) \<notin> delivery_key ` set (rows @ [?row])}"
      "delivery_key ` set rows' = delivery_key ` set (rows @ [?row]) \<union> Pair key ` set items"
      "list_all (\<lambda>i. \<not> invalid_item i) items"
      by (fastforce simp: t_insert_ignore_def Let_def)
    with False valid show ?thesis
      by (intro exI [of _ "item # new"]) auto
  qed
qed

lemma claim_spec:
  assumes "ClaimInjectionDeliveries key items at d = Inr (claimed, d')"
  shows "distinct claimed" and "set claimed = {i \<in> set items. (key, i) \<notin> delivered d}"
    and "delivered d' = delivered d \<union> Pair key ` set items"
    and "d' = d\<lparr>injection_deliveries := injection_deliveries d'\<rparr>"
proof -
  from assms obtain rows where c: "claim_items key at items [] (injection_deliveries d) = Inr (claimed, rows)"
    and d': "d' = d\<lparr>injection_deliveries := rows\<rparr>"
    by (auto simp: ClaimInjectionDeliveries_def split: if_splits)
  from claim_items_spec [OF c] show "distinct claimed"
    and "set claimed = {i \<in> set items. (key, i) \<notin> delivered d}"
    and "delivered d' = delivered d \<union> Pair key ` set items"
    by (simp_all add: delivered_def d')
  show "d' = d\<lparr>injection_deliveries := injection_deliveries d'\<rparr>" by (simp add: d')
qed

lemma claim_run_fresh:
  "claim_run calls d = (given, d') \<Longrightarrow>
     distinct given \<and> set given \<inter> delivered d = {} \<and> delivered d \<union> set given \<subseteq> delivered d'"
proof (induction calls arbitrary: d given)
  case Nil
  then show ?case by simp
next
  case (Cons call calls)
  obtain key items at where call: "call = (key, items, at)" by (cases call)
  show ?case
  proof (cases "ClaimInjectionDeliveries key items at d")
    case (Inl e)
    with Cons call show ?thesis by simp
  next
    case (Inr r)
    obtain claimed d1 where r: "r = (claimed, d1)" by (cases r)
    obtain rest where run: "claim_run calls d1 = (rest, d')"
      using Cons.prems call Inr r by (auto split: prod.splits)
    note spec = claim_spec [OF Inr [unfolded r]]
    have given: "given = map (Pair key) claimed @ rest"
      using Cons.prems call Inr r run by simp
    have new: "set (map (Pair key) claimed) = Pair key ` set items - delivered d"
      using spec(2) by auto
    have "distinct (map (Pair key) claimed)"
      using spec(1) by (simp add: distinct_map inj_on_def)
    with Cons.IH [OF run] show ?thesis
      unfolding given spec(3) distinct_append set_append new by blast
  qed
qed

lemma undelivered_items_spec:
  "undelivered_items key rows items pending = Inr u \<Longrightarrow>
     u = pending @ filter (\<lambda>i. (key, i) \<notin> delivery_key ` set rows) items \<and> list_all (\<lambda>i. \<not> invalid_item i) items"
proof (induction items arbitrary: pending)
  case (Cons item items)
  then show ?case
    by (cases "(key, item) \<in> delivery_key ` set rows") (force simp: t_get_None split: if_splits)+
qed simp

section \<open>Read sets keep the strongest evidence\<close>

definition stored_read :: "string \<Rightarrow> string \<Rightarrow> string \<Rightarrow> db \<Rightarrow> read_row option" where
  "stored_read ws stream path d = t_get read_key (ws, stream, path) (session_read_sets d)"

definition fidelity_rank :: "read_row option \<Rightarrow> nat" where
  "fidelity_rank r = (case r of None \<Rightarrow> 0 | Some x \<Rightarrow> ReadFidelityRank (r_fidelity x))"

lemma read_row_of_sel [simp]:
  "r_path (read_row_of ws stream e) = r_path e" "r_hash (read_row_of ws stream e) = r_hash e"
  "r_fidelity (read_row_of ws stream e) = r_fidelity e"
  "r_observed_at (read_row_of ws stream e) = r_observed_at e"
  "r_workspace_id (read_row_of ws stream e) = ws" "r_session_workstream_id (read_row_of ws stream e) = stream"
  by (simp_all add: read_row_of_def read_entry.defs)

lemma merge_read_sel [simp]:
  "r_fidelity (merge_read old new) = r_fidelity new" "r_hash (merge_read old new) = r_hash new"
  "r_observed_at (merge_read old new) = r_observed_at new"
  by (simp_all add: merge_read_def)

lemma kept_fidelity_rank:
  "ReadFidelityRank (kept_fidelity stored f) = max (fidelity_rank stored) (ReadFidelityRank f)"
  by (auto simp: kept_fidelity_def fidelity_rank_def split: option.splits)

text \<open>One write: the rank of the written path is the maximum, every other path is untouched.\<close>

lemma upsert_read_rank:
  assumes "r_fidelity e' = kept_fidelity (t_get read_key (ws, stream, r_path e') rows) f"
  shows "fidelity_rank (t_get read_key k (t_upsert read_key merge_read (read_row_of ws stream e') rows)) =
    (if k = (ws, stream, r_path e') then max (fidelity_rank (t_get read_key k rows)) (ReadFidelityRank f)
     else fidelity_rank (t_get read_key k rows))"
  using kept_fidelity_rank [of "t_get read_key (ws, stream, r_path e') rows" f] assms
  by (auto simp: read_tab.get_upsert fidelity_rank_def split: option.splits)

lemma changed_reads_rank_mono:
  "changed_reads ws stream entries seen changed rows = (c, rows') \<Longrightarrow>
     fidelity_rank (t_get read_key k rows) \<le> fidelity_rank (t_get read_key k rows')"
proof (induction ws stream entries seen changed rows rule: changed_reads.induct)
  case (1 ws stream seen changed rows)
  then show ?case by simp
next
  case (2 ws stream entry entries seen changed rows)
  show ?case
  proof (cases "r_path entry = [] \<or> r_hash entry = [] \<or> r_path entry \<in> seen")
    case True
    with 2 show ?thesis by simp
  next
    case False
    let ?e = "entry\<lparr>r_fidelity := kept_fidelity (t_get read_key (ws, stream, r_path entry) rows) (r_fidelity entry)\<rparr>"
    let ?rows = "t_upsert read_key merge_read (read_row_of ws stream ?e) rows"
    have "fidelity_rank (t_get read_key k rows) \<le> fidelity_rank (t_get read_key k ?rows)"
      by (subst upsert_read_rank [where f = "r_fidelity entry"]) auto
    also have "\<dots> \<le> fidelity_rank (t_get read_key k rows')"
      using 2(2) [OF False refl refl refl refl] 2(3) False by (simp add: Let_def)
    finally show ?thesis .
  qed
qed

lemma changed_reads_keyed:
  "changed_reads ws stream entries seen changed rows = (c, rows') \<Longrightarrow> keyed read_key rows \<Longrightarrow> keyed read_key rows'"
  by (induction ws stream entries seen changed rows rule: changed_reads.induct)
    (auto simp: Let_def read_tab.keyed_upsert split: if_splits)

section \<open>Only drift is reported\<close>

lemma stored_hash_upsert:
  "stored_hash ws' path' (t_upsert fingerprint_key merge_fingerprint
      \<lparr>f_workspace_id = ws, f_path = path, f_hash = hash, f_observed_at = t\<rparr> rows) =
   (if ws' = ws \<and> path' = path then Some hash else stored_hash ws' path' rows)"
  by (auto simp: stored_hash_def fin_tab.get_upsert merge_fingerprint_def split: option.splits)

lemma changed_fingerprints_changed:
  assumes "changed_fingerprints ws observed at paths changed rows = (c, rows')" and "distinct paths"
  shows "c = changed @ filter (\<lambda>p. stored_hash ws p rows \<noteq> Some (observed_hash observed p)) paths"
  using assms
proof (induction paths arbitrary: changed rows)
  case (Cons path paths)
  let ?rows = "t_upsert fingerprint_key merge_fingerprint \<lparr>f_workspace_id = ws, f_path = path,
      f_hash = observed_hash observed path, f_observed_at = unix_milli at\<rparr> rows"
  have "filter (\<lambda>p. stored_hash ws p ?rows \<noteq> Some (observed_hash observed p)) paths =
        filter (\<lambda>p. stored_hash ws p rows \<noteq> Some (observed_hash observed p)) paths"
    using Cons.prems(2) by (intro filter_cong refl) (auto simp: stored_hash_upsert)
  with Cons.IH [of changed rows] Cons.IH [of "changed @ [path]" ?rows] Cons.prems show ?case
    by (auto split: if_splits)
qed simp

lemma changed_fingerprints_stored:
  assumes "changed_fingerprints ws observed at paths changed rows = (c, rows')"
  shows "stored_hash ws' p rows' =
    (if ws' = ws \<and> p \<in> set paths then Some (observed_hash observed p) else stored_hash ws' p rows)"
  using assms
proof (induction paths arbitrary: changed rows)
  case (Cons path paths)
  show ?case
  proof (cases "stored_hash ws path rows = Some (observed_hash observed path)")
    case True
    with Cons.prems have "changed_fingerprints ws observed at paths changed rows = (c, rows')"
      by simp
    from Cons.IH [OF this] True show ?thesis by auto
  next
    case False
    then show ?thesis
      using Cons.prems Cons.IH by (auto simp: stored_hash_upsert)
  qed
qed simp

lemma changed_fingerprints_call:
  assumes "ChangedFingerprints ws observed at d = Inr (changed, d')" and "observed \<noteq> []"
  obtains rows where "changed_fingerprints ws (map_of observed) at (sort (remdups (map fst observed))) []
      (contract_fingerprints d) = (changed, rows)"
    and "d' = d\<lparr>contract_fingerprints := rows\<rparr>" and "ws \<noteq> []"
  using assms by (auto simp: ChangedFingerprints_def split: if_splits prod.splits)

lemma ChangedFingerprints_total: "ws \<noteq> [] \<Longrightarrow> \<exists>changed d'. ChangedFingerprints ws observed at d = Inr (changed, d')"
  by (auto simp: ChangedFingerprints_def split: prod.split)

section \<open>Focus\<close>

lemma focus_duration_bounds: "0 < focus_duration d" "focus_duration d \<le> MaxFocus"
  by (auto simp: focus_duration_def DefaultFocus_def MaxFocus_def duration_defs Let_def)

lemma milli_after: "now < of_unix_milli u \<longleftrightarrow> \<not> u \<le> unix_milli now"
  unfolding of_unix_milli_def unix_milli_def millisecond_ns_def by (auto simp: not_le)

lemma FocusedUntil_iff:
  "FocusedUntil key now d = (u, True) \<longleftrightarrow>
     key \<noteq> [] \<and> (\<exists>r. t_get fo_session_key key (session_focus d) = Some r \<and> u = of_unix_milli (fo_until r) \<and> now < u)"
  by (auto simp: FocusedUntil_def split: option.splits if_splits)

lemma SetFocus_spec:
  assumes "SetFocus key now duration d = Inr (until, d')"
  shows "until = now + focus_duration duration" and "key \<noteq> []"
    and "map_option fo_until (t_get fo_session_key key (session_focus d')) = Some (unix_milli until)"
    and "k \<noteq> key \<Longrightarrow> t_get fo_session_key k (session_focus d') = t_get fo_session_key k (session_focus d)"
    and "keyed fo_session_key (session_focus d) \<Longrightarrow> keyed fo_session_key (session_focus d')"
  using assms
  by (auto simp: SetFocus_def Let_def foc_tab.get_upsert foc_tab.keyed_upsert merge_focus_def
      split: if_splits option.splits)

text \<open>The rows of \<^verbatim>\<open>session_focus\<close>: one per session, none for the empty key.\<close>

definition focus_ok :: "db \<Rightarrow> bool" where
  "focus_ok d \<longleftrightarrow> keyed fo_session_key (session_focus d) \<and> (\<forall>r \<in> set (session_focus d). fo_session_key r \<noteq> [])"

lemma SetFocus_focus_ok: "SetFocus key now duration d = Inr (until, d') \<Longrightarrow> focus_ok d \<Longrightarrow> focus_ok d'"
  by (auto simp: focus_ok_def SetFocus_def Let_def foc_tab.keyed_upsert split: if_splits)
    (metis foc_tab.set_upsert_other focus_row.select_convs(1))

lemma claim_items_total:
  "list_all (\<lambda>i. \<not> invalid_item i) items \<Longrightarrow> \<exists>c rows'. claim_items key at items claimed rows = Inr (c, rows')"
  by (induction items arbitrary: claimed rows) (auto split: prod.splits)

text \<open>The first entry of a batch that counts for a path.\<close>

definition first_read :: "string \<Rightarrow> read_entry list \<Rightarrow> read_entry option" where
  "first_read path entries = find (\<lambda>e. r_path e = path \<and> r_path e \<noteq> [] \<and> r_hash e \<noteq> []) entries"

lemma changed_reads_outcome:
  assumes "changed_reads ws stream entries seen changed rows = (c, rows')"
  shows "map_option (\<lambda>r. (r_hash r, r_fidelity r)) (t_get read_key (ws, stream, path) rows') =
    (case (if path \<in> seen then None else first_read path entries) of
       None \<Rightarrow> map_option (\<lambda>r. (r_hash r, r_fidelity r)) (t_get read_key (ws, stream, path) rows)
     | Some e \<Rightarrow> Some (r_hash e, kept_fidelity (t_get read_key (ws, stream, path) rows) (r_fidelity e)))"
  using assms
proof (induction ws stream entries seen changed rows rule: changed_reads.induct)
  case (1 ws stream seen changed rows)
  then show ?case by (simp add: first_read_def)
next
  case (2 ws stream entry entries seen changed rows)
  show ?case
  proof (cases "r_path entry = [] \<or> r_hash entry = [] \<or> r_path entry \<in> seen")
    case True
    with 2(1) [OF True] 2(3) show ?thesis by (auto simp: first_read_def)
  next
    case False
    let ?e = "entry\<lparr>r_fidelity := kept_fidelity (t_get read_key (ws, stream, r_path entry) rows) (r_fidelity entry)\<rparr>"
    let ?rows = "t_upsert read_key merge_read (read_row_of ws stream ?e) rows"
    have rec: "map_option (\<lambda>r. (r_hash r, r_fidelity r)) (t_get read_key (ws, stream, path) rows') =
      (case (if path \<in> insert (r_path entry) seen then None else first_read path entries) of
         None \<Rightarrow> map_option (\<lambda>r. (r_hash r, r_fidelity r)) (t_get read_key (ws, stream, path) ?rows)
       | Some e \<Rightarrow> Some (r_hash e, kept_fidelity (t_get read_key (ws, stream, path) ?rows) (r_fidelity e)))"
      using 2(2) [OF False refl refl refl refl] 2(3) False by (simp add: Let_def)
    show ?thesis
    proof (cases "path = r_path entry")
      case True
      then have "map_option (\<lambda>r. (r_hash r, r_fidelity r)) (t_get read_key (ws, stream, path) ?rows) =
          Some (r_hash entry, r_fidelity ?e)"
        by (auto simp: read_tab.get_upsert split: option.splits)
      with rec True False show ?thesis by (simp add: first_read_def)
    next
      case other: False
      then have "t_get read_key (ws, stream, path) ?rows = t_get read_key (ws, stream, path) rows"
        by (simp add: read_tab.get_upsert_other)
      moreover have "first_read path (entry # entries) = first_read path entries"
        using other by (auto simp: first_read_def)
      ultimately show ?thesis using rec other by (simp split: option.split)
    qed
  qed
qed

lemma ChangedReadSet_call:
  assumes "ChangedReadSet ws stream entries d = Inr (changed, d')"
  shows "changed_reads ws stream entries {} [] (session_read_sets d) = (changed, session_read_sets d')"
    and "d' = d\<lparr>session_read_sets := session_read_sets d'\<rparr>"
  using assms by (auto simp: ChangedReadSet_def split: if_splits prod.splits)

section \<open>Properties\<close>

text \<open>C1. However many hook processes claim for however many sessions, in whatever order, no pair
  of a session and an item revision is handed out twice, and none that was delivered before.\<close>

theorem claims_exactly_once:
  "distinct (fst (claim_run calls d)) \<and> set (fst (claim_run calls d)) \<inter> delivered d = {}"
  using claim_run_fresh [of calls d] by (cases "claim_run calls d") auto

text \<open>A claim for a named session whose items all have an identity succeeds; it hands out exactly
  the items this session has not been given, each once, and records them all.\<close>

theorem claim_complete:
  assumes "key \<noteq> []" and "list_all (\<lambda>i. \<not> invalid_item i) items"
  shows "\<exists>claimed d'. ClaimInjectionDeliveries key items at d = Inr (claimed, d') \<and> distinct claimed
    \<and> set claimed = {i \<in> set items. (key, i) \<notin> delivered d}
    \<and> delivered d' = delivered d \<union> Pair key ` set items"
proof -
  from claim_items_total [OF assms(2)] obtain c rows where
    "claim_items key at items [] (injection_deliveries d) = Inr (c, rows)" by blast
  with assms(1) have "ClaimInjectionDeliveries key items at d = Inr (c, d\<lparr>injection_deliveries := rows\<rparr>)"
    by (simp add: ClaimInjectionDeliveries_def)
  with claim_spec [OF this] show ?thesis by blast
qed

theorem claim_complete_witness:
  "\<exists>claimed d'. ClaimInjectionDeliveries ''wrk_a''
      [\<lparr>ii_id = ''fnd_1'', ii_revision = 1\<rparr>, \<lparr>ii_id = ''fnd_1'', ii_revision = 2\<rparr>] 0 empty_db = Inr (claimed, d')
    \<and> set claimed = {\<lparr>ii_id = ''fnd_1'', ii_revision = 1\<rparr>, \<lparr>ii_id = ''fnd_1'', ii_revision = 2\<rparr>}"
proof -
  have "list_all (\<lambda>i. \<not> invalid_item i) [\<lparr>ii_id = ''fnd_1'', ii_revision = 1\<rparr>, \<lparr>ii_id = ''fnd_1'', ii_revision = 2\<rparr>]"
    by (simp add: invalid_item_def)
  from claim_complete [OF _ this, of "''wrk_a''" 0 empty_db] show ?thesis
    by (fastforce simp: delivered_def empty_db_def)
qed

text \<open>Recording reads keeps one row per session and path, gives the path the hash of the first
  entry that names it, and keeps the stronger of the two fidelities: no write lowers the rank of
  any path of any session (ADR-052).\<close>

theorem read_set_keeps_strongest:
  assumes "ChangedReadSet ws stream entries d = Inr (changed, d')"
    and "keyed read_key (session_read_sets d)"
  shows "map_option (\<lambda>r. (r_hash r, r_fidelity r)) (stored_read ws stream path d') =
      (case first_read path entries of
         None \<Rightarrow> map_option (\<lambda>r. (r_hash r, r_fidelity r)) (stored_read ws stream path d)
       | Some e \<Rightarrow> Some (r_hash e, kept_fidelity (stored_read ws stream path d) (r_fidelity e)))
    \<and> fidelity_rank (stored_read ws' stream' path' d) \<le> fidelity_rank (stored_read ws' stream' path' d')
    \<and> keyed read_key (session_read_sets d')"
  using changed_reads_outcome [OF ChangedReadSet_call(1) [OF assms(1)], of path]
    changed_reads_rank_mono [OF ChangedReadSet_call(1) [OF assms(1)]]
    changed_reads_keyed [OF ChangedReadSet_call(1) [OF assms(1)] assms(2)]
  unfolding stored_read_def by simp

theorem read_set_keeps_strongest_witness:
  "\<exists>changed d'. ChangedReadSet ''wsp_a'' ''wrk_a''
      [\<lparr>r_path = ''a.go'', r_hash = ''h1'', r_observed_at = ''t'', r_fidelity = ''observed''\<rparr>,
       \<lparr>r_path = ''a.go'', r_hash = ''h2'', r_observed_at = ''t'', r_fidelity = ''self_declared''\<rparr>] empty_db
      = Inr (changed, d')
    \<and> map_option (\<lambda>r. (r_hash r, r_fidelity r)) (stored_read ''wsp_a'' ''wrk_a'' ''a.go'' d') = Some (''h1'', ''observed'')"
proof -
  let ?es = "[\<lparr>r_path = ''a.go'', r_hash = ''h1'', r_observed_at = ''t'', r_fidelity = ''observed''\<rparr>,
       \<lparr>r_path = ''a.go'', r_hash = ''h2'', r_observed_at = ''t'', r_fidelity = ''self_declared''\<rparr>]"
  obtain changed d' where run: "ChangedReadSet ''wsp_a'' ''wrk_a'' ?es empty_db = Inr (changed, d')"
    by (simp add: ChangedReadSet_def Let_def split: prod.splits)
  moreover have "map_option (\<lambda>r. (r_hash r, r_fidelity r)) (stored_read ''wsp_a'' ''wrk_a'' ''a.go'' d') =
      Some (''h1'', ''observed'')"
    using read_set_keeps_strongest [OF run, of "''a.go''"]
    by (simp add: empty_db_def first_read_def stored_read_def t_get_def kept_fidelity_def)
  ultimately show ?thesis by blast
qed

text \<open>Publishing is proportional to drift: the reported paths are, sorted and each once, exactly
  the observed ones whose stored hash is missing or different; the observed hashes are what is
  stored afterwards, nothing else changes, and observing the same again reports nothing.\<close>

theorem fingerprints_report_drift:
  assumes "ChangedFingerprints ws observed at d = Inr (changed, d')"
  shows "sorted changed \<and> distinct changed
    \<and> set changed = {p. \<exists>h. map_of observed p = Some h \<and> FingerprintHash ws p d \<noteq> Some h}
    \<and> (\<forall>ws' p. FingerprintHash ws' p d' =
         (if ws' = ws \<and> p \<in> dom (map_of observed) then map_of observed p else FingerprintHash ws' p d))
    \<and> (\<exists>d''. ChangedFingerprints ws observed at' d' = Inr ([], d''))"
proof (cases "observed = []")
  case True
  with assms show ?thesis by (auto simp: ChangedFingerprints_def split: if_splits)
next
  case False
  let ?paths = "sort (remdups (map fst observed))"
  from changed_fingerprints_call [OF assms False] obtain rows
    where run: "changed_fingerprints ws (map_of observed) at ?paths [] (contract_fingerprints d) = (changed, rows)"
      and d': "d' = d\<lparr>contract_fingerprints := rows\<rparr>" and ws: "ws \<noteq> []" by blast
  have seen: "p \<in> set ?paths \<longleftrightarrow> (\<exists>h. map_of observed p = Some h)" for p
    by (auto simp: dom_map_of_conv_image_fst [symmetric] image_iff dest: map_of_SomeD weak_map_of_SomeI)
  have changed: "changed = filter (\<lambda>p. stored_hash ws p (contract_fingerprints d) \<noteq> Some (observed_hash (map_of observed) p)) ?paths"
    using changed_fingerprints_changed [OF run] by simp
  have stored: "FingerprintHash ws' p d' =
      (if ws' = ws \<and> p \<in> dom (map_of observed) then map_of observed p else FingerprintHash ws' p d)" for ws' p
    using changed_fingerprints_stored [OF run, of ws' p] seen [of p]
    by (auto simp: FingerprintHash_def d' observed_hash_def)
  obtain c2 rows2 where again: "changed_fingerprints ws (map_of observed) at' ?paths [] (contract_fingerprints d') = (c2, rows2)"
    by fastforce
  have "stored_hash ws p (contract_fingerprints d') = Some (observed_hash (map_of observed) p)" if "p \<in> set ?paths" for p
    using changed_fingerprints_stored [OF run, of ws p] that by (simp add: d')
  with changed_fingerprints_changed [OF again] have "c2 = []"
    by (simp add: filter_empty_conv)
  then have quiet: "\<exists>d''. ChangedFingerprints ws observed at' d' = Inr ([], d'')"
    using again ws False by (simp add: ChangedFingerprints_def)
  have "set changed = {p. \<exists>h. map_of observed p = Some h \<and> FingerprintHash ws p d \<noteq> Some h}"
    unfolding changed set_filter FingerprintHash_def
    by (auto simp only: seen) (auto simp: observed_hash_def)
  moreover have "sorted changed"
    unfolding changed by (rule sorted_wrt_filter) simp
  moreover have "distinct changed"
    by (simp add: changed)
  ultimately show ?thesis using stored quiet by blast
qed

theorem fingerprints_report_drift_witness:
  "\<exists>changed d'. ChangedFingerprints ''wsp_a'' [(''b.ts'', ''h1''), (''a.ts'', ''h2'')] 0 empty_db = Inr (changed, d')
    \<and> set changed = {''a.ts'', ''b.ts''} \<and> FingerprintHash ''wsp_a'' ''b.ts'' d' = Some ''h1''"
proof -
  let ?seen = "[(''b.ts'', ''h1''), (''a.ts'', ''h2'')]"
  obtain changed d' where run: "ChangedFingerprints ''wsp_a'' ?seen 0 empty_db = Inr (changed, d')"
    using ChangedFingerprints_total [of "''wsp_a''" ?seen 0 empty_db] by auto
  from fingerprints_report_drift [OF run]
  have "set changed = {p. \<exists>h. map_of ?seen p = Some h \<and> FingerprintHash ''wsp_a'' p empty_db \<noteq> Some h}"
    and "FingerprintHash ''wsp_a'' ''b.ts'' d' = map_of ?seen ''b.ts''"
    by simp_all
  with run show ?thesis
    by (auto simp: empty_db_def FingerprintHash_def stored_hash_def t_get_def)
qed

text \<open>C2. Every focus expires: whatever duration is asked for, the deadline lies after now and at most
  \<open>MaxFocus\<close> after it, the session reads as focused until that deadline (to the millisecond the
  store keeps) and never from it on, and no other session's focus is touched.\<close>

theorem focus_expires:
  assumes "SetFocus key now duration d = Inr (until, d')"
  shows "now < until \<and> until \<le> now + MaxFocus
    \<and> (\<forall>t. snd (FocusedUntil key t d') \<longleftrightarrow> t < of_unix_milli (unix_milli until))
    \<and> (\<forall>t. until \<le> t \<longrightarrow> FocusedUntil key t d' = (zero_time, False))
    \<and> (\<forall>k t. k \<noteq> key \<longrightarrow> FocusedUntil k t d' = FocusedUntil k t d)"
proof (intro conjI allI impI)
  note spec = SetFocus_spec [OF assms]
  obtain r where r: "t_get fo_session_key key (session_focus d') = Some r" "fo_until r = unix_milli until"
    using spec(3) by auto
  show "now < until" "until \<le> now + MaxFocus"
    using spec(1) focus_duration_bounds [of duration] by simp_all
  show "snd (FocusedUntil key t d') \<longleftrightarrow> t < of_unix_milli (unix_milli until)" for t
    using r spec(2) by (simp add: FocusedUntil_def Let_def not_less)
  show "FocusedUntil key t d' = (zero_time, False)" if "until \<le> t" for t
    using r spec(2) of_unix_milli_le [of until] that by (simp add: FocusedUntil_def Let_def)
  show "FocusedUntil k t d' = FocusedUntil k t d" if "k \<noteq> key" for k t
    using spec(4) [OF that] by (simp add: FocusedUntil_def)
qed

theorem focus_expires_witness:
  "\<exists>until d'. SetFocus ''wrk_a'' 0 (100 * hour_ns) empty_db = Inr (until, d') \<and> until \<le> MaxFocus
    \<and> FocusedUntil ''wrk_a'' (9 * hour_ns) d' = (zero_time, False)"
proof -
  obtain until d' where run: "SetFocus ''wrk_a'' 0 (100 * hour_ns) empty_db = Inr (until, d')"
    by (simp add: SetFocus_def Let_def)
  from focus_expires [OF run] have "until \<le> MaxFocus"
    and "until \<le> 9 * hour_ns \<Longrightarrow> FocusedUntil ''wrk_a'' (9 * hour_ns) d' = (zero_time, False)"
    by simp_all
  with run show ?thesis by (simp add: MaxFocus_def duration_defs)
qed

text \<open>The two views of focus agree: \<open>ActiveFocus\<close> lists, each session once, exactly the sessions
  that \<open>FocusedUntil\<close> answers for with the same deadlines, and the lapsed rows it drops change the
  answer for no session at any later time.\<close>

theorem focus_views_agree:
  assumes "focus_ok d"
  shows "set (fst (ActiveFocus now d)) = {(k, u). FocusedUntil k now d = (u, True)}
    \<and> distinct (map fst (fst (ActiveFocus now d)))
    \<and> focus_ok (snd (ActiveFocus now d))
    \<and> (\<forall>k t. now \<le> t \<longrightarrow> FocusedUntil k t (snd (ActiveFocus now d)) = FocusedUntil k t d)"
proof (intro conjI allI impI)
  let ?rows = "t_delete (\<lambda>r. fo_until r \<le> unix_milli now) (session_focus d)"
  have keyed: "keyed fo_session_key (session_focus d)" "\<forall>r \<in> set (session_focus d). fo_session_key r \<noteq> []"
    using assms by (auto simp: focus_ok_def)
  show "set (fst (ActiveFocus now d)) = {(k, u). FocusedUntil k now d = (u, True)}"
    using keyed(2) by (force simp: ActiveFocus_def Let_def FocusedUntil_iff t_get_Some [OF keyed(1)] milli_after)
  have "keyed fo_session_key (sort_key fo_session_key ?rows)"
    using keyed(1) by simp
  then show "distinct (map fst (fst (ActiveFocus now d)))"
    by (simp add: keyed_def ActiveFocus_def Let_def comp_def)
  show "focus_ok (snd (ActiveFocus now d))"
    using keyed by (auto simp: focus_ok_def ActiveFocus_def Let_def)
  fix k t :: _ assume "now \<le> t"
  then have "t_get fo_session_key k ?rows = (case t_get fo_session_key k (session_focus d) of
      None \<Rightarrow> None | Some r \<Rightarrow> if fo_until r \<le> unix_milli now then None else Some r)"
    by (auto simp: t_get_Some [OF keyed(1)] t_get_Some [OF keyed_delete [OF keyed(1)]] t_get_None
        dest: keyed_eqD [OF keyed(1)] split: option.split)
  then show "FocusedUntil k t (snd (ActiveFocus now d)) = FocusedUntil k t d"
    using milli_after [of t] unix_milli_mono [OF \<open>now \<le> t\<close>]
    by (auto simp: FocusedUntil_def ActiveFocus_def Let_def split: option.split)
qed

theorem focus_views_agree_witness:
  "focus_ok (snd (the_Inr (SetFocus ''wrk_a'' 0 0 empty_db)))
    \<and> set (fst (ActiveFocus 1 (snd (the_Inr (SetFocus ''wrk_a'' 0 0 empty_db))))) = {(''wrk_a'', hour_ns)}"
proof
  show ok: "focus_ok (snd (the_Inr (SetFocus ''wrk_a'' 0 0 empty_db)))"
    by (simp add: focus_ok_def SetFocus_def Let_def empty_db_def t_upsert_def the_Inr_def keyed_def)
  show "set (fst (ActiveFocus 1 (snd (the_Inr (SetFocus ''wrk_a'' 0 0 empty_db))))) = {(''wrk_a'', hour_ns)}"
    using focus_views_agree [OF ok, of 1]
    by (auto simp: the_Inr_def SetFocus_def Let_def empty_db_def t_upsert_def FocusedUntil_def t_get_def
        focus_duration_def DefaultFocus_def MaxFocus_def duration_defs unix_milli_def of_unix_milli_def
        split: if_splits)
qed

end
