(* ===== verification/Store_Queue.thy ===== *)
theory Store_Queue
  imports Store_Schema
begin

text \<open>
  The part of \<^verbatim>\<open>internal/store/store.go\<close> that keeps the registered workspaces and the queue of
  events they publish: registration, rebinding and deletion, the three ways to enqueue
  (\<^verbatim>\<open>EnqueueEvent\<close>, \<^verbatim>\<open>PublishManifest\<close>, \<^verbatim>\<open>PublishLifecycle\<close>), and the consumer side
  (\<^verbatim>\<open>Pending\<close>, \<^verbatim>\<open>Batch\<close>, \<^verbatim>\<open>Ack\<close>, \<^verbatim>\<open>Quarantine\<close>, \<^verbatim>\<open>CleanupAcknowledged\<close>).
\<close>

section \<open>Workspaces\<close>

definition Boot :: "db \<Rightarrow> int \<times> db" where
  "Boot d = (let d' = d\<lparr>boot_count := boot_count d + 1\<rparr> in (boot_count d', d'))"

text \<open>\<^verbatim>\<open>SELECT ... FROM workspaces WHERE id=?\<close>.\<close>

definition find_workspace :: "string \<Rightarrow> db \<Rightarrow> workspace_row option" where
  "find_workspace ws d = t_get w_id ws (workspaces d)"

text \<open>\<^verbatim>\<open>UPDATE workspaces SET ... WHERE id=?\<close>.\<close>

definition update_workspace :: "string \<Rightarrow> (workspace_row \<Rightarrow> workspace_row) \<Rightarrow> db \<Rightarrow> db" where
  "update_workspace ws f d = d\<lparr>workspaces := t_update (\<lambda>r. w_id r = ws) f (workspaces d)\<rparr>"

text \<open>\<^verbatim>\<open>INSERT INTO event_queue\<close>: the primary key and the index \<^verbatim>\<open>event_sequence\<close>.\<close>

definition event_clash :: "event_row \<Rightarrow> event_row \<Rightarrow> bool" where
  "event_clash x y \<longleftrightarrow> e_id x = e_id y \<or>
     e_workspace_id x = e_workspace_id y \<and> e_sequence x = e_sequence y"

definition insert_event :: "event_row \<Rightarrow> db \<Rightarrow> db result" where
  "insert_event r d =
     (case t_insert event_clash r (event_queue d) of
        None \<Rightarrow> Inl ErrConstraint
      | Some rows \<Rightarrow> Inr (d\<lparr>event_queue := rows\<rparr>))"

text \<open>The envelope and the row every producer writes; \<open>w\<close> is the workspace it is published for.\<close>

definition envelope :: "workspace_row \<Rightarrow> string \<Rightarrow> int \<Rightarrow> int \<Rightarrow> string \<Rightarrow> string \<Rightarrow> json \<Rightarrow> event_envelope" where
  "envelope w eid seq now source kind payload =
     \<lparr>env_schema_version = 1, env_event_id = eid, env_project_id = w_project_id w,
      env_member_id = w_member_id w, env_device_id = w_device_id w, env_workspace_id = w_id w,
      env_session_id = w_session_id w, env_sequence = seq, env_observed_at = now, env_sent_at = now,
      env_source = source, env_type = kind, env_payload = payload\<rparr>"

definition event_row_of :: "workspace_row \<Rightarrow> string \<Rightarrow> int \<Rightarrow> int \<Rightarrow> string \<Rightarrow> string \<Rightarrow> json \<Rightarrow> event_row" where
  "event_row_of w eid seq now source kind payload =
     \<lparr>e_id = eid, e_workspace_id = w_id w, e_sequence = seq, e_kind = kind,
      e_payload = Envelope (envelope w eid seq now source kind payload),
      e_created_at = unix_sec now, e_acked_at = None, e_quarantined_at = None\<rparr>"

definition registrationEventID :: "string \<Rightarrow> string \<Rightarrow> string \<Rightarrow> string" where
  "registrationEventID project device ws =
     ''evt_registration_'' @ sha256_hex_prefix 16
       (''overgent.workspace-registration.v1'' @ [NUL] @ project @ [NUL] @ device @ [NUL] @ ws)"

definition merge_project :: "project_row \<Rightarrow> project_row \<Rightarrow> project_row" where
  "merge_project old new = (if p_backend_id new \<noteq> [] then old\<lparr>p_backend_id := p_backend_id new\<rparr> else old)"

definition merge_workspace :: "workspace_row \<Rightarrow> workspace_row \<Rightarrow> workspace_row" where
  "merge_workspace old new = old\<lparr>w_project_id := w_project_id new, w_workstream_id := w_workstream_id new,
     w_member_id := w_member_id new, w_device_id := w_device_id new, w_session_id := w_session_id new,
     w_root := w_root new, w_baseline := w_baseline new, w_fingerprint := w_fingerprint new,
     w_backend_id := w_backend_id new\<rparr>"

definition merge_workstream :: "workstream_row \<Rightarrow> workstream_row \<Rightarrow> workstream_row" where
  "merge_workstream old new = old\<lparr>s_project_id := s_project_id new,
     s_workspace_id := s_workspace_id new, s_baseline := s_baseline new\<rparr>"

text \<open>A fresh row takes the column defaults for what the statement does not name.\<close>

definition new_workspace_row :: "workspace \<Rightarrow> workspace_row" where
  "new_workspace_row w = workspace.extend w
     \<lparr>w_registration_enqueued = False, w_sequence = 0, w_intent_revision = 0\<rparr>"

text \<open>\<^verbatim>\<open>INSERT INTO workspaces ... ON CONFLICT(id) DO UPDATE\<close> under \<^verbatim>\<open>UNIQUE(root)\<close>.\<close>

definition upsert_workspace_row :: "workspace \<Rightarrow> workspace_row list \<Rightarrow> workspace_row list result" where
  "upsert_workspace_row w rows =
     (if \<exists>r \<in> set rows. w_root r = w_root w \<and> w_id r \<noteq> w_id w then Inl ErrConstraint
      else Inr (t_upsert w_id merge_workspace (new_workspace_row w) rows))"

definition registration_payload :: "workspace \<Rightarrow> json" where
  "registration_payload w = JMap [(''repoFingerprint'', JStr (w_fingerprint w)), (''label'', JStr (w_id w)),
     (''capabilities'', JMap [(''gitManifest'', JStr ''layered/v1'')])]"

text \<open>A different workspace that claims this root is a re-enrollment: its binding is removed.\<close>

definition evict_root :: "workspace \<Rightarrow> db \<Rightarrow> db" where
  "evict_root w d =
     (let dead = (\<lambda>r. w_root r = w_root w \<and> w_id r \<noteq> w_id w)
      in d\<lparr>workstreams := t_delete (\<lambda>s. s_workspace_id s \<in> w_id ` set (filter dead (workspaces d))) (workstreams d),
           workspaces := t_delete dead (workspaces d)\<rparr>)"

definition enqueue_registration :: "workspace \<Rightarrow> int \<Rightarrow> workspace_row \<Rightarrow> db \<Rightarrow> db result" where
  "enqueue_registration w now row d =
     (if w_registration_enqueued row then Inr d
      else bindE (insert_event (event_row_of (new_workspace_row w)
            (registrationEventID (w_project_id w) (w_device_id w) (w_id w))
            (w_sequence row + 1) now ''manual'' ''workspace.registered'' (registration_payload w)) d)
        (\<lambda>d'. Inr (update_workspace (w_id w)
            (\<lambda>r. r\<lparr>w_registration_enqueued := True, w_sequence := w_sequence row + 1\<rparr>) d')))"

definition UpsertWorkspace :: "workspace \<Rightarrow> int \<Rightarrow> db \<Rightarrow> db result" where
  "UpsertWorkspace w now d =
     (let d1 = d\<lparr>projects := t_upsert p_id merge_project
                  \<lparr>p_id = w_project_id w, p_backend_id = w_backend_id w\<rparr> (projects d)\<rparr>;
          d2 = evict_root w d1
      in bindE (upsert_workspace_row w (workspaces d2)) (\<lambda>rows.
         let d3 = d2\<lparr>workspaces := rows,
                     workstreams := t_upsert s_id merge_workstream
                       \<lparr>s_id = w_workstream_id w, s_project_id = w_project_id w, s_workspace_id = w_id w,
                        s_baseline = w_baseline w, s_status = ''active''\<rparr> (workstreams d2)\<rparr>
         in case find_workspace (w_id w) d3 of
              None \<Rightarrow> Inl ErrNoRows
            | Some row \<Rightarrow> enqueue_registration w now row d3))"

definition RebindWorkspace :: "string \<Rightarrow> string \<Rightarrow> string \<Rightarrow> db \<Rightarrow> db result" where
  "RebindWorkspace ws device backend d =
     (if ws = [] \<or> device = [] \<or> backend = []
      then Inl (ErrText ''workspace, device, and backend are all required to rebind'')
      else if find_workspace ws d = None then Inl (ErrText ''workspace not found'')
      else let d' = update_workspace ws
                 (\<lambda>r. r\<lparr>w_device_id := device, w_backend_id := backend, w_registration_enqueued := False\<rparr>) d
           in Inr (d'\<lparr>event_queue := t_delete (\<lambda>e. e_workspace_id e = ws) (event_queue d'),
                      cursors := t_delete (\<lambda>c. c_workspace_id c = ws) (cursors d')\<rparr>))"

definition DeleteWorkspace :: "string \<Rightarrow> db \<Rightarrow> db result" where
  "DeleteWorkspace ws d =
     (if ws = [] then Inl (ErrText ''workspace id is required'')
      else Inr (d\<lparr>workstreams := t_delete (\<lambda>r. s_workspace_id r = ws) (workstreams d),
        manifests := t_delete (\<lambda>r. m_workspace_id r = ws) (manifests d),
        event_queue := t_delete (\<lambda>r. e_workspace_id r = ws) (event_queue d),
        cursors := t_delete (\<lambda>r. c_workspace_id r = ws) (cursors d),
        idempotency_keys := t_delete (\<lambda>r. i_workspace_id r = ws) (idempotency_keys d),
        agent_observations := t_delete (\<lambda>r. o_workspace_id r = ws) (agent_observations d),
        agent_sessions := t_delete (\<lambda>r. a_workspace_id r = ws) (agent_sessions d),
        contract_fingerprints := t_delete (\<lambda>r. f_workspace_id r = ws) (contract_fingerprints d),
        session_read_sets := t_delete (\<lambda>r. r_workspace_id r = ws) (session_read_sets d),
        workspaces := t_delete (\<lambda>r. w_id r = ws) (workspaces d)\<rparr>))"

definition Workspaces :: "db \<Rightarrow> workspace list" where
  "Workspaces d = map workspace.truncate (sort_key w_id (workspaces d))"

definition SetPaused :: "string \<Rightarrow> bool \<Rightarrow> db \<Rightarrow> db result" where
  "SetPaused ws p d =
     (if length (filter (\<lambda>r. w_id r = ws) (workspaces d)) \<noteq> 1
      then Inl (ErrText ''workspace not found'')
      else Inr (update_workspace ws (\<lambda>r. r\<lparr>w_paused := p\<rparr>) d))"

definition SetProjectPaused :: "string \<Rightarrow> bool \<Rightarrow> db \<Rightarrow> (nat \<times> db) result" where
  "SetProjectPaused project p d =
     (if project = [] then Inl (ErrText ''project id required'')
      else Inr (length (filter (\<lambda>r. w_project_id r = project) (workspaces d)),
        d\<lparr>workspaces := t_update (\<lambda>r. w_project_id r = project) (\<lambda>r. r\<lparr>w_paused := p\<rparr>) (workspaces d)\<rparr>))"

section \<open>Producers\<close>

definition EnqueueEvent :: "string \<Rightarrow> string \<Rightarrow> string \<Rightarrow> string \<Rightarrow> json \<Rightarrow> int \<Rightarrow> db \<Rightarrow> db result" where
  "EnqueueEvent ws eid source kind payload now d =
     (case find_workspace ws d of
        None \<Rightarrow> Inl ErrNoRows
      | Some w \<Rightarrow>
          bindE (insert_event (event_row_of w eid (w_sequence w + 1) now source kind payload) d)
            (\<lambda>d'. Inr (update_workspace ws (\<lambda>r. r\<lparr>w_sequence := w_sequence w + 1\<rparr>) d')))"

text \<open>
  The loop that \<^verbatim>\<open>PublishManifest\<close> and \<^verbatim>\<open>PublishLifecycle\<close> share: event \<open>i\<close> (from 0) gets
  sequence number \<open>seq + i + 1\<close>.
\<close>

fun insert_events :: "workspace_row \<Rightarrow> string \<Rightarrow> int \<Rightarrow> (string \<times> string \<times> json) list \<Rightarrow> int \<Rightarrow> db \<Rightarrow> db result" where
  "insert_events w source now [] seq d = Inr d"
| "insert_events w source now ((eid, kind, payload) # es) seq d =
     bindE (insert_event (event_row_of w eid (seq + 1) now source kind payload) d)
       (insert_events w source now es (seq + 1))"

record manifest_publication =
  mp_workspace_id :: string
  mp_manifest_id :: string
  mp_baseline :: string
  mp_head :: string
  mp_hash :: string
  mp_event_id :: string
  mp_entries :: "json list"

definition chunkSize :: nat where "chunkSize = 100"

definition chunk_count :: "nat \<Rightarrow> nat" where
  "chunk_count paths = (paths + chunkSize - 1) div chunkSize"

definition chunk_entries :: "'a list \<Rightarrow> nat \<Rightarrow> 'a list" where
  "chunk_entries xs i =
     (let end_at = min ((i + 1) * chunkSize) (length xs) in drop (i * chunkSize) (take end_at xs))"

definition manifest_events :: "manifest_publication \<Rightarrow> string \<Rightarrow> int \<Rightarrow> (string \<times> string \<times> json) list" where
  "manifest_events p workstream revision =
     (let n = chunk_count (length (mp_entries p)) in
      [(mp_event_id p @ ''_started'', ''workspace.manifest_started'',
         JMap [(''manifestId'', JStr (mp_manifest_id p)), (''workstreamId'', JStr workstream),
           (''revision'', JInt revision), (''baselineRef'', JStr (mp_baseline p)),
           (''headRef'', JStr (mp_head p)), (''chunkCount'', JInt (int n))])]
      @ map (\<lambda>i. (mp_event_id p @ ''_chunk_'' @ pad0 4 i, ''workspace.manifest_chunk'',
         JMap [(''manifestId'', JStr (mp_manifest_id p)), (''chunkIndex'', JInt (int i)),
           (''entries'', JArr (chunk_entries (mp_entries p) i))])) [0..<n]
      @ [(mp_event_id p, ''workspace.manifest_completed'',
         JMap [(''manifestId'', JStr (mp_manifest_id p)), (''revision'', JInt revision),
           (''contentHash'', JStr (mp_hash p))])])"

text \<open>\<^verbatim>\<open>INSERT INTO manifests\<close>: the primary key and the unique index \<^verbatim>\<open>active_manifest\<close>.\<close>

definition manifest_clash :: "manifest_row \<Rightarrow> manifest_row \<Rightarrow> bool" where
  "manifest_clash x y \<longleftrightarrow> m_workspace_id x = m_workspace_id y \<and>
     (m_revision x = m_revision y \<or> m_active x \<and> m_active y)"

definition insert_manifest :: "manifest_row \<Rightarrow> db \<Rightarrow> db result" where
  "insert_manifest r d =
     (case t_insert manifest_clash r (manifests d) of
        None \<Rightarrow> Inl ErrConstraint
      | Some rows \<Rightarrow> Inr (d\<lparr>manifests := rows\<rparr>))"

definition PublishManifest :: "manifest_publication \<Rightarrow> int \<Rightarrow> db \<Rightarrow> (int \<times> db) result" where
  "PublishManifest p now d =
     (let paths = length (mp_entries p); ws = mp_workspace_id p in
      if 100000 < paths then Inl (ErrText ''manifest exceeds 100000-path contract limit'')
      else case find_workspace ws d of
        None \<Rightarrow> Inl ErrNoRows
      | Some w \<Rightarrow>
          (let revision = w_revision w + 1;
               d1 = d\<lparr>manifests := t_update (\<lambda>m. m_workspace_id m = ws) (\<lambda>m. m\<lparr>m_active := False\<rparr>) (manifests d)\<rparr>
           in bindE (insert_manifest \<lparr>m_workspace_id = ws, m_revision = revision, m_manifest_id = mp_manifest_id p,
                  m_workstream_id = w_workstream_id w, m_baseline_ref = mp_baseline p, m_head_ref = mp_head p,
                  m_content_hash = mp_hash p, m_path_count = paths, m_entries = mp_entries p, m_active = True\<rparr> d1)
              (\<lambda>d2. let events = manifest_events p (w_workstream_id w) revision in
                bindE (insert_events w ''git'' now events (w_sequence w) d2)
                  (\<lambda>d3. Inr (revision, update_workspace ws
                     (\<lambda>r. r\<lparr>w_revision := revision, w_sequence := w_sequence w + int (length events)\<rparr>) d3)))))"

record lifecycle_publication =
  lp_workspace_id :: string
  lp_method :: string
  lp_key :: string
  lp_source :: string
  lp_kind :: string
  lp_payload :: json
  lp_additional :: "(string \<times> json) list"
  lp_expected :: "int option"
  lp_increment :: bool

definition lifecycle_events :: "lifecycle_publication \<Rightarrow> (string \<times> json) list" where
  "lifecycle_events p = (lp_kind p, lp_payload p) # lp_additional p"

definition request_hash :: "lifecycle_publication \<Rightarrow> string" where
  "request_hash p = sha256_hex (marshal (JArr
     (map (\<lambda>(kind, payload). JStruct [(''Kind'', JStr kind), (''Payload'', payload)]) (lifecycle_events p))))"

definition lifecycleEventID :: "string \<Rightarrow> string \<Rightarrow> string \<Rightarrow> nat \<Rightarrow> string" where
  "lifecycleEventID ws method key i =
     ''evt_'' @ sha256_hex_prefix 16 (''overgent.lifecycle-event.v1'' @ [NUL] @ ws @ [NUL] @ method @ [NUL] @
       key @ [NUL] @ nat_dec i)"

fun fillObservedAt :: "string \<Rightarrow> json \<Rightarrow> json" where
  "fillObservedAt ts (JMap kvs) =
     JMap (map (\<lambda>kv. (fst kv, if fst kv = ''observedAt'' \<and> snd kv = JStr [] then JStr ts
                              else fillObservedAt ts (snd kv))) kvs)"
| "fillObservedAt ts (JArr xs) = JArr (map (fillObservedAt ts) xs)"
| "fillObservedAt ts j = j"

definition lifecycle_rows :: "lifecycle_publication \<Rightarrow> int \<Rightarrow> (string \<times> string \<times> json) list" where
  "lifecycle_rows p now =
     map (\<lambda>(i, kind, payload). (lifecycleEventID (lp_workspace_id p) (lp_method p) (lp_key p) i, kind,
           fillObservedAt (rfc3339nano now) (decode_any payload)))
       (enumerate 0 (lifecycle_events p))"

abbreviation idempotency_key :: "idempotency_row \<Rightarrow> string \<times> string \<times> string" where
  "idempotency_key r \<equiv> (i_workspace_id r, i_method r, i_key r)"

definition idempotency_clash :: "idempotency_row \<Rightarrow> idempotency_row \<Rightarrow> bool" where
  "idempotency_clash x y \<longleftrightarrow> idempotency_key x = idempotency_key y"

definition insert_idempotency :: "idempotency_row \<Rightarrow> db \<Rightarrow> db result" where
  "insert_idempotency r d =
     (case t_insert idempotency_clash r (idempotency_keys d) of
        None \<Rightarrow> Inl ErrConstraint
      | Some rows \<Rightarrow> Inr (d\<lparr>idempotency_keys := rows\<rparr>))"

text \<open>The revision the call answers with, or the conflict it reports.\<close>

definition next_intent_revision :: "lifecycle_publication \<Rightarrow> int \<Rightarrow> int result" where
  "next_intent_revision p current =
     (if lp_increment p
      then (case lp_expected p of
              Some x \<Rightarrow> if x \<noteq> current
                then Inl (ErrText (''intent revision conflict: current revision is '' @ int_dec current))
                else Inr (current + 1)
            | None \<Rightarrow> Inr (current + 1))
      else Inr current)"

definition publish_lifecycle_new :: "lifecycle_publication \<Rightarrow> int \<Rightarrow> db \<Rightarrow> (int \<times> bool \<times> db) result" where
  "publish_lifecycle_new p now d =
     (case find_workspace (lp_workspace_id p) d of
        None \<Rightarrow> Inl ErrNoRows
      | Some w \<Rightarrow>
          bindE (next_intent_revision p (w_intent_revision w)) (\<lambda>revision.
          bindE (insert_events w (lp_source p) now (lifecycle_rows p now) (w_sequence w) d) (\<lambda>d1.
          let d2 = update_workspace (lp_workspace_id p)
                (\<lambda>r. r\<lparr>w_sequence := w_sequence w + int (length (lifecycle_events p)), w_intent_revision := revision\<rparr>) d1
          in bindE (insert_idempotency \<lparr>i_workspace_id = lp_workspace_id p, i_method = lp_method p, i_key = lp_key p,
                 i_request_hash = request_hash p, i_response_revision = revision, i_created_at = unix_sec now\<rparr> d2)
             (\<lambda>d3. Inr (revision, False, d3)))))"

definition PublishLifecycle :: "lifecycle_publication \<Rightarrow> int \<Rightarrow> db \<Rightarrow> (int \<times> bool \<times> db) result" where
  "PublishLifecycle p now d =
     (if lp_workspace_id p = [] \<or> lp_method p = [] \<or> lp_key p = [] \<or> lp_kind p = []
      then Inl (ErrText ''lifecycle publication identifiers are required'')
      else if \<exists>e \<in> set (lifecycle_events p). fst e = []
      then Inl (ErrText ''lifecycle event kind is required'')
      else case t_get idempotency_key (lp_workspace_id p, lp_method p, lp_key p) (idempotency_keys d) of
        Some r \<Rightarrow> if i_request_hash r \<noteq> request_hash p
          then Inl (ErrText ''idempotency key reused with different input'')
          else Inr (i_response_revision r, True, d)
      | None \<Rightarrow> publish_lifecycle_new p now d)"

section \<open>Consumers\<close>

definition Batch :: "queue_event list \<Rightarrow> event_envelope list result" where
  "Batch events =
     (case events of
        [] \<Rightarrow> Inl (ErrText ''empty event batch'')
      | e # _ \<Rightarrow>
          if 100 < length events then Inl (ErrText ''event batch exceeds 100-event contract limit'')
          else foldE (\<lambda>x acc.
              if q_workspace_id x \<noteq> q_workspace_id e
              then Inl (ErrText ''event batch crosses workspace boundary'')
              else (case q_payload x of
                      Malformed b \<Rightarrow> Inl (ErrText ''invalid queued event envelope'')
                    | Envelope v \<Rightarrow> Inr (acc @ [v]))) events [])"

definition queue_event_of :: "event_row \<Rightarrow> queue_event" where
  "queue_event_of r = \<lparr>q_id = e_id r, q_workspace_id = e_workspace_id r, q_kind = e_kind r,
     q_sequence = e_sequence r, q_payload = e_payload r\<rparr>"

definition is_pending :: "event_row \<Rightarrow> bool" where
  "is_pending r \<longleftrightarrow> e_acked_at r = None \<and> e_quarantined_at r = None"

definition Pending :: "db \<Rightarrow> queue_event list" where
  "Pending d = map queue_event_of
     (sort_key (\<lambda>r. (e_workspace_id r, e_sequence r)) (filter is_pending (event_queue d)))"

definition merge_cursor :: "cursor_row \<Rightarrow> cursor_row \<Rightarrow> cursor_row" where
  "merge_cursor old new = old\<lparr>c_last_acked_sequence := max (c_last_acked_sequence old) (c_last_acked_sequence new)\<rparr>"

definition Ack :: "string \<Rightarrow> int \<Rightarrow> db \<Rightarrow> db result" where
  "Ack eid now d =
     (case t_get e_id eid (event_queue d) of
        None \<Rightarrow> Inl ErrNoRows
      | Some r \<Rightarrow> Inr (d\<lparr>
          event_queue := t_update (\<lambda>x. e_id x = eid) (\<lambda>x. x\<lparr>e_acked_at := Some (unix_sec now)\<rparr>) (event_queue d),
          cursors := t_upsert c_workspace_id merge_cursor
            \<lparr>c_workspace_id = e_workspace_id r, c_last_acked_sequence = e_sequence r\<rparr> (cursors d)\<rparr>))"

definition Quarantine :: "string \<Rightarrow> int \<Rightarrow> db \<Rightarrow> db" where
  "Quarantine eid now d =
     d\<lparr>event_queue := t_update (\<lambda>x. e_id x = eid \<and> e_acked_at x = None)
        (\<lambda>x. x\<lparr>e_quarantined_at := Some (unix_sec now)\<rparr>) (event_queue d)\<rparr>"

definition QuarantinedCount :: "db \<Rightarrow> nat" where
  "QuarantinedCount d = length (filter (\<lambda>r. e_quarantined_at r \<noteq> None) (event_queue d))"

definition CleanupAcknowledged :: "int \<Rightarrow> db \<Rightarrow> nat \<times> db" where
  "CleanupAcknowledged before d =
     (let old = (\<lambda>r. case e_acked_at r of None \<Rightarrow> False | Some t \<Rightarrow> t < unix_sec before)
      in (length (filter old (event_queue d)), d\<lparr>event_queue := t_delete old (event_queue d)\<rparr>))"

definition Cursor :: "string \<Rightarrow> db \<Rightarrow> int result" where
  "Cursor ws d = (case t_get c_workspace_id ws (cursors d) of
     None \<Rightarrow> Inl ErrNoRows | Some c \<Rightarrow> Inr (c_last_acked_sequence c))"

definition ActiveManifest :: "string \<Rightarrow> db \<Rightarrow> (int \<times> string \<times> json list) result" where
  "ActiveManifest ws d =
     (case find (\<lambda>m. m_workspace_id m = ws \<and> m_active m) (manifests d) of
        None \<Rightarrow> Inl ErrNoRows
      | Some m \<Rightarrow> Inr (m_revision m, m_content_hash m, m_entries m))"

end
