(* ===== verification/Store_Producers.thy ===== *)
theory Store_Producers
  imports Store_Queue
begin

text \<open>
  What every producer of \<^verbatim>\<open>internal/store/store.go\<close> promises, as the locale \<open>producer\<close>: it appends a
  contiguous run of pending events to one workspace and advances that workspace's sequence by
  their number. \<^verbatim>\<open>EnqueueEvent\<close>, \<^verbatim>\<open>PublishManifest\<close> and \<^verbatim>\<open>PublishLifecycle\<close> interpret it. From the
  contract alone follow the queue invariant and that a workspace's events are published in the
  order they were enqueued.
\<close>

section \<open>The tables the queue upserts into\<close>

interpretation prj_tab: upsert_table p_id merge_project
  by unfold_locales (simp add: merge_project_def)

interpretation wsp_tab: upsert_table w_id merge_workspace
  by unfold_locales (simp add: merge_workspace_def)

interpretation str_tab: upsert_table s_id merge_workstream
  by unfold_locales (simp add: merge_workstream_def)

interpretation cur_tab: upsert_table c_workspace_id merge_cursor
  by unfold_locales (simp add: merge_cursor_def)

section \<open>The invariant of the queue\<close>

abbreviation event_slot :: "event_row \<Rightarrow> string \<times> int" where
  "event_slot r \<equiv> (e_workspace_id r, e_sequence r)"

text \<open>The envelope of a row names the row's own identity.\<close>

definition envelope_ok :: "event_row \<Rightarrow> bool" where
  "envelope_ok r = (case e_payload r of
     Malformed b \<Rightarrow> False
   | Envelope v \<Rightarrow> env_event_id v = e_id r \<and> env_workspace_id v = e_workspace_id r \<and>
       env_sequence v = e_sequence r \<and> env_type v = e_kind r \<and> env_schema_version v = 1)"

definition queue_ok :: "db \<Rightarrow> bool" where
  "queue_ok d \<longleftrightarrow> keyed w_id (workspaces d) \<and> keyed e_id (event_queue d) \<and> keyed event_slot (event_queue d)
     \<and> list_all envelope_ok (event_queue d)
     \<and> (\<forall>w \<in> set (workspaces d). \<forall>e \<in> set (event_queue d). e_workspace_id e = w_id w \<longrightarrow> e_sequence e \<le> w_sequence w)"

lemma queue_okD:
  assumes "queue_ok d"
  shows "keyed w_id (workspaces d)" "keyed e_id (event_queue d)" "keyed event_slot (event_queue d)"
    "list_all envelope_ok (event_queue d)"
    "find_workspace ws d = Some w \<Longrightarrow> e \<in> set (event_queue d) \<Longrightarrow> e_workspace_id e = ws \<Longrightarrow> e_sequence e \<le> w_sequence w"
  using assms by (auto simp: queue_ok_def find_workspace_def dest: t_get_SomeD)

section \<open>What a producer appends\<close>

definition numbered :: "int \<Rightarrow> event_row list \<Rightarrow> bool" where
  "numbered seq rows \<longleftrightarrow> map e_sequence rows = map (\<lambda>i. seq + int i + 1) [0..<length rows]"

definition appends :: "string \<Rightarrow> event_row list \<Rightarrow> db \<Rightarrow> db \<Rightarrow> bool" where
  "appends ws rows d d' \<longleftrightarrow>
     event_queue d' = event_queue d @ rows
     \<and> (keyed e_id (event_queue d) \<longrightarrow> keyed e_id (event_queue d'))
     \<and> (\<exists>w. find_workspace ws d = Some w \<and> numbered (w_sequence w) rows)
     \<and> list_all (\<lambda>r. e_workspace_id r = ws \<and> is_pending r \<and> envelope_ok r) rows
     \<and> map w_id (workspaces d') = map w_id (workspaces d)
     \<and> (\<forall>k. map_option w_sequence (find_workspace k d') =
          map_option (\<lambda>w. w_sequence w + (if k = ws then int (length rows) else 0)) (find_workspace k d))"

lemma numbered_Nil [simp]: "numbered seq []"
  by (simp add: numbered_def)

lemma numbered_Cons: "numbered seq (r # rows) \<longleftrightarrow> e_sequence r = seq + 1 \<and> numbered (seq + 1) rows"
proof -
  have "map (\<lambda>i. seq + int i + 1) [0..<Suc n] = (seq + 1) # map (\<lambda>i. (seq + 1) + int i + 1) [0..<n]" for n
    by (simp add: upt_conv_Cons map_Suc_upt [symmetric] comp_def del: upt_Suc)
  then show ?thesis by (simp add: numbered_def del: upt_Suc)
qed

lemma numbered_range: "numbered seq rows \<Longrightarrow> r \<in> set rows \<Longrightarrow> seq < e_sequence r \<and> e_sequence r \<le> seq + int (length rows)"
  by (induction rows arbitrary: seq) (force simp: numbered_Cons)+

lemma numbered_sorted: "numbered seq rows \<Longrightarrow> sorted_wrt (<) (map e_sequence rows)"
  by (induction rows arbitrary: seq) (auto simp: numbered_Cons dest: numbered_range)

lemma find_workspace_same_ids:
  assumes "map w_id (workspaces d') = map w_id (workspaces d)"
  shows "keyed w_id (workspaces d') = keyed w_id (workspaces d)"
    and "find_workspace k d' = None \<longleftrightarrow> find_workspace k d = None"
proof -
  show "keyed w_id (workspaces d') = keyed w_id (workspaces d)"
    using assms by (simp add: keyed_def)
  have "w_id ` set (workspaces d') = w_id ` set (workspaces d)"
    using arg_cong [OF assms, of set] by simp
  then show "find_workspace k d' = None \<longleftrightarrow> find_workspace k d = None"
    by (simp add: find_workspace_def t_get_None)
qed

lemma appendsE:
  assumes "appends ws rows d d'"
  obtains w where "find_workspace ws d = Some w" "numbered (w_sequence w) rows"
    "event_queue d' = event_queue d @ rows"
    "keyed e_id (event_queue d) \<longrightarrow> keyed e_id (event_queue d')"
    "list_all (\<lambda>r. e_workspace_id r = ws \<and> is_pending r \<and> envelope_ok r) rows"
    "map w_id (workspaces d') = map w_id (workspaces d)"
    "\<forall>k. map_option w_sequence (find_workspace k d') =
       map_option (\<lambda>w. w_sequence w + (if k = ws then int (length rows) else 0)) (find_workspace k d)"
  using assms unfolding appends_def by blast

lemma appends_queue_ok:
  assumes ok: "queue_ok d" and app: "appends ws rows d d'"
  shows "queue_ok d'"
  unfolding queue_ok_def
proof (intro conjI ballI impI)
  from app obtain w where w: "find_workspace ws d = Some w" and num: "numbered (w_sequence w) rows"
    and queue: "event_queue d' = event_queue d @ rows"
    and fresh: "keyed e_id (event_queue d) \<longrightarrow> keyed e_id (event_queue d')"
    and rows: "list_all (\<lambda>r. e_workspace_id r = ws \<and> is_pending r \<and> envelope_ok r) rows"
    and ids: "map w_id (workspaces d') = map w_id (workspaces d)"
    and seqs: "\<forall>k. map_option w_sequence (find_workspace k d') =
          map_option (\<lambda>w. w_sequence w + (if k = ws then int (length rows) else 0)) (find_workspace k d)"
    by (rule appendsE)
  show wk: "keyed w_id (workspaces d')"
    using find_workspace_same_ids(1) [OF ids] queue_okD(1) [OF ok] by simp
  show "keyed e_id (event_queue d')"
    using fresh queue_okD(2) [OF ok] by (rule mp)
  show "keyed event_slot (event_queue d')"
  proof -
    have "distinct (map snd (map event_slot rows))"
      using numbered_sorted [OF num] by (simp add: strict_sorted_iff comp_def)
    then have "keyed event_slot rows"
      unfolding keyed_def using distinct_map [of snd "map event_slot rows"] by blast
    moreover have "event_slot ` set (event_queue d) \<inter> event_slot ` set rows = {}"
      using queue_okD(5) [OF ok w] numbered_range [OF num] rows by (force simp: list_all_iff)
    ultimately show ?thesis
      using queue_okD(3) [OF ok] by (simp add: keyed_def queue)
  qed
  show "list_all envelope_ok (event_queue d')"
    using queue_okD(4) [OF ok] rows by (auto simp: queue list_all_iff)
  fix v e assume v: "v \<in> set (workspaces d')" and e: "e \<in> set (event_queue d')" and same: "e_workspace_id e = w_id v"
  have "find_workspace (w_id v) d' = Some v"
    using v wk by (simp add: find_workspace_def t_get_Some)
  with spec [OF seqs, of "w_id v"] obtain u where u: "find_workspace (w_id v) d = Some u"
    "w_sequence v = w_sequence u + (if w_id v = ws then int (length rows) else 0)"
    by (cases "find_workspace (w_id v) d") auto
  show "e_sequence e \<le> w_sequence v"
  proof (cases "e \<in> set rows")
    case True
    with rows same have "w_id v = ws" by (auto simp: list_all_iff)
    with u w numbered_range [OF num True] show ?thesis by simp
  next
    case False
    with e queue have "e \<in> set (event_queue d)" by simp
    from queue_okD(5) [OF ok u(1) this same] u(2) show ?thesis by simp
  qed
qed

section \<open>Publishing order\<close>

lemma sort_key_append_sorted:
  fixes f :: "'a \<Rightarrow> 'k :: linorder"
  assumes "sorted (map f ys)" and "\<And>x y. x \<in> set xs \<Longrightarrow> y \<in> set ys \<Longrightarrow> f x < f y"
  shows "sort_key f (xs @ ys) = sort_key f xs @ ys"
proof (rule properties_for_sort_key)
  show "mset (sort_key f xs @ ys) = mset (xs @ ys)" by simp
  show "sorted (map f (sort_key f xs @ ys))"
    using assms by (fastforce simp: sorted_append)
  have "(\<lambda>y. f k = f y) = (\<lambda>y. f y = f k)" for k by auto
  then show "filter (\<lambda>y. f k = f y) (sort_key f xs @ ys) = filter (\<lambda>y. f k = f y) (xs @ ys)" for k
    by (simp only: filter_append sort_key_stable)
qed

text \<open>The pending events of one workspace, in the order they are published.\<close>

definition pending_of :: "string \<Rightarrow> db \<Rightarrow> queue_event list" where
  "pending_of ws d = filter (\<lambda>q. q_workspace_id q = ws) (Pending d)"

lemma pending_of_alt:
  "pending_of ws d = map queue_event_of (sort_key event_slot (filter (\<lambda>r. is_pending r \<and> e_workspace_id r = ws) (event_queue d)))"
  by (simp add: pending_of_def Pending_def filter_map comp_def queue_event_of_def filter_sort conj_commute)

lemma appends_pending_of:
  assumes ok: "queue_ok d" and app: "appends ws rows d d'"
  shows "pending_of k d' = pending_of k d @ (if k = ws then map queue_event_of rows else [])"
proof -
  from app obtain w where w: "find_workspace ws d = Some w" and num: "numbered (w_sequence w) rows"
    and queue: "event_queue d' = event_queue d @ rows"
    and fresh: "keyed e_id (event_queue d) \<longrightarrow> keyed e_id (event_queue d')"
    and rows: "list_all (\<lambda>r. e_workspace_id r = ws \<and> is_pending r \<and> envelope_ok r) rows"
    and ids: "map w_id (workspaces d') = map w_id (workspaces d)"
    and seqs: "\<forall>k. map_option w_sequence (find_workspace k d') =
          map_option (\<lambda>w. w_sequence w + (if k = ws then int (length rows) else 0)) (find_workspace k d)"
    by (rule appendsE)
  let ?P = "\<lambda>r. is_pending r \<and> e_workspace_id r = k"
  show ?thesis
  proof (cases "k = ws")
    case False
    with rows have "filter ?P rows = []" by (auto simp: filter_empty_conv list_all_iff)
    with False show ?thesis by (simp add: pending_of_alt queue)
  next
    case True
    with rows have all: "filter ?P rows = rows" by (simp add: list_all_iff)
    have "sorted (map event_slot rows)"
      using rows numbered_sorted [OF num] by (auto simp: sorted_wrt_map list_all_iff elim!: sorted_wrt_mono_rel [rotated])
    moreover have "event_slot x < event_slot y" if "x \<in> set (filter ?P (event_queue d))" "y \<in> set rows" for x y
      using that rows True queue_okD(5) [OF ok w, of x] numbered_range [OF num, of y] by (auto simp: list_all_iff)
    ultimately have "sort_key event_slot (filter ?P (event_queue d) @ rows) =
        sort_key event_slot (filter ?P (event_queue d)) @ rows"
      by (rule sort_key_append_sorted)
    with all True show ?thesis
      by (simp add: pending_of_alt queue)
  qed
qed

locale producer =
  fixes ws :: string
    and op :: "db \<Rightarrow> ('r \<times> db) result"
  assumes op_appends: "op d = Inr (r, d') \<Longrightarrow> d' = d \<or> (\<exists>rows. appends ws rows d d')"
begin

lemma keeps_queue_ok: "queue_ok d \<Longrightarrow> op d = Inr (r, d') \<Longrightarrow> queue_ok d'"
  using op_appends appends_queue_ok by blast

lemma publishes_in_order:
  "queue_ok d \<Longrightarrow> op d = Inr (r, d') \<Longrightarrow>
     \<exists>new. pending_of ws d' = pending_of ws d @ new \<and> (\<forall>k. k \<noteq> ws \<longrightarrow> pending_of k d' = pending_of k d)"
  using op_appends [of d r d'] appends_pending_of [of d ws _ d'] by fastforce

end

section \<open>The producers of the store\<close>

text \<open>The rows the common insertion loop writes.\<close>

fun event_rows :: "workspace_row \<Rightarrow> string \<Rightarrow> int \<Rightarrow> (string \<times> string \<times> json) list \<Rightarrow> int \<Rightarrow> event_row list" where
  "event_rows w source now [] seq = []"
| "event_rows w source now ((eid, kind, payload) # es) seq =
     event_row_of w eid (seq + 1) now source kind payload # event_rows w source now es (seq + 1)"

lemma length_event_rows [simp]: "length (event_rows w source now es seq) = length es"
  by (induction w source now es seq rule: event_rows.induct) auto

lemma event_row_of_sel [simp]:
  "e_id (event_row_of w eid seq now source kind payload) = eid"
  "e_workspace_id (event_row_of w eid seq now source kind payload) = w_id w"
  "e_sequence (event_row_of w eid seq now source kind payload) = seq"
  "e_kind (event_row_of w eid seq now source kind payload) = kind"
  "is_pending (event_row_of w eid seq now source kind payload)"
  "envelope_ok (event_row_of w eid seq now source kind payload)"
  by (simp_all add: event_row_of_def is_pending_def envelope_ok_def envelope_def)

lemma event_rows_ok:
  "numbered seq (event_rows w source now es seq)"
  "list_all (\<lambda>r. e_workspace_id r = w_id w \<and> is_pending r \<and> envelope_ok r) (event_rows w source now es seq)"
  "map e_id (event_rows w source now es seq) = map fst es"
  by (induction w source now es seq rule: event_rows.induct) (auto simp: numbered_Cons)

lemma insert_event_Inr:
  "insert_event r d = Inr d' \<longleftrightarrow>
     d' = d\<lparr>event_queue := event_queue d @ [r]\<rparr> \<and> (\<forall>x \<in> set (event_queue d). \<not> event_clash r x)"
  by (auto simp: insert_event_def t_insert_Some split: option.splits) (auto simp: t_insert_def split: if_splits)

lemma insert_events_Inr:
  assumes "insert_events w source now es seq d = Inr d'"
  shows "d' = d\<lparr>event_queue := event_queue d @ event_rows w source now es seq\<rparr>"
  using assms
  by (induction w source now es seq d rule: insert_events.induct) (force simp: insert_event_Inr)+

lemma insert_events_fresh:
  assumes "insert_events w source now es seq d = Inr d'" and "keyed e_id (event_queue d)"
  shows "keyed e_id (event_queue d')"
  using assms
proof (induction w source now es seq d rule: insert_events.induct)
  case (2 w source now eid kind payload es seq d)
  from 2(2) obtain d1 where d1: "insert_event (event_row_of w eid (seq + 1) now source kind payload) d = Inr d1"
    "insert_events w source now es (seq + 1) d1 = Inr d'"
    by auto
  then have "keyed e_id (event_queue d1)"
    using 2(3) by (auto simp: insert_event_Inr keyed_snoc event_clash_def)
  from 2(1) [OF d1(2) this] show ?case .
qed simp

text \<open>The loop cannot be refused when the event ids are new and the sequence is the workspace's.\<close>

lemma insert_events_total:
  assumes "distinct (map fst es)" and "\<forall>x \<in> set (event_queue d). e_id x \<notin> fst ` set es"
    and "\<forall>x \<in> set (event_queue d). e_workspace_id x = w_id w \<longrightarrow> e_sequence x \<le> seq"
  shows "insert_events w source now es seq d = Inr (d\<lparr>event_queue := event_queue d @ event_rows w source now es seq\<rparr>)"
  using assms
proof (induction w source now es seq d rule: insert_events.induct)
  case (2 w source now eid kind payload es seq d)
  let ?r = "event_row_of w eid (seq + 1) now source kind payload"
  have ins: "insert_event ?r d = Inr (d\<lparr>event_queue := event_queue d @ [?r]\<rparr>)"
    using 2(3,4) by (force simp: insert_event_Inr event_clash_def)
  moreover have "insert_events w source now es (seq + 1) (d\<lparr>event_queue := event_queue d @ [?r]\<rparr>) =
      Inr (d\<lparr>event_queue := event_queue d @ [?r] @ event_rows w source now es (seq + 1)\<rparr>)"
    using 2(1) [of "d\<lparr>event_queue := event_queue d @ [?r]\<rparr>"] 2(2-4) by force
  ultimately show ?case by simp
qed simp

lemma find_update_workspace:
  assumes "\<And>r. w_id (f r) = w_id r"
  shows "find_workspace k (update_workspace ws f d) =
    (if k = ws then map_option f (find_workspace k d) else find_workspace k d)"
proof -
  have "find_workspace k (update_workspace ws f d) =
      map_option (\<lambda>x. if w_id x = ws then f x else x) (find_workspace k d)"
    by (simp add: find_workspace_def update_workspace_def t_get_update assms)
  then show ?thesis
    by (cases "find_workspace k d") (auto simp: find_workspace_def dest: t_get_SomeD)
qed

lemma update_workspace_sel [simp]:
  "event_queue (update_workspace ws f d) = event_queue d"
  "manifests (update_workspace ws f d) = manifests d"
  "idempotency_keys (update_workspace ws f d) = idempotency_keys d"
  "cursors (update_workspace ws f d) = cursors d"
  by (simp_all add: update_workspace_def)

lemma find_workspace_id: "find_workspace ws d = Some w \<Longrightarrow> w_id w = ws"
  by (auto simp: find_workspace_def dest: t_get_SomeD)

lemma find_workspace_cong: "workspaces d' = workspaces d \<Longrightarrow> find_workspace k d' = find_workspace k d"
  by (simp add: find_workspace_def)

text \<open>The common shape of the three producers.\<close>

lemma producer_appends:
  assumes w: "find_workspace ws d = Some w"
    and ins: "insert_events w source now es (w_sequence w) d1 = Inr d2"
    and same: "event_queue d1 = event_queue d" "workspaces d1 = workspaces d"
    and f: "\<And>r. w_id (f r) = w_id r" "\<And>r. w_sequence (f r) = w_sequence w + int (length es)"
    and d': "event_queue d' = event_queue d2" "workspaces d' = workspaces (update_workspace ws f d2)"
  shows "appends ws (event_rows w source now es (w_sequence w)) d d'"
proof -
  note spec = insert_events_Inr [OF ins] insert_events_fresh [OF ins]
  have d2: "event_queue d2 = event_queue d @ event_rows w source now es (w_sequence w)" "workspaces d2 = workspaces d"
    using spec(1) same by simp_all
  have find: "find_workspace k d' = (if k = ws then map_option f (find_workspace k d) else find_workspace k d)" for k
    using find_update_workspace [OF f(1), of k ws d2] d2(2) d'(2)
    by (simp add: find_workspace_def)
  show ?thesis
    unfolding appends_def
  proof (intro conjI allI)
    show "event_queue d' = event_queue d @ event_rows w source now es (w_sequence w)"
      using d2 d' by simp
    show "keyed e_id (event_queue d) \<longrightarrow> keyed e_id (event_queue d')"
      using spec(2) same(1) d'(1) by metis
    show "\<exists>v. find_workspace ws d = Some v \<and> numbered (w_sequence v) (event_rows w source now es (w_sequence w))"
      using w event_rows_ok(1) by blast
    show "list_all (\<lambda>r. e_workspace_id r = ws \<and> is_pending r \<and> envelope_ok r) (event_rows w source now es (w_sequence w))"
      using event_rows_ok(2) [of w source now es "w_sequence w"] find_workspace_id [OF w] by simp
    show "map w_id (workspaces d') = map w_id (workspaces d)"
      using d' d2 f(1) by (simp add: update_workspace_def map_key_update)
    show "map_option w_sequence (find_workspace k d') = map_option (\<lambda>v. w_sequence v +
        (if k = ws then int (length (event_rows w source now es (w_sequence w))) else 0)) (find_workspace k d)" for k
      using find [of k] w f(2) by (cases "k = ws") (simp_all add: option.map_ident)
  qed
qed

lemma EnqueueEvent_appends:
  assumes "EnqueueEvent ws eid source kind payload now d = Inr d'"
  shows "\<exists>w. find_workspace ws d = Some w \<and>
    appends ws (event_rows w source now [(eid, kind, payload)] (w_sequence w)) d d'"
proof -
  from assms obtain w d1 where w: "find_workspace ws d = Some w"
    and ins: "insert_events w source now [(eid, kind, payload)] (w_sequence w) d = Inr d1"
    and d': "d' = update_workspace ws (\<lambda>r. r\<lparr>w_sequence := w_sequence w + 1\<rparr>) d1"
    by (auto simp: EnqueueEvent_def split: option.splits)
  show ?thesis
    using producer_appends [OF w ins, where f = "\<lambda>r. r\<lparr>w_sequence := w_sequence w + 1\<rparr>" and d' = d'] w d' by simp
qed

lemma insert_manifest_Inr:
  "insert_manifest r d = Inr d' \<longleftrightarrow>
     d' = d\<lparr>manifests := manifests d @ [r]\<rparr> \<and> (\<forall>x \<in> set (manifests d). \<not> manifest_clash r x)"
  by (auto simp: insert_manifest_def t_insert_Some split: option.splits) (auto simp: t_insert_def split: if_splits)

lemma PublishManifest_call:
  assumes "PublishManifest p now d = Inr (revision, d')"
  obtains w d1 d2 where "find_workspace (mp_workspace_id p) d = Some w" "length (mp_entries p) \<le> 100000"
    "revision = w_revision w + 1"
    "d1 = d\<lparr>manifests := t_update (\<lambda>m. m_workspace_id m = mp_workspace_id p) (\<lambda>m. m\<lparr>m_active := False\<rparr>) (manifests d) @
       [\<lparr>m_workspace_id = mp_workspace_id p, m_revision = revision, m_manifest_id = mp_manifest_id p,
         m_workstream_id = w_workstream_id w, m_baseline_ref = mp_baseline p, m_head_ref = mp_head p,
         m_content_hash = mp_hash p, m_path_count = length (mp_entries p), m_entries = mp_entries p, m_active = True\<rparr>]\<rparr>"
    "\<forall>m \<in> set (manifests d). m_workspace_id m = mp_workspace_id p \<longrightarrow> m_revision m \<noteq> revision"
    "insert_events w ''git'' now (manifest_events p (w_workstream_id w) revision) (w_sequence w) d1 = Inr d2"
    "d' = update_workspace (mp_workspace_id p) (\<lambda>r. r\<lparr>w_revision := revision,
       w_sequence := w_sequence w + int (length (manifest_events p (w_workstream_id w) revision))\<rparr>) d2"
proof -
  from assms obtain w d1 d2 where w: "find_workspace (mp_workspace_id p) d = Some w" "length (mp_entries p) \<le> 100000"
      "revision = w_revision w + 1"
    and ins: "insert_manifest \<lparr>m_workspace_id = mp_workspace_id p, m_revision = revision, m_manifest_id = mp_manifest_id p,
         m_workstream_id = w_workstream_id w, m_baseline_ref = mp_baseline p, m_head_ref = mp_head p,
         m_content_hash = mp_hash p, m_path_count = length (mp_entries p), m_entries = mp_entries p, m_active = True\<rparr>
       (d\<lparr>manifests := t_update (\<lambda>m. m_workspace_id m = mp_workspace_id p) (\<lambda>m. m\<lparr>m_active := False\<rparr>) (manifests d)\<rparr>)
       = Inr d1"
    and rest: "insert_events w ''git'' now (manifest_events p (w_workstream_id w) revision) (w_sequence w) d1 = Inr d2"
      "d' = update_workspace (mp_workspace_id p) (\<lambda>r. r\<lparr>w_revision := revision,
       w_sequence := w_sequence w + int (length (manifest_events p (w_workstream_id w) revision))\<rparr>) d2"
    by (auto simp: PublishManifest_def Let_def split: option.splits if_splits)
  have "m_revision m \<noteq> revision" if "m \<in> set (manifests d)" "m_workspace_id m = mp_workspace_id p" for m
  proof -
    have "m\<lparr>m_active := False\<rparr> \<in> set (t_update (\<lambda>m. m_workspace_id m = mp_workspace_id p)
        (\<lambda>m. m\<lparr>m_active := False\<rparr>) (manifests d))"
      using that by (auto intro!: rev_image_eqI [OF that(1)])
    with ins that(2) show ?thesis
      by (auto simp: insert_manifest_Inr manifest_clash_def simp del: set_t_update)
  qed
  with ins show ?thesis
    by (intro that [OF w _ _ rest]) (simp_all add: insert_manifest_Inr)
qed

lemma PublishManifest_appends:
  assumes "PublishManifest p now d = Inr (revision, d')"
  shows "\<exists>w. find_workspace (mp_workspace_id p) d = Some w \<and> appends (mp_workspace_id p)
    (event_rows w ''git'' now (manifest_events p (w_workstream_id w) revision) (w_sequence w)) d d'"
proof -
  from assms show ?thesis
  proof (cases rule: PublishManifest_call)
    case (1 w d1 d2)
    let ?f = "\<lambda>r. r\<lparr>w_revision := revision,
       w_sequence := w_sequence w + int (length (manifest_events p (w_workstream_id w) revision))\<rparr>"
    show ?thesis
      using producer_appends [OF 1(1) 1(6), where f = ?f and d' = d'] 1 by auto
  qed
qed

lemma publish_lifecycle_new_call:
  assumes "publish_lifecycle_new p now d = Inr (revision, duplicate, d')"
  obtains w d1 where "find_workspace (lp_workspace_id p) d = Some w" "\<not> duplicate"
    "next_intent_revision p (w_intent_revision w) = Inr revision"
    "insert_events w (lp_source p) now (lifecycle_rows p now) (w_sequence w) d = Inr d1"
    "(lp_workspace_id p, lp_method p, lp_key p) \<notin> idempotency_key ` set (idempotency_keys d)"
    "d' = update_workspace (lp_workspace_id p)
       (\<lambda>r. r\<lparr>w_sequence := w_sequence w + int (length (lifecycle_events p)), w_intent_revision := revision\<rparr>)
       (d1\<lparr>idempotency_keys := idempotency_keys d @ [\<lparr>i_workspace_id = lp_workspace_id p, i_method = lp_method p,
          i_key = lp_key p, i_request_hash = request_hash p, i_response_revision = revision, i_created_at = unix_sec now\<rparr>]\<rparr>)"
proof -
  from assms obtain w d1 where w: "find_workspace (lp_workspace_id p) d = Some w"
    and r: "next_intent_revision p (w_intent_revision w) = Inr revision"
    and d1: "insert_events w (lp_source p) now (lifecycle_rows p now) (w_sequence w) d = Inr d1"
    by (auto simp: publish_lifecycle_new_def split: option.splits)
  have "idempotency_keys d1 = idempotency_keys d"
    using insert_events_Inr [OF d1] by simp
  with assms w r d1 show ?thesis
    by (intro that [OF w _ r d1])
      (auto simp: publish_lifecycle_new_def Let_def insert_idempotency_def idempotency_clash_def t_insert_def
        update_workspace_def split: option.splits if_splits)
qed

lemma length_lifecycle_rows [simp]: "length (lifecycle_rows p now) = length (lifecycle_events p)"
  by (simp add: lifecycle_rows_def)

lemma publish_lifecycle_new_appends:
  assumes "publish_lifecycle_new p now d = Inr (revision, duplicate, d')"
  shows "\<exists>w. find_workspace (lp_workspace_id p) d = Some w \<and> appends (lp_workspace_id p)
    (event_rows w (lp_source p) now (lifecycle_rows p now) (w_sequence w)) d d'"
proof -
  from assms show ?thesis
  proof (cases rule: publish_lifecycle_new_call)
    case (1 w d1)
    let ?f = "\<lambda>r. r\<lparr>w_sequence := w_sequence w + int (length (lifecycle_events p)), w_intent_revision := revision\<rparr>"
    show ?thesis
      using producer_appends [OF 1(1) 1(4), where f = ?f and d' = d'] 1 by (auto simp: update_workspace_def)
  qed
qed

interpretation enqueue_event: producer ws "\<lambda>d. map_sum id (Pair ()) (EnqueueEvent ws eid source kind payload now d)"
  for ws eid source kind payload now
proof unfold_locales
  fix d r d'
  assume "map_sum id (Pair ()) (EnqueueEvent ws eid source kind payload now d) = Inr (r, d')"
  then have "EnqueueEvent ws eid source kind payload now d = Inr d'"
    by (cases "EnqueueEvent ws eid source kind payload now d") auto
  from EnqueueEvent_appends [OF this] show "d' = d \<or> (\<exists>rows. appends ws rows d d')" by blast
qed

interpretation publish_manifest: producer "mp_workspace_id p" "PublishManifest p now" for p now
  by unfold_locales (use PublishManifest_appends in blast)

interpretation publish_lifecycle: producer "lp_workspace_id p" "\<lambda>d. map_sum id (\<lambda>(r, dup, d'). ((r, dup), d')) (PublishLifecycle p now d)"
  for p now
proof unfold_locales
  fix d d' :: db and r
  assume "map_sum id (\<lambda>(r, dup, d'). ((r, dup), d')) (PublishLifecycle p now d) = Inr (r, d')"
  then obtain revision dup where "PublishLifecycle p now d = Inr (revision, dup, d')"
    by (cases "PublishLifecycle p now d") auto
  then have "d' = d \<or> publish_lifecycle_new p now d = Inr (revision, dup, d')"
    by (auto simp: PublishLifecycle_def split: if_splits option.splits)
  then show "d' = d \<or> (\<exists>rows. appends (lp_workspace_id p) rows d d')"
    using publish_lifecycle_new_appends by blast
qed

end
