(* ===== verification/Store_Machine.thy ===== *)
theory Store_Machine
  imports Store_Producers
begin

text \<open>
  The durable store as a state machine: every operation of \<^verbatim>\<open>internal/store/store.go\<close> on workspaces
  and events is a step, and every state reachable from the empty database satisfies the
  invariant the SQL constraints and the callers rely on: identities are unique, at most one
  manifest of a workspace is active, and no event, manifest or cursor runs ahead of its
  workspace's counters.
\<close>

section \<open>The store as a state machine\<close>

abbreviation manifest_key :: "manifest_row \<Rightarrow> string \<times> int" where
  "manifest_key m \<equiv> (m_workspace_id m, m_revision m)"

definition store_ok :: "db \<Rightarrow> bool" where
  "store_ok d \<longleftrightarrow> queue_ok d \<and> keyed w_root (workspaces d) \<and> keyed manifest_key (manifests d)
     \<and> keyed m_workspace_id (filter m_active (manifests d))
     \<and> keyed idempotency_key (idempotency_keys d) \<and> keyed c_workspace_id (cursors d)
     \<and> (\<forall>w \<in> set (workspaces d).
          (\<forall>m \<in> set (manifests d). m_workspace_id m = w_id w \<longrightarrow> m_revision m \<le> w_revision w)
        \<and> (\<forall>c \<in> set (cursors d). c_workspace_id c = w_id w \<longrightarrow> c_last_acked_sequence c \<le> w_sequence w))"

text \<open>
  An enrollment names a registered workspace or an id that was never used: the ids are drawn at
  random (\<^verbatim>\<open>opaqueID\<close> of \<^verbatim>\<open>internal/onboarding/onboarding.go\<close>).
\<close>

definition known_or_new :: "string \<Rightarrow> db \<Rightarrow> bool" where
  "known_or_new ws d \<longleftrightarrow> ws \<in> w_id ` set (workspaces d)
     \<or> ws \<notin> e_workspace_id ` set (event_queue d) \<and> ws \<notin> m_workspace_id ` set (manifests d)
       \<and> ws \<notin> c_workspace_id ` set (cursors d)"

inductive store_step :: "db \<Rightarrow> db \<Rightarrow> bool" where
  upsert: "known_or_new (w_id w) d \<Longrightarrow> UpsertWorkspace w now d = Inr d' \<Longrightarrow> store_step d d'"
| rebind: "RebindWorkspace ws device backend d = Inr d' \<Longrightarrow> store_step d d'"
| forget: "DeleteWorkspace ws d = Inr d' \<Longrightarrow> store_step d d'"
| pause: "SetPaused ws p d = Inr d' \<Longrightarrow> store_step d d'"
| pause_project: "SetProjectPaused project p d = Inr (n, d') \<Longrightarrow> store_step d d'"
| enqueue: "EnqueueEvent ws eid source kind payload now d = Inr d' \<Longrightarrow> store_step d d'"
| manifest: "PublishManifest p now d = Inr (revision, d') \<Longrightarrow> store_step d d'"
| lifecycle: "PublishLifecycle q now d = Inr (revision, duplicate, d') \<Longrightarrow> store_step d d'"
| ack: "Ack eid now d = Inr d' \<Longrightarrow> store_step d d'"
| quarantine: "store_step d (Quarantine eid now d)"
| cleanup: "store_step d (snd (CleanupAcknowledged before d))"

lemma store_okD:
  assumes "store_ok d"
  shows "queue_ok d" "keyed w_root (workspaces d)" "keyed manifest_key (manifests d)"
    "keyed m_workspace_id (filter m_active (manifests d))"
    "keyed idempotency_key (idempotency_keys d)" "keyed c_workspace_id (cursors d)"
    "w \<in> set (workspaces d) \<Longrightarrow> m \<in> set (manifests d) \<Longrightarrow> m_workspace_id m = w_id w \<Longrightarrow> m_revision m \<le> w_revision w"
    "w \<in> set (workspaces d) \<Longrightarrow> c \<in> set (cursors d) \<Longrightarrow> c_workspace_id c = w_id w \<Longrightarrow>
       c_last_acked_sequence c \<le> w_sequence w"
  using assms by (auto simp: store_ok_def)

text \<open>Deleting rows, and updates that keep a row's identity, keep the invariant.\<close>

lemma envelope_ok_cong:
  "e_payload x = e_payload y \<Longrightarrow> e_id x = e_id y \<Longrightarrow> e_workspace_id x = e_workspace_id y \<Longrightarrow>
   e_sequence x = e_sequence y \<Longrightarrow> e_kind x = e_kind y \<Longrightarrow> envelope_ok x = envelope_ok y"
  by (simp add: envelope_ok_def split: blob.split)

lemma filter_t_delete: "filter P (t_delete Q rows) = t_delete Q (filter P rows)"
  by (simp add: t_delete_def conj_commute)

lemma store_ok_weaken:
  assumes ok: "store_ok d"
    and ws: "workspaces d' = t_delete P (t_update P' f (workspaces d))"
      "\<And>w. w_id (f w) = w_id w \<and> w_root (f w) = w_root w \<and> w_sequence (f w) = w_sequence w \<and> w_revision (f w) = w_revision w"
    and eq: "event_queue d' = t_delete Q (t_update Q' g (event_queue d))"
      "\<And>e. e_id (g e) = e_id e \<and> e_workspace_id (g e) = e_workspace_id e \<and> e_sequence (g e) = e_sequence e
        \<and> e_kind (g e) = e_kind e \<and> e_payload (g e) = e_payload e"
    and rest: "manifests d' = t_delete R (manifests d)" "cursors d' = t_delete S (cursors d)"
      "idempotency_keys d' = t_delete T (idempotency_keys d)"
  shows "store_ok d'"
proof -
  note q = store_okD(1) [OF ok, unfolded queue_ok_def]
  have "queue_ok d'"
    unfolding queue_ok_def ws(1) eq(1)
  proof (intro conjI)
    show "keyed w_id (t_delete P (t_update P' f (workspaces d)))"
      using q ws(2) by (simp add: keyed_update)
    show "keyed e_id (t_delete Q (t_update Q' g (event_queue d)))"
      "keyed event_slot (t_delete Q (t_update Q' g (event_queue d)))"
      using q eq(2) by (simp_all add: keyed_update)
    show "list_all envelope_ok (t_delete Q (t_update Q' g (event_queue d)))"
      using q eq(2) by (auto simp: list_all_iff cong: envelope_ok_cong)
    show "\<forall>w\<in>set (t_delete P (t_update P' f (workspaces d))). \<forall>e\<in>set (t_delete Q (t_update Q' g (event_queue d))).
        e_workspace_id e = w_id w \<longrightarrow> e_sequence e \<le> w_sequence w"
      using q ws(2) eq(2) by auto
  qed
  moreover have "keyed w_root (workspaces d')"
    using store_okD(2) [OF ok] ws(2) by (simp add: ws(1) keyed_update)
  ultimately show ?thesis
    using store_okD(3-8) [OF ok] ws(2) by (auto simp: store_ok_def ws(1) rest filter_t_delete)
qed

lemma t_no_rows [simp]: "t_delete (\<lambda>x. False) rows = rows" "t_update (\<lambda>x. False) f rows = rows"
  by (simp_all add: t_delete_def t_update_def)

lemma store_ok_rebind: "store_ok d \<Longrightarrow> RebindWorkspace ws device backend d = Inr d' \<Longrightarrow> store_ok d'"
  by (erule store_ok_weaken [where P = "\<lambda>x. False" and P' = "\<lambda>r. w_id r = ws"
      and f = "\<lambda>r. r\<lparr>w_device_id := device, w_backend_id := backend, w_registration_enqueued := False\<rparr>"
      and Q' = "\<lambda>x. False" and Q = "\<lambda>e. e_workspace_id e = ws" and g = id and R = "\<lambda>x. False"
      and S = "\<lambda>c. c_workspace_id c = ws" and T = "\<lambda>x. False"])
    (auto simp: RebindWorkspace_def Let_def update_workspace_def split: if_splits)

lemma store_ok_delete: "store_ok d \<Longrightarrow> DeleteWorkspace ws d = Inr d' \<Longrightarrow> store_ok d'"
  by (erule store_ok_weaken [where P = "\<lambda>r. w_id r = ws" and P' = "\<lambda>x. False" and f = id
      and Q' = "\<lambda>x. False" and Q = "\<lambda>e. e_workspace_id e = ws" and g = id and R = "\<lambda>m. m_workspace_id m = ws"
      and S = "\<lambda>c. c_workspace_id c = ws" and T = "\<lambda>r. i_workspace_id r = ws"])
    (auto simp: DeleteWorkspace_def split: if_splits)

lemma store_ok_pause: "store_ok d \<Longrightarrow> SetPaused ws p d = Inr d' \<Longrightarrow> store_ok d'"
  by (erule store_ok_weaken [where P = "\<lambda>x. False" and P' = "\<lambda>r. w_id r = ws" and f = "\<lambda>r. r\<lparr>w_paused := p\<rparr>"
      and Q' = "\<lambda>x. False" and Q = "\<lambda>x. False" and g = id and R = "\<lambda>x. False" and S = "\<lambda>x. False" and T = "\<lambda>x. False"])
    (auto simp: SetPaused_def update_workspace_def split: if_splits)

lemma store_ok_pause_project: "store_ok d \<Longrightarrow> SetProjectPaused project p d = Inr (n, d') \<Longrightarrow> store_ok d'"
  by (erule store_ok_weaken [where P = "\<lambda>x. False" and P' = "\<lambda>r. w_project_id r = project" and f = "\<lambda>r. r\<lparr>w_paused := p\<rparr>"
      and Q' = "\<lambda>x. False" and Q = "\<lambda>x. False" and g = id and R = "\<lambda>x. False" and S = "\<lambda>x. False" and T = "\<lambda>x. False"])
    (auto simp: SetProjectPaused_def split: if_splits)

lemma store_ok_quarantine: "store_ok d \<Longrightarrow> store_ok (Quarantine eid now d)"
  by (erule store_ok_weaken [where P = "\<lambda>x. False" and P' = "\<lambda>x. False" and f = id
      and Q' = "\<lambda>x. e_id x = eid \<and> e_acked_at x = None" and g = "\<lambda>x. x\<lparr>e_quarantined_at := Some (unix_sec now)\<rparr>"
      and Q = "\<lambda>x. False" and R = "\<lambda>x. False" and S = "\<lambda>x. False" and T = "\<lambda>x. False"])
    (auto simp: Quarantine_def)

lemma store_ok_cleanup: "store_ok d \<Longrightarrow> store_ok (snd (CleanupAcknowledged before d))"
  by (erule store_ok_weaken [where P = "\<lambda>x. False" and P' = "\<lambda>x. False" and f = id and Q' = "\<lambda>x. False" and g = id
      and Q = "\<lambda>r. case e_acked_at r of None \<Rightarrow> False | Some t \<Rightarrow> t < unix_sec before"
      and R = "\<lambda>x. False" and S = "\<lambda>x. False" and T = "\<lambda>x. False"])
    (auto simp: CleanupAcknowledged_def Let_def)

lemma store_ok_ack:
  assumes ok: "store_ok d" and call: "Ack eid now d = Inr d'"
  shows "store_ok d'"
proof -
  from call obtain r where r: "r \<in> set (event_queue d)" "e_id r = eid"
    and d': "d' = d\<lparr>event_queue := t_update (\<lambda>x. e_id x = eid) (\<lambda>x. x\<lparr>e_acked_at := Some (unix_sec now)\<rparr>) (event_queue d),
      cursors := t_upsert c_workspace_id merge_cursor
            \<lparr>c_workspace_id = e_workspace_id r, c_last_acked_sequence = e_sequence r\<rparr> (cursors d)\<rparr>"
    by (auto simp: Ack_def split: option.splits dest: t_get_SomeD)
  let ?d = "d\<lparr>event_queue := t_update (\<lambda>x. e_id x = eid) (\<lambda>x. x\<lparr>e_acked_at := Some (unix_sec now)\<rparr>) (event_queue d)\<rparr>"
  have okd: "store_ok ?d"
    by (rule store_ok_weaken [OF ok, where P = "\<lambda>x. False" and P' = "\<lambda>x. False" and f = id
      and Q' = "\<lambda>x. e_id x = eid" and g = "\<lambda>x. x\<lparr>e_acked_at := Some (unix_sec now)\<rparr>"
      and Q = "\<lambda>x. False" and R = "\<lambda>x. False" and S = "\<lambda>x. False" and T = "\<lambda>x. False"]) auto
  have bound: "e_sequence r \<le> w_sequence w" if "w \<in> set (workspaces d)" "w_id w = e_workspace_id r" for w
    using store_okD(1) [OF ok] that r by (auto simp: queue_ok_def)
  have "c_last_acked_sequence c \<le> w_sequence w"
    if "c \<in> set (cursors d')" "w \<in> set (workspaces d)" "c_workspace_id c = w_id w" for c w
  proof (cases "c_workspace_id c = e_workspace_id r")
    case False
    with that d' have "c \<in> set (cursors d)"
      using cur_tab.set_upsert_other [of c] by fastforce
    with store_okD(8) [OF ok] that show ?thesis by blast
  next
    case True
    with that bound have "e_sequence r \<le> w_sequence w" by simp
    with that True store_okD(8) [OF ok that(2)] d' show ?thesis
      by (auto simp: t_upsert_def merge_cursor_def split: if_splits)
  qed
  moreover have "keyed c_workspace_id (cursors d')"
    using store_okD(6) [OF ok] d' by (simp add: cur_tab.keyed_upsert)
  ultimately show ?thesis
    using okd unfolding d' by (simp add: store_ok_def queue_ok_def)
qed

lemma appends_sequence:
  assumes "appends ws rows d d'" and "find_workspace k d' = Some w'"
  shows "\<exists>u. find_workspace k d = Some u \<and> w_sequence w' = w_sequence u + (if k = ws then int (length rows) else 0)"
proof -
  from assms(1) have "map_option w_sequence (find_workspace k d') =
      map_option (\<lambda>w. w_sequence w + (if k = ws then int (length rows) else 0)) (find_workspace k d)"
    by (rule appendsE) (erule spec)
  with assms(2) show ?thesis
    by (cases "find_workspace k d") simp_all
qed

lemma store_ok_produce:
  assumes ok: "store_ok d" and app: "appends ws rows d d'"
    and ws: "workspaces d' = t_update (\<lambda>r. w_id r = ws) f (workspaces d)" "\<And>r. w_id (f r) = w_id r \<and> w_root (f r) = w_root r"
    and man: "keyed manifest_key (manifests d')" "keyed m_workspace_id (filter m_active (manifests d'))"
      "\<And>w m. w \<in> set (workspaces d) \<Longrightarrow> m \<in> set (manifests d') \<Longrightarrow> m_workspace_id m = w_id w \<Longrightarrow>
         m_revision m \<le> w_revision (if w_id w = ws then f w else w)"
    and rest: "cursors d' = cursors d" "keyed idempotency_key (idempotency_keys d')"
  shows "store_ok d'"
proof -
  have q: "queue_ok d'"
    using appends_queue_ok [OF store_okD(1) [OF ok] app] .
  have "c_last_acked_sequence c \<le> w_sequence w"
    if w: "w \<in> set (workspaces d')" and c: "c \<in> set (cursors d')" "c_workspace_id c = w_id w" for w c
  proof -
    have "find_workspace (w_id w) d' = Some w"
      using w queue_okD(1) [OF q] by (simp add: find_workspace_def t_get_Some)
    from appends_sequence [OF app this] obtain u where u: "find_workspace (w_id w) d = Some u"
      "w_sequence w = w_sequence u + (if w_id w = ws then int (length rows) else 0)" by blast
    then have "u \<in> set (workspaces d)" "w_id u = w_id w"
      by (auto simp: find_workspace_def dest: t_get_SomeD)
    with store_okD(8) [OF ok, of u c] c rest(1) have "c_last_acked_sequence c \<le> w_sequence u" by simp
    then show ?thesis unfolding u(2) by simp
  qed
  moreover have "m_revision m \<le> w_revision w"
    if "w \<in> set (workspaces d')" "m \<in> set (manifests d')" "m_workspace_id m = w_id w" for w m
  proof -
    from that(1) obtain u where u: "u \<in> set (workspaces d)" "w = (if w_id u = ws then f u else u)"
      by (auto simp only: ws(1) set_t_update)
    then have "w_id w = w_id u" using ws(2) by simp
    with that(3) have "m_workspace_id m = w_id u" by (rule trans)
    from man(3) [OF u(1) that(2) this] show ?thesis unfolding u(2) .
  qed
  moreover have "keyed w_root (workspaces d')"
    using store_okD(2) [OF ok] ws(2) by (simp add: ws(1) keyed_update)
  ultimately show ?thesis
    unfolding store_ok_def using q man(1,2) rest(2) store_okD(6) [OF ok, folded rest(1)] by blast
qed

lemma store_ok_enqueue:
  assumes ok: "store_ok d" and call: "EnqueueEvent ws eid source kind payload now d = Inr d'"
  shows "store_ok d'"
proof -
  from EnqueueEvent_appends [OF call] obtain w where app:
    "appends ws (event_rows w source now [(eid, kind, payload)] (w_sequence w)) d d'" by blast
  from call obtain w d1 where "insert_event (event_row_of w eid (w_sequence w + 1) now source kind payload) d = Inr d1"
    and d': "d' = update_workspace ws (\<lambda>r. r\<lparr>w_sequence := w_sequence w + 1\<rparr>) d1"
    by (auto simp: EnqueueEvent_def split: option.splits)
  then have d1: "d1 = d\<lparr>event_queue := event_queue d1\<rparr>" by (simp add: insert_event_Inr)
  have "workspaces d' = t_update (\<lambda>r. w_id r = ws) (\<lambda>r. r\<lparr>w_sequence := w_sequence w + 1\<rparr>) (workspaces d)"
    "manifests d' = manifests d" "cursors d' = cursors d" "idempotency_keys d' = idempotency_keys d"
    by (simp_all add: d' update_workspace_def) (subst d1, simp)+
  with store_okD(3-7) [OF ok] show ?thesis
    by (intro store_ok_produce [OF ok app, where f = "\<lambda>r. r\<lparr>w_sequence := w_sequence w + 1\<rparr>"]) auto
qed

text \<open>Replacing the active manifest of one workspace keeps both keys of the table.\<close>

lemma deactivate_and_add:
  assumes "keyed manifest_key ms" and "keyed m_workspace_id (filter m_active ms)"
    and "\<forall>m \<in> set ms. m_workspace_id m = ws \<longrightarrow> m_revision m \<noteq> revision"
    and "m_workspace_id r = ws" "m_revision r = revision" "m_active r"
  shows "keyed manifest_key (t_update (\<lambda>m. m_workspace_id m = ws) (\<lambda>m. m\<lparr>m_active := False\<rparr>) ms @ [r])"
    and "keyed m_workspace_id (filter m_active (t_update (\<lambda>m. m_workspace_id m = ws) (\<lambda>m. m\<lparr>m_active := False\<rparr>) ms @ [r]))"
proof -
  let ?old = "t_update (\<lambda>m. m_workspace_id m = ws) (\<lambda>m. m\<lparr>m_active := False\<rparr>) ms"
  have keys: "map manifest_key ?old = map manifest_key ms" by (rule map_key_update) simp
  have "manifest_key r \<notin> set (map manifest_key ms)"
    using assms(3-5) by auto
  with assms(1) show "keyed manifest_key (?old @ [r])"
    unfolding keyed_def map_append keys by simp
  have act: "filter m_active ?old = filter m_active (t_delete (\<lambda>m. m_workspace_id m = ws) ms)"
    unfolding t_update_def t_delete_def by (induction ms) auto
  have "ws \<notin> m_workspace_id ` set (filter m_active (t_delete (\<lambda>m. m_workspace_id m = ws) ms))"
    by auto
  with assms(2,4,6) show "keyed m_workspace_id (filter m_active (?old @ [r]))"
    unfolding filter_append act by (simp add: keyed_snoc filter_t_delete)
qed

lemma store_ok_manifest:
  assumes ok: "store_ok d" and call: "PublishManifest p now d = Inr (revision, d')"
  shows "store_ok d'"
proof -
  from PublishManifest_appends [OF call] obtain rows where app: "appends (mp_workspace_id p) rows d d'" by blast
  from call show ?thesis
  proof (cases rule: PublishManifest_call)
    case (1 w d1 d2)
    let ?ws = "mp_workspace_id p"
    let ?f = "\<lambda>r. r\<lparr>w_revision := revision,
       w_sequence := w_sequence w + int (length (manifest_events p (w_workstream_id w) revision))\<rparr>"
    let ?old = "t_update (\<lambda>m. m_workspace_id m = ?ws) (\<lambda>m. m\<lparr>m_active := False\<rparr>) (manifests d)"
    have same: "workspaces d' = t_update (\<lambda>r. w_id r = ?ws) ?f (workspaces d)" "manifests d' = manifests d1"
      "cursors d' = cursors d" "idempotency_keys d' = idempotency_keys d"
      using insert_events_Inr [OF 1(6)] 1(4,7) by (simp_all add: update_workspace_def)
    have w: "w \<in> set (workspaces d)" "w_id w = ?ws"
      using 1(1) by (auto simp: find_workspace_def dest: t_get_SomeD)
    have k1: "keyed manifest_key (manifests d1)" "keyed m_workspace_id (filter m_active (manifests d1))"
      using deactivate_and_add [OF store_okD(3,4) [OF ok] 1(5)] by (simp_all add: 1(4))
    have set_d1: "m_revision m \<le> revision" if "m \<in> set (manifests d1)" "m_workspace_id m = ?ws" for m
      using that store_okD(7) [OF ok w(1)] w(2) by (fastforce simp: 1(3,4))
    have "m_revision m \<le> w_revision (if w_id v = ?ws then ?f v else v)"
      if "v \<in> set (workspaces d)" "m \<in> set (manifests d')" "m_workspace_id m = w_id v" for v m
    proof (cases "w_id v = ?ws")
      case True
      with set_d1 [of m] that same(2) show ?thesis by simp
    next
      case False
      with that same(2) have "m \<in> set (manifests d)" by (auto simp: 1(4))
      with store_okD(7) [OF ok that(1)] that(3) False show ?thesis by simp
    qed
    with k1 same store_okD(5) [OF ok] show ?thesis
      by (intro store_ok_produce [OF ok app, where f = ?f]) auto
  qed
qed

lemma store_ok_lifecycle:
  assumes ok: "store_ok d" and call: "PublishLifecycle p now d = Inr (revision, duplicate, d')"
  shows "store_ok d'"
proof (cases "d' = d")
  case False
  with call have new: "publish_lifecycle_new p now d = Inr (revision, duplicate, d')"
    by (auto simp: PublishLifecycle_def split: if_splits option.splits)
  from publish_lifecycle_new_appends [OF new] obtain rows where app: "appends (lp_workspace_id p) rows d d'" by blast
  from new show ?thesis
  proof (cases rule: publish_lifecycle_new_call)
    case (1 w d1)
    let ?f = "\<lambda>r. r\<lparr>w_sequence := w_sequence w + int (length (lifecycle_events p)), w_intent_revision := revision\<rparr>"
    have "workspaces d' = t_update (\<lambda>r. w_id r = lp_workspace_id p) ?f (workspaces d)" "manifests d' = manifests d"
      "cursors d' = cursors d" "keyed idempotency_key (idempotency_keys d')"
      using insert_events_Inr [OF 1(4)] 1(5) store_okD(5) [OF ok]
      by (simp_all add: 1(6) update_workspace_def keyed_snoc)
    with store_okD(3,4,7) [OF ok] show ?thesis
      by (intro store_ok_produce [OF ok app, where f = ?f]) auto
  qed
qed (use ok in simp)

section \<open>Registration\<close>

text \<open>The workspaces after \<^verbatim>\<open>UpsertWorkspace\<close> removed a dead binding and wrote its row.\<close>

definition enrolled :: "workspace \<Rightarrow> workspace_row list \<Rightarrow> workspace_row list" where
  "enrolled w rows = t_upsert w_id merge_workspace (new_workspace_row w)
     (t_delete (\<lambda>r. w_root r = w_root w \<and> w_id r \<noteq> w_id w) rows)"

lemma new_workspace_row_sel [simp]:
  "w_id (new_workspace_row w) = w_id w" "w_root (new_workspace_row w) = w_root w"
  "w_project_id (new_workspace_row w) = w_project_id w" "w_member_id (new_workspace_row w) = w_member_id w"
  "w_device_id (new_workspace_row w) = w_device_id w" "w_session_id (new_workspace_row w) = w_session_id w"
  "w_sequence (new_workspace_row w) = 0" "w_revision (new_workspace_row w) = w_revision w"
  "w_registration_enqueued (new_workspace_row w) = False"
  by (simp_all add: new_workspace_row_def workspace.defs)

lemma merge_workspace_sel [simp]:
  "w_id (merge_workspace old new) = w_id old" "w_root (merge_workspace old new) = w_root new"
  "w_project_id (merge_workspace old new) = w_project_id new" "w_member_id (merge_workspace old new) = w_member_id new"
  "w_device_id (merge_workspace old new) = w_device_id new" "w_session_id (merge_workspace old new) = w_session_id new"
  "w_sequence (merge_workspace old new) = w_sequence old" "w_revision (merge_workspace old new) = w_revision old"
  "w_registration_enqueued (merge_workspace old new) = w_registration_enqueued old"
  by (simp_all add: merge_workspace_def)

text \<open>\<^verbatim>\<open>UNIQUE(root)\<close> is never violated, so the call comes down to the registration event.\<close>

lemma UpsertWorkspace_unfold:
  "\<exists>d3 row. UpsertWorkspace w now d = enqueue_registration w now row d3 \<and> find_workspace (w_id w) d3 = Some row
     \<and> workspaces d3 = enrolled w (workspaces d) \<and> event_queue d3 = event_queue d \<and> manifests d3 = manifests d
     \<and> cursors d3 = cursors d \<and> idempotency_keys d3 = idempotency_keys d"
proof -
  let ?d2 = "evict_root w (d\<lparr>projects := t_upsert p_id merge_project
       \<lparr>p_id = w_project_id w, p_backend_id = w_backend_id w\<rparr> (projects d)\<rparr>)"
  have row: "upsert_workspace_row w (workspaces ?d2) = Inr (enrolled w (workspaces d))"
    by (auto simp: upsert_workspace_row_def evict_root_def Let_def enrolled_def)
  let ?d3 = "?d2\<lparr>workspaces := enrolled w (workspaces d),
      workstreams := t_upsert s_id merge_workstream \<lparr>s_id = w_workstream_id w, s_project_id = w_project_id w,
        s_workspace_id = w_id w, s_baseline = w_baseline w, s_status = ''active''\<rparr> (workstreams ?d2)\<rparr>"
  obtain r where r: "find_workspace (w_id w) ?d3 = Some r"
    using wsp_tab.get_upsert_same [of "new_workspace_row w"] by (auto simp: find_workspace_def enrolled_def)
  have "UpsertWorkspace w now d = enqueue_registration w now r ?d3"
    unfolding UpsertWorkspace_def Let_def row bindE_simps r by simp
  with r show ?thesis
    by (intro exI [of _ ?d3] exI [of _ r]) (simp add: evict_root_def Let_def)
qed

lemma enrolled_cases:
  assumes "r \<in> set (enrolled w rows)"
  obtains (renewed) u where "u \<in> set rows" "w_id u = w_id w" "r = merge_workspace u (new_workspace_row w)"
    | (other) "r \<in> set rows" "w_id r \<noteq> w_id w" "w_root r \<noteq> w_root w"
    | (fresh) "r = new_workspace_row w" "w_id w \<notin> w_id ` set rows"
proof -
  from assms [unfolded enrolled_def] show ?thesis
  proof (cases rule: wsp_tab.upsert_cases)
    case (merged y)
    then show ?thesis by (intro renewed [of y]) simp_all
  next
    case 2: other
    then show ?thesis by (intro other) auto
  next
    case 3: fresh
    then have "w_id w \<notin> w_id ` set rows" by force
    with 3 show ?thesis by (intro fresh) simp_all
  qed
qed

lemma enrolled_row:
  assumes "r \<in> set (enrolled w rows)"
  shows "w_id r = w_id w \<Longrightarrow> w_root r = w_root w \<and> w_project_id r = w_project_id w \<and> w_member_id r = w_member_id w
      \<and> w_device_id r = w_device_id w \<and> w_session_id r = w_session_id w"
    and "w_id r \<noteq> w_id w \<Longrightarrow> r \<in> set rows \<and> w_root r \<noteq> w_root w"
  using assms by (cases rule: enrolled_cases; simp)+

lemma enrolled_counters:
  assumes "r \<in> set (enrolled w rows)"
  shows "(\<exists>u \<in> set rows. w_id u = w_id r \<and> w_sequence r = w_sequence u \<and> w_revision r = w_revision u
      \<and> w_registration_enqueued r = w_registration_enqueued u)
    \<or> w_id r = w_id w \<and> w_id w \<notin> w_id ` set rows \<and> w_sequence r = 0 \<and> w_revision r = w_revision w
      \<and> \<not> w_registration_enqueued r"
  using assms by (cases rule: enrolled_cases) force+

lemma keyed_enrolled:
  assumes "keyed w_id rows" and "keyed w_root rows"
  shows "keyed w_id (enrolled w rows)" and "keyed w_root (enrolled w rows)"
proof -
  show "keyed w_id (enrolled w rows)"
    using assms(1) by (simp add: enrolled_def wsp_tab.keyed_upsert)
  then have dist: "distinct (enrolled w rows)"
    unfolding keyed_def by (simp add: distinct_map)
  have "r = s" if "r \<in> set (enrolled w rows)" "s \<in> set (enrolled w rows)" "w_root r = w_root s" for r s
  proof (cases "w_id r = w_id w \<or> w_id s = w_id w")
    case True
    then have "w_id r = w_id s"
      using enrolled_row [OF that(1)] enrolled_row [OF that(2)] that(3) by metis
    then show ?thesis
      using keyed_eqD [OF \<open>keyed w_id (enrolled w rows)\<close>] that by blast
  next
    case False
    then show ?thesis
      using enrolled_row(2) [OF that(1)] enrolled_row(2) [OF that(2)] keyed_eqD [OF assms(2)] that(3) by blast
  qed
  then show "keyed w_root (enrolled w rows)"
    using dist by (auto simp: keyed_def distinct_map inj_on_def)
qed

lemma store_ok_enrolled:
  assumes ok: "store_ok d" and known: "known_or_new (w_id w) d"
    and d3: "workspaces d3 = enrolled w (workspaces d)" "event_queue d3 = event_queue d" "manifests d3 = manifests d"
      "cursors d3 = cursors d" "idempotency_keys d3 = idempotency_keys d"
  shows "store_ok d3"
proof -
  note q = store_okD(1) [OF ok, unfolded queue_ok_def]
  have bound: "(\<forall>e \<in> set (event_queue d). e_workspace_id e = w_id r \<longrightarrow> e_sequence e \<le> w_sequence r)
      \<and> (\<forall>m \<in> set (manifests d). m_workspace_id m = w_id r \<longrightarrow> m_revision m \<le> w_revision r)
      \<and> (\<forall>c \<in> set (cursors d). c_workspace_id c = w_id r \<longrightarrow> c_last_acked_sequence c \<le> w_sequence r)"
    if "r \<in> set (enrolled w (workspaces d))" for r
    using enrolled_counters [OF that]
  proof (elim disjE bexE conjE)
    fix u assume u: "u \<in> set (workspaces d)" "w_id u = w_id r" "w_sequence r = w_sequence u" "w_revision r = w_revision u"
    with q store_okD(7,8) [OF ok u(1)] show ?thesis by (metis (no_types, lifting))
  next
    assume "w_id r = w_id w" "w_id w \<notin> w_id ` set (workspaces d)"
    with known show ?thesis unfolding known_or_new_def by (metis imageI)
  qed
  have k: "keyed w_id (enrolled w (workspaces d))" "keyed w_root (enrolled w (workspaces d))"
    using keyed_enrolled q store_okD(2) [OF ok] by blast+
  show ?thesis
    unfolding store_ok_def queue_ok_def d3
    using q k store_okD(3-6) [OF ok] bound by blast
qed

lemma enqueue_registration_Inr:
  "enqueue_registration w now row d3 = Inr d' \<longleftrightarrow>
     (if w_registration_enqueued row then d' = d3
      else let r = event_row_of (new_workspace_row w) (registrationEventID (w_project_id w) (w_device_id w) (w_id w))
             (w_sequence row + 1) now ''manual'' ''workspace.registered'' (registration_payload w)
        in (\<forall>x \<in> set (event_queue d3). \<not> event_clash r x)
         \<and> d' = update_workspace (w_id w) (\<lambda>r. r\<lparr>w_registration_enqueued := True, w_sequence := w_sequence row + 1\<rparr>)
             (d3\<lparr>event_queue := event_queue d3 @ [r]\<rparr>))"
  by (auto simp: enqueue_registration_def insert_event_Inr Let_def)

lemma enqueue_registration_appends:
  assumes "enqueue_registration w now row d3 = Inr d'" and "\<not> w_registration_enqueued row"
    and "find_workspace (w_id w) d3 = Some row" and "workspaces d3 = enrolled w rows"
  shows "appends (w_id w) (event_rows row ''manual'' now
      [(registrationEventID (w_project_id w) (w_device_id w) (w_id w), ''workspace.registered'', registration_payload w)]
      (w_sequence row)) d3 d'"
    and "d' = update_workspace (w_id w) (\<lambda>r. r\<lparr>w_registration_enqueued := True, w_sequence := w_sequence row + 1\<rparr>)
      (d3\<lparr>event_queue := event_queue d'\<rparr>)"
proof -
  let ?id = "registrationEventID (w_project_id w) (w_device_id w) (w_id w)"
  have "row \<in> set (enrolled w rows)" "w_id row = w_id w"
    using assms(3,4) by (auto simp: find_workspace_def dest: t_get_SomeD)
  from enrolled_row(1) [OF this] this(2)
  have row: "event_row_of (new_workspace_row w) ?id seq now source kind payload = event_row_of row ?id seq now source kind payload"
    for seq source kind payload by (simp add: event_row_of_def envelope_def)
  from assms(1,2) obtain d4 where ins: "insert_events row ''manual'' now
      [(?id, ''workspace.registered'', registration_payload w)] (w_sequence row) d3 = Inr d4"
    and d': "d' = update_workspace (w_id w) (\<lambda>r. r\<lparr>w_registration_enqueued := True, w_sequence := w_sequence row + 1\<rparr>) d4"
    by (auto simp: enqueue_registration_def row)
  show "appends (w_id w) (event_rows row ''manual'' now
      [(?id, ''workspace.registered'', registration_payload w)] (w_sequence row)) d3 d'"
    using producer_appends [OF assms(3) ins, where d' = d'
        and f = "\<lambda>r. r\<lparr>w_registration_enqueued := True, w_sequence := w_sequence row + 1\<rparr>"] d' by simp
  show "d' = update_workspace (w_id w) (\<lambda>r. r\<lparr>w_registration_enqueued := True, w_sequence := w_sequence row + 1\<rparr>)
      (d3\<lparr>event_queue := event_queue d'\<rparr>)"
    using insert_events_Inr [OF ins] by (simp add: d')
qed

lemma store_ok_upsert:
  assumes ok: "store_ok d" and known: "known_or_new (w_id w) d" and call: "UpsertWorkspace w now d = Inr d'"
  shows "store_ok d'"
proof -
  obtain d3 row where up: "UpsertWorkspace w now d = enqueue_registration w now row d3"
    and row: "find_workspace (w_id w) d3 = Some row"
    and d3: "workspaces d3 = enrolled w (workspaces d)" "event_queue d3 = event_queue d" "manifests d3 = manifests d"
     "cursors d3 = cursors d" "idempotency_keys d3 = idempotency_keys d"
    using UpsertWorkspace_unfold by blast
  have ok3: "store_ok d3" by (rule store_ok_enrolled [OF ok known d3])
  show ?thesis
  proof (cases "w_registration_enqueued row")
    case True
    with ok3 call up show ?thesis by (simp add: enqueue_registration_def)
  next
    case False
    let ?f = "\<lambda>r. r\<lparr>w_registration_enqueued := True, w_sequence := w_sequence row + 1\<rparr>"
    note app = enqueue_registration_appends [OF call [unfolded up] False row d3(1)]
    have "workspaces d' = t_update (\<lambda>r. w_id r = w_id w) ?f (workspaces d3)" "manifests d' = manifests d3"
      "cursors d' = cursors d3" "idempotency_keys d' = idempotency_keys d3"
      by (subst app(2), simp add: update_workspace_def)+
    with store_okD(3-7) [OF ok3] show ?thesis
      by (intro store_ok_produce [OF ok3 app(1), where f = ?f]) auto
  qed
qed

lemma upsert_total:
  assumes ok: "store_ok d" and known: "known_or_new (w_id w) d"
    and new: "registrationEventID (w_project_id w) (w_device_id w) (w_id w) \<notin> e_id ` set (event_queue d)"
  shows "\<exists>d'. UpsertWorkspace w now d = Inr d'"
proof -
  obtain d3 row where up: "UpsertWorkspace w now d = enqueue_registration w now row d3"
    and row: "find_workspace (w_id w) d3 = Some row"
    and d3: "workspaces d3 = enrolled w (workspaces d)" "event_queue d3 = event_queue d" "manifests d3 = manifests d"
     "cursors d3 = cursors d" "idempotency_keys d3 = idempotency_keys d"
    using UpsertWorkspace_unfold by blast
  have "queue_ok d3" using store_ok_enrolled [OF ok known d3] by (rule store_okD(1))
  then have "\<forall>e \<in> set (event_queue d3). e_workspace_id e = w_id w \<longrightarrow> e_sequence e \<le> w_sequence row"
    using queue_okD(5) row by blast
  then have "insert_event (event_row_of (new_workspace_row w) (registrationEventID (w_project_id w) (w_device_id w) (w_id w))
      (w_sequence row + 1) now ''manual'' ''workspace.registered'' (registration_payload w)) d3 \<noteq> Inl e" for e
    using new d3(2) by (force simp: insert_event_def t_insert_def event_clash_def split: if_splits)
  then show ?thesis
    unfolding up enqueue_registration_def
    by (cases "insert_event (event_row_of (new_workspace_row w) (registrationEventID (w_project_id w) (w_device_id w) (w_id w))
      (w_sequence row + 1) now ''manual'' ''workspace.registered'' (registration_payload w)) d3") auto
qed

lemma upsert_outcome:
  assumes "UpsertWorkspace w now d = Inr d'"
  shows "{r \<in> set (workspaces d'). w_root r = w_root w} = {r \<in> set (workspaces d'). w_id r = w_id w}"
    and "\<exists>r. find_workspace (w_id w) d' = Some r \<and> w_registration_enqueued r"
proof -
  obtain d3 row where up: "UpsertWorkspace w now d = enqueue_registration w now row d3"
    and row: "find_workspace (w_id w) d3 = Some row" and d3: "workspaces d3 = enrolled w (workspaces d)"
    using UpsertWorkspace_unfold by blast
  let ?f = "\<lambda>r. r\<lparr>w_registration_enqueued := True, w_sequence := w_sequence row + 1\<rparr>"
  have d': "workspaces d' = (if w_registration_enqueued row then workspaces d3
      else t_update (\<lambda>r. w_id r = w_id w) ?f (workspaces d3))"
    using assms up by (auto simp: enqueue_registration_def insert_event_Inr update_workspace_def)
  have enr: "w_root r = w_root w \<longleftrightarrow> w_id r = w_id w" if "r \<in> set (workspaces d3)" for r
    using enrolled_row [OF that [unfolded d3]] by blast
  show "{r \<in> set (workspaces d'). w_root r = w_root w} = {r \<in> set (workspaces d'). w_id r = w_id w}"
    using enr by (auto simp: d')
  have "find_workspace (w_id w) d' = Some (if w_registration_enqueued row then row else ?f row)"
    using row find_workspace_id [OF row] by (simp add: find_workspace_def d' t_get_update)
  then show "\<exists>r. find_workspace (w_id w) d' = Some r \<and> w_registration_enqueued r" by simp
qed

lemma upsert_registered:
  assumes "\<exists>r. find_workspace (w_id w) d = Some r \<and> w_registration_enqueued r" and "keyed w_id (workspaces d)"
  shows "\<exists>d'. UpsertWorkspace w now d = Inr d' \<and> event_queue d' = event_queue d"
proof -
  obtain d3 row where up: "UpsertWorkspace w now d = enqueue_registration w now row d3"
    and row: "find_workspace (w_id w) d3 = Some row" and d3: "workspaces d3 = enrolled w (workspaces d)" "event_queue d3 = event_queue d"
    using UpsertWorkspace_unfold by blast
  from row d3(1) have "row \<in> set (enrolled w (workspaces d))" "w_id row = w_id w"
    by (auto simp: find_workspace_def dest: t_get_SomeD)
  moreover obtain r where "r \<in> set (workspaces d)" "w_id r = w_id w" "w_registration_enqueued r"
    using assms(1) by (auto simp: find_workspace_def t_get_Some [OF assms(2)])
  ultimately have "w_registration_enqueued row"
    using enrolled_counters [of row w "workspaces d"] keyed_eqD [OF assms(2), of r] by (metis imageI)
  with up d3(2) show ?thesis by (simp add: enqueue_registration_def)
qed

text \<open>What an enrollment leaves of the other workspaces and of the queue.\<close>

lemma upsert_rows:
  assumes "UpsertWorkspace w now d = Inr d'" and "r \<in> set (workspaces d')"
  shows "w_id r = w_id w \<and> w_root r = w_root w \<or> r \<in> set (workspaces d) \<and> w_id r \<noteq> w_id w \<and> w_root r \<noteq> w_root w"
proof -
  obtain d3 row where up: "UpsertWorkspace w now d = enqueue_registration w now row d3"
    and d3: "workspaces d3 = enrolled w (workspaces d)"
    using UpsertWorkspace_unfold by blast
  let ?f = "\<lambda>r. r\<lparr>w_registration_enqueued := True, w_sequence := w_sequence row + 1\<rparr>"
  have "workspaces d' = (if w_registration_enqueued row then workspaces d3
      else t_update (\<lambda>r. w_id r = w_id w) ?f (workspaces d3))"
    using assms(1) up by (auto simp: enqueue_registration_Inr Let_def update_workspace_def)
  with assms(2) have "\<exists>s \<in> set (workspaces d3). r = s \<or> w_id s = w_id w \<and> r = ?f s"
    by (auto simp del: workspace_row.simps split: if_splits)
  then obtain s where s: "s \<in> set (workspaces d3)" "w_id r = w_id s" "w_root r = w_root s" "w_id s \<noteq> w_id w \<longrightarrow> r = s"
    by auto
  show ?thesis
    using enrolled_row [OF s(1) [unfolded d3]] s(2-4) by metis
qed

lemma upsert_queue:
  assumes "UpsertWorkspace w now d = Inr d'"
  shows "set (event_queue d) \<subseteq> set (event_queue d')"
proof -
  obtain d3 row where "UpsertWorkspace w now d = enqueue_registration w now row d3" "event_queue d3 = event_queue d"
    using UpsertWorkspace_unfold by blast
  with assms show ?thesis by (auto simp: enqueue_registration_Inr Let_def split: if_splits)
qed

lemma enrolled_unknown:
  assumes "find_workspace (w_id w) d3 = Some row" and "workspaces d3 = enrolled w rows" and "w_id w \<notin> w_id ` set rows"
  shows "\<not> w_registration_enqueued row"
proof -
  from assms have "row \<in> set (enrolled w rows)" "w_id row = w_id w"
    by (auto simp: find_workspace_def dest: t_get_SomeD)
  with enrolled_counters [OF this(1)] assms(3) show ?thesis by (metis imageI)
qed

lemma upsert_unknown_clash:
  assumes "w_id w \<notin> w_id ` set (workspaces d)"
    and "registrationEventID (w_project_id w) (w_device_id w) (w_id w) \<in> e_id ` set (event_queue d)"
  shows "UpsertWorkspace w now d = Inl ErrConstraint"
proof -
  obtain d3 row where up: "UpsertWorkspace w now d = enqueue_registration w now row d3"
    and row: "find_workspace (w_id w) d3 = Some row"
    and d3: "workspaces d3 = enrolled w (workspaces d)" "event_queue d3 = event_queue d"
    using UpsertWorkspace_unfold by blast
  have "insert_event (event_row_of (new_workspace_row w) (registrationEventID (w_project_id w) (w_device_id w) (w_id w))
      (w_sequence row + 1) now ''manual'' ''workspace.registered'' (registration_payload w)) d3 = Inl ErrConstraint"
    using assms(2) d3(2) by (auto simp: insert_event_def t_insert_def event_clash_def)
  with enrolled_unknown [OF row d3(1) assms(1)] show ?thesis
    by (simp add: up enqueue_registration_def)
qed

lemma store_step_ok: "store_step d d' \<Longrightarrow> store_ok d \<Longrightarrow> store_ok d'"
  by (induction rule: store_step.induct)
    (blast intro: store_ok_upsert store_ok_rebind store_ok_delete store_ok_pause store_ok_pause_project
      store_ok_enqueue store_ok_manifest store_ok_lifecycle store_ok_ack store_ok_quarantine store_ok_cleanup)+

lemma store_ok_empty: "store_ok empty_db"
  by (simp add: store_ok_def queue_ok_def empty_db_def)

section \<open>Properties\<close>




definition sample_workspace :: "string \<Rightarrow> workspace" where
  "sample_workspace ws = \<lparr>w_id = ws, w_project_id = ''prj_a'', w_workstream_id = ''wrk_a'', w_member_id = ''mem_a'',
     w_device_id = ''dev_a'', w_session_id = ''ses_a'', w_root = ''/repo'', w_baseline = ''HEAD'',
     w_fingerprint = ''fp'', w_backend_id = ''hosted'', w_paused = False, w_revision = 0\<rparr>"


text \<open>C5. Taking over a root leaves the dead workspace's queue rows behind (the comment in
  \<^verbatim>\<open>UpsertWorkspace\<close> says so), and therefore enrolling the dead workspace again under its old
  identity is refused by the queue's primary key for as long as its registration event is kept.\<close>

theorem reenrollment_is_refused:
  assumes "store_ok d" and "find_workspace (w_id a) d = Some r" and "w_root r = w_root b" and "w_id a \<noteq> w_id b"
    and "registrationEventID (w_project_id a) (w_device_id a) (w_id a) \<in> e_id ` set (event_queue d)"
    and "UpsertWorkspace b now d = Inr d'"
  shows "UpsertWorkspace a now' d' = Inl ErrConstraint"
proof (rule upsert_unknown_clash)
  have r: "r \<in> set (workspaces d)" "w_id r = w_id a"
    using assms(2) by (auto simp: find_workspace_def dest: t_get_SomeD)
  show "w_id a \<notin> w_id ` set (workspaces d')"
  proof
    assume "w_id a \<in> w_id ` set (workspaces d')"
    then obtain s where "s \<in> set (workspaces d')" "w_id s = w_id a" by force
    with upsert_rows [OF assms(6), of s] assms(4) have "s \<in> set (workspaces d)" "w_root s \<noteq> w_root b" by auto
    with \<open>w_id s = w_id a\<close> keyed_eqD [OF queue_okD(1) [OF store_okD(1) [OF assms(1)]], of s r] r assms(3)
    show False by simp
  qed
  show "registrationEventID (w_project_id a) (w_device_id a) (w_id a) \<in> e_id ` set (event_queue d')"
    using assms(5) upsert_queue [OF assms(6)] by blast
qed

text \<open>A store with two registered workspaces, of which only the first still has its registration queued.\<close>

definition sample_row :: "string \<Rightarrow> string \<Rightarrow> workspace_row" where
  "sample_row ws root = (new_workspace_row (sample_workspace ws))\<lparr>w_root := root, w_registration_enqueued := True, w_sequence := 1\<rparr>"

definition sample_db :: db where
  "sample_db = empty_db\<lparr>workspaces := [sample_row ''wsp_a'' ''/repo'', sample_row ''wsp_b'' ''/other''],
     event_queue := [event_row_of (sample_row ''wsp_a'' ''/repo'') (registrationEventID ''prj_a'' ''dev_a'' ''wsp_a'') 1 0
       ''manual'' ''workspace.registered'' JNull]\<rparr>"

lemma sample_db_facts:
  "store_ok sample_db"
  "find_workspace ''wsp_a'' sample_db = Some (sample_row ''wsp_a'' ''/repo'')"
  "find_workspace ''wsp_b'' sample_db = Some (sample_row ''wsp_b'' ''/other'')"
  "event_queue sample_db = [event_row_of (sample_row ''wsp_a'' ''/repo'') (registrationEventID ''prj_a'' ''dev_a'' ''wsp_a'') 1 0
       ''manual'' ''workspace.registered'' JNull]"
  "known_or_new ''wsp_b'' sample_db"
  by (simp_all add: store_ok_def queue_ok_def keyed_def known_or_new_def sample_db_def sample_row_def sample_workspace_def
      empty_db_def find_workspace_def t_get_def)

theorem reenrollment_is_refused_witness:
  "\<exists>d'. UpsertWorkspace (sample_workspace ''wsp_b'') 0 sample_db = Inr d'
    \<and> UpsertWorkspace (sample_workspace ''wsp_a'') 0 d' = Inl ErrConstraint"
proof -
  have sel: "w_id (sample_workspace ws) = ws" "w_root (sample_workspace ws) = ''/repo''"
    "w_project_id (sample_workspace ws) = ''prj_a''" "w_device_id (sample_workspace ws) = ''dev_a''" for ws
    by (simp_all add: sample_workspace_def)
  have "\<exists>r. find_workspace (w_id (sample_workspace ''wsp_b'')) sample_db = Some r \<and> w_registration_enqueued r"
    using sample_db_facts(3) by (simp add: sel sample_row_def)
  from upsert_registered [OF this queue_okD(1) [OF store_okD(1) [OF sample_db_facts(1)]]]
  obtain d' where d': "UpsertWorkspace (sample_workspace ''wsp_b'') 0 sample_db = Inr d'" by blast
  with reenrollment_is_refused [OF sample_db_facts(1) _ _ _ _ d', of "sample_workspace ''wsp_a''" _ 0] sample_db_facts(2,4)
  show ?thesis by (simp add: sel sample_row_def)
qed

end
