(* ===== verification/Store_Delivery.thy ===== *)
theory Store_Delivery
  imports Store_Machine
begin

text \<open>
  What the operations of the event queue in \<^verbatim>\<open>internal/store/store.go\<close> achieve: a published
  manifest becomes the active one and its chunks carry exactly its entries, a lifecycle call is
  idempotent, acknowledged and quarantined events leave the publish path without touching the
  rest, a rebound workspace introduces itself first, and a deleted one leaves no row behind.
\<close>

section \<open>Decimal numbers are read back\<close>

definition digit_value :: "char \<Rightarrow> nat" where "digit_value c = byte c - 48"

definition dec_value :: "string \<Rightarrow> nat" where
  "dec_value s = foldl (\<lambda>a c. 10 * a + digit_value c) 0 s"

lemma digit_value_char: "d < 10 \<Longrightarrow> digit_value (digit_char d) = d"
  by (simp add: digit_value_def digit_char_def byte_def)

lemma dec_value_nat_dec: "dec_value (nat_dec n) = n"
proof (induction n rule: nat_dec.induct)
  case (1 n)
  then show ?case
    by (subst nat_dec.simps) (auto simp: dec_value_def digit_value_char)
qed

lemma dec_value_pad0: "dec_value (pad0 w n) = n"
proof -
  have zeros: "foldl (\<lambda>a c. 10 * a + digit_value c) 0 (replicate k (CHR ''0'')) = 0" for k
    by (induction k) (simp_all add: digit_value_def byte_def)
  show ?thesis
    using dec_value_nat_dec [of n] by (simp add: pad0_def dec_value_def zeros)
qed

lemma pad0_inject: "pad0 w m = pad0 w n \<longleftrightarrow> m = n"
  using dec_value_pad0 by metis

section \<open>Manifests\<close>

lemma concat_blocks: "concat (map (\<lambda>i. take k (drop (i * k) xs)) [0..<n]) = take (n * k) xs"
  by (induction n) (simp_all add: take_add [symmetric] add.commute)

lemma chunk_entries_alt: "chunk_entries xs i = take chunkSize (drop (i * chunkSize) xs)"
  by (simp add: chunk_entries_def Let_def drop_take min_def)

lemma chunk_count_bounds: "n \<le> chunk_count n * chunkSize" "i < chunk_count n \<Longrightarrow> i * chunkSize < n"
proof -
  have split: "(n + 99) div 100 * 100 + (n + 99) mod 100 = n + 99" and "(n + 99) mod 100 < 100"
    by simp_all
  then show "n \<le> chunk_count n * chunkSize"
    by (simp add: chunk_count_def chunkSize_def)
  assume "i < chunk_count n"
  then have "(i + 1) * 100 \<le> (n + 99) div 100 * 100"
    by (intro mult_le_mono1) (simp add: chunk_count_def chunkSize_def)
  with split show "i * chunkSize < n"
    by (simp add: chunkSize_def)
qed

lemma chunks_concat: "concat (map (chunk_entries xs) [0..<chunk_count (length xs)]) = xs"
proof -
  have "concat (map (chunk_entries xs) [0..<chunk_count (length xs)]) = take (chunk_count (length xs) * chunkSize) xs"
    unfolding concat_blocks [symmetric] by (rule arg_cong [where f = concat]) (simp add: chunk_entries_alt)
  then show ?thesis by (simp add: chunk_count_bounds(1))
qed

lemma chunk_size_bounds:
  assumes "i < chunk_count (length xs)"
  shows "chunk_entries xs i \<noteq> []" and "length (chunk_entries xs i) \<le> 100"
  using chunk_count_bounds(2) [OF assms] by (simp_all add: chunk_entries_alt chunkSize_def)

lemma manifest_event_ids_distinct: "distinct (map fst (manifest_events p stream revision))"
  by (auto simp: manifest_events_def Let_def distinct_map inj_on_def pad0_inject comp_def)

text \<open>The entries a queued chunk carries, read from its payload.\<close>

fun payload_entries :: "json \<Rightarrow> json list" where
  "payload_entries (JMap kvs) = (case map_of kvs ''entries'' of Some (JArr xs) \<Rightarrow> xs | _ \<Rightarrow> [])"
| "payload_entries j = []"

definition chunk_events :: "manifest_publication \<Rightarrow> string \<Rightarrow> int \<Rightarrow> (string \<times> string \<times> json) list" where
  "chunk_events p stream revision =
     filter (\<lambda>e. fst (snd e) = ''workspace.manifest_chunk'') (manifest_events p stream revision)"

lemma no_manifest_clash:
  assumes "\<And>m. m \<in> set ms \<Longrightarrow> m_workspace_id m = ws \<Longrightarrow> m_revision m \<noteq> m_revision r" and "m_workspace_id r = ws"
  shows "\<forall>x \<in> set (t_update (\<lambda>m. m_workspace_id m = ws) (\<lambda>m. m\<lparr>m_active := False\<rparr>) ms). \<not> manifest_clash r x"
proof
  fix x assume "x \<in> set (t_update (\<lambda>m. m_workspace_id m = ws) (\<lambda>m. m\<lparr>m_active := False\<rparr>) ms)"
  then obtain m where m: "m \<in> set ms" "x = (if m_workspace_id m = ws then m\<lparr>m_active := False\<rparr> else m)"
    unfolding set_t_update by (rule imageE)
  with assms(1) [OF m(1)] assms(2) show "\<not> manifest_clash r x"
    by (cases "m_workspace_id m = ws") (simp_all add: manifest_clash_def)
qed

lemma manifest_total:
  assumes ok: "store_ok d" and w: "find_workspace (mp_workspace_id p) d = Some w"
    and "length (mp_entries p) \<le> 100000"
    and fresh: "fst ` set (manifest_events p (w_workstream_id w) (w_revision w + 1)) \<inter> e_id ` set (event_queue d) = {}"
  shows "\<exists>d'. PublishManifest p now d = Inr (w_revision w + 1, d')"
proof -
  let ?es = "manifest_events p (w_workstream_id w) (w_revision w + 1)"
  let ?old = "t_update (\<lambda>m. m_workspace_id m = mp_workspace_id p) (\<lambda>m. m\<lparr>m_active := False\<rparr>) (manifests d)"
  let ?m = "\<lparr>m_workspace_id = mp_workspace_id p, m_revision = w_revision w + 1, m_manifest_id = mp_manifest_id p,
         m_workstream_id = w_workstream_id w, m_baseline_ref = mp_baseline p, m_head_ref = mp_head p,
         m_content_hash = mp_hash p, m_path_count = length (mp_entries p), m_entries = mp_entries p, m_active = True\<rparr>"
  have win: "w \<in> set (workspaces d)" "w_id w = mp_workspace_id p"
    using w by (auto simp: find_workspace_def dest: t_get_SomeD)
  have "m_revision m \<noteq> w_revision w + 1" if "m \<in> set (manifests d)" "m_workspace_id m = mp_workspace_id p" for m
    using store_okD(7) [OF ok win(1) that(1)] win(2) that(2) by simp
  then have man: "insert_manifest ?m (d\<lparr>manifests := ?old\<rparr>) = Inr (d\<lparr>manifests := ?old @ [?m]\<rparr>)"
    unfolding insert_manifest_Inr using no_manifest_clash [of "manifests d" "mp_workspace_id p" ?m] by simp
  have "\<forall>x \<in> set (event_queue d). e_workspace_id x = w_id w \<longrightarrow> e_sequence x \<le> w_sequence w"
    using queue_okD(5) [OF store_okD(1) [OF ok] w] win(2) by simp
  moreover have "\<forall>x \<in> set (event_queue d). e_id x \<notin> fst ` set ?es"
    using fresh by blast
  ultimately obtain d2 where "insert_events w ''git'' now ?es (w_sequence w) (d\<lparr>manifests := ?old @ [?m]\<rparr>) = Inr d2"
    using insert_events_total [OF manifest_event_ids_distinct, of "d\<lparr>manifests := ?old @ [?m]\<rparr>" p "w_workstream_id w" "w_revision w + 1" w "w_sequence w"]
    by simp
  then show ?thesis
    using assms(3) by (simp add: PublishManifest_def Let_def w man)
qed

lemma find_active_same:
  assumes "m_workspace_id r = ws" "m_active r"
  shows "find (\<lambda>m. m_workspace_id m = ws \<and> m_active m)
    (t_update (\<lambda>m. m_workspace_id m = ws) (\<lambda>m. m\<lparr>m_active := False\<rparr>) ms @ [r]) = Some r"
  using assms by (induction ms) (auto simp: t_update_def)

lemma find_active_other:
  assumes "m_workspace_id r = ws" "k \<noteq> ws"
  shows "find (\<lambda>m. m_workspace_id m = k \<and> m_active m)
    (t_update (\<lambda>m. m_workspace_id m = ws) (\<lambda>m. m\<lparr>m_active := False\<rparr>) ms @ [r]) =
   find (\<lambda>m. m_workspace_id m = k \<and> m_active m) ms"
  using assms by (induction ms) (auto simp: t_update_def)

lemma PublishManifest_active:
  assumes ok: "store_ok d" and call: "PublishManifest p now d = Inr (revision, d')"
  shows "ActiveManifest (mp_workspace_id p) d' = Inr (revision, mp_hash p, mp_entries p)"
    and "k \<noteq> mp_workspace_id p \<Longrightarrow> ActiveManifest k d' = ActiveManifest k d"
proof -
  from call obtain w d1 d2 where d1: "d1 = d\<lparr>manifests :=
      t_update (\<lambda>m. m_workspace_id m = mp_workspace_id p) (\<lambda>m. m\<lparr>m_active := False\<rparr>) (manifests d) @
       [\<lparr>m_workspace_id = mp_workspace_id p, m_revision = revision, m_manifest_id = mp_manifest_id p,
         m_workstream_id = w_workstream_id w, m_baseline_ref = mp_baseline p, m_head_ref = mp_head p,
         m_content_hash = mp_hash p, m_path_count = length (mp_entries p), m_entries = mp_entries p, m_active = True\<rparr>]\<rparr>"
    and ins: "insert_events w ''git'' now (manifest_events p (w_workstream_id w) revision) (w_sequence w) d1 = Inr d2"
    and d': "manifests d' = manifests d2"
    by (rule PublishManifest_call) simp
  have man: "manifests d' = manifests d1"
    using insert_events_Inr [OF ins] d' by simp
  show "ActiveManifest (mp_workspace_id p) d' = Inr (revision, mp_hash p, mp_entries p)"
    by (simp add: ActiveManifest_def man d1 find_active_same)
  show "k \<noteq> mp_workspace_id p \<Longrightarrow> ActiveManifest k d' = ActiveManifest k d"
    by (simp add: ActiveManifest_def man d1 find_active_other)
qed

section \<open>The publish path\<close>

lemma Pending_sorted: "sorted (map (\<lambda>q. (q_workspace_id q, q_sequence q)) (Pending d))"
  by (simp add: Pending_def comp_def queue_event_of_def)

lemma Pending_set: "set (Pending d) = queue_event_of ` {r \<in> set (event_queue d). is_pending r}"
  by (simp add: Pending_def)

lemma Pending_distinct:
  assumes "queue_ok d"
  shows "distinct (map (\<lambda>q. (q_workspace_id q, q_sequence q)) (Pending d))" and "distinct (map q_id (Pending d))"
proof -
  have "keyed event_slot (sort_key event_slot (filter is_pending (event_queue d)))"
    "keyed e_id (sort_key event_slot (filter is_pending (event_queue d)))"
    using queue_okD(2,3) [OF assms] keyed_delete [of _ "event_queue d" "\<lambda>r. \<not> is_pending r"] by (simp_all add: t_delete_def)
  then show "distinct (map (\<lambda>q. (q_workspace_id q, q_sequence q)) (Pending d))" "distinct (map q_id (Pending d))"
    by (simp_all add: Pending_def keyed_def comp_def queue_event_of_def)
qed

lemma pending_of_increasing:
  assumes "queue_ok d"
  shows "sorted_wrt (<) (map q_sequence (pending_of ws d))"
proof -
  let ?slot = "\<lambda>q. (q_workspace_id q, q_sequence q)"
  have "sorted_wrt (<) (map ?slot (Pending d))"
    using Pending_sorted Pending_distinct(1) [OF assms] by (simp add: strict_sorted_iff)
  then have "sorted_wrt (\<lambda>x y. ?slot x < ?slot y) (pending_of ws d)"
    unfolding pending_of_def by (intro sorted_wrt_filter) (simp add: sorted_wrt_map)
  moreover have "q_workspace_id q = ws" if "q \<in> set (pending_of ws d)" for q
    using that by (simp add: pending_of_def)
  ultimately show ?thesis
    unfolding sorted_wrt_map by (auto elim: sorted_wrt_mono_rel [rotated])
qed

text \<open>The envelope a pending event carries.\<close>

definition event_envelope_of :: "queue_event \<Rightarrow> event_envelope" where
  "event_envelope_of q = (case q_payload q of Envelope v \<Rightarrow> v | Malformed b \<Rightarrow> undefined)"

lemma pending_envelope:
  assumes "queue_ok d" and "q \<in> set (pending_of ws d)"
  shows "q_payload q = Envelope (event_envelope_of q)" and "env_event_id (event_envelope_of q) = q_id q"
    and "env_sequence (event_envelope_of q) = q_sequence q" and "env_workspace_id (event_envelope_of q) = ws"
    and "q_workspace_id q = ws"
proof -
  from assms(2) obtain r where "r \<in> set (event_queue d)" "q = queue_event_of r" "e_workspace_id r = ws"
    by (auto simp: pending_of_def Pending_set queue_event_of_def)
  moreover from this have "envelope_ok r"
    using queue_okD(4) [OF assms(1)] by (simp add: list_all_iff)
  ultimately show "q_payload q = Envelope (event_envelope_of q)" "env_event_id (event_envelope_of q) = q_id q"
    "env_sequence (event_envelope_of q) = q_sequence q" "env_workspace_id (event_envelope_of q) = ws" "q_workspace_id q = ws"
    by (auto simp: event_envelope_of_def envelope_ok_def queue_event_of_def split: blob.splits)
qed

lemma Batch_loop:
  assumes "\<forall>x \<in> set events. q_workspace_id x = ws \<and> q_payload x = Envelope (event_envelope_of x)"
  shows "foldE (\<lambda>x acc. if q_workspace_id x \<noteq> ws then Inl (ErrText ''event batch crosses workspace boundary'')
      else (case q_payload x of Malformed b \<Rightarrow> Inl (ErrText ''invalid queued event envelope'') | Envelope v \<Rightarrow> Inr (acc @ [v])))
    events acc = Inr (acc @ map event_envelope_of events)"
  using assms by (induction events arbitrary: acc) simp_all

section \<open>Acknowledging and setting aside\<close>

lemma t_get_unique: "keyed key rows \<Longrightarrow> r \<in> set rows \<Longrightarrow> t_get key (key r) rows = Some r"
  by (simp add: t_get_Some)

lemma filter_pending_update:
  assumes "\<And>x. e_id (f x) = e_id x \<and> \<not> is_pending (f x)" and "\<And>x. P x \<Longrightarrow> e_id x = eid"
    and "\<And>x. x \<in> set rows \<Longrightarrow> e_id x = eid \<Longrightarrow> is_pending x \<Longrightarrow> P x"
  shows "filter is_pending (t_update P f rows) = filter (\<lambda>r. e_id r \<noteq> eid) (filter is_pending rows)"
  using assms(3) by (induction rows) (auto simp: t_update_def assms(1) dest: assms(2))

lemma Pending_without:
  assumes "filter is_pending (event_queue d') = filter (\<lambda>r. e_id r \<noteq> eid) (filter is_pending (event_queue d))"
  shows "Pending d' = filter (\<lambda>q. q_id q \<noteq> eid) (Pending d)"
  by (simp add: Pending_def assms filter_map comp_def queue_event_of_def filter_sort)

lemma Ack_queue:
  assumes "Ack eid now d = Inr d'"
  shows "event_queue d' = t_update (\<lambda>x. e_id x = eid) (\<lambda>x. x\<lparr>e_acked_at := Some (unix_sec now)\<rparr>) (event_queue d)"
  using assms by (auto simp: Ack_def split: option.splits)

lemma Ack_pending:
  assumes "Ack eid now d = Inr d'"
  shows "Pending d' = filter (\<lambda>q. q_id q \<noteq> eid) (Pending d)"
proof (rule Pending_without)
  show "filter is_pending (event_queue d') = filter (\<lambda>r. e_id r \<noteq> eid) (filter is_pending (event_queue d))"
    unfolding Ack_queue [OF assms] by (rule filter_pending_update, simp_all add: is_pending_def)
qed

lemma Quarantine_pending: "Pending (Quarantine eid now d) = filter (\<lambda>q. q_id q \<noteq> eid) (Pending d)"
proof (rule Pending_without)
  have "event_queue (Quarantine eid now d) = t_update (\<lambda>x. e_id x = eid \<and> e_acked_at x = None)
      (\<lambda>x. x\<lparr>e_quarantined_at := Some (unix_sec now)\<rparr>) (event_queue d)"
    by (simp add: Quarantine_def)
  then show "filter is_pending (event_queue (Quarantine eid now d)) = filter (\<lambda>r. e_id r \<noteq> eid) (filter is_pending (event_queue d))"
    by (simp only:) (rule filter_pending_update, simp_all add: is_pending_def)
qed

lemma Ack_cursor:
  assumes "Ack eid now d = Inr d'"
  shows "\<exists>r. t_get e_id eid (event_queue d) = Some r
    \<and> (\<forall>ws. Cursor ws d' = (if ws = e_workspace_id r
          then Inr (case Cursor ws d of Inl e \<Rightarrow> e_sequence r | Inr c \<Rightarrow> max c (e_sequence r)) else Cursor ws d))"
  using assms by (auto simp: Ack_def Cursor_def cur_tab.get_upsert merge_cursor_def split: option.splits)

section \<open>Rebinding\<close>

lemma rebind_outcome:
  assumes "RebindWorkspace ws device backend d = Inr d1"
  shows "\<exists>u. find_workspace ws d = Some u
    \<and> event_queue d1 = t_delete (\<lambda>e. e_workspace_id e = ws) (event_queue d)
    \<and> cursors d1 = t_delete (\<lambda>c. c_workspace_id c = ws) (cursors d)
    \<and> find_workspace ws d1 = Some (u\<lparr>w_device_id := device, w_backend_id := backend, w_registration_enqueued := False\<rparr>)"
proof -
  let ?f = "\<lambda>r. r\<lparr>w_device_id := device, w_backend_id := backend, w_registration_enqueued := False\<rparr>"
  from assms obtain u where u: "find_workspace ws d = Some u"
    and d1: "d1 = (update_workspace ws ?f d)\<lparr>event_queue := t_delete (\<lambda>e. e_workspace_id e = ws) (event_queue d),
      cursors := t_delete (\<lambda>c. c_workspace_id c = ws) (cursors d)\<rparr>"
    by (auto simp: RebindWorkspace_def Let_def split: if_splits)
  have "find_workspace ws d1 = find_workspace ws (update_workspace ws ?f d)"
    by (simp add: d1 find_workspace_def)
  also have "\<dots> = Some (?f u)"
    by (subst find_update_workspace) (simp_all add: u)
  finally show ?thesis using u d1 by simp
qed

lemma find_workspace_known: "find_workspace ws d = Some u \<Longrightarrow> known_or_new ws d"
  unfolding known_or_new_def find_workspace_def by (metis option.distinct(1) t_get_None)

lemma enrolled_known:
  assumes "find_workspace (w_id w) d3 = Some row" and "workspaces d3 = enrolled w (workspaces d)"
    and "find_workspace (w_id w) d = Some u" and "keyed w_id (workspaces d)"
  shows "w_registration_enqueued row = w_registration_enqueued u" and "w_sequence row = w_sequence u"
proof -
  have row: "row \<in> set (enrolled w (workspaces d))" "w_id row = w_id w"
    using assms(1,2) by (auto simp: find_workspace_def dest: t_get_SomeD)
  have u: "u \<in> set (workspaces d)" "w_id u = w_id w"
    using assms(3) by (auto simp: find_workspace_def dest: t_get_SomeD)
  from enrolled_counters [OF row(1)] show "w_registration_enqueued row = w_registration_enqueued u" "w_sequence row = w_sequence u"
    using keyed_eqD [OF assms(4) _ u(1)] row(2) u by (metis imageI)+
qed

lemma keyed_filter: "keyed key rows \<Longrightarrow> u \<in> set rows \<Longrightarrow> filter (\<lambda>r. key r = key u) rows = [u]"
  by (induction rows) (auto simp: keyed_def filter_empty_conv, metis imageI)

section \<open>Properties\<close>

text \<open>C6. The chunks of a manifest carry its entries, in order and complete: concatenating the
  entries of the queued chunk events gives back the published list, and no chunk is empty or
  larger than the 100 entries of the contract.\<close>

theorem manifest_chunks_roundtrip:
  "concat (map (\<lambda>e. payload_entries (snd (snd e))) (chunk_events p stream revision)) = mp_entries p
    \<and> list_all (\<lambda>e. payload_entries (snd (snd e)) \<noteq> [] \<and> length (payload_entries (snd (snd e))) \<le> 100)
        (chunk_events p stream revision)"
proof -
  have "chunk_events p stream revision = map (\<lambda>i. (mp_event_id p @ ''_chunk_'' @ pad0 4 i, ''workspace.manifest_chunk'',
         JMap [(''manifestId'', JStr (mp_manifest_id p)), (''chunkIndex'', JInt (int i)),
           (''entries'', JArr (chunk_entries (mp_entries p) i))])) [0..<chunk_count (length (mp_entries p))]"
    by (simp add: chunk_events_def manifest_events_def Let_def filter_map comp_def)
  then show ?thesis
    using chunks_concat [of "mp_entries p"] chunk_size_bounds [of _ "mp_entries p"]
    by (auto simp: comp_def list_all_iff)
qed

text \<open>Publishing a manifest of at most 100000 paths for a registered workspace, under an event id
  that is not in use, succeeds with the next revision; it becomes the workspace's only active
  manifest with its hash and entries, other workspaces keep theirs, and its events follow the
  workspace's pending ones with consecutive sequence numbers.\<close>

theorem manifest_published:
  assumes "store_ok d" and "find_workspace (mp_workspace_id p) d = Some w" and "length (mp_entries p) \<le> 100000"
    and "fst ` set (manifest_events p (w_workstream_id w) (w_revision w + 1)) \<inter> e_id ` set (event_queue d) = {}"
  shows "\<exists>d'. PublishManifest p now d = Inr (w_revision w + 1, d')
    \<and> ActiveManifest (mp_workspace_id p) d' = Inr (w_revision w + 1, mp_hash p, mp_entries p)
    \<and> (\<forall>k. k \<noteq> mp_workspace_id p \<longrightarrow> ActiveManifest k d' = ActiveManifest k d \<and> pending_of k d' = pending_of k d)
    \<and> (\<exists>new. pending_of (mp_workspace_id p) d' = pending_of (mp_workspace_id p) d @ new
        \<and> map q_id new = map fst (manifest_events p (w_workstream_id w) (w_revision w + 1))
        \<and> map q_sequence new = map (\<lambda>i. w_sequence w + int i + 1) [0..<length new])"
proof -
  let ?es = "manifest_events p (w_workstream_id w) (w_revision w + 1)"
  obtain d' where d': "PublishManifest p now d = Inr (w_revision w + 1, d')"
    using manifest_total [OF assms] by blast
  let ?rows = "event_rows w ''git'' now ?es (w_sequence w)"
  have app: "appends (mp_workspace_id p) ?rows d d'"
    using PublishManifest_appends [OF d'] assms(2) by simp
  have "map q_id (map queue_event_of ?rows) = map fst ?es"
    using event_rows_ok(3) [of w "''git''" now ?es "w_sequence w"] by (simp add: comp_def queue_event_of_def)
  moreover have "map q_sequence (map queue_event_of ?rows) = map (\<lambda>i. w_sequence w + int i + 1) [0..<length (map queue_event_of ?rows)]"
    using event_rows_ok(1) [of "w_sequence w" w "''git''" now ?es] by (simp add: numbered_def comp_def queue_event_of_def)
  moreover note pend = appends_pending_of [OF store_okD(1) [OF assms(1)] app]
  ultimately show ?thesis
    using d' PublishManifest_active [OF assms(1) d'] by (intro exI [of _ d']) auto
qed

definition sample_manifest :: manifest_publication where
  "sample_manifest = \<lparr>mp_workspace_id = ''wsp_a'', mp_manifest_id = ''man_1'', mp_baseline = ''b'', mp_head = ''h'',
     mp_hash = ''x'', mp_event_id = ''man_1'', mp_entries = [JStr ''a'', JStr ''b'']\<rparr>"

theorem manifest_published_witness:
  "\<exists>d'. PublishManifest sample_manifest 0 sample_db = Inr (1, d')
    \<and> ActiveManifest ''wsp_a'' d' = Inr (1, ''x'', [JStr ''a'', JStr ''b''])"
proof -
  have w: "find_workspace (mp_workspace_id sample_manifest) sample_db = Some (sample_row ''wsp_a'' ''/repo'')"
    "w_revision (sample_row ''wsp_a'' ''/repo'') = 0" "length (mp_entries sample_manifest) \<le> 100000"
    using sample_db_facts(2) by (simp_all add: sample_manifest_def sample_row_def sample_workspace_def)
  have "fst ` set (manifest_events sample_manifest (w_workstream_id (sample_row ''wsp_a'' ''/repo''))
      (w_revision (sample_row ''wsp_a'' ''/repo'') + 1)) \<inter> e_id ` set (event_queue sample_db) = {}"
    by (auto simp: sample_db_facts(4) manifest_events_def Let_def sample_manifest_def registrationEventID_def)
  from manifest_published [OF sample_db_facts(1) w(1,3) this, of 0] w(2) show ?thesis
    by (auto simp: sample_manifest_def)
qed

text \<open>What is pending is published in order: the pending events are sorted by workspace and
  sequence with no slot and no id twice, those of one workspace have strictly increasing sequence
  numbers, and any non-empty run of at most 100 of them forms a batch whose envelopes name exactly
  these events.\<close>

theorem pending_forms_batches:
  assumes "queue_ok d" and "events \<noteq> []" and "length events \<le> 100" and "set events \<subseteq> set (pending_of ws d)"
  shows "Batch events = Inr (map event_envelope_of events)
    \<and> map env_event_id (map event_envelope_of events) = map q_id events
    \<and> sorted (map (\<lambda>q. (q_workspace_id q, q_sequence q)) (Pending d)) \<and> distinct (map q_id (Pending d))
    \<and> sorted_wrt (<) (map q_sequence (pending_of ws d))"
proof (intro conjI)
  have env: "\<forall>x \<in> set events. q_workspace_id x = ws \<and> q_payload x = Envelope (event_envelope_of x)"
    and ids: "\<forall>x \<in> set events. env_event_id (event_envelope_of x) = q_id x"
    using pending_envelope [OF assms(1)] assms(4) by blast+
  show "Batch events = Inr (map event_envelope_of events)"
    using assms(2,3) env Batch_loop [OF env, of "[]"] by (auto simp: Batch_def split: list.splits)
  show "map env_event_id (map event_envelope_of events) = map q_id events"
    using ids by simp
  show "sorted (map (\<lambda>q. (q_workspace_id q, q_sequence q)) (Pending d))" by (rule Pending_sorted)
  show "distinct (map q_id (Pending d))" by (rule Pending_distinct(2) [OF assms(1)])
  show "sorted_wrt (<) (map q_sequence (pending_of ws d))" by (rule pending_of_increasing [OF assms(1)])
qed

theorem pending_forms_batches_witness:
  "Batch (pending_of ''wsp_a'' sample_db) = Inr (map event_envelope_of (pending_of ''wsp_a'' sample_db))
    \<and> length (pending_of ''wsp_a'' sample_db) = 1"
proof -
  have one: "pending_of ''wsp_a'' sample_db = map queue_event_of (event_queue sample_db)"
    by (simp add: pending_of_alt sample_db_facts(4) sample_row_def sample_workspace_def)
  then have "pending_of ''wsp_a'' sample_db \<noteq> []" "length (pending_of ''wsp_a'' sample_db) = 1"
    by (simp_all add: sample_db_facts(4))
  with pending_forms_batches [OF store_okD(1) [OF sample_db_facts(1)], of "pending_of ''wsp_a'' sample_db" "''wsp_a''"]
  show ?thesis by simp
qed

text \<open>C7. Acknowledging an event takes exactly that event off the publish path and advances its
  workspace's cursor to its sequence number if that is further, never backwards and for no other
  workspace. Setting an event aside takes it off the publish path too, but moves no cursor, keeps
  the row, and leaves an event that was already acknowledged as it is.\<close>

theorem ack_and_quarantine:
  assumes "Ack eid now d = Inr d'"
  shows "Pending d' = filter (\<lambda>q. q_id q \<noteq> eid) (Pending d)
    \<and> Pending (Quarantine eid now d) = filter (\<lambda>q. q_id q \<noteq> eid) (Pending d)
    \<and> (\<exists>r. t_get e_id eid (event_queue d) = Some r
        \<and> (\<forall>ws. Cursor ws d' = (if ws = e_workspace_id r
             then Inr (case Cursor ws d of Inl e \<Rightarrow> e_sequence r | Inr c \<Rightarrow> max c (e_sequence r)) else Cursor ws d)))
    \<and> (\<forall>ws. Cursor ws (Quarantine eid now d) = Cursor ws d)
    \<and> map e_id (event_queue (Quarantine eid now d)) = map e_id (event_queue d)
    \<and> Quarantine eid now' d' = d'"
proof (intro conjI allI)
  show "Cursor ws (Quarantine eid now d) = Cursor ws d" for ws
    by (simp add: Cursor_def Quarantine_def)
  show "map e_id (event_queue (Quarantine eid now d)) = map e_id (event_queue d)"
    by (simp add: Quarantine_def map_key_update)
  have "\<not> (e_id x = eid \<and> e_acked_at x = None)" if "x \<in> set (event_queue d')" for x
  proof -
    have "x \<in> (\<lambda>x. if e_id x = eid then x\<lparr>e_acked_at := Some (unix_sec now)\<rparr> else x) ` set (event_queue d)"
      using that unfolding Ack_queue [OF assms] set_t_update .
    then obtain y where "x = (if e_id y = eid then y\<lparr>e_acked_at := Some (unix_sec now)\<rparr> else y)" by (rule imageE)
    then show ?thesis by (simp split: if_splits)
  qed
  then have "event_queue (Quarantine eid now' d') = event_queue d'"
    by (simp add: Quarantine_def t_update_idle)
  then show "Quarantine eid now' d' = d'"
    by (simp add: Quarantine_def)
qed (fact Ack_pending [OF assms] Quarantine_pending Ack_cursor [OF assms])+

theorem ack_and_quarantine_witness:
  "\<exists>d'. Ack (registrationEventID ''prj_a'' ''dev_a'' ''wsp_a'') 0 sample_db = Inr d' \<and> Pending d' = []
    \<and> Cursor ''wsp_a'' d' = Inr 1"
proof -
  let ?id = "registrationEventID ''prj_a'' ''dev_a'' ''wsp_a''"
  have one: "t_get e_id ?id (event_queue sample_db) = Some (event_row_of (sample_row ''wsp_a'' ''/repo'') ?id 1 0
       ''manual'' ''workspace.registered'' JNull)"
    by (simp add: t_get_def sample_db_facts(4))
  then obtain d' where ack: "Ack ?id 0 sample_db = Inr d'" by (simp add: Ack_def)
  have "Pending d' = []"
    using ack_and_quarantine [OF ack, of 0] by (simp add: Pending_set filter_empty_conv sample_db_facts(4) queue_event_of_def)
  moreover have "Cursor ''wsp_a'' d' = Inr 1"
    using ack_and_quarantine [OF ack, of 0] one
    by (simp add: Cursor_def t_get_def sample_db_def empty_db_def sample_row_def sample_workspace_def)
  ultimately show ?thesis using ack by blast
qed

text \<open>C8. A lifecycle call is idempotent: once it succeeded, repeating it at any time answers the
  same revision, says it is a duplicate and changes nothing, while the same key with other events
  is refused. A first call raises the intent revision by one if asked to and only if the expected
  revision, when given, is the current one.\<close>

theorem lifecycle_idempotent:
  assumes "PublishLifecycle p now d = Inr (revision, False, d')"
  shows "PublishLifecycle p now' d' = Inr (revision, True, d')
    \<and> (\<exists>w. find_workspace (lp_workspace_id p) d = Some w
        \<and> revision = w_intent_revision w + (if lp_increment p then 1 else 0)
        \<and> (lp_increment p \<longrightarrow> lp_expected p \<in> {None, Some (w_intent_revision w)})
        \<and> map_option w_intent_revision (find_workspace (lp_workspace_id p) d') = Some revision)
    \<and> (\<forall>p'. lp_workspace_id p' = lp_workspace_id p \<and> lp_method p' = lp_method p \<and> lp_key p' = lp_key p
        \<and> lp_kind p' \<noteq> [] \<and> (\<forall>e \<in> set (lp_additional p'). fst e \<noteq> []) \<and> request_hash p' \<noteq> request_hash p
        \<longrightarrow> PublishLifecycle p' now' d' = Inl (ErrText ''idempotency key reused with different input''))"
proof -
  let ?key = "(lp_workspace_id p, lp_method p, lp_key p)"
  from assms have new: "publish_lifecycle_new p now d = Inr (revision, False, d')"
    and guards: "lp_workspace_id p \<noteq> []" "lp_method p \<noteq> []" "lp_key p \<noteq> []" "lp_kind p \<noteq> []"
      "\<not> (\<exists>e \<in> set (lifecycle_events p). fst e = [])"
    by (auto simp: PublishLifecycle_def split: if_splits option.splits)
  from new show ?thesis
  proof (cases rule: publish_lifecycle_new_call)
    case (1 w d1)
    have "t_get idempotency_key ?key (idempotency_keys d) = None"
      using 1(5) by (simp add: t_get_None)
    then have row: "t_get idempotency_key ?key (idempotency_keys d') = Some \<lparr>i_workspace_id = lp_workspace_id p,
        i_method = lp_method p, i_key = lp_key p, i_request_hash = request_hash p, i_response_revision = revision,
        i_created_at = unix_sec now\<rparr>"
      by (simp add: 1(6) t_get_append t_get_single)
    have "map_option w_intent_revision (find_workspace (lp_workspace_id p) d') = Some revision"
      using 1(1) insert_events_Inr [OF 1(4)] unfolding 1(6)
      by (subst find_update_workspace) (simp_all add: find_workspace_def)
    moreover have "revision = w_intent_revision w + (if lp_increment p then 1 else 0)
        \<and> (lp_increment p \<longrightarrow> lp_expected p \<in> {None, Some (w_intent_revision w)})"
      using 1(3) by (auto simp: next_intent_revision_def split: if_splits option.splits)
    ultimately show ?thesis
      using row guards 1(1) by (auto simp: PublishLifecycle_def lifecycle_events_def)
  qed
qed

definition sample_lifecycle :: lifecycle_publication where
  "sample_lifecycle = \<lparr>lp_workspace_id = ''wsp_a'', lp_method = ''begin_work'', lp_key = ''key_1'', lp_source = ''mcp'',
     lp_kind = ''work.begun'', lp_payload = JNull, lp_additional = [], lp_expected = Some 0, lp_increment = True\<rparr>"

lemma sample_lifecycle_publishes: "\<exists>d'. PublishLifecycle sample_lifecycle now sample_db = Inr (1, False, d')"
proof -
  let ?w = "sample_row ''wsp_a'' ''/repo''"
  have w: "w_sequence ?w = 1" "w_intent_revision ?w = 0" "w_id ?w = ''wsp_a''"
    by (simp_all add: sample_row_def new_workspace_row_def sample_workspace_def workspace.defs)
  obtain payload where rows: "lifecycle_rows sample_lifecycle now =
      [(lifecycleEventID ''wsp_a'' ''begin_work'' ''key_1'' 0, ''work.begun'', payload)]"
    by (simp add: lifecycle_rows_def lifecycle_events_def sample_lifecycle_def)
  have "length (registrationEventID ''prj_a'' ''dev_a'' ''wsp_a'') \<noteq> length (lifecycleEventID ''wsp_a'' ''begin_work'' ''key_1'' 0)"
    by (simp add: registrationEventID_def lifecycleEventID_def sha256_hex_prefix_def)
  then have new: "registrationEventID ''prj_a'' ''dev_a'' ''wsp_a'' \<noteq> lifecycleEventID ''wsp_a'' ''begin_work'' ''key_1'' 0"
    by metis
  have "insert_events ?w ''mcp'' now (lifecycle_rows sample_lifecycle now) (w_sequence ?w) sample_db =
      Inr (sample_db\<lparr>event_queue := event_queue sample_db @ event_rows ?w ''mcp'' now (lifecycle_rows sample_lifecycle now) (w_sequence ?w)\<rparr>)"
    by (rule insert_events_total) (simp_all add: rows sample_db_facts(4) new w)
  moreover have "idempotency_keys sample_db = []"
    by (simp add: sample_db_def empty_db_def)
  ultimately show ?thesis
    using sample_db_facts(2) w
    by (simp add: PublishLifecycle_def publish_lifecycle_new_def sample_lifecycle_def lifecycle_events_def t_get_def
        next_intent_revision_def insert_idempotency_def t_insert_def Let_def)
qed

theorem lifecycle_idempotent_witness:
  "\<exists>d'. PublishLifecycle sample_lifecycle 0 sample_db = Inr (1, False, d')
    \<and> PublishLifecycle sample_lifecycle 5 d' = Inr (1, True, d')"
proof -
  obtain d' where run: "PublishLifecycle sample_lifecycle 0 sample_db = Inr (1, False, d')"
    using sample_lifecycle_publishes by blast
  from lifecycle_idempotent [OF run, of 5] run show ?thesis by blast
qed

text \<open>The rows of every table that is keyed by workspace.\<close>

definition workspace_rows :: "string \<Rightarrow> db \<Rightarrow> nat" where
  "workspace_rows ws d =
     length (filter (\<lambda>r. w_id r = ws) (workspaces d)) + length (filter (\<lambda>r. s_workspace_id r = ws) (workstreams d))
     + length (filter (\<lambda>r. m_workspace_id r = ws) (manifests d)) + length (filter (\<lambda>r. e_workspace_id r = ws) (event_queue d))
     + length (filter (\<lambda>r. c_workspace_id r = ws) (cursors d)) + length (filter (\<lambda>r. i_workspace_id r = ws) (idempotency_keys d))
     + length (filter (\<lambda>r. o_workspace_id r = ws) (agent_observations d)) + length (filter (\<lambda>r. a_workspace_id r = ws) (agent_sessions d))
     + length (filter (\<lambda>r. f_workspace_id r = ws) (contract_fingerprints d)) + length (filter (\<lambda>r. r_workspace_id r = ws) (session_read_sets d))"

text \<open>C9. Deleting a workspace leaves no row of it in any table that is keyed by workspace and no
  pending event, and changes nothing about any other workspace.\<close>

theorem delete_leaves_nothing:
  assumes "DeleteWorkspace ws d = Inr d'"
  shows "workspace_rows ws d' = 0 \<and> pending_of ws d' = [] \<and> find_workspace ws d' = None
    \<and> (\<forall>k. k \<noteq> ws \<longrightarrow> workspace_rows k d' = workspace_rows k d \<and> pending_of k d' = pending_of k d
        \<and> find_workspace k d' = find_workspace k d)"
proof -
  have keep: "filter (\<lambda>r. key r = k) (t_delete (\<lambda>r. key r = ws) rows) = filter (\<lambda>r. key r = k) rows"
    if "k \<noteq> ws" for key :: "'r \<Rightarrow> string" and k rows
    using that by (induction rows) (auto simp: t_delete_def)
  have gone: "filter (\<lambda>r. key r = ws) (t_delete (\<lambda>r. key r = ws) rows) = []" for key :: "'r \<Rightarrow> string" and rows
    by (simp add: filter_empty_conv)
  have pend: "filter (\<lambda>r. is_pending r \<and> e_workspace_id r = k) (t_delete (\<lambda>r. e_workspace_id r = ws) rows) =
      (if k = ws then [] else filter (\<lambda>r. is_pending r \<and> e_workspace_id r = k) rows)" for k rows
    by (induction rows) (auto simp: t_delete_def)
  have get: "t_get w_id k (t_delete (\<lambda>r. w_id r = ws) rows) = (if k = ws then None else t_get w_id k rows)" for k rows
    by (induction rows) (auto simp: t_delete_def t_get_def)
  from assms show ?thesis
    by (auto simp: DeleteWorkspace_def workspace_rows_def keep gone pending_of_alt pend find_workspace_def get
        split: if_splits)
qed

theorem delete_leaves_nothing_witness:
  "\<exists>d'. DeleteWorkspace ''wsp_a'' sample_db = Inr d' \<and> workspace_rows ''wsp_a'' d' = 0 \<and> find_workspace ''wsp_b'' d' \<noteq> None"
proof -
  obtain d' where run: "DeleteWorkspace ''wsp_a'' sample_db = Inr d'" by (simp add: DeleteWorkspace_def)
  have "find_workspace ''wsp_b'' d' = find_workspace ''wsp_b'' sample_db"
    using delete_leaves_nothing [OF run] by simp
  with delete_leaves_nothing [OF run] run sample_db_facts(3) show ?thesis by simp
qed

text \<open>A repository that moves to another backend introduces itself there: after rebinding and the
  next enrollment its registration under the new device is its one and only pending event, its
  cursor is gone, and the sequence goes on where it was.\<close>

theorem rebind_introduces_itself:
  assumes "store_ok d" and "RebindWorkspace (w_id w) device backend d = Inr d1"
    and "UpsertWorkspace w now d1 = Inr d2" and "w_device_id w = device"
  shows "map q_id (pending_of (w_id w) d2) = [registrationEventID (w_project_id w) device (w_id w)]
    \<and> map q_sequence (pending_of (w_id w) d2) = map (\<lambda>r. w_sequence r + 1) (filter (\<lambda>r. w_id r = w_id w) (workspaces d))
    \<and> Cursor (w_id w) d2 = Inl ErrNoRows"
proof -
  have ok1: "store_ok d1" by (rule store_ok_rebind [OF assms(1,2)])
  obtain u where u: "find_workspace (w_id w) d = Some u"
    and queue1: "event_queue d1 = t_delete (\<lambda>e. e_workspace_id e = w_id w) (event_queue d)"
    and cur1: "cursors d1 = t_delete (\<lambda>c. c_workspace_id c = w_id w) (cursors d)"
    and ws1: "find_workspace (w_id w) d1 = Some (u\<lparr>w_device_id := device, w_backend_id := backend, w_registration_enqueued := False\<rparr>)"
    using rebind_outcome [OF assms(2)] by blast
  have uin: "u \<in> set (workspaces d)" "w_id u = w_id w"
    using u by (auto simp: find_workspace_def dest: t_get_SomeD)
  have known: "known_or_new (w_id w) d1"
    by (rule find_workspace_known [OF ws1])
  obtain d3 row where up: "UpsertWorkspace w now d1 = enqueue_registration w now row d3"
    and row: "find_workspace (w_id w) d3 = Some row"
    and d3: "workspaces d3 = enrolled w (workspaces d1)" "event_queue d3 = event_queue d1" "manifests d3 = manifests d1"
     "cursors d3 = cursors d1" "idempotency_keys d3 = idempotency_keys d1"
    using UpsertWorkspace_unfold by blast
  have flags: "\<not> w_registration_enqueued row" "w_sequence row = w_sequence u"
    using enrolled_known [OF row d3(1) ws1 queue_okD(1) [OF store_okD(1) [OF ok1]]] by simp_all
  note app = enqueue_registration_appends [OF assms(3) [unfolded up] flags(1) row d3(1)]
  have "pending_of (w_id w) d3 = []"
    by (simp add: pending_of_alt d3(2) queue1 t_delete_def filter_empty_conv)
  with appends_pending_of [OF store_okD(1) [OF store_ok_enrolled [OF ok1 known d3]] app(1), of "w_id w"]
  have "pending_of (w_id w) d2 = map queue_event_of (event_rows row ''manual'' now
      [(registrationEventID (w_project_id w) (w_device_id w) (w_id w), ''workspace.registered'', registration_payload w)]
      (w_sequence row))" by simp
  moreover have "filter (\<lambda>r. w_id r = w_id w) (workspaces d) = [u]"
    using keyed_filter [OF queue_okD(1) [OF store_okD(1) [OF assms(1)]] uin(1)] uin(2) by simp
  moreover have "cursors d2 = cursors d3" by (subst app(2)) simp
  then have "Cursor (w_id w) d2 = Inl ErrNoRows"
    using t_get_delete_key [of c_workspace_id "w_id w" "cursors d"] by (simp add: Cursor_def d3(4) cur1)
  ultimately show ?thesis
    using flags(2) assms(4) by (simp add: queue_event_of_def)
qed

theorem rebind_introduces_itself_witness:
  "\<exists>d1 d2. RebindWorkspace ''wsp_a'' ''dev_a'' ''self'' sample_db = Inr d1
    \<and> UpsertWorkspace (sample_workspace ''wsp_a'') 0 d1 = Inr d2
    \<and> map q_id (pending_of ''wsp_a'' d2) = [registrationEventID ''prj_a'' ''dev_a'' ''wsp_a'']"
proof -
  let ?w = "sample_workspace ''wsp_a''"
  have w: "w_id ?w = ''wsp_a''" "w_device_id ?w = ''dev_a''" "w_project_id ?w = ''prj_a''"
    by (simp_all add: sample_workspace_def)
  obtain d1 where d1: "RebindWorkspace (w_id ?w) ''dev_a'' ''self'' sample_db = Inr d1"
    using sample_db_facts(2) by (simp add: RebindWorkspace_def Let_def w)
  from rebind_outcome [OF this] obtain u where "find_workspace (w_id ?w) d1 = Some u" "event_queue d1 = []"
    using sample_db_facts(4) by (auto simp: w t_delete_def sample_row_def)
  then obtain d2 where d2: "UpsertWorkspace ?w 0 d1 = Inr d2"
    using upsert_total [OF store_ok_rebind [OF sample_db_facts(1) d1] find_workspace_known, of ?w u 0] by auto
  from rebind_introduces_itself [OF sample_db_facts(1) d1 d2 w(2)] d1 d2 show ?thesis by (simp add: w)
qed

end
