(* ===== verification/Profile_Config.thy ===== *)
theory Profile_Config
  imports Sql_Table Go_Encoding
begin

text \<open>
  The profile of \<^verbatim>\<open>internal/config/config.go\<close>: the backends this device is enrolled with, the
  Projects bound to them and the repositories registered to the Projects, with every operation
  that changes them, and the file they are loaded from and saved to. The locale
  \<open>project_bindings\<close> is the contract of binding a Project to a backend; the profile interprets it.

  Whether an origin is a loopback one is decided by \<^verbatim>\<open>net/url\<close> and \<^verbatim>\<open>net\<close>; it only chooses the
  label \<open>bk_kind\<close> and is the argument \<open>loopback\<close> of the operations that write it. File system
  errors of \<^verbatim>\<open>Save\<close> are not modelled.
\<close>

section \<open>The profile\<close>

record config_workspace =
  cw_id :: string
  cw_project_id :: string
  cw_workstream_id :: string
  cw_root :: string
  cw_baseline :: string
  cw_fingerprint :: string
  cw_member_id :: string
  cw_session_id :: string

record backend =
  bk_id :: string
  bk_api_base_url :: string
  bk_device_id :: string
  bk_kind :: string

record config_project =
  cp_id :: string
  cp_backend_id :: string

record config =
  cf_version :: int
  cf_backends :: "backend list"
  cf_projects :: "config_project list"
  cf_workspaces :: "config_workspace list"

record stored_config =
  sc_version :: int
  sc_api_base_url :: string
  sc_device_id :: string
  sc_backends :: "backend list"
  sc_projects :: "config_project list"
  sc_workspaces :: "config_workspace list"

definition Version :: int where "Version = 2"

definition trim_right_slash :: "string \<Rightarrow> string" where
  "trim_right_slash s = rev (dropWhile (\<lambda>c. c = CHR ''/'') (rev s))"

definition canonicalOrigin :: "string \<Rightarrow> string" where
  "canonicalOrigin origin = trim_right_slash (trim_space origin)"

definition BackendKind :: "(string \<Rightarrow> bool) \<Rightarrow> string \<Rightarrow> string" where
  "BackendKind loopback origin = (if loopback origin then ''local'' else ''team'')"

definition BackendID :: "string \<Rightarrow> string" where
  "BackendID origin = ''bk_'' @ sha256_hex_prefix 16 (''overgent.backend.v1'' @ [NUL] @ canonicalOrigin origin)"

definition newBackend :: "(string \<Rightarrow> bool) \<Rightarrow> string \<Rightarrow> string \<Rightarrow> backend" where
  "newBackend loopback api device =
     (let origin = canonicalOrigin api
      in \<lparr>bk_id = BackendID origin, bk_api_base_url = origin, bk_device_id = device, bk_kind = BackendKind loopback origin\<rparr>)"

definition BackendByID :: "string \<Rightarrow> config \<Rightarrow> backend option" where
  "BackendByID i c = find (\<lambda>b. bk_id b = i) (cf_backends c)"

definition BackendForOrigin :: "string \<Rightarrow> config \<Rightarrow> backend option" where
  "BackendForOrigin origin c = BackendByID (BackendID origin) c"

definition BackendTarget :: "(string \<Rightarrow> bool) \<Rightarrow> string \<Rightarrow> config \<Rightarrow> backend" where
  "BackendTarget loopback api c =
     (let origin = canonicalOrigin api in
      case BackendForOrigin origin c of
        Some b \<Rightarrow> b
      | None \<Rightarrow> \<lparr>bk_id = BackendID origin, bk_api_base_url = origin, bk_device_id = [], bk_kind = BackendKind loopback origin\<rparr>)"

definition BackendForProject :: "string \<Rightarrow> config \<Rightarrow> backend option" where
  "BackendForProject p c =
     (case find (\<lambda>x. cp_id x = p) (cf_projects c) of
        None \<Rightarrow> None
      | Some x \<Rightarrow> BackendByID (cp_backend_id x) c)"

definition BackendForWorkspace :: "config_workspace \<Rightarrow> config \<Rightarrow> backend option" where
  "BackendForWorkspace w c = BackendForProject (cw_project_id w) c"

definition ProjectsForBackend :: "string \<Rightarrow> config \<Rightarrow> string list" where
  "ProjectsForBackend b c = map cp_id (filter (\<lambda>x. cp_backend_id x = b) (cf_projects c))"

text \<open>The loop over a copy of the list that replaces the first match.\<close>

fun replace_first :: "('a \<Rightarrow> bool) \<Rightarrow> ('a \<Rightarrow> 'a) \<Rightarrow> 'a list \<Rightarrow> 'a list" where
  "replace_first P f [] = []"
| "replace_first P f (x # xs) = (if P x then f x # xs else x # replace_first P f xs)"

definition UpsertBackend :: "(string \<Rightarrow> bool) \<Rightarrow> string \<Rightarrow> string \<Rightarrow> config \<Rightarrow> string + (config \<times> backend)" where
  "UpsertBackend loopback api device c =
     (let origin = canonicalOrigin api in
      if origin = [] then Inl ''backend API base URL is required''
      else if device = [] then Inl ''backend device ID is required''
      else let next = newBackend loopback origin device in
        case find (\<lambda>b. bk_id b = bk_id next) (cf_backends c) of
          Some existing \<Rightarrow>
            if bk_device_id existing \<noteq> [] \<and> bk_device_id existing \<noteq> device
            then Inl ''device ID does not match the identity registered for this backend''
            else Inr (c\<lparr>cf_backends := replace_first (\<lambda>b. bk_id b = bk_id next) (\<lambda>b. next) (cf_backends c)\<rparr>, next)
        | None \<Rightarrow> Inr (c\<lparr>cf_backends := cf_backends c @ [next]\<rparr>, next))"

definition BindProject :: "string \<Rightarrow> string \<Rightarrow> config \<Rightarrow> config" where
  "BindProject p b c =
     (if p = [] \<or> b = [] then c
      else if \<exists>x \<in> set (cf_projects c). cp_id x = p
      then c\<lparr>cf_projects := replace_first (\<lambda>x. cp_id x = p) (\<lambda>x. x\<lparr>cp_backend_id := b\<rparr>) (cf_projects c)\<rparr>
      else c\<lparr>cf_projects := cf_projects c @ [\<lparr>cp_id = p, cp_backend_id = b\<rparr>]\<rparr>)"

definition Single :: "(string \<Rightarrow> bool) \<Rightarrow> string \<Rightarrow> string \<Rightarrow> config_workspace list \<Rightarrow> config" where
  "Single loopback api device ws =
     (let cfg = \<lparr>cf_version = Version, cf_backends = [], cf_projects = [], cf_workspaces = ws\<rparr> in
      if canonicalOrigin api = [] \<or> device = [] then cfg
      else let b = newBackend loopback api device
           in fold (\<lambda>w. BindProject (cw_project_id w) (bk_id b)) ws (cfg\<lparr>cf_backends := [b]\<rparr>))"

definition RebindProject :: "string \<Rightarrow> string \<Rightarrow> config \<Rightarrow> string + config" where
  "RebindProject p b c =
     (if p = [] \<or> b = [] then Inl ''a Project and the backend to move it to are both required''
      else if BackendByID b c = None then Inl ''this device has no such backend''
      else case find (\<lambda>x. cp_id x = p) (cf_projects c) of
        None \<Rightarrow> Inl ''this Project is not registered on this device''
      | Some x \<Rightarrow>
          if cp_backend_id x = b then Inl ''this Project already lives on that backend''
          else Inr (c\<lparr>cf_projects := replace_first (\<lambda>x. cp_id x = p) (\<lambda>x. x\<lparr>cp_backend_id := b\<rparr>) (cf_projects c)\<rparr>))"

definition WorkspacesForProject :: "string \<Rightarrow> config \<Rightarrow> config_workspace list" where
  "WorkspacesForProject p c = filter (\<lambda>w. cw_project_id w = p) (cf_workspaces c)"

definition RemoveProject :: "string \<Rightarrow> config \<Rightarrow> config \<times> config_workspace list" where
  "RemoveProject p c =
     (if p = [] then (c, [])
      else (c\<lparr>cf_projects := filter (\<lambda>x. cp_id x \<noteq> p) (cf_projects c),
              cf_workspaces := filter (\<lambda>w. cw_project_id w \<noteq> p) (cf_workspaces c)\<rparr>,
            filter (\<lambda>w. cw_project_id w = p) (cf_workspaces c)))"

definition RemoveBackend :: "string \<Rightarrow> config \<Rightarrow> config \<times> nat" where
  "RemoveBackend b c =
     (let removed = cp_id ` set (filter (\<lambda>x. cp_backend_id x = b) (cf_projects c))
      in (c\<lparr>cf_projects := filter (\<lambda>x. cp_backend_id x \<noteq> b) (cf_projects c),
            cf_backends := filter (\<lambda>x. bk_id x \<noteq> b) (cf_backends c),
            cf_workspaces := filter (\<lambda>w. cw_project_id w \<notin> removed) (cf_workspaces c)\<rparr>,
          length (filter (\<lambda>w. cw_project_id w \<in> removed) (cf_workspaces c))))"

text \<open>\<^verbatim>\<open>config.json\<close>: absent, not decodable, or the document it holds.\<close>

datatype config_file = Absent | Corrupt | Stored stored_config

definition Load :: "(string \<Rightarrow> bool) \<Rightarrow> config_file \<Rightarrow> string + config" where
  "Load loopback file =
     (case file of
        Absent \<Rightarrow> Inr \<lparr>cf_version = Version, cf_backends = [], cf_projects = [], cf_workspaces = []\<rparr>
      | Corrupt \<Rightarrow> Inl ''decode config''
      | Stored s \<Rightarrow>
          if sc_version s = 1 then Inr (Single loopback (sc_api_base_url s) (sc_device_id s) (sc_workspaces s))
          else if sc_version s = Version
          then Inr \<lparr>cf_version = Version, cf_backends = sc_backends s, cf_projects = sc_projects s, cf_workspaces = sc_workspaces s\<rparr>
          else Inl (''unsupported config version '' @ int_dec (sc_version s)))"

definition Save :: "config \<Rightarrow> config_file" where
  "Save c = Stored \<lparr>sc_version = Version, sc_api_base_url = [], sc_device_id = [],
     sc_backends = cf_backends c, sc_projects = cf_projects c, sc_workspaces = cf_workspaces c\<rparr>"

section \<open>Binding a Project\<close>

locale project_bindings =
  fixes bind :: "string \<Rightarrow> string \<Rightarrow> 'c \<Rightarrow> 'c"
    and lookup :: "string \<Rightarrow> 'c \<Rightarrow> string option"
  assumes bind_same: "p \<noteq> [] \<Longrightarrow> b \<noteq> [] \<Longrightarrow> lookup p (bind p b c) = Some b"
    and bind_other: "q \<noteq> p \<Longrightarrow> lookup q (bind p b c) = lookup q c"
    and bind_empty: "p = [] \<or> b = [] \<Longrightarrow> bind p b c = c"
begin

lemma bind_all:
  "b \<noteq> [] \<Longrightarrow> lookup q (fold (\<lambda>p. bind p b) ps c) = (if q \<in> set ps \<and> q \<noteq> [] then Some b else lookup q c)"
proof (induction ps arbitrary: c)
  case (Cons p ps)
  then show ?case
    by (cases "q = p"; cases "p = []") (simp_all add: bind_same bind_other bind_empty)
qed simp

end

text \<open>The backend id a Project is bound to.\<close>

definition bound_to :: "string \<Rightarrow> config \<Rightarrow> string option" where
  "bound_to p c = map_option cp_backend_id (find (\<lambda>x. cp_id x = p) (cf_projects c))"

lemma find_replace_first:
  assumes "\<And>x. key (f x) = key x"
  shows "find (\<lambda>x. key x = q) (replace_first (\<lambda>x. key x = p) f xs) =
    (if q = p then map_option f (find (\<lambda>x. key x = p) xs) else find (\<lambda>x. key x = q) xs)"
  by (induction xs) (auto simp: assms)

lemma find_replace_first_const:
  "find (\<lambda>x. key x = q) xs \<noteq> None \<or> q \<noteq> key b \<Longrightarrow>
     find (\<lambda>x. key x = q) (replace_first (\<lambda>x. key x = key b) (\<lambda>x. b) xs) = (if q = key b then Some b else find (\<lambda>x. key x = q) xs)"
  by (induction xs) auto

lemma find_append: "find P (xs @ ys) = (case find P xs of None \<Rightarrow> find P ys | r \<Rightarrow> r)"
  by (induction xs) auto

lemma map_replace_first: "(\<And>x. key (f x) = key x) \<Longrightarrow> map key (replace_first P f xs) = map key xs"
  by (induction xs) auto

lemma find_bound: "\<exists>x \<in> set xs. P x \<Longrightarrow> \<exists>y. find P xs = Some y"
  by (induction xs) auto

lemma bound_to_BindProject:
  "bound_to q (BindProject p b c) = (if q = p \<and> p \<noteq> [] \<and> b \<noteq> [] then Some b else bound_to q c)"
proof (cases "p = [] \<or> b = []")
  case True
  then show ?thesis by (auto simp: BindProject_def)
next
  case False
  show ?thesis
  proof (cases "\<exists>x \<in> set (cf_projects c). cp_id x = p")
    case True
    with find_bound [OF True] False show ?thesis
      by (auto simp: BindProject_def bound_to_def find_replace_first)
  next
    case new: False
    then have "find (\<lambda>x. cp_id x = p) (cf_projects c) = None"
      unfolding find_None_iff by blast
    with new False show ?thesis
      by (simp add: BindProject_def bound_to_def find_append split: option.split)
  qed
qed

interpretation profile: project_bindings BindProject bound_to
proof unfold_locales
  show "BindProject p b c = c" if "p = [] \<or> b = []" for p b c
    using that by (simp add: BindProject_def)
qed (simp_all add: bound_to_BindProject)

section \<open>The invariant of a profile\<close>

text \<open>
  Backends and Projects are named once, every Project is bound to a backend of the profile, and
  every registered repository belongs to a bound Project.
\<close>

definition config_ok :: "config \<Rightarrow> bool" where
  "config_ok c \<longleftrightarrow> keyed bk_id (cf_backends c) \<and> keyed cp_id (cf_projects c)
     \<and> cp_backend_id ` set (cf_projects c) \<subseteq> bk_id ` set (cf_backends c)
     \<and> cw_project_id ` set (cf_workspaces c) \<subseteq> cp_id ` set (cf_projects c)"

lemma config_okD:
  assumes "config_ok c"
  shows "keyed bk_id (cf_backends c)" "keyed cp_id (cf_projects c)"
    "cp_backend_id ` set (cf_projects c) \<subseteq> bk_id ` set (cf_backends c)"
    "cw_project_id ` set (cf_workspaces c) \<subseteq> cp_id ` set (cf_projects c)"
  using assms by (simp_all add: config_ok_def)

lemma newBackend_sel [simp]: "bk_device_id (newBackend l api device) = device"
  by (simp add: newBackend_def Let_def)

lemma map_replace_first_const:
  "\<lbrakk>\<And>x. P x \<Longrightarrow> key (f x) = key x\<rbrakk> \<Longrightarrow> map key (replace_first P f xs) = map key xs"
  by (induction xs) auto

lemma UpsertBackend_ok:
  assumes ok: "config_ok c" and call: "UpsertBackend loopback api device c = Inr (c', b)"
  shows "config_ok c'"
proof -
  let ?b = "newBackend loopback (canonicalOrigin api) device"
  have ids: "keyed bk_id (cf_backends c') \<and> bk_id ` set (cf_backends c) \<subseteq> bk_id ` set (cf_backends c')"
  proof (cases "find (\<lambda>x. bk_id x = bk_id ?b) (cf_backends c)")
    case None
    with call have c': "cf_backends c' = cf_backends c @ [?b]"
      by (auto simp: UpsertBackend_def Let_def split: if_splits)
    moreover from None have "bk_id ?b \<notin> bk_id ` set (cf_backends c)"
      unfolding find_None_iff by force
    ultimately show ?thesis
      using config_okD(1) [OF ok] by (simp add: keyed_snoc) blast
  next
    case (Some x)
    with call have c': "cf_backends c' = replace_first (\<lambda>b. bk_id b = bk_id ?b) (\<lambda>b. ?b) (cf_backends c)"
      by (auto simp: UpsertBackend_def Let_def split: if_splits)
    then have "map bk_id (cf_backends c') = map bk_id (cf_backends c)"
      by (simp add: map_replace_first_const)
    then show ?thesis
      using config_okD(1) [OF ok] unfolding keyed_def by (metis list.set_map order_refl)
  qed
  have "cf_projects c' = cf_projects c" "cf_workspaces c' = cf_workspaces c"
    using call by (auto simp: UpsertBackend_def Let_def split: if_splits option.splits)
  with ids config_okD [OF ok] show ?thesis
    unfolding config_ok_def by simp (meson subset_trans)
qed

lemma replace_first_image: "(\<And>x. g (f x) = b) \<Longrightarrow> g ` set (replace_first P f xs) \<subseteq> insert b (g ` set xs)"
  by (induction xs) auto

lemma rebound_projects_ok:
  assumes ok: "config_ok c" and "b \<in> bk_id ` set (cf_backends c)"
  shows "config_ok (c\<lparr>cf_projects := replace_first (\<lambda>x. cp_id x = p) (\<lambda>x. x\<lparr>cp_backend_id := b\<rparr>) (cf_projects c)\<rparr>)"
proof -
  let ?ps = "replace_first (\<lambda>x. cp_id x = p) (\<lambda>x. x\<lparr>cp_backend_id := b\<rparr>) (cf_projects c)"
  have ids: "map cp_id ?ps = map cp_id (cf_projects c)"
    by (rule map_replace_first) simp
  have "cp_backend_id ` set ?ps \<subseteq> insert b (cp_backend_id ` set (cf_projects c))"
    by (rule replace_first_image) simp
  then have "cp_backend_id ` set ?ps \<subseteq> bk_id ` set (cf_backends c)"
    using config_okD(3) [OF ok] assms(2) by (meson insert_subset subset_trans)
  moreover have "cp_id ` set ?ps = cp_id ` set (cf_projects c)"
    using ids by (metis list.set_map)
  ultimately show ?thesis
    using config_okD [OF ok] ids by (simp add: config_ok_def keyed_def)
qed

lemma BindProject_ok:
  assumes ok: "config_ok c" and b: "b \<in> bk_id ` set (cf_backends c)"
  shows "config_ok (BindProject p b c)"
proof (cases "p = [] \<or> b = []")
  case False
  show ?thesis
  proof (cases "\<exists>x \<in> set (cf_projects c). cp_id x = p")
    case True
    with False rebound_projects_ok [OF ok b] show ?thesis by (simp add: BindProject_def)
  next
    case new: False
    with False config_okD [OF ok] b show ?thesis
      by (auto simp: BindProject_def config_ok_def keyed_snoc)
  qed
qed (use ok in \<open>simp add: BindProject_def\<close>)

lemma RebindProject_ok:
  assumes "config_ok c" and "RebindProject p b c = Inr c'"
  shows "config_ok c'"
proof -
  from assms(2) have "BackendByID b c \<noteq> None"
    and c': "c' = c\<lparr>cf_projects := replace_first (\<lambda>x. cp_id x = p) (\<lambda>x. x\<lparr>cp_backend_id := b\<rparr>) (cf_projects c)\<rparr>"
    by (auto simp: RebindProject_def split: if_splits option.splits)
  then have "b \<in> bk_id ` set (cf_backends c)"
    unfolding BackendByID_def find_None_iff by force
  from rebound_projects_ok [OF assms(1) this] c' show ?thesis by simp
qed

text \<open>The repositories that stay belong to Projects that stay.\<close>

lemma kept_image:
  assumes "f ` A \<subseteq> g ` B" and "\<And>b. b \<in> B \<Longrightarrow> \<not> Q b \<Longrightarrow> g b \<in> R"
  shows "f ` {a \<in> A. f a \<notin> R} \<subseteq> g ` {b \<in> B. Q b}"
  using assms by fastforce

lemma RemoveProject_ok: "config_ok c \<Longrightarrow> config_ok (fst (RemoveProject p c))"
  using kept_image [of cw_project_id "set (cf_workspaces c)" cp_id "set (cf_projects c)" "\<lambda>x. cp_id x \<noteq> p" "{p}"]
  by (auto simp: config_ok_def RemoveProject_def keyed_def distinct_map_filter)

lemma RemoveBackend_ok:
  assumes "config_ok c"
  shows "config_ok (fst (RemoveBackend b c))"
proof -
  let ?R = "cp_id ` set (filter (\<lambda>x. cp_backend_id x = b) (cf_projects c))"
  have "cw_project_id ` {w \<in> set (cf_workspaces c). cw_project_id w \<notin> ?R} \<subseteq> cp_id ` {x \<in> set (cf_projects c). cp_backend_id x \<noteq> b}"
    by (rule kept_image [OF config_okD(4) [OF assms]]) simp
  moreover have "cp_backend_id ` {x \<in> set (cf_projects c). cp_backend_id x \<noteq> b} \<subseteq> bk_id ` {x \<in> set (cf_backends c). bk_id x \<noteq> b}"
    using config_okD(3) [OF assms] kept_image [of cp_backend_id "set (cf_projects c)" bk_id "set (cf_backends c)" "\<lambda>x. bk_id x \<noteq> b" "{b}"]
    by simp
  ultimately show ?thesis
    using config_okD(1,2) [OF assms] by (simp add: config_ok_def RemoveBackend_def Let_def keyed_def distinct_map_filter)
qed

lemma fold_BindProject_ok:
  assumes "config_ok (c\<lparr>cf_workspaces := []\<rparr>)" and "b \<in> bk_id ` set (cf_backends c)"
  shows "config_ok ((fold (\<lambda>p. BindProject p b) ps c)\<lparr>cf_workspaces := []\<rparr>)
    \<and> cf_backends (fold (\<lambda>p. BindProject p b) ps c) = cf_backends c
    \<and> cf_workspaces (fold (\<lambda>p. BindProject p b) ps c) = cf_workspaces c"
  using assms
proof (induction ps arbitrary: c)
  case (Cons p ps)
  have same: "cf_backends (BindProject p b c) = cf_backends c" "cf_workspaces (BindProject p b c) = cf_workspaces c"
    "(BindProject p b c)\<lparr>cf_workspaces := []\<rparr> = BindProject p b (c\<lparr>cf_workspaces := []\<rparr>)"
    by (simp_all add: BindProject_def)
  have "config_ok (BindProject p b (c\<lparr>cf_workspaces := []\<rparr>))"
    by (rule BindProject_ok [OF Cons.prems(1)]) (simp add: Cons.prems(2))
  then have "config_ok ((BindProject p b c)\<lparr>cf_workspaces := []\<rparr>)" by (simp add: same(3))
  from Cons.IH [OF this] Cons.prems(2) show ?case by (simp add: same(1,2))
qed simp

lemma bound_to_dom: "bound_to p c \<noteq> None \<longleftrightarrow> p \<in> cp_id ` set (cf_projects c)"
  unfolding bound_to_def using t_get_None [of cp_id p "cf_projects c"] by (simp add: t_get_def)

lemma Single_ok:
  assumes "canonicalOrigin api \<noteq> []" "device \<noteq> []" and "\<forall>w \<in> set ws. cw_project_id w \<noteq> []"
  shows "config_ok (Single loopback api device ws)"
    and "\<forall>w \<in> set ws. BackendForWorkspace w (Single loopback api device ws) = Some (newBackend loopback api device)"
    and "cf_workspaces (Single loopback api device ws) = ws"
proof -
  let ?b = "newBackend loopback api device" and ?c = "Single loopback api device ws"
  let ?init = "\<lparr>cf_version = Version, cf_backends = [newBackend loopback api device], cf_projects = [], cf_workspaces = ws\<rparr>"
  have c: "?c = fold (\<lambda>p. BindProject p (bk_id ?b)) (map cw_project_id ws) ?init"
    unfolding Single_def Let_def fold_map comp_def using assms(1,2) by simp
  have ok: "config_ok (?c\<lparr>cf_workspaces := []\<rparr>)" "cf_backends ?c = [?b]" "cf_workspaces ?c = ws"
  proof -
    have "config_ok (?init\<lparr>cf_workspaces := []\<rparr>)" "bk_id ?b \<in> bk_id ` set (cf_backends ?init)"
      by (simp_all add: config_ok_def keyed_def)
    from fold_BindProject_ok [OF this, of "map cw_project_id ws", folded c]
    show "config_ok (?c\<lparr>cf_workspaces := []\<rparr>)" "cf_backends ?c = [?b]" "cf_workspaces ?c = ws" by simp_all
  qed
  have bid: "bk_id ?b \<noteq> []" by (simp add: newBackend_def Let_def BackendID_def)
  have bound: "bound_to (cw_project_id w) ?c = Some (bk_id ?b)" if "w \<in> set ws" for w
    unfolding c using profile.bind_all [OF bid, of "cw_project_id w" "map cw_project_id ws"] that assms(3) by simp
  then have "cw_project_id w \<in> cp_id ` set (cf_projects ?c)" if "w \<in> set ws" for w
    using that by (simp flip: bound_to_dom)
  with ok show "config_ok ?c" by (auto simp: config_ok_def)
  show "\<forall>w \<in> set ws. BackendForWorkspace w ?c = Some ?b"
    using bound ok(2) by (fastforce simp: BackendForWorkspace_def BackendForProject_def BackendByID_def bound_to_def)
  show "cf_workspaces ?c = ws" by (rule ok(3))
qed

section \<open>Properties\<close>


definition sample_config :: config where
  "sample_config = \<lparr>cf_version = 2,
     cf_backends = [\<lparr>bk_id = ''bk_1'', bk_api_base_url = ''https://a'', bk_device_id = ''dev_1'', bk_kind = ''team''\<rparr>,
                    \<lparr>bk_id = ''bk_2'', bk_api_base_url = ''http://localhost'', bk_device_id = ''dev_2'', bk_kind = ''local''\<rparr>],
     cf_projects = [\<lparr>cp_id = ''prj_a'', cp_backend_id = ''bk_1''\<rparr>, \<lparr>cp_id = ''prj_b'', cp_backend_id = ''bk_2''\<rparr>],
     cf_workspaces = [\<lparr>cw_id = ''wsp_a'', cw_project_id = ''prj_a'', cw_workstream_id = ''wrk_a'', cw_root = ''/repo'',
       cw_baseline = ''HEAD'', cw_fingerprint = ''fp'', cw_member_id = ''mem_a'', cw_session_id = ''ses_a''\<rparr>]\<rparr>"

lemma sample_config_ok: "config_ok sample_config"
  by (simp add: config_ok_def sample_config_def keyed_def)


text \<open>C11. Moving a Project to a backend of the profile succeeds exactly when the Project is registered
  and lives elsewhere; it then resolves to that backend together with all its repositories, and
  every other Project, the backends and the repositories stay as they are.\<close>

theorem rebind_moves_exactly_one:
  assumes "p \<noteq> []" and "b \<noteq> []"
  shows "((\<exists>c'. RebindProject p b c = Inr c') \<longleftrightarrow>
      BackendByID b c \<noteq> None \<and> (\<exists>b0. bound_to p c = Some b0 \<and> b0 \<noteq> b))
    \<and> (\<forall>c'. RebindProject p b c = Inr c' \<longrightarrow>
      BackendForProject p c' = BackendByID b c \<and> cf_backends c' = cf_backends c \<and> cf_workspaces c' = cf_workspaces c
      \<and> (\<forall>q. q \<noteq> p \<longrightarrow> BackendForProject q c' = BackendForProject q c))"
proof (intro conjI allI impI)
  show "(\<exists>c'. RebindProject p b c = Inr c') \<longleftrightarrow>
      BackendByID b c \<noteq> None \<and> (\<exists>b0. bound_to p c = Some b0 \<and> b0 \<noteq> b)"
    using assms by (simp add: RebindProject_def bound_to_def split: option.split)
  fix c' assume "RebindProject p b c = Inr c'"
  then obtain x where x: "find (\<lambda>x. cp_id x = p) (cf_projects c) = Some x"
    and c': "c' = c\<lparr>cf_projects := replace_first (\<lambda>x. cp_id x = p) (\<lambda>x. x\<lparr>cp_backend_id := b\<rparr>) (cf_projects c)\<rparr>"
    by (auto simp: RebindProject_def split: if_splits option.splits)
  show "BackendForProject p c' = BackendByID b c"
    by (simp add: BackendForProject_def BackendByID_def c' find_replace_first x)
  show "BackendForProject q c' = BackendForProject q c" if "q \<noteq> p" for q
    using that by (simp add: BackendForProject_def BackendByID_def c' find_replace_first split: option.split)
  show "cf_backends c' = cf_backends c" "cf_workspaces c' = cf_workspaces c"
    by (simp_all add: c')
qed

theorem rebind_moves_exactly_one_witness:
  "\<exists>c'. RebindProject ''prj_a'' ''bk_2'' sample_config = Inr c'
    \<and> map_option bk_kind (BackendForProject ''prj_a'' c') = Some ''local''"
proof -
  have "\<exists>c'. RebindProject ''prj_a'' ''bk_2'' sample_config = Inr c'"
    using rebind_moves_exactly_one [of "''prj_a''" "''bk_2''" sample_config]
    by (simp add: BackendByID_def bound_to_def sample_config_def)
  then obtain c' where run: "RebindProject ''prj_a'' ''bk_2'' sample_config = Inr c'" by blast
  then have "BackendForProject ''prj_a'' c' = BackendByID ''bk_2'' sample_config"
    using rebind_moves_exactly_one [of "''prj_a''" "''bk_2''" sample_config] by simp
  with run show ?thesis by (simp add: BackendByID_def sample_config_def)
qed



text \<open>A device identity is never replaced: enrolling a known backend with another device is
  refused, and a successful enrollment makes the origin resolve to exactly the enrolled device
  without changing what any other backend id, Project or repository resolves to.\<close>

theorem enrollment_keeps_identities:
  assumes "canonicalOrigin (canonicalOrigin api) = canonicalOrigin api"
  shows "(\<forall>b. BackendForOrigin api c = Some b \<and> bk_device_id b \<noteq> [] \<and> bk_device_id b \<noteq> device
        \<longrightarrow> (\<exists>e. UpsertBackend loopback api device c = Inl e))
    \<and> (\<forall>c' b. UpsertBackend loopback api device c = Inr (c', b) \<longrightarrow>
        BackendForOrigin api c' = Some b \<and> bk_device_id b = device \<and> bk_api_base_url b = canonicalOrigin api
        \<and> (\<forall>i. i \<noteq> bk_id b \<longrightarrow> BackendByID i c' = BackendByID i c)
        \<and> cf_projects c' = cf_projects c \<and> cf_workspaces c' = cf_workspaces c)"
proof (intro conjI allI impI)
  let ?b = "newBackend loopback (canonicalOrigin api) device"
  have b: "bk_id ?b = BackendID api" "bk_api_base_url ?b = canonicalOrigin api"
    by (simp_all add: newBackend_def Let_def BackendID_def assms)
  fix b assume "BackendForOrigin api c = Some b \<and> bk_device_id b \<noteq> [] \<and> bk_device_id b \<noteq> device"
  then show "\<exists>e. UpsertBackend loopback api device c = Inl e"
    by (simp add: UpsertBackend_def Let_def b BackendForOrigin_def BackendByID_def)
next
  let ?b = "newBackend loopback (canonicalOrigin api) device"
  have b: "bk_id ?b = BackendID api" "bk_api_base_url ?b = canonicalOrigin api"
    by (simp_all add: newBackend_def Let_def BackendID_def assms)
  fix c' b' assume run: "UpsertBackend loopback api device c = Inr (c', b')"
  then have "b' = ?b" by (auto simp: UpsertBackend_def Let_def split: if_splits option.splits)
  moreover have "BackendByID i c' = (if i = BackendID api then Some ?b else BackendByID i c)" for i
    using run find_replace_first_const [where key = bk_id and b = ?b and q = i and xs = "cf_backends c"]
    by (auto simp: UpsertBackend_def Let_def b BackendByID_def find_append split: if_splits option.splits)
  ultimately show "BackendForOrigin api c' = Some b'" "bk_device_id b' = device" "bk_api_base_url b' = canonicalOrigin api"
    "i \<noteq> bk_id b' \<Longrightarrow> BackendByID i c' = BackendByID i c" for i
    by (simp_all add: BackendForOrigin_def b)
  show "cf_projects c' = cf_projects c" "cf_workspaces c' = cf_workspaces c"
    using run by (auto simp: UpsertBackend_def Let_def split: if_splits option.splits)
qed

theorem enrollment_keeps_identities_witness:
  "\<exists>c' b. UpsertBackend (\<lambda>x. False) ''https://a/'' ''dev_9'' \<lparr>cf_version = 2, cf_backends = [], cf_projects = [], cf_workspaces = []\<rparr>
      = Inr (c', b) \<and> BackendForOrigin ''https://a/'' c' = Some b \<and> bk_device_id b = ''dev_9''"
proof -
  let ?c = "\<lparr>cf_version = 2, cf_backends = [], cf_projects = [], cf_workspaces = []\<rparr>"
  have origin: "canonicalOrigin ''https://a/'' = ''https://a''" "canonicalOrigin ''https://a'' = ''https://a''"
    by (simp_all add: canonicalOrigin_def trim_space_def trim_left.simps byte_def trim_right_slash_def)
  obtain c' b where run: "UpsertBackend (\<lambda>x. False) ''https://a/'' ''dev_9'' ?c = Inr (c', b)"
    by (simp add: UpsertBackend_def Let_def origin)
  with enrollment_keeps_identities [of "''https://a/''" ?c "''dev_9''" "\<lambda>x. False"] show ?thesis
    by (simp add: origin)
qed

end
