(* ===== verification/Go_Path.thy ===== *)
theory Go_Path
  imports Go_Prelude
begin

text \<open>
  Package \<^verbatim>\<open>path/filepath\<close> on a Unix system and the UTF-8 tests of \<^verbatim>\<open>unicode/utf8\<close>, as far as the
  service uses them. The separator is a slash, so \<^verbatim>\<open>FromSlash\<close> and \<^verbatim>\<open>ToSlash\<close> are the identity.
\<close>

section \<open>UTF-8\<close>

definition cont_byte :: "char \<Rightarrow> bool" where "cont_byte c \<longleftrightarrow> 128 \<le> byte c \<and> byte c \<le> 191"

text \<open>The width of the rune at the head of the string, 0 if the bytes are not valid there.\<close>

fun rune_width :: "string \<Rightarrow> nat" where
  "rune_width [] = 0"
| "rune_width (a # s) =
     (if byte a < 128 then 1
      else case s of
        [] \<Rightarrow> 0
      | b # t \<Rightarrow>
          if 194 \<le> byte a \<and> byte a \<le> 223 \<and> cont_byte b then 2
          else case t of
            [] \<Rightarrow> 0
          | c # u \<Rightarrow>
              if cont_byte c \<and> (byte a = 224 \<and> 160 \<le> byte b \<and> byte b \<le> 191
                 \<or> (225 \<le> byte a \<and> byte a \<le> 236 \<or> byte a \<in> {238, 239}) \<and> cont_byte b
                 \<or> byte a = 237 \<and> 128 \<le> byte b \<and> byte b \<le> 159) then 3
              else case u of
                [] \<Rightarrow> 0
              | e # v \<Rightarrow>
                  if cont_byte c \<and> cont_byte e \<and> (byte a = 240 \<and> 144 \<le> byte b \<and> byte b \<le> 191
                    \<or> 241 \<le> byte a \<and> byte a \<le> 243 \<and> cont_byte b
                    \<or> byte a = 244 \<and> 128 \<le> byte b \<and> byte b \<le> 143) then 4 else 0)"

lemma rune_width_le: "rune_width s \<le> length s"
  by (cases s rule: rune_width.cases) (auto split: list.splits)

text \<open>\<^verbatim>\<open>utf8.ValidString\<close> and \<^verbatim>\<open>utf8.RuneCountInString\<close>; an invalid byte counts as one rune.\<close>

function valid_utf8 :: "string \<Rightarrow> bool" where
  "valid_utf8 s = (if s = [] then True else if rune_width s = 0 then False else valid_utf8 (drop (rune_width s) s))"
  by pat_completeness auto
termination
proof (relation "measure length", simp)
  fix s :: string
  assume "s \<noteq> []" "rune_width s \<noteq> 0"
  with rune_width_le [of s] show "(drop (rune_width s) s, s) \<in> measure length" by simp
qed

declare valid_utf8.simps [simp del]

function rune_count :: "string \<Rightarrow> nat" where
  "rune_count s = (if s = [] then 0 else 1 + rune_count (drop (max 1 (rune_width s)) s))"
  by pat_completeness auto
termination
  by (relation "measure length") auto

declare rune_count.simps [simp del]

section \<open>Paths\<close>

definition is_abs :: "string \<Rightarrow> bool" where "is_abs p \<longleftrightarrow> (\<exists>q. p = CHR ''/'' # q)"

lemma is_abs_code [code]: "is_abs p = (case p of [] \<Rightarrow> False | c # q \<Rightarrow> c = CHR ''/'')"
  by (cases p) (auto simp: is_abs_def)

text \<open>The elements of a cleaned path, in reverse: \<^verbatim>\<open>.\<close> and empty elements go, \<^verbatim>\<open>..\<close> takes its parent.\<close>

fun clean_elems :: "bool \<Rightarrow> string list \<Rightarrow> string list \<Rightarrow> string list" where
  "clean_elems rooted [] out = out"
| "clean_elems rooted (e # es) out =
     (if e = [] \<or> e = ''.'' then clean_elems rooted es out
      else if e = ''..'' then
        (case out of
           [] \<Rightarrow> clean_elems rooted es (if rooted then [] else [''..''])
         | p # ps \<Rightarrow> clean_elems rooted es (if p = ''..'' then ''..'' # out else ps))
      else clean_elems rooted es (e # out))"

definition clean :: "string \<Rightarrow> string" where
  "clean p =
     (let out = join ''/'' (rev (clean_elems (is_abs p) (split_on (CHR ''/'') p) []))
      in if is_abs p then CHR ''/'' # out else if out = [] then ''.'' else out)"

text \<open>\<^verbatim>\<open>filepath.Dir\<close>, \<^verbatim>\<open>filepath.Base\<close> of a cleaned path and \<^verbatim>\<open>filepath.Join\<close> of two elements.\<close>

definition dir :: "string \<Rightarrow> string" where
  "dir p = clean (rev (dropWhile (\<lambda>c. c \<noteq> CHR ''/'') (rev p)))"

definition base :: "string \<Rightarrow> string" where
  "base p = (if p = [] then ''.'' else let b = last (split_on (CHR ''/'') p) in if b = [] then ''/'' else b)"

definition join_path :: "string \<Rightarrow> string \<Rightarrow> string" where
  "join_path a b = (if a = [] then (if b = [] then [] else clean b) else if b = [] then clean a else clean (a @ ''/'' @ b))"

text \<open>
  \<^verbatim>\<open>filepath.Rel\<close> for two cleaned absolute paths, when the target lies in the base: \<open>None\<close> stands for
  a result that is \<^verbatim>\<open>..\<close> or starts with it.
\<close>

definition under :: "string \<Rightarrow> string \<Rightarrow> bool" where
  "under root p \<longleftrightarrow> p = root \<or> has_prefix p (if root = ''/'' then root else root @ ''/'')"

definition rel_inside :: "string \<Rightarrow> string \<Rightarrow> string option" where
  "rel_inside root p =
     (if p = root then Some ''.''
      else if has_prefix p (if root = ''/'' then root else root @ ''/'')
      then Some (drop (if root = ''/'' then 1 else length root + 1) p) else None)"

lemma rel_inside_None: "rel_inside root p = None \<longleftrightarrow> \<not> under root p"
  by (simp add: rel_inside_def under_def)

section \<open>Cleaned relative paths\<close>

text \<open>Elements are proper names, except for leading parents.\<close>

definition proper :: "string \<Rightarrow> bool" where
  "proper e \<longleftrightarrow> e \<noteq> [] \<and> e \<noteq> ''.'' \<and> e \<noteq> ''..'' \<and> CHR ''/'' \<notin> set e"

definition clean_form :: "string list \<Rightarrow> bool" where
  "clean_form out \<longleftrightarrow> (\<exists>names n. out = names @ replicate n ''..'' \<and> list_all proper names)"

lemma clean_form_tail: "clean_form (p # ps) \<Longrightarrow> p \<noteq> ''..'' \<Longrightarrow> clean_form ps"
proof -
  assume "clean_form (p # ps)" and p: "p \<noteq> ''..''"
  then obtain names n where out: "p # ps = names @ replicate n ''..''" and names: "list_all proper names"
    by (auto simp: clean_form_def)
  with p obtain names' where "names = p # names'" by (cases names) (auto simp: Cons_eq_append_conv Cons_replicate_eq)
  with out names show ?thesis by (auto simp: clean_form_def)
qed

lemma clean_form_parent: "clean_form (''..'' # ps) \<Longrightarrow> clean_form (''..'' # ''..'' # ps)"
proof -
  assume "clean_form (''..'' # ps)"
  then obtain names n where out: "''..'' # ps = names @ replicate n ''..''" and names: "list_all proper names"
    by (auto simp: clean_form_def)
  have "names = []"
    using out names by (cases names) (auto simp: proper_def)
  with out have "''..'' # ''..'' # ps = [] @ replicate (Suc n) ''..''" by simp
  moreover have "list_all proper []" by simp
  ultimately show ?thesis unfolding clean_form_def by blast
qed

lemma clean_form_name: "clean_form out \<Longrightarrow> proper e \<Longrightarrow> clean_form (e # out)"
  unfolding clean_form_def by (metis append_Cons list.pred_inject(2))

lemma clean_form_simple: "clean_form []" "clean_form [''..'']"
proof -
  show "clean_form []" unfolding clean_form_def by (intro exI [of _ "[]"] exI [of _ 0]) simp
  show "clean_form [''..'']" unfolding clean_form_def by (intro exI [of _ "[]"] exI [of _ 1]) simp
qed

lemma clean_elems_form:
  "clean_form out \<Longrightarrow> list_all (\<lambda>e. CHR ''/'' \<notin> set e) es \<Longrightarrow> clean_form (clean_elems rooted es out)"
proof (induction es arbitrary: out)
  case (Cons e es)
  consider "e = [] \<or> e = ''.''" | "e = ''..''" "out = []" | p ps where "e = ''..''" "out = p # ps"
    | "e \<noteq> []" "e \<noteq> ''.''" "e \<noteq> ''..''"
    by (cases out) blast+
  then show ?case
  proof cases
    case 1
    with Cons show ?thesis by simp
  next
    case 2
    with Cons clean_form_simple show ?thesis by simp
  next
    case (3 p ps)
    with Cons clean_form_tail [of p ps] clean_form_parent [of ps] show ?thesis by (cases "p = ''..''") simp_all
  next
    case 4
    with Cons clean_form_name [of out e] show ?thesis by (simp add: proper_def)
  qed
qed simp

text \<open>
  A cleaned relative path is \<^verbatim>\<open>.\<close>, leads out of its base, or is a sequence of proper names.
\<close>

lemma clean_relative:
  assumes "\<not> is_abs p"
  shows "clean p = ''.'' \<or> clean p = ''..'' \<or> has_prefix (clean p) ''../''
    \<or> (\<exists>names. names \<noteq> [] \<and> list_all proper names \<and> clean p = join ''/'' names)"
proof -
  let ?out = "clean_elems False (split_on (CHR ''/'') p) []"
  have "list_all (\<lambda>e. CHR ''/'' \<notin> set e) (split_on (CHR ''/'') p)"
    using split_on_no_sep by (auto simp: list_all_iff)
  then have "clean_form ?out"
    by (intro clean_elems_form clean_form_simple)
  then obtain names n where out: "rev ?out = replicate n ''..'' @ rev names" and names: "list_all proper names"
    by (auto simp: clean_form_def)
  have clean: "clean p = (let o1 = join ''/'' (rev ?out) in if o1 = [] then ''.'' else o1)"
    using assms by (simp add: clean_def Let_def)
  show ?thesis
  proof (cases n)
    case 0
    show ?thesis
    proof (cases "names = []")
      case True
      with 0 out have "clean p = ''.''" by (simp add: clean)
      then show ?thesis by simp
    next
      case False
      then obtain x xs where "rev names = x # xs" by (cases "rev names") auto
      with names have "join ''/'' (rev names) \<noteq> []"
        using join_fields_Nil [of "''/''" "rev names" x] by (auto simp: list_all_iff proper_def)
      with 0 out False have "clean p = join ''/'' (rev names)" by (simp add: clean)
      moreover have "rev names \<noteq> []" "list_all proper (rev names)"
        using names False by (auto simp: list_all_iff)
      ultimately show ?thesis by blast
    qed
  next
    case (Suc m)
    then have "rev ?out = ''..'' # (replicate m ''..'' @ rev names)" using out by simp
    then show ?thesis
      by (cases "replicate m ''..'' @ rev names") (simp_all add: clean has_prefix_def)
  qed
qed

end
