(* ===== verification/Git_Manifest.thy ===== *)
theory Git_Manifest
  imports Go_Path Go_Encoding Sql_Table
begin

text \<open>
  \<^verbatim>\<open>internal/git/git.go\<close> and \<^verbatim>\<open>internal/manifest/manifest.go\<close>: the manifest of a working tree, read from
  the porcelain of git, path by path and layer by layer, with its content hash and the repository
  fingerprint.

  The git program is an argument, \<open>git\<close>: a function from the command line to its output or an
  error. So are the file system, \<open>eval\<close>, which answers what \<^verbatim>\<open>filepath.EvalSymlinks\<close> answers for a
  path, and \<open>parse_url\<close>, the host and path that \<^verbatim>\<open>net/url\<close> finds in a remote. The repository root
  is a cleaned absolute path, so \<^verbatim>\<open>filepath.Abs\<close> returns it unchanged.
\<close>

type_synonym git_run = "string list \<Rightarrow> string + string"

datatype fs_answer = Resolved string | NotExist | FsError string

record change =
  ch_status :: string
  ch_old_path :: string

record states =
  st_baseline :: "change option"
  st_index :: "change option"
  st_worktree :: "change option"

record entry =
  en_path :: string
  en_states :: states

record git_manifest =
  gm_baseline :: string
  gm_head :: string
  gm_baseline_state :: string
  gm_entries :: "entry list"

datatype layer = Baseline | Index | Worktree

definition CaptureBaseline :: "git_run \<Rightarrow> string + string" where
  "CaptureBaseline git =
     (case git [''rev-parse'', ''--verify'', ''HEAD^{commit}''] of
        Inl e \<Rightarrow> Inl (''capture baseline: '' @ e)
      | Inr out \<Rightarrow> Inr (trim_space out))"

definition validBranchName :: "string \<Rightarrow> bool" where
  "validBranchName name \<longleftrightarrow>
     \<not> (name = [] \<or> 255 < length name \<or> has_prefix name ''-'')
     \<and> list_all (\<lambda>c. \<not> (byte c < 33 \<or> byte c = 127 \<or> c \<in> set '' ~^:?*['' \<or> byte c = 92)) name
     \<and> \<not> str_contains name ''..'' \<and> \<not> str_contains name (''@'' @ ''{'') \<and> \<not> has_suffix name ''.lock''"

definition CurrentBranch :: "git_run \<Rightarrow> string" where
  "CurrentBranch git =
     (case git [''symbolic-ref'', ''--quiet'', ''--short'', ''HEAD''] of
        Inl e \<Rightarrow> []
      | Inr out \<Rightarrow> (let branch = trim_space out in if validBranchName branch then branch else []))"

definition hex_chars :: string where "hex_chars = ''0123456789abcdefABCDEF''"

definition validOID :: "string \<Rightarrow> bool" where
  "validOID s \<longleftrightarrow> (length s = 40 \<or> length s = 64) \<and> list_all (\<lambda>c. c \<in> set hex_chars) s"

definition split0 :: "string \<Rightarrow> string list" where
  "split0 b =
     (if b = [] then []
      else let p = split_on NUL b in if last p = [] then butlast p else p)"

definition status :: "char \<Rightarrow> string" where
  "status c = (if c = CHR ''A'' then ''added'' else if c = CHR ''D'' then ''deleted''
     else if c = CHR ''R'' then ''renamed'' else if c = CHR ''C'' then ''copied'' else ''modified'')"

text \<open>The walk to the deepest existing ancestor; \<open>up\<close> holds the elements of the path, last first.\<close>

definition abs_path :: "string list \<Rightarrow> string" where
  "abs_path up = CHR ''/'' # join ''/'' (rev up)"

fun check_existing :: "(string \<Rightarrow> fs_answer) \<Rightarrow> string \<Rightarrow> string list \<Rightarrow> string + unit" where
  "check_existing eval root [] =
     (case eval (abs_path []) of
        Resolved r \<Rightarrow> if under root r then Inr () else Inl ''symlink escape''
      | FsError e \<Rightarrow> Inl e
      | NotExist \<Rightarrow> Inr ())"
| "check_existing eval root (e # up) =
     (case eval (abs_path (e # up)) of
        Resolved r \<Rightarrow> if under root r then Inr () else Inl ''symlink escape''
      | FsError x \<Rightarrow> Inl x
      | NotExist \<Rightarrow> check_existing eval root up)"

definition resolved_root :: "(string \<Rightarrow> fs_answer) \<Rightarrow> string \<Rightarrow> string" where
  "resolved_root eval root = (case eval root of Resolved r \<Rightarrow> r | _ \<Rightarrow> root)"

definition normalize :: "(string \<Rightarrow> fs_answer) \<Rightarrow> string \<Rightarrow> string \<Rightarrow> string + string" where
  "normalize eval root raw =
     (if raw = [] \<or> \<not> valid_utf8 raw \<or> is_abs raw \<or> NUL \<in> set raw then Inl ''invalid relative path''
      else let path = clean raw in
        if path = ''.'' \<or> path = ''..'' \<or> has_prefix path ''../'' then Inl ''path escape''
        else let absolute = resolved_root eval root;
                 joined = join_path absolute path
             in bindE (check_existing eval absolute (clean_elems True (split_on (CHR ''/'') joined) []))
                  (\<lambda>_. if 512 < rune_count path then Inl ''path exceeds manifest limit'' else Inr path))"

definition no_states :: states where
  "no_states = \<lparr>st_baseline = None, st_index = None, st_worktree = None\<rparr>"

fun set_layer :: "layer \<Rightarrow> change \<Rightarrow> states \<Rightarrow> states" where
  "set_layer Baseline c s = s\<lparr>st_baseline := Some c\<rparr>"
| "set_layer Index c s = s\<lparr>st_index := Some c\<rparr>"
| "set_layer Worktree c s = s\<lparr>st_worktree := Some c\<rparr>"

text \<open>\<^verbatim>\<open>entry := d[p]; entry.Path = p; entry.States... = &change; d[p] = entry\<close>.\<close>

definition put_change :: "layer \<Rightarrow> change \<Rightarrow> string \<Rightarrow> entry list \<Rightarrow> entry list" where
  "put_change l c p d =
     t_upsert en_path (\<lambda>old new. old\<lparr>en_states := set_layer l c (en_states old)\<rparr>)
       \<lparr>en_path = p, en_states = set_layer l c no_states\<rparr> d"

fun merge_fields :: "(string \<Rightarrow> string + string) \<Rightarrow> layer \<Rightarrow> string list \<Rightarrow> entry list \<Rightarrow> string + entry list" where
  "merge_fields norm l [] d = Inr d"
| "merge_fields norm l [c] d = Inl ''malformed git status''"
| "merge_fields norm l (c # f1 # fs) d =
     (if c = [] then Inl ''malformed git status''
      else if hd c = CHR ''R'' \<or> hd c = CHR ''C'' then
        (case fs of
           [] \<Rightarrow> Inl ''malformed rename''
         | f2 # rest \<Rightarrow>
             bindE (norm f1) (\<lambda>old. bindE (norm f2) (\<lambda>p.
               merge_fields norm l rest (put_change l \<lparr>ch_status = status (hd c), ch_old_path = old\<rparr> p d))))
      else bindE (norm f1) (\<lambda>p.
        merge_fields norm l fs (put_change l \<lparr>ch_status = status (hd c), ch_old_path = []\<rparr> p d)))"

definition merge :: "(string \<Rightarrow> string + string) \<Rightarrow> entry list \<Rightarrow> string \<Rightarrow> layer \<Rightarrow> string + entry list" where
  "merge norm d b l = merge_fields norm l (split0 b) d"

definition observe_layer :: "git_run \<Rightarrow> (string \<Rightarrow> string + string) \<Rightarrow> string list \<Rightarrow> layer \<Rightarrow> entry list \<Rightarrow> string + entry list" where
  "observe_layer git norm args l d = bindE (git args) (\<lambda>b. merge norm d b l)"

definition observe_untracked :: "(string \<Rightarrow> string + string) \<Rightarrow> string \<Rightarrow> entry list \<Rightarrow> string + entry list" where
  "observe_untracked norm b d =
     foldE (\<lambda>raw d. bindE (norm raw) (\<lambda>p. Inr (put_change Worktree \<lparr>ch_status = ''untracked'', ch_old_path = []\<rparr> p d)))
       (split0 b) d"

definition baseline_state :: "git_run \<Rightarrow> string \<Rightarrow> string" where
  "baseline_state git baseline =
     (case git [''cat-file'', ''-e'', baseline @ ''^{commit}''] of
        Inl e \<Rightarrow> ''missing''
      | Inr out \<Rightarrow>
          (case git [''merge-base'', ''--is-ancestor'', baseline, ''HEAD''] of
             Inl e \<Rightarrow> ''diverged_non_ancestor''
           | Inr out \<Rightarrow> ''ancestor''))"

definition Observe :: "git_run \<Rightarrow> (string \<Rightarrow> fs_answer) \<Rightarrow> string \<Rightarrow> string \<Rightarrow> string + git_manifest" where
  "Observe git eval root baseline =
     (let norm = normalize eval root in
      if \<not> validOID baseline then Inl ''invalid baseline object ID''
      else bindE (git [''rev-parse'', ''--verify'', ''HEAD^{commit}'']) (\<lambda>head.
        let state = baseline_state git baseline in
        bindE (if state \<noteq> ''missing''
               then observe_layer git norm [''diff'', ''--name-status'', ''-z'', ''-M'', baseline, ''HEAD'', ''--''] Baseline []
               else Inr []) (\<lambda>d1.
        bindE (observe_layer git norm [''diff'', ''--name-status'', ''-z'', ''-M'', ''--''] Worktree d1) (\<lambda>d2.
        bindE (observe_layer git norm [''diff'', ''--cached'', ''--name-status'', ''-z'', ''-M'', ''--''] Index d2) (\<lambda>d3.
        bindE (git [''ls-files'', ''--others'', ''--exclude-standard'', ''-z'', ''--'']) (\<lambda>b.
        bindE (observe_untracked norm b d3) (\<lambda>d4.
          Inr \<lparr>gm_baseline = baseline, gm_head = trim_space head, gm_baseline_state = state,
               gm_entries = sort_key en_path d4\<rparr>)))))))"

definition layer_text :: "string \<Rightarrow> change option \<Rightarrow> string" where
  "layer_text name st =
     (let (s, old) = (case st of None \<Rightarrow> ([], []) | Some c \<Rightarrow> (ch_status c, ch_old_path c))
      in name @ [NUL] @ s @ [NUL] @ old @ [NUL])"

definition entry_text :: "entry \<Rightarrow> string" where
  "entry_text e = en_path e @ [NUL] @ layer_text ''baseline'' (st_baseline (en_states e))
     @ layer_text ''index'' (st_index (en_states e)) @ layer_text ''worktree'' (st_worktree (en_states e))"

fun hash_text :: "string option \<Rightarrow> entry list \<Rightarrow> string \<Rightarrow> string + string" where
  "hash_text prev [] h = Inr h"
| "hash_text prev (e # es) h =
     (if (case prev of None \<Rightarrow> False | Some p \<Rightarrow> en_path e \<le> p)
      then Inl ''manifest paths must be strictly ordered and unique''
      else hash_text (Some (en_path e)) es (h @ entry_text e))"

definition Hash :: "entry list \<Rightarrow> string + string" where
  "Hash entries = bindE (hash_text None entries []) (\<lambda>h. Inr (sha256_hex h))"

text \<open>The pattern \<^verbatim>\<open>^prj_[a-z0-9_]{1,80}$\<close>.\<close>

definition id_char :: "char \<Rightarrow> bool" where
  "id_char c \<longleftrightarrow> 97 \<le> byte c \<and> byte c \<le> 122 \<or> 48 \<le> byte c \<and> byte c \<le> 57 \<or> byte c = 95"

definition matches_id :: "string \<Rightarrow> nat \<Rightarrow> string \<Rightarrow> bool" where
  "matches_id prefix most s \<longleftrightarrow> has_prefix s prefix \<and> length prefix < length s \<and> length s \<le> length prefix + most
     \<and> list_all id_char (drop (length prefix) s)"

fun uniqueStrings :: "string list \<Rightarrow> string list" where
  "uniqueStrings [] = []"
| "uniqueStrings [s] = [s]"
| "uniqueStrings (s # t # ss) = (if s = t then uniqueStrings (t # ss) else s # uniqueStrings (t # ss))"

definition trim_slashes :: "string \<Rightarrow> string" where
  "trim_slashes s = rev (dropWhile (\<lambda>c. c = CHR ''/'') (rev (dropWhile (\<lambda>c. c = CHR ''/'') s)))"

definition remote_name :: "string \<Rightarrow> string \<Rightarrow> string" where
  "remote_name host path = to_lower host @ ''/'' @ trim_suffix (trim_slashes path) ''.git''"

text \<open>The text after the last \<^verbatim>\<open>@\<close>, the whole text if there is none.\<close>

definition after_user :: "string \<Rightarrow> string" where
  "after_user raw = rev (takeWhile (\<lambda>c. c \<noteq> CHR ''@'') (rev raw))"

definition normalizeRemote :: "(string \<Rightarrow> (string \<times> string) option) \<Rightarrow> string \<Rightarrow> string + string" where
  "normalizeRemote parse_url raw =
     (if \<not> str_contains raw ''://'' then
        (let rest = after_user raw in
         if CHR '':'' \<notin> set rest then Inl ''unsupported remote''
         else Inr (remote_name (takeWhile (\<lambda>c. c \<noteq> CHR '':'') rest) (tl (dropWhile (\<lambda>c. c \<noteq> CHR '':'') rest))))
      else (case parse_url raw of
        None \<Rightarrow> Inl ''invalid remote''
      | Some (host, path) \<Rightarrow> if host = [] then Inl ''invalid remote'' else Inr (remote_name host path)))"

definition remote_of :: "git_run \<Rightarrow> (string \<Rightarrow> (string \<times> string) option) \<Rightarrow> string \<Rightarrow> string + string" where
  "remote_of git parse_url name =
     bindE (git [''remote'', ''get-url'', name]) (\<lambda>b. normalizeRemote parse_url (trim_space b))"

definition Fingerprint :: "git_run \<Rightarrow> (string \<Rightarrow> (string \<times> string) option) \<Rightarrow> string \<Rightarrow> string + string" where
  "Fingerprint git parse_url project =
     (if \<not> matches_id ''prj_'' 80 project then Inl ''invalid Project ID''
      else bindE (git [''remote'']) (\<lambda>names.
        bindE (foldE (\<lambda>n rem. bindE (remote_of git parse_url n) (\<lambda>v. Inr (rem @ [v]))) (Go_Prelude.fields names) []) (\<lambda>rem.
          case uniqueStrings (sort rem) of
            [] \<Rightarrow> Inl ''repository registration requires exactly one distinct normalized remote; found none''
          | [r] \<Rightarrow> Inr (sha256_hex (''overgent.repository-fingerprint.v1'' @ [NUL] @ project @ [NUL] @ r))
          | _ \<Rightarrow> Inl ''repository registration requires explicit selection from multiple distinct remotes'')))"

definition CommonDir :: "git_run \<Rightarrow> string + string" where
  "CommonDir git = bindE (git [''rev-parse'', ''--path-format=absolute'', ''--git-common-dir'']) (\<lambda>b. Inr (clean (trim_space b)))"

text \<open>\<^verbatim>\<open>manifest.Chunk\<close>; a size that is not positive panics.\<close>

function Chunk :: "'a list \<Rightarrow> nat \<Rightarrow> 'a list list option" where
  "Chunk entries n =
     (if n = 0 then None
      else if entries = [] then Some []
      else map_option (\<lambda>rest. take (min n (length entries)) entries # rest)
             (Chunk (drop (min n (length entries)) entries) n))"
  by pat_completeness auto
termination
  by (relation "measure (\<lambda>(entries, n). length entries)") auto

declare Chunk.simps [simp del]

section \<open>Entries\<close>

interpretation entries_tab: upsert_table en_path "\<lambda>old new. old\<lparr>en_states := set_layer l c (en_states old)\<rparr>" for l c
  by unfold_locales simp

lemma put_change_keyed: "keyed en_path d \<Longrightarrow> keyed en_path (put_change l c p d)"
  by (simp add: put_change_def entries_tab.keyed_upsert)

lemma put_change_paths: "en_path ` set (put_change l c p d) = insert p (en_path ` set d)"
  by (simp add: put_change_def entries_tab.keys_upsert)

definition states_of :: "string \<Rightarrow> entry list \<Rightarrow> states" where
  "states_of p d = (case t_get en_path p d of None \<Rightarrow> no_states | Some e \<Rightarrow> en_states e)"

lemma states_of_put_change:
  "states_of q (put_change l c p d) = (if q = p then set_layer l c (states_of p d) else states_of q d)"
  by (simp add: states_of_def put_change_def entries_tab.get_upsert split: option.split)

lemma status_props [simp]: "status c \<noteq> []" "NUL \<notin> set (status c)"
  by (auto simp: status_def NUL_def)

text \<open>An invariant that every change of an observation keeps holds for the whole observation.\<close>

lemma merge_fields_induct:
  assumes "merge_fields norm l fs d = Inr d'" and "P d"
    and "\<And>p c d raw. norm raw = Inr p \<Longrightarrow> \<exists>x. ch_status c = status x \<Longrightarrow> ch_old_path c = [] \<or> (\<exists>r. norm r = Inr (ch_old_path c)) \<Longrightarrow>
       P d \<Longrightarrow> P (put_change l c p d)"
  shows "P d'"
  using assms
proof (induction norm l fs d rule: merge_fields.induct)
  case (3 norm l c f1 fs d)
  note step = 3(5)
  show ?case
  proof (cases "hd c = CHR ''R'' \<or> hd c = CHR ''C''")
    case True
    with 3(3) obtain f2 rest old p where rest: "fs = f2 # rest" "norm f1 = Inr old" "norm f2 = Inr p" "c \<noteq> []"
      and more: "merge_fields norm l rest (put_change l \<lparr>ch_status = status (hd c), ch_old_path = old\<rparr> p d) = Inr d'"
      by (auto split: if_splits list.splits)
    have "P (put_change l \<lparr>ch_status = status (hd c), ch_old_path = old\<rparr> p d)"
      by (rule step [OF rest(3) _ _ 3(4)]) (use rest(2) in auto)
    with 3(1) [OF rest(4) True rest(1) more] step show ?thesis by blast
  next
    case False
    with 3(3) obtain p where p: "norm f1 = Inr p" "c \<noteq> []"
      and more: "merge_fields norm l fs (put_change l \<lparr>ch_status = status (hd c), ch_old_path = []\<rparr> p d) = Inr d'"
      by (auto split: if_splits)
    have "P (put_change l \<lparr>ch_status = status (hd c), ch_old_path = []\<rparr> p d)"
      by (rule step [OF p(1) _ _ 3(4)]) auto
    with 3(2) [OF p(2) False more] step show ?thesis by blast
  qed
qed simp_all

section \<open>Normalized paths\<close>

definition path_ok :: "string \<Rightarrow> bool" where
  "path_ok p \<longleftrightarrow> (\<exists>names. names \<noteq> [] \<and> list_all proper names \<and> p = join ''/'' names) \<and> NUL \<notin> set p \<and> rune_count p \<le> 512"

lemma set_join: "set (join sep xs) \<subseteq> set sep \<union> (\<Union>x \<in> set xs. set x)"
  by (induction sep xs rule: join.induct) auto

lemma set_split_on: "x \<in> set (split_on c s) \<Longrightarrow> set x \<subseteq> set s"
  by (induction s arbitrary: x) (fastforce split: if_splits list.splits)+

lemma clean_elems_from: "set (clean_elems r es out) \<subseteq> insert ''..'' (set es \<union> set out)"
  by (induction r es out rule: clean_elems.induct) (auto split: list.splits if_splits)

lemma set_clean: "set (clean p) \<subseteq> insert (CHR ''/'') (insert (CHR ''.'') (set p))"
proof -
  let ?es = "clean_elems (is_abs p) (split_on (CHR ''/'') p) []"
  have "set x \<subseteq> insert (CHR ''.'') (set p)" if "x \<in> set ?es" for x
  proof -
    have "x = ''..'' \<or> x \<in> set (split_on (CHR ''/'') p)"
      using that clean_elems_from [of "is_abs p" "split_on (CHR ''/'') p" "[]"] by auto
    then show ?thesis using set_split_on [of x "CHR ''/''" p] by auto
  qed
  then have "set (join ''/'' (rev ?es)) \<subseteq> insert (CHR ''/'') (insert (CHR ''.'') (set p))"
    using set_join [of "''/''" "rev ?es"] by fastforce
  then show ?thesis by (auto simp: clean_def Let_def)
qed

text \<open>The deepest existing ancestor, and that it lies inside the root.\<close>

definition ancestor_inside :: "(string \<Rightarrow> fs_answer) \<Rightarrow> string \<Rightarrow> string list \<Rightarrow> bool" where
  "ancestor_inside eval root up \<longleftrightarrow>
     (\<forall>k \<le> length up. eval (abs_path (drop k up)) = NotExist)
     \<or> (\<exists>k \<le> length up. \<exists>r. eval (abs_path (drop k up)) = Resolved r \<and> under root r
          \<and> (\<forall>j < k. eval (abs_path (drop j up)) = NotExist))"

lemma check_existing_inside: "check_existing eval root up = Inr () \<Longrightarrow> ancestor_inside eval root up"
proof (induction up)
  case Nil
  then show ?case by (auto simp: ancestor_inside_def split: fs_answer.splits if_splits)
next
  case (Cons e up)
  show ?case
  proof (cases "eval (abs_path (e # up))")
    case (Resolved r)
    with Cons.prems have "under root r" by (simp split: if_splits)
    with Resolved show ?thesis unfolding ancestor_inside_def by (intro disjI2 exI [of _ 0]) simp
  next
    case (FsError x)
    with Cons.prems show ?thesis by simp
  next
    case NotExist
    with Cons have "ancestor_inside eval root up" by simp
    then show ?thesis
      unfolding ancestor_inside_def
    proof (elim disjE exE conjE)
      assume none: "\<forall>k \<le> length up. eval (abs_path (drop k up)) = NotExist"
      have "eval (abs_path (drop k (e # up))) = NotExist" if "k \<le> length (e # up)" for k
        using none NotExist that by (cases k) simp_all
      then show "(\<forall>k \<le> length (e # up). eval (abs_path (drop k (e # up))) = NotExist) \<or>
        (\<exists>k \<le> length (e # up). \<exists>r. eval (abs_path (drop k (e # up))) = Resolved r \<and> under root r
          \<and> (\<forall>j < k. eval (abs_path (drop j (e # up))) = NotExist))" by blast
    next
      fix k r assume k: "k \<le> length up" "eval (abs_path (drop k up)) = Resolved r" "under root r"
        "\<forall>j < k. eval (abs_path (drop j up)) = NotExist"
      have "eval (abs_path (drop j (e # up))) = NotExist" if "j < Suc k" for j
        using k(4) NotExist that by (cases j) simp_all
      with k(1-3) show "(\<forall>k \<le> length (e # up). eval (abs_path (drop k (e # up))) = NotExist) \<or>
        (\<exists>k \<le> length (e # up). \<exists>r. eval (abs_path (drop k (e # up))) = Resolved r \<and> under root r
          \<and> (\<forall>j < k. eval (abs_path (drop j (e # up))) = NotExist))"
        by (intro disjI2 exI [of _ "Suc k"] conjI exI [of _ r]) auto
    qed
  qed
qed

lemma normalize_ok:
  assumes "normalize eval root raw = Inr p"
  shows "path_ok p"
    and "ancestor_inside eval (resolved_root eval root)
      (clean_elems True (split_on (CHR ''/'') (join_path (resolved_root eval root) p)) [])"
proof -
  from assms have raw: "\<not> is_abs raw" "NUL \<notin> set raw" and p: "p = clean raw"
    and safe: "\<not> (clean raw = ''.'' \<or> clean raw = ''..'' \<or> has_prefix (clean raw) ''../'')"
    and check: "check_existing eval (resolved_root eval root)
       (clean_elems True (split_on (CHR ''/'') (join_path (resolved_root eval root) p)) []) = Inr ()"
    and len: "rune_count p \<le> 512"
    by (auto simp: normalize_def Let_def split: if_splits)
  have "NUL \<notin> set p"
    using set_clean [of raw] raw(2) p by (auto simp: NUL_def)
  with clean_relative [OF raw(1)] safe len show "path_ok p"
    by (auto simp: path_ok_def p)
  show "ancestor_inside eval (resolved_root eval root)
      (clean_elems True (split_on (CHR ''/'') (join_path (resolved_root eval root) p)) [])"
    by (rule check_existing_inside [OF check])
qed

section \<open>Observed manifests\<close>

definition change_ok :: "change option \<Rightarrow> bool" where
  "change_ok x = (case x of None \<Rightarrow> True
     | Some c \<Rightarrow> ch_status c \<noteq> [] \<and> NUL \<notin> set (ch_status c) \<and> NUL \<notin> set (ch_old_path c))"

definition states_ok :: "states \<Rightarrow> bool" where
  "states_ok s \<longleftrightarrow> change_ok (st_baseline s) \<and> change_ok (st_index s) \<and> change_ok (st_worktree s)"

definition entry_ok :: "entry \<Rightarrow> bool" where
  "entry_ok e \<longleftrightarrow> path_ok (en_path e) \<and> states_ok (en_states e)"

definition entries_ok :: "entry list \<Rightarrow> bool" where
  "entries_ok d \<longleftrightarrow> keyed en_path d \<and> list_all entry_ok d"

lemma states_ok_set_layer: "states_ok s \<Longrightarrow> change_ok (Some c) \<Longrightarrow> states_ok (set_layer l c s)"
  by (cases l) (simp_all add: states_ok_def)

lemma put_change_ok:
  assumes "entries_ok d" and "path_ok p" and "change_ok (Some c)"
  shows "entries_ok (put_change l c p d)"
proof -
  have "entry_ok e" if "e \<in> set (put_change l c p d)" for e
    using that unfolding put_change_def
  proof (cases rule: entries_tab.upsert_cases)
    case (merged y)
    with assms(1) have "entry_ok y" by (simp add: entries_ok_def list_all_iff)
    with merged assms(3) show ?thesis by (simp add: entry_ok_def states_ok_set_layer)
  next
    case other
    with assms(1) show ?thesis by (simp add: entries_ok_def list_all_iff)
  next
    case fresh
    have "states_ok no_states" by (simp add: no_states_def states_ok_def change_ok_def)
    with fresh assms(2,3) show ?thesis by (simp add: entry_ok_def states_ok_set_layer)
  qed
  with assms(1) show ?thesis by (simp add: entries_ok_def put_change_keyed list_all_iff)
qed

lemma merge_ok:
  assumes "merge (normalize eval root) d b l = Inr d'" and "entries_ok d"
  shows "entries_ok d'"
proof (rule merge_fields_induct [where P = entries_ok and norm = "normalize eval root" and l = l and fs = "split0 b" and d = d])
  fix p :: string and c :: change and d raw
  assume p: "normalize eval root raw = Inr p" and s: "\<exists>x. ch_status c = status x"
    and old: "ch_old_path c = [] \<or> (\<exists>r. normalize eval root r = Inr (ch_old_path c))" and ok: "entries_ok d"
  have "NUL \<notin> set (ch_old_path c)"
    using old normalize_ok(1) by (auto simp: path_ok_def)
  moreover obtain x where "ch_status c = status x" using s by blast
  ultimately have "change_ok (Some c)" by (simp add: change_ok_def)
  then show "entries_ok (put_change l c p d)"
    by (rule put_change_ok [OF ok normalize_ok(1) [OF p]])
qed (use assms in \<open>simp_all add: merge_def\<close>)

lemma observe_untracked_ok:
  assumes "observe_untracked (normalize eval root) b d = Inr d'" and "entries_ok d"
  shows "entries_ok d'"
  using assms(1) unfolding observe_untracked_def
proof (rule foldE_invariant [where P = entries_ok, OF _ assms(2)])
  fix raw d d''
  assume ok: "entries_ok d" and call: "bindE (normalize eval root raw)
      (\<lambda>p. Inr (put_change Worktree \<lparr>ch_status = ''untracked'', ch_old_path = []\<rparr> p d)) = Inr d''"
  then obtain p where p: "normalize eval root raw = Inr p"
    "d'' = put_change Worktree \<lparr>ch_status = ''untracked'', ch_old_path = []\<rparr> p d" by auto
  have "change_ok (Some \<lparr>ch_status = ''untracked'', ch_old_path = []\<rparr>)" by (simp add: change_ok_def NUL_def)
  from put_change_ok [OF ok normalize_ok(1) [OF p(1)] this] p(2) show "entries_ok d''" by simp
qed

lemma observe_layer_ok:
  "observe_layer git (normalize eval root) args l d = Inr d' \<Longrightarrow> entries_ok d \<Longrightarrow> entries_ok d'"
  by (auto simp: observe_layer_def intro: merge_ok)

lemma Observe_entries:
  assumes "Observe git eval root baseline = Inr m"
  shows "\<exists>d. entries_ok d \<and> gm_entries m = sort_key en_path d"
proof -
  have nil: "entries_ok []" by (simp add: entries_ok_def)
  from assms obtain d1 d2 d3 d4 b where
    d1: "(if baseline_state git baseline \<noteq> ''missing''
       then observe_layer git (normalize eval root) [''diff'', ''--name-status'', ''-z'', ''-M'', baseline, ''HEAD'', ''--''] Baseline []
       else Inr []) = Inr d1"
    and d2: "observe_layer git (normalize eval root) [''diff'', ''--name-status'', ''-z'', ''-M'', ''--''] Worktree d1 = Inr d2"
    and d3: "observe_layer git (normalize eval root) [''diff'', ''--cached'', ''--name-status'', ''-z'', ''-M'', ''--''] Index d2 = Inr d3"
    and d4: "observe_untracked (normalize eval root) b d3 = Inr d4" and m: "gm_entries m = sort_key en_path d4"
    by (auto simp: Observe_def Let_def split: if_splits)
  have "entries_ok d1" using d1 nil observe_layer_ok by (auto split: if_splits)
  from observe_layer_ok [OF d2 this] have "entries_ok d2" .
  from observe_layer_ok [OF d3 this] have "entries_ok d3" .
  from observe_untracked_ok [OF d4 this] m show ?thesis by blast
qed

section \<open>The content hash\<close>

lemma hash_text_append:
  "hash_text prev es h = Inr t \<Longrightarrow> t = h @ concat (map entry_text es)"
  by (induction prev es h rule: hash_text.induct) (auto split: if_splits)

lemma hash_text_total:
  "sorted_wrt (<) (map en_path es) \<Longrightarrow> (\<forall>p. prev = Some p \<longrightarrow> (\<forall>e \<in> set es. p < en_path e)) \<Longrightarrow>
     hash_text prev es h = Inr (h @ concat (map entry_text es))"
proof (induction es arbitrary: prev h)
  case (Cons e es)
  have "hash_text (Some (en_path e)) es (h @ entry_text e) = Inr ((h @ entry_text e) @ concat (map entry_text es))"
    using Cons.prems(1) by (intro Cons.IH) auto
  with Cons.prems(2) show ?case by (auto split: option.splits)
qed simp

lemma hash_text_strict:
  "hash_text prev es h = Inr t \<Longrightarrow> sorted_wrt (<) (map en_path es) \<and> (\<forall>p. prev = Some p \<longrightarrow> (\<forall>e \<in> set es. p < en_path e))"
proof (induction prev es h rule: hash_text.induct)
  case (2 prev e es h)
  then show ?case by (auto split: if_splits option.splits)
qed simp

text \<open>Fields closed by a NUL byte are read back from their concatenation.\<close>

definition closed :: "string list \<Rightarrow> string" where
  "closed fs = concat (map (\<lambda>f. f @ [NUL]) fs)"

lemma closed_append: "closed (xs @ ys) = closed xs @ closed ys"
  by (simp add: closed_def)

lemma split_closed: "list_all (\<lambda>f. NUL \<notin> set f) fs \<Longrightarrow> split_on NUL (closed fs) = fs @ [[]]"
  by (induction fs) (simp_all add: closed_def split_on_snoc_sep)

lemma closed_inject:
  assumes "list_all (\<lambda>f. NUL \<notin> set f) fs" and "list_all (\<lambda>f. NUL \<notin> set f) gs" and "closed fs = closed gs"
  shows "fs = gs"
proof -
  have "fs @ [[]] = gs @ [[]]"
    using split_closed [OF assms(1)] split_closed [OF assms(2)] unfolding assms(3) by (rule trans [OF sym])
  then show ?thesis by simp
qed

lemma split0_closed: "list_all (\<lambda>f. NUL \<notin> set f) fs \<Longrightarrow> split0 (closed fs) = fs"
  by (cases fs) (simp_all add: split0_def split_closed Let_def, simp_all add: closed_def)

definition layer_fields :: "string \<Rightarrow> change option \<Rightarrow> string list" where
  "layer_fields name st = (case st of None \<Rightarrow> [name, [], []] | Some c \<Rightarrow> [name, ch_status c, ch_old_path c])"

definition entry_fields :: "entry \<Rightarrow> string list" where
  "entry_fields e = en_path e # layer_fields ''baseline'' (st_baseline (en_states e))
     @ layer_fields ''index'' (st_index (en_states e)) @ layer_fields ''worktree'' (st_worktree (en_states e))"

lemma entry_text_closed: "entry_text e = closed (entry_fields e)"
  by (simp add: entry_text_def entry_fields_def layer_text_def layer_fields_def closed_def split: option.split)

lemma entry_fields_clear: "entry_ok e \<Longrightarrow> list_all (\<lambda>f. NUL \<notin> set f) (entry_fields e)"
  by (auto simp: entry_ok_def path_ok_def states_ok_def change_ok_def entry_fields_def layer_fields_def NUL_def split: option.splits)

lemma layer_fields_inject:
  "change_ok a \<Longrightarrow> change_ok b \<Longrightarrow> layer_fields name a = layer_fields name b \<Longrightarrow> a = b"
  by (auto simp: layer_fields_def change_ok_def split: option.splits)

lemma length_layer_fields [simp]: "length (layer_fields name a) = 3"
  by (simp add: layer_fields_def split: option.split)

lemma length_entry_fields [simp]: "length (entry_fields e) = 10"
  by (simp add: entry_fields_def)

lemma entry_fields_inject:
  assumes "entry_ok a" "entry_ok b" "entry_fields a = entry_fields b"
  shows "a = b"
proof -
  have "en_path a = en_path b" and "layer_fields ''baseline'' (st_baseline (en_states a)) = layer_fields ''baseline'' (st_baseline (en_states b))"
    "layer_fields ''index'' (st_index (en_states a)) = layer_fields ''index'' (st_index (en_states b))"
    "layer_fields ''worktree'' (st_worktree (en_states a)) = layer_fields ''worktree'' (st_worktree (en_states b))"
    using assms(3) by (simp_all add: entry_fields_def append_eq_append_conv)
  with layer_fields_inject assms(1,2) show ?thesis
    unfolding entry_ok_def states_ok_def by (metis entry.equality old.unit.exhaust states.equality)
qed

lemma entries_fields_inject:
  "list_all entry_ok xs \<Longrightarrow> list_all entry_ok ys \<Longrightarrow> concat (map entry_fields xs) = concat (map entry_fields ys) \<Longrightarrow> xs = ys"
proof (induction xs arbitrary: ys)
  case Nil
  then show ?case by (cases ys) (auto simp flip: length_0_conv)
next
  case (Cons x xs)
  then obtain y ys' where ys: "ys = y # ys'" by (cases ys) (auto simp flip: length_0_conv)
  with Cons.prems(3) have "entry_fields x = entry_fields y" "concat (map entry_fields xs) = concat (map entry_fields ys')"
    by (simp_all add: append_eq_append_conv)
  with Cons ys entry_fields_inject show ?case by auto
qed

section \<open>Reading git's porcelain\<close>

text \<open>
  A line of \<^verbatim>\<open>git diff --name-status -z\<close>: the status letter with its similarity score, the old path
  of a rename or copy, and the path.
\<close>

record diff_line =
  dl_letter :: char
  dl_score :: string
  dl_old :: string
  dl_path :: string

definition two_paths :: "diff_line \<Rightarrow> bool" where
  "two_paths x \<longleftrightarrow> dl_letter x = CHR ''R'' \<or> dl_letter x = CHR ''C''"

definition line_fields :: "diff_line \<Rightarrow> string list" where
  "line_fields x = (dl_letter x # dl_score x) # (if two_paths x then [dl_old x, dl_path x] else [dl_path x])"

definition line_ok :: "(string \<Rightarrow> string + string) \<Rightarrow> diff_line \<Rightarrow> bool" where
  "line_ok norm x \<longleftrightarrow> NUL \<noteq> dl_letter x \<and> NUL \<notin> set (dl_score x) \<and> NUL \<notin> set (dl_path x) \<and> norm (dl_path x) = Inr (dl_path x)
     \<and> (two_paths x \<longrightarrow> NUL \<notin> set (dl_old x) \<and> norm (dl_old x) = Inr (dl_old x))"

definition apply_line :: "layer \<Rightarrow> diff_line \<Rightarrow> entry list \<Rightarrow> entry list" where
  "apply_line l x d = put_change l
     \<lparr>ch_status = status (dl_letter x), ch_old_path = (if two_paths x then dl_old x else [])\<rparr> (dl_path x) d"

lemma states_of_apply_line:
  "states_of q (apply_line l x d) = (if dl_path x = q then set_layer l \<lparr>ch_status = status (dl_letter x),
     ch_old_path = (if two_paths x then dl_old x else [])\<rparr> (states_of q d) else states_of q d)"
  by (auto simp: apply_line_def states_of_put_change)

lemma merge_fields_lines:
  "list_all (line_ok norm) xs \<Longrightarrow>
     merge_fields norm l (concat (map line_fields xs)) d = Inr (fold (apply_line l) xs d)"
proof (induction xs arbitrary: d)
  case (Cons x xs)
  then show ?case
    by (cases "two_paths x") (auto simp: line_fields_def line_ok_def apply_line_def two_paths_def)
qed simp

lemma line_fields_clear: "line_ok norm x \<Longrightarrow> list_all (\<lambda>f. NUL \<notin> set f) (line_fields x)"
  by (auto simp: line_ok_def line_fields_def)

section \<open>Properties\<close>

text \<open>C13. A path that leaves normalization is a non-empty sequence of proper names, at most 512
  characters, without NUL and without any step to a parent, and the deepest part of it that
  exists resolves, through whatever symbolic links, to a place inside the repository.\<close>

theorem normalize_never_escapes:
  assumes "normalize eval root raw = Inr p"
  shows "path_ok p \<and> ancestor_inside eval (resolved_root eval root)
      (clean_elems True (split_on (CHR ''/'') (join_path (resolved_root eval root) p)) [])"
  using normalize_ok [OF assms] by simp

theorem normalize_never_escapes_witness:
  "normalize (\<lambda>p. if p = ''/r'' then Resolved ''/r'' else NotExist) ''/r'' ''a/../b.go'' = Inr ''b.go'' \<and> path_ok ''b.go''"
proof -
  have "normalize (\<lambda>p. if p = ''/r'' then Resolved ''/r'' else NotExist) ''/r'' ''a/../b.go'' = Inr ''b.go''"
    by (simp add: normalize_def Let_def valid_utf8.simps byte_def is_abs_def NUL_def clean_def has_prefix_def
        resolved_root_def join_path_def abs_path_def under_def rune_count.simps)
  with normalize_never_escapes [OF this] show ?thesis by blast
qed

text \<open>The manifest of a working tree always has a content hash: whatever git prints, if the
  observation succeeds then its entries are strictly ordered by path, every path is one that
  normalization allows, and \<open>Hash\<close> accepts them.\<close>

theorem observed_manifest_hashes:
  assumes "Observe git eval root baseline = Inr m"
  shows "sorted_wrt (<) (map en_path (gm_entries m)) \<and> list_all entry_ok (gm_entries m)
    \<and> Hash (gm_entries m) = Inr (sha256_hex (closed (concat (map entry_fields (gm_entries m)))))"
proof -
  obtain d where ok: "entries_ok d" and m: "gm_entries m = sort_key en_path d"
    using Observe_entries [OF assms] by blast
  have "keyed en_path (gm_entries m)" using ok by (simp add: m entries_ok_def)
  then have sorted: "sorted_wrt (<) (map en_path (gm_entries m))"
    by (simp add: m strict_sorted_iff keyed_def)
  have "closed (concat (map entry_fields es)) = concat (map entry_text es)" for es
    by (induction es) (simp_all add: entry_text_closed closed_append, simp add: closed_def)
  then have "Hash (gm_entries m) = Inr (sha256_hex (closed (concat (map entry_fields (gm_entries m)))))"
    using hash_text_total [OF sorted, of None "[]"] by (simp add: Hash_def)
  with sorted ok show ?thesis by (simp add: m entries_ok_def list_all_iff)
qed

text \<open>A repository whose baseline is gone and in which one file is untracked.\<close>

definition sample_git :: git_run where
  "sample_git args =
     (if hd args = ''rev-parse'' then Inr (''abc'' @ [LF])
      else if hd args = ''cat-file'' then Inl ''missing''
      else if hd args = ''ls-files'' then Inr (''b.go'' @ [NUL] @ ''a.go'' @ [NUL])
      else Inr [])"

lemma sample_observe:
  "Observe sample_git (\<lambda>p. NotExist) ''/r'' (replicate 40 (CHR ''0'')) =
     Inr \<lparr>gm_baseline = replicate 40 (CHR ''0''), gm_head = trim_space (''abc'' @ [LF]), gm_baseline_state = ''missing'',
       gm_entries = map (\<lambda>p. \<lparr>en_path = p, en_states = no_states\<lparr>st_worktree := Some \<lparr>ch_status = ''untracked'', ch_old_path = []\<rparr>\<rparr>\<rparr>)
         [''a.go'', ''b.go'']\<rparr>"
proof -
  have norm: "normalize (\<lambda>p. NotExist) ''/r'' ''a.go'' = Inr ''a.go''" "normalize (\<lambda>p. NotExist) ''/r'' ''b.go'' = Inr ''b.go''"
    by (simp_all add: normalize_def Let_def valid_utf8.simps byte_def is_abs_def NUL_def clean_def has_prefix_def
        resolved_root_def join_path_def abs_path_def under_def rune_count.simps)
  have files: "split0 (''b.go'' @ [NUL] @ ''a.go'' @ [NUL]) = [''b.go'', ''a.go'']"
    by (simp add: split0_def NUL_def)
  have "validOID (replicate 40 (CHR ''0''))"
    by (simp add: validOID_def hex_chars_def list_all_iff)
  then show ?thesis
    using norm files by (simp add: Observe_def Let_def sample_git_def baseline_state_def observe_layer_def merge_def split0_def
        observe_untracked_def put_change_def t_upsert_def)
qed

theorem observed_manifest_hashes_witness:
  "\<exists>m h. Observe sample_git (\<lambda>p. NotExist) ''/r'' (replicate 40 (CHR ''0'')) = Inr m \<and> Hash (gm_entries m) = Inr h"
  using observed_manifest_hashes [OF sample_observe] sample_observe by blast

text \<open>C14. The bytes that are hashed determine the manifest: two lists of valid entries with the same
  hash input are the same list, so a changed path, layer, status or old path always changes what
  is hashed.\<close>

theorem hash_input_injective:
  assumes "hash_text None xs [] = Inr t" and "hash_text None ys [] = Inr t"
    and "list_all entry_ok xs" and "list_all entry_ok ys"
  shows "xs = ys"
proof (rule entries_fields_inject [OF assms(3,4)])
  have cat: "closed (concat (map entry_fields es)) = concat (map entry_text es)" for es
    by (induction es) (simp_all add: entry_text_closed closed_append, simp add: closed_def)
  have "closed (concat (map entry_fields xs)) = closed (concat (map entry_fields ys))"
    using hash_text_append [OF assms(1)] hash_text_append [OF assms(2)] by (simp add: cat)
  moreover have "list_all (\<lambda>f. NUL \<notin> set f) (concat (map entry_fields es))" if "list_all entry_ok es" for es
    using that entry_fields_clear by (fastforce simp: list_all_iff)
  ultimately show "concat (map entry_fields xs) = concat (map entry_fields ys)"
    using assms(3,4) by (blast intro: closed_inject)
qed

theorem hash_input_injective_witness:
  "\<exists>t. hash_text None [\<lparr>en_path = ''a.go'', en_states = no_states\<rparr>] [] = Inr t
    \<and> (\<forall>ys. hash_text None ys [] = Inr t \<and> list_all entry_ok ys \<longrightarrow> ys = [\<lparr>en_path = ''a.go'', en_states = no_states\<rparr>])"
proof -
  have "path_ok ''a.go''"
    using normalize_ok(1) [of "\<lambda>p. NotExist" "''/r''" "''a.go''" "''a.go''"]
    by (simp add: normalize_def Let_def valid_utf8.simps byte_def is_abs_def NUL_def clean_def has_prefix_def
        resolved_root_def join_path_def abs_path_def under_def rune_count.simps)
  then have ok: "list_all entry_ok [\<lparr>en_path = ''a.go'', en_states = no_states\<rparr>]"
    by (simp add: entry_ok_def states_ok_def change_ok_def no_states_def)
  obtain t where t: "hash_text None [\<lparr>en_path = ''a.go'', en_states = no_states\<rparr>] [] = Inr t" by simp
  from hash_input_injective [OF t _ ok] t show ?thesis by metis
qed

text \<open>Reading git's output is the inverse of printing it: the NUL separated lines of a diff are
  merged one by one, each recording its status, its old path if it is a rename or a copy, and
  nothing else, for any number of lines and any layer.\<close>

theorem merge_reads_porcelain:
  assumes "list_all (line_ok norm) xs"
  shows "merge norm d (closed (concat (map line_fields xs))) l = Inr (fold (apply_line l) xs d)
    \<and> (\<forall>q. states_of q (fold (apply_line l) xs d) =
        fold (\<lambda>x s. if dl_path x = q then set_layer l \<lparr>ch_status = status (dl_letter x),
            ch_old_path = (if two_paths x then dl_old x else [])\<rparr> s else s) xs (states_of q d))"
proof (intro conjI allI)
  have "list_all (\<lambda>f. NUL \<notin> set f) (concat (map line_fields xs))"
    using assms line_fields_clear by (fastforce simp: list_all_iff)
  then show "merge norm d (closed (concat (map line_fields xs))) l = Inr (fold (apply_line l) xs d)"
    using merge_fields_lines [OF assms] by (simp add: merge_def split0_closed)
  show "states_of q (fold (apply_line l) xs d) =
        fold (\<lambda>x s. if dl_path x = q then set_layer l \<lparr>ch_status = status (dl_letter x),
            ch_old_path = (if two_paths x then dl_old x else [])\<rparr> s else s) xs (states_of q d)" for q
  proof (induction xs arbitrary: d)
    case (Cons x xs)
    show ?case
      by (simp add: Cons states_of_apply_line)
  qed simp
qed

theorem merge_reads_porcelain_witness:
  "\<exists>d. merge (\<lambda>p. Inr p) [] (''R100'' @ [NUL] @ ''old.go'' @ [NUL] @ ''new.go'' @ [NUL]) Index = Inr d
    \<and> st_index (states_of ''new.go'' d) = Some \<lparr>ch_status = ''renamed'', ch_old_path = ''old.go''\<rparr>"
proof -
  let ?x = "\<lparr>dl_letter = CHR ''R'', dl_score = ''100'', dl_old = ''old.go'', dl_path = ''new.go''\<rparr>"
  have "list_all (line_ok (\<lambda>p. Inr p)) [?x]" by (simp add: line_ok_def NUL_def)
  from merge_reads_porcelain [OF this, of "[]" Index]
  show ?thesis
    by (auto simp: closed_def line_fields_def two_paths_def states_of_def t_get_def no_states_def status_def)
qed

text \<open>Cutting a manifest into chunks loses nothing: for a positive size the chunks are non-empty,
  hold at most that many entries, and concatenate to the manifest; a size of zero is refused.\<close>

theorem chunks_partition:
  "(0 < n \<longrightarrow> (\<exists>cs. Chunk xs n = Some cs \<and> concat cs = xs \<and> list_all (\<lambda>c. c \<noteq> [] \<and> length c \<le> n) cs)) \<and> Chunk xs 0 = None"
proof (intro conjI impI)
  show "Chunk xs 0 = None" by (simp add: Chunk.simps)
  assume "0 < n"
  then show "\<exists>cs. Chunk xs n = Some cs \<and> concat cs = xs \<and> list_all (\<lambda>c. c \<noteq> [] \<and> length c \<le> n) cs"
  proof (induction xs n rule: Chunk.induct)
    case (1 xs n)
    show ?case
    proof (cases "xs = []")
      case True
      with 1(2) show ?thesis by (simp add: Chunk.simps)
    next
      case False
      with 1 obtain cs where "Chunk (drop (min n (length xs)) xs) n = Some cs" "concat cs = drop (min n (length xs)) xs"
        "list_all (\<lambda>c. c \<noteq> [] \<and> length c \<le> n) cs" by auto
      with False 1(2) show ?thesis by (simp add: Chunk.simps [of xs])
    qed
  qed
qed

theorem chunks_partition_witness: "\<exists>cs. Chunk [1 :: nat, 2, 3] 2 = Some cs \<and> concat cs = [1, 2, 3]"
  using chunks_partition [of 2 "[1 :: nat, 2, 3]"] by auto

end
