(* ===== verification/Watch_Tree.thy ===== *)
theory Watch_Tree
  imports Git_Manifest
begin

text \<open>
  \<^verbatim>\<open>internal/git/ignores.go\<close>, the answer to whether git ignores a path, and \<^verbatim>\<open>internal/watcher/watcher.go\<close>,
  the set of directories under watch. The locale \<open>ignorer\<close> is the Go interface \<^verbatim>\<open>Ignorer\<close> between them:
  what \<^verbatim>\<open>Prune\<close> cuts off, \<^verbatim>\<open>Ignored\<close> ignores too, whatever was asked before.

  The program \<^verbatim>\<open>git check-ignore\<close> is the argument \<open>check\<close>. The backend of \<^verbatim>\<open>fsnotify\<close> is the list of the
  paths it watches, with the argument \<open>add_ok\<close> (\<open>remove_ok\<close>) saying for which paths its \<^verbatim>\<open>Add\<close>
  (\<^verbatim>\<open>Remove\<close>) succeeds. A directory tree is a value, with its entries in the order
  \<^verbatim>\<open>filepath.WalkDir\<close> visits them. The mutexes make each step atomic and do not appear.
\<close>

section \<open>Ignored paths\<close>

definition ignoreCacheLimit :: nat where "ignoreCacheLimit = 4096"

record ignores =
  ig_root :: string
  ig_dirs :: "string list"
  ig_files :: "string list"
  ig_cache :: "(string \<times> bool) list"

definition NewIgnores :: "git_run \<Rightarrow> string \<Rightarrow> string + ignores" where
  "NewIgnores git root =
     bindE (git [''ls-files'', ''-z'', ''--others'', ''--ignored'', ''--exclude-standard'', ''--directory'']) (\<lambda>out.
       Inr \<lparr>ig_root = root,
            ig_dirs = map (\<lambda>p. butlast p) (filter (\<lambda>p. has_suffix p ''/'') (split0 out)),
            ig_files = filter (\<lambda>p. \<not> has_suffix p ''/'') (split0 out), ig_cache = []\<rparr>)"

definition relative :: "ignores \<Rightarrow> string \<Rightarrow> string option" where
  "relative ig path = rel_inside (ig_root ig) path"

definition pathDir :: "string \<Rightarrow> string" where
  "pathDir p = (if CHR ''/'' \<in> set p then rev (tl (dropWhile (\<lambda>c. c \<noteq> CHR ''/'') (rev p))) else p)"

lemma pathDir_shorter: "CHR ''/'' \<in> set p \<Longrightarrow> length (pathDir p) < length p"
proof -
  assume slash: "CHR ''/'' \<in> set p"
  then have "dropWhile (\<lambda>c. c \<noteq> CHR ''/'') (rev p) \<noteq> []"
    by (auto simp: dropWhile_eq_Nil_conv)
  then have "length (tl (dropWhile (\<lambda>c. c \<noteq> CHR ''/'') (rev p))) < length (dropWhile (\<lambda>c. c \<noteq> CHR ''/'') (rev p))"
    by simp
  also have "\<dots> \<le> length p"
    using length_dropWhile_le [of _ "rev p"] by simp
  finally show ?thesis using slash by (simp add: pathDir_def)
qed

function probe_dirs :: "string list \<Rightarrow> string \<Rightarrow> bool" where
  "probe_dirs dirs probe =
     (if probe \<in> set dirs then True
      else if pathDir probe = probe then False
      else probe_dirs dirs (pathDir probe))"
  by pat_completeness auto
termination
proof (relation "measure (\<lambda>(dirs, probe). length probe)", simp)
  fix dirs :: "string list" and probe :: string
  assume "pathDir probe \<noteq> probe"
  then have "CHR ''/'' \<in> set probe" by (auto simp: pathDir_def split: if_splits)
  from pathDir_shorter [OF this]
  show "((dirs, pathDir probe), dirs, probe) \<in> measure (\<lambda>(dirs, probe). length probe)" by simp
qed

declare probe_dirs.simps [simp del]

definition Prune :: "ignores \<Rightarrow> string \<Rightarrow> bool" where
  "Prune ig path =
     (case relative ig path of
        None \<Rightarrow> False
      | Some rel \<Rightarrow>
          if rel = ''.'' then False
          else if rel \<in> set (ig_files ig) then True
          else probe_dirs (ig_dirs ig) rel)"

definition Ignored :: "(string \<Rightarrow> bool) \<Rightarrow> ignores \<Rightarrow> string \<Rightarrow> bool \<times> ignores" where
  "Ignored check ig path =
     (if Prune ig path then (True, ig)
      else case relative ig path of
        None \<Rightarrow> (False, ig)
      | Some rel \<Rightarrow>
          if rel = ''.'' then (False, ig)
          else case map_of (ig_cache ig) rel of
            Some verdict \<Rightarrow> (verdict, ig)
          | None \<Rightarrow>
              let verdict = check rel
              in (verdict, if length (ig_cache ig) < ignoreCacheLimit
                           then ig\<lparr>ig_cache := (rel, verdict) # ig_cache ig\<rparr> else ig))"

section \<open>Watched directories\<close>

datatype node = File string | Dir string bool "node list"

record watcher =
  wt_list :: "string list"
  wt_watched :: int
  wt_max_dirs :: int
  wt_roots :: "(string \<times> ignores option) list"

definition maxWatchedDirectories :: int where "maxWatchedDirectories = 4096"

definition NewWatcher :: watcher where
  "NewWatcher = \<lparr>wt_list = [], wt_watched = 0, wt_max_dirs = maxWatchedDirectories, wt_roots = []\<rparr>"

definition ErrWatchBudget :: string where "ErrWatchBudget = ''watch budget exhausted; observing a partial tree''"

definition backend_add :: "string \<Rightarrow> watcher \<Rightarrow> watcher" where
  "backend_add p w = (if p \<in> set (wt_list w) then w else w\<lparr>wt_list := wt_list w @ [p]\<rparr>)"

text \<open>
  \<^verbatim>\<open>filepath.WalkDir\<close> with the callback of \<^verbatim>\<open>addTree\<close>: the error it stops with, the state of the
  pruning rules and the watcher. The flag of a directory says whether it can be read.
\<close>

fun walk :: "('s \<Rightarrow> string \<Rightarrow> bool \<times> 's) \<Rightarrow> (string \<Rightarrow> bool) \<Rightarrow> node \<Rightarrow> 's \<Rightarrow> watcher \<Rightarrow> string option \<times> 's \<times> watcher"
  and walk_list :: "('s \<Rightarrow> string \<Rightarrow> bool \<times> 's) \<Rightarrow> (string \<Rightarrow> bool) \<Rightarrow> node list \<Rightarrow> 's \<Rightarrow> watcher \<Rightarrow> string option \<times> 's \<times> watcher" where
  "walk prune add_ok (File p) s w = (None, s, w)"
| "walk prune add_ok (Dir p readable children) s w =
     (if base p = ''.git'' then (None, s, w)
      else let (skip, s1) = prune s p in
        if skip then (None, s1, w)
        else if wt_max_dirs w \<le> wt_watched w then (Some ErrWatchBudget, s1, w)
        else let w1 = w\<lparr>wt_watched := wt_watched w + 1\<rparr> in
          if \<not> add_ok p then (Some ''add watch'', s1, w1)
          else let w2 = backend_add p w1 in
            if \<not> readable then (Some ''read directory'', s1, w2)
            else walk_list prune add_ok children s1 w2)"
| "walk_list prune add_ok [] s w = (None, s, w)"
| "walk_list prune add_ok (n # ns) s w =
     (case walk prune add_ok n s w of
        (Some e, s', w') \<Rightarrow> (Some e, s', w')
      | (None, s', w') \<Rightarrow> walk_list prune add_ok ns s' w')"

text \<open>The root of a walk may be gone already.\<close>

definition addTree :: "('s \<Rightarrow> string \<Rightarrow> bool \<times> 's) \<Rightarrow> (string \<Rightarrow> bool) \<Rightarrow> node option \<Rightarrow> 's \<Rightarrow> watcher \<Rightarrow> string option \<times> 's \<times> watcher" where
  "addTree prune add_ok tree s w =
     (case tree of None \<Rightarrow> (Some ''lstat'', s, w) | Some n \<Rightarrow> walk prune add_ok n s w)"

definition set_root :: "string \<Rightarrow> ignores option \<Rightarrow> watcher \<Rightarrow> watcher" where
  "set_root root ig w = w\<lparr>wt_roots := (root, ig) # filter (\<lambda>r. fst r \<noteq> root) (wt_roots w)\<rparr>"

definition Add :: "(string \<Rightarrow> bool) \<Rightarrow> string \<Rightarrow> node option \<Rightarrow> ignores option \<Rightarrow> watcher \<Rightarrow> string option \<times> watcher" where
  "Add add_ok root tree ig w =
     (let prune = (\<lambda>(s :: unit) p. (case ig of None \<Rightarrow> False | Some i \<Rightarrow> Prune i p, s));
          (e, _, w') = addTree prune add_ok tree () (set_root root ig w)
      in (e, w'))"

definition in_root :: "string \<Rightarrow> string \<Rightarrow> bool" where
  "in_root root p \<longleftrightarrow> p = root \<or> has_prefix p (root @ ''/'')"

definition Remove :: "(string \<Rightarrow> bool) \<Rightarrow> string \<Rightarrow> watcher \<Rightarrow> int \<times> watcher" where
  "Remove remove_ok root w =
     (let gone = filter (\<lambda>p. in_root root p \<and> remove_ok p) (wt_list w); released = int (length gone)
      in (released, w\<lparr>wt_roots := filter (\<lambda>r. fst r \<noteq> root) (wt_roots w),
            wt_list := filter (\<lambda>p. \<not> (in_root root p \<and> remove_ok p)) (wt_list w),
            wt_watched := (if wt_watched w - released < 0 then 0 else wt_watched w - released)\<rparr>))"

text \<open>The registered roots, longest first; the first that contains the path decides.\<close>

definition ignorerFor :: "string \<Rightarrow> watcher \<Rightarrow> (string \<times> ignores option) option" where
  "ignorerFor path w =
     find (\<lambda>r. in_root (fst r) path) (sort_key (\<lambda>r. - int (length (fst r))) (wt_roots w))"

definition addCreated :: "(string \<Rightarrow> bool) \<Rightarrow> (string \<Rightarrow> bool) \<Rightarrow> string \<Rightarrow> node option \<Rightarrow> watcher \<Rightarrow> watcher" where
  "addCreated check add_ok path tree w =
     (case ignorerFor path w of
        Some (root, Some ig) \<Rightarrow>
          (let (hit, ig1) = Ignored check ig path in
           if hit then set_root root (Some ig1) w
           else let (e, ig2, w') = addTree (\<lambda>s p. if p = path then (False, s) else Ignored check s p) add_ok tree ig1 w
                in set_root root (Some ig2) w')
      | _ \<Rightarrow> (let (e, _, w') = addTree (\<lambda>(s :: unit) p. (False, s)) add_ok tree () w in w'))"

section \<open>Pruning asks for an ignored ancestor\<close>

text \<open>\<open>d\<close> is \<open>p\<close> or one of the directories above it.\<close>

definition above :: "string \<Rightarrow> string \<Rightarrow> bool" where
  "above d p \<longleftrightarrow> p = d \<or> (\<exists>r. p = d @ ''/'' @ r)"

lemma pathDir_split:
  assumes "CHR ''/'' \<in> set p"
  obtains b where "p = pathDir p @ ''/'' @ b" "CHR ''/'' \<notin> set b"
proof -
  from split_list_last [OF assms] obtain q b where p: "p = q @ CHR ''/'' # b" "CHR ''/'' \<notin> set b" by blast
  then have "dropWhile (\<lambda>c. c \<noteq> CHR ''/'') (rev p) = CHR ''/'' # rev q"
    by (subst p(1)) (simp add: dropWhile_append2 [of "rev b"] dropWhile_append)
  with assms have "pathDir p = q" by (simp add: pathDir_def)
  with p that show ?thesis by simp
qed

lemma slash_prefix_unique:
  "d @ ''/'' @ r = q @ ''/'' @ b \<Longrightarrow> CHR ''/'' \<notin> set b \<Longrightarrow> above d q"
proof (induction d arbitrary: q)
  case Nil
  then show ?case by (cases q) (auto simp: above_def)
next
  case (Cons c d)
  show ?case
  proof (cases q)
    case Nil
    with Cons.prems have "CHR ''/'' \<in> set b" by auto
    with Cons.prems show ?thesis by simp
  next
    case (Cons c' q')
    with Cons.prems Cons.IH [of q'] show ?thesis by (auto simp: above_def)
  qed
qed

lemma above_pathDir: "above d p \<longleftrightarrow> p = d \<or> CHR ''/'' \<in> set p \<and> above d (pathDir p)"
proof
  assume "above d p"
  then show "p = d \<or> CHR ''/'' \<in> set p \<and> above d (pathDir p)"
  proof (unfold above_def, elim disjE exE)
    fix r assume r: "p = d @ ''/'' @ r"
    then have slash: "CHR ''/'' \<in> set p" by simp
    from pathDir_split [OF this] obtain b where "p = pathDir p @ ''/'' @ b" "CHR ''/'' \<notin> set b" .
    with r have "above d (pathDir p)" by (metis slash_prefix_unique)
    with slash show "p = d \<or> CHR ''/'' \<in> set p \<and> (pathDir p = d \<or> (\<exists>r. pathDir p = d @ ''/'' @ r))"
      by (simp add: above_def)
  qed simp
next
  assume "p = d \<or> CHR ''/'' \<in> set p \<and> above d (pathDir p)"
  then show "above d p"
  proof (elim disjE conjE)
    assume slash: "CHR ''/'' \<in> set p" and up: "above d (pathDir p)"
    from pathDir_split [OF slash] obtain b where b: "p = pathDir p @ ''/'' @ b" .
    from up show ?thesis
      unfolding above_def
    proof (elim disjE exE)
      assume "pathDir p = d"
      with b have "p = d @ ''/'' @ b" by simp
      then show "p = d \<or> (\<exists>r. p = d @ ''/'' @ r)" by blast
    next
      fix r assume "pathDir p = d @ ''/'' @ r"
      with b have "p = d @ ''/'' @ (r @ ''/'' @ b)" by simp
      then show "p = d \<or> (\<exists>r. p = d @ ''/'' @ r)" by blast
    qed
  qed (simp add: above_def)
qed

lemma probe_dirs_above: "probe_dirs dirs p \<longleftrightarrow> (\<exists>d \<in> set dirs. above d p)"
proof (induction dirs p rule: probe_dirs.induct)
  case (1 dirs p)
  show ?case
  proof (cases "p \<in> set dirs")
    case True
    then show ?thesis by (subst probe_dirs.simps) (auto simp: above_def)
  next
    case out: False
    show ?thesis
    proof (cases "CHR ''/'' \<in> set p")
      case True
      then have "pathDir p \<noteq> p" using pathDir_shorter [OF True] by auto
      with 1 out True show ?thesis
        by (subst probe_dirs.simps) (metis above_pathDir)
    next
      case False
      then have "pathDir p = p" by (simp add: pathDir_def)
      with out False show ?thesis
        by (subst probe_dirs.simps) (metis above_pathDir)
    qed
  qed
qed

section \<open>The interface between the watcher and the repository\<close>

text \<open>The directories of a tree that pruning leaves.\<close>

fun visible :: "(string \<Rightarrow> bool) \<Rightarrow> node \<Rightarrow> string list" where
  "visible prune (File p) = []"
| "visible prune (Dir p readable children) =
     (if base p = ''.git'' \<or> prune p then [] else p # concat (map (visible prune) children))"

locale ignorer =
  fixes prune :: "string \<Rightarrow> bool"
    and ignored :: "string \<Rightarrow> bool"
  assumes prune_ignored: "prune p \<Longrightarrow> ignored p"
begin

lemma ignored_visible: "set (visible ignored n) \<subseteq> set (visible prune n)"
proof (induction n)
  case (Dir p readable children)
  then show ?case using prune_ignored [of p] by auto
qed simp

end

interpretation repository: ignorer "Prune ig" "\<lambda>p. fst (Ignored check ig p)" for ig check
  by unfold_locales (simp add: Ignored_def)

text \<open>The cache never holds anything but git's answer.\<close>

definition cache_ok :: "(string \<Rightarrow> bool) \<Rightarrow> ignores \<Rightarrow> bool" where
  "cache_ok check ig \<longleftrightarrow> (\<forall>(rel, verdict) \<in> set (ig_cache ig). verdict = check rel) \<and> length (ig_cache ig) \<le> ignoreCacheLimit"

lemma Ignored_answer:
  assumes "cache_ok check ig"
  shows "fst (Ignored check ig path) \<longleftrightarrow> Prune ig path \<or> (\<exists>rel. relative ig path = Some rel \<and> rel \<noteq> ''.'' \<and> check rel)"
    and "cache_ok check (snd (Ignored check ig path))"
    and "\<exists>cache. snd (Ignored check ig path) = ig\<lparr>ig_cache := cache\<rparr>"
proof -
  have hit: "v = check r" if "map_of (ig_cache ig) r = Some v" for r v
    using assms map_of_SomeD [OF that] by (auto simp: cache_ok_def)
  show "fst (Ignored check ig path) \<longleftrightarrow> Prune ig path \<or> (\<exists>rel. relative ig path = Some rel \<and> rel \<noteq> ''.'' \<and> check rel)"
    using hit by (auto simp: Ignored_def Let_def split: option.splits)
  show "cache_ok check (snd (Ignored check ig path))"
    using assms by (auto simp: Ignored_def Let_def cache_ok_def split: option.splits)
  have self: "\<exists>cache. ig = ig\<lparr>ig_cache := cache\<rparr>" by (intro exI [of _ "ig_cache ig"]) simp
  then show "\<exists>cache. snd (Ignored check ig path) = ig\<lparr>ig_cache := cache\<rparr>"
    by (auto simp: Ignored_def Let_def split: option.splits)
qed

section \<open>The watch budget\<close>

definition budget_ok :: "watcher \<Rightarrow> bool" where
  "budget_ok w \<longleftrightarrow> distinct (wt_list w) \<and> int (length (wt_list w)) \<le> wt_watched w \<and> wt_watched w \<le> wt_max_dirs w"

lemma backend_add_ok:
  "budget_ok w \<Longrightarrow> wt_watched w < wt_max_dirs w \<Longrightarrow> budget_ok (backend_add p (w\<lparr>wt_watched := wt_watched w + 1\<rparr>))"
  by (simp add: budget_ok_def backend_add_def)

lemma walk_budget:
  "walk prune add_ok n s w = (e, s', w') \<Longrightarrow> budget_ok w \<Longrightarrow> budget_ok w' \<and> wt_max_dirs w' = wt_max_dirs w \<and> wt_roots w' = wt_roots w"
  "walk_list prune add_ok ns s w = (e, s', w') \<Longrightarrow> budget_ok w \<Longrightarrow> budget_ok w' \<and> wt_max_dirs w' = wt_max_dirs w \<and> wt_roots w' = wt_roots w"
proof (induction prune add_ok n s w and prune add_ok ns s w arbitrary: e s' w' and e s' w' rule: walk_walk_list.induct)
  case (2 prune add_ok p readable children s w)
  let ?w1 = "w\<lparr>wt_watched := wt_watched w + 1\<rparr>"
  let ?w2 = "backend_add p ?w1"
  obtain skip s1 where ps: "prune s p = (skip, s1)" by fastforce
  consider (same) "w' = w" | (charged) "wt_watched w < wt_max_dirs w" "w' = ?w1" | (added) "wt_watched w < wt_max_dirs w" "w' = ?w2"
    | (deeper) "wt_watched w < wt_max_dirs w" "walk_list prune add_ok children s1 ?w2 = (e, s', w')"
        "base p \<noteq> ''.git''" "\<not> skip" "add_ok p" "readable"
  proof -
    show thesis
    proof (cases "base p = ''.git'' \<or> skip \<or> wt_max_dirs w \<le> wt_watched w")
      case True
      with 2(2) ps have "w' = w" by (simp add: Let_def split: if_splits)
      then show thesis by (rule same)
    next
      case False
      then have lt: "wt_watched w < wt_max_dirs w" by simp
      have rest: "(if \<not> add_ok p then (Some ''add watch'', s1, ?w1) else if \<not> readable then (Some ''read directory'', s1, ?w2)
          else walk_list prune add_ok children s1 ?w2) = (e, s', w')"
        using 2(2) ps False unfolding walk.simps Let_def by simp
      show thesis
      proof (cases "add_ok p \<and> readable")
        case True
        with rest False lt show thesis by (intro deeper) simp_all
      next
        case no: False
        with rest have "w' = ?w1 \<or> w' = ?w2" by (auto split: if_splits)
        with lt show thesis using charged added by blast
      qed
    qed
  qed
  then show ?case
  proof cases
    case same
    with 2(3) show ?thesis by simp
  next
    case charged
    with 2(3) show ?thesis by (simp add: budget_ok_def)
  next
    case added
    with backend_add_ok [OF 2(3)] show ?thesis by (simp add: backend_add_def)
  next
    case deeper
    have "\<not> wt_max_dirs w \<le> wt_watched w" using deeper(1) by simp
    from 2(1) [OF deeper(3) ps [symmetric] refl deeper(4) this refl _ refl _ deeper(2)] deeper backend_add_ok [OF 2(3) deeper(1)]
    show ?thesis by (simp add: backend_add_def split: if_splits)
  qed
next
  case (4 prune add_ok n ns s w)
  obtain e1 s1 w1 where first: "walk prune add_ok n s w = (e1, s1, w1)" by (cases "walk prune add_ok n s w")
  from 4(1) [OF first 4(4)] have ok: "budget_ok w1 \<and> wt_max_dirs w1 = wt_max_dirs w \<and> wt_roots w1 = wt_roots w" .
  show ?case
  proof (cases e1)
    case None
    with 4(3) first have "walk_list prune add_ok ns s1 w1 = (e, s', w')" by simp
    with 4(2) [OF first [symmetric] None refl] ok show ?thesis by simp
  next
    case (Some x)
    with 4(3) first have "w' = w1" by simp
    with ok show ?thesis by simp
  qed
qed simp_all

text \<open>A tree that can be read and watched throughout, and a budget that suffices.\<close>

fun walkable :: "(string \<Rightarrow> bool) \<Rightarrow> (string \<Rightarrow> bool) \<Rightarrow> node \<Rightarrow> bool" where
  "walkable prune add_ok (File p) = True"
| "walkable prune add_ok (Dir p readable children) =
     (base p = ''.git'' \<or> prune p \<or> add_ok p \<and> readable \<and> list_all (walkable prune add_ok) children)"

lemma set_backend_add [simp]: "set (wt_list (backend_add p w)) = insert p (set (wt_list w))"
  by (auto simp: backend_add_def)

lemma backend_add_sel [simp]:
  "wt_watched (backend_add p w) = wt_watched w" "wt_max_dirs (backend_add p w) = wt_max_dirs w"
  by (simp_all add: backend_add_def)

lemma walk_complete:
  "walkable prune add_ok n \<Longrightarrow> wt_watched w + int (length (visible prune n)) \<le> wt_max_dirs w \<Longrightarrow>
     \<exists>w'. walk (\<lambda>s p. (prune p, s)) add_ok n s w = (None, s, w')
       \<and> set (wt_list w') = set (wt_list w) \<union> set (visible prune n)
       \<and> wt_watched w' = wt_watched w + int (length (visible prune n)) \<and> wt_max_dirs w' = wt_max_dirs w"
proof (induction n arbitrary: w)
  case (Dir p readable children)
  have each: "\<exists>w'. walk_list (\<lambda>s p. (prune p, s)) add_ok ns s v = (None, s, w')
       \<and> set (wt_list w') = set (wt_list v) \<union> set (concat (map (visible prune) ns))
       \<and> wt_watched w' = wt_watched v + int (length (concat (map (visible prune) ns))) \<and> wt_max_dirs w' = wt_max_dirs v"
    if "set ns \<subseteq> set children" "list_all (walkable prune add_ok) ns"
      "wt_watched v + int (length (concat (map (visible prune) ns))) \<le> wt_max_dirs v" for ns v
    using that
  proof (induction ns arbitrary: v)
    case (Cons n ns)
    then obtain v1 where v1: "walk (\<lambda>s p. (prune p, s)) add_ok n s v = (None, s, v1)"
      "set (wt_list v1) = set (wt_list v) \<union> set (visible prune n)"
      "wt_watched v1 = wt_watched v + int (length (visible prune n))" "wt_max_dirs v1 = wt_max_dirs v"
      using Dir.IH [of n v] by auto
    with Cons.prems Cons.IH [of v1] show ?case by auto
  qed simp
  show ?case
  proof (cases "base p = ''.git'' \<or> prune p")
    case True
    then show ?thesis by auto
  next
    case False
    let ?w = "backend_add p (w\<lparr>wt_watched := wt_watched w + 1\<rparr>)"
    have "wt_watched w < wt_max_dirs w" "add_ok p" "readable" "list_all (walkable prune add_ok) children"
      "wt_watched ?w + int (length (concat (map (visible prune) children))) \<le> wt_max_dirs ?w"
      using Dir.prems False by simp_all
    with each [OF order_refl this(4,5)] False show ?thesis by auto
  qed
qed simp

section \<open>Properties\<close>

text \<open>A path is pruned exactly if it lies in the repository and git listed it as an ignored file
  or listed it or one of the directories above it as ignored; a sibling whose name merely
  starts like an ignored directory is not.\<close>

theorem prune_characterised:
  "Prune ig path \<longleftrightarrow>
     (\<exists>rel. relative ig path = Some rel \<and> rel \<noteq> ''.'' \<and> (rel \<in> set (ig_files ig) \<or> (\<exists>d \<in> set (ig_dirs ig). above d rel)))"
  by (auto simp: Prune_def probe_dirs_above split: option.splits)

text \<open>The cache is invisible: as long as git's verdicts do not change, \<open>Ignored\<close> answers what the
  snapshot or git says, never forgets a pruned path, changes nothing but the cache, keeps the
  cache truthful and never lets it grow beyond its limit.\<close>

theorem ignored_is_gits_answer:
  assumes "cache_ok check ig"
  shows "(fst (Ignored check ig path) \<longleftrightarrow> Prune ig path \<or> (\<exists>rel. relative ig path = Some rel \<and> rel \<noteq> ''.'' \<and> check rel))
    \<and> cache_ok check (snd (Ignored check ig path))
    \<and> (\<exists>cache. snd (Ignored check ig path) = ig\<lparr>ig_cache := cache\<rparr>)
    \<and> set (visible (\<lambda>p. fst (Ignored check ig p)) n) \<subseteq> set (visible (Prune ig) n)"
  using Ignored_answer [OF assms] repository.ignored_visible by blast

theorem ignored_is_gits_answer_witness:
  "fst (Ignored (\<lambda>r. r = ''tmp'') \<lparr>ig_root = ''/r'', ig_dirs = [''node_modules''], ig_files = [], ig_cache = []\<rparr> ''/r/tmp'')"
proof -
  let ?ig = "\<lparr>ig_root = ''/r'', ig_dirs = [''node_modules''], ig_files = [], ig_cache = []\<rparr>"
  have "cache_ok (\<lambda>r. r = ''tmp'') ?ig" by (simp add: cache_ok_def)
  from ignored_is_gits_answer [OF this, of "''/r/tmp''"] show ?thesis
    by (simp add: relative_def rel_inside_def has_prefix_def)
qed

text \<open>Adding a tree that can be read and watched, within the budget, watches exactly the
  directories that are not ignored: all of them, nothing inside an ignored directory or
  \<^verbatim>\<open>.git\<close>, besides what was watched before; the budget is charged once per directory.\<close>

theorem add_watches_visible:
  assumes "walkable (\<lambda>p. case ig of None \<Rightarrow> False | Some i \<Rightarrow> Prune i p) add_ok n"
    and "wt_watched w + int (length (visible (\<lambda>p. case ig of None \<Rightarrow> False | Some i \<Rightarrow> Prune i p) n)) \<le> wt_max_dirs w"
  shows "\<exists>w'. Add add_ok root (Some n) ig w = (None, w')
    \<and> set (wt_list w') = set (wt_list w) \<union> set (visible (\<lambda>p. case ig of None \<Rightarrow> False | Some i \<Rightarrow> Prune i p) n)
    \<and> wt_watched w' = wt_watched w + int (length (visible (\<lambda>p. case ig of None \<Rightarrow> False | Some i \<Rightarrow> Prune i p) n))"
proof -
  from walk_complete [OF assms(1), of "set_root root ig w" "()"] assms(2) obtain w' where
    "walk (\<lambda>s p. (case ig of None \<Rightarrow> False | Some i \<Rightarrow> Prune i p, s)) add_ok n () (set_root root ig w) = (None, (), w')"
    "set (wt_list w') = set (wt_list w) \<union> set (visible (\<lambda>p. case ig of None \<Rightarrow> False | Some i \<Rightarrow> Prune i p) n)"
    "wt_watched w' = wt_watched w + int (length (visible (\<lambda>p. case ig of None \<Rightarrow> False | Some i \<Rightarrow> Prune i p) n))"
    by (auto simp: set_root_def)
  then show ?thesis by (simp add: Add_def addTree_def)
qed

definition sample_tree :: node where
  "sample_tree = Dir ''/r'' True [Dir ''/r/.git'' True [], File ''/r/a.go'', Dir ''/r/node_modules'' True [Dir ''/r/node_modules/x'' False []],
     Dir ''/r/src'' True [File ''/r/src/b.go'']]"

definition sample_ignores :: ignores where
  "sample_ignores = \<lparr>ig_root = ''/r'', ig_dirs = [''node_modules''], ig_files = [], ig_cache = []\<rparr>"

lemma sample_visible: "visible (Prune sample_ignores) sample_tree = [''/r'', ''/r/src'']"
  by (simp add: sample_tree_def sample_ignores_def Prune_def relative_def rel_inside_def has_prefix_def base_def Let_def
      probe_dirs.simps pathDir_def)

theorem add_watches_visible_witness:
  "\<exists>w'. Add (\<lambda>p. True) ''/r'' (Some sample_tree) (Some sample_ignores) NewWatcher = (None, w')
    \<and> set (wt_list w') = {''/r'', ''/r/src''} \<and> wt_watched w' = 2"
proof -
  have "walkable (Prune sample_ignores) (\<lambda>p. True) sample_tree"
    by (simp add: sample_tree_def sample_ignores_def Prune_def relative_def rel_inside_def has_prefix_def base_def Let_def
      probe_dirs.simps pathDir_def)
  with add_watches_visible [of "Some sample_ignores" "\<lambda>p. True" sample_tree NewWatcher "''/r''"]
  show ?thesis by (simp add: sample_visible NewWatcher_def maxWatchedDirectories_def)
qed

text \<open>What can happen to a watcher; the backend drops the watch of a directory that was deleted.\<close>

inductive watch_step :: "watcher \<Rightarrow> watcher \<Rightarrow> bool" where
  add: "Add add_ok root tree ig w = (e, w') \<Longrightarrow> watch_step w w'"
| created: "watch_step w (addCreated check add_ok path tree w)"
| remove: "watch_step w (snd (Remove remove_ok root w))"
| dropped: "watch_step w (w\<lparr>wt_list := filter P (wt_list w)\<rparr>)"

lemma addTree_budget:
  "addTree prune add_ok tree s w = (e, s', w') \<Longrightarrow> budget_ok w \<Longrightarrow> budget_ok w' \<and> wt_max_dirs w' = wt_max_dirs w"
  using walk_budget(1) by (fastforce simp: addTree_def split: option.splits)

lemma set_root_budget [simp]: "budget_ok (set_root root ig w) = budget_ok w" "wt_max_dirs (set_root root ig w) = wt_max_dirs w"
  by (simp_all add: budget_ok_def set_root_def)

lemma addCreated_budget:
  assumes "budget_ok w"
  shows "budget_ok (addCreated check add_ok path tree w) \<and> wt_max_dirs (addCreated check add_ok path tree w) = wt_max_dirs w"
proof -
  have plain_unit: "budget_ok w' \<and> wt_max_dirs w' = wt_max_dirs w" if "addTree prune add_ok tree s w = (e, s', w')"
    for prune :: "unit \<Rightarrow> string \<Rightarrow> bool \<times> unit" and s e s' w'
    using addTree_budget [OF that assms] .
  have plain_ig: "budget_ok w' \<and> wt_max_dirs w' = wt_max_dirs w" if "addTree prune add_ok tree s w = (e, s', w')"
    for prune :: "ignores \<Rightarrow> string \<Rightarrow> bool \<times> ignores" and s e s' w'
    using addTree_budget [OF that assms] .
  show ?thesis
    using assms plain_unit plain_ig by (auto simp: addCreated_def Let_def split: option.splits prod.splits)
qed

lemma watch_step_budget: "watch_step w w' \<Longrightarrow> budget_ok w \<Longrightarrow> budget_ok w' \<and> wt_max_dirs w' = wt_max_dirs w"
proof (induction rule: watch_step.induct)
  case (add add_ok root tree ig w e w')
  then obtain s' where "addTree (\<lambda>(s :: unit) p. (case ig of None \<Rightarrow> False | Some i \<Rightarrow> Prune i p, s)) add_ok tree () (set_root root ig w) = (e, s', w')"
    by (auto simp: Add_def Let_def split: prod.splits)
  from addTree_budget [OF this] add(2) show ?case by simp
next
  case (created w check add_ok path tree)
  then show ?case by (rule addCreated_budget)
next
  case (remove w remove_ok root)
  let ?gone = "filter (\<lambda>p. in_root root p \<and> remove_ok p) (wt_list w)"
  have "length (wt_list w) = length ?gone + length (filter (\<lambda>p. \<not> (in_root root p \<and> remove_ok p)) (wt_list w))"
    by (rule sum_length_filter_compl [symmetric])
  with remove show ?case by (simp add: budget_ok_def Remove_def Let_def)
next
  case (dropped w P)
  have "int (length (filter P (wt_list w))) \<le> wt_watched w"
    using dropped length_filter_le [of P "wt_list w"] unfolding budget_ok_def by linarith
  with dropped show ?case by (simp add: budget_ok_def)
qed

text \<open>C15. The watch budget holds whatever happens: starting from a new watcher, no sequence of adding,
  removing, and creating directories, with any failures of the backend and any trees, watches
  more than \<open>maxWatchedDirectories\<close> directories or watches one twice.\<close>

theorem watch_budget:
  assumes "watch_step\<^sup>*\<^sup>* NewWatcher w"
  shows "distinct (wt_list w) \<and> int (length (wt_list w)) \<le> maxWatchedDirectories"
proof -
  from assms have "budget_ok w \<and> wt_max_dirs w = maxWatchedDirectories"
  proof induction
    case base
    show ?case by (simp add: budget_ok_def NewWatcher_def maxWatchedDirectories_def)
  next
    case (step v w)
    with watch_step_budget [OF step(2)] show ?case by simp
  qed
  then show ?thesis by (simp add: budget_ok_def)
qed

lemma sample_add:
  "Add (\<lambda>p. True) ''/r'' (Some (Dir ''/r'' True [])) None NewWatcher =
     (None, NewWatcher\<lparr>wt_watched := 1, wt_list := [''/r''], wt_roots := [(''/r'', None)]\<rparr>)"
  by (simp add: Add_def addTree_def set_root_def NewWatcher_def maxWatchedDirectories_def base_def Let_def backend_add_def)

theorem watch_budget_witness:
  "\<exists>w. watch_step\<^sup>*\<^sup>* NewWatcher w \<and> wt_list w = [''/r''] \<and> int (length (wt_list w)) \<le> maxWatchedDirectories"
proof -
  let ?w = "NewWatcher\<lparr>wt_watched := 1, wt_list := [''/r''], wt_roots := [(''/r'', None)]\<rparr>"
  have "watch_step\<^sup>*\<^sup>* NewWatcher ?w"
    by (rule r_into_rtranclp) (rule watch_step.add [OF sample_add])
  from watch_budget [OF this] this show ?thesis by (intro exI [of _ ?w]) simp
qed

text \<open>Disconnecting a repository releases every directory the backend lets go, its own and those
  below it and no others; but a directory that was deleted while it was watched stays charged to
  the budget, because only released directories are subtracted.\<close>

theorem remove_releases_root:
  assumes "budget_ok w" and "\<And>p. remove_ok p" and "Remove remove_ok root (w\<lparr>wt_list := filter P (wt_list w)\<rparr>) = (n, w')"
  shows "set (wt_list w') = {p \<in> set (wt_list w). P p \<and> \<not> in_root root p}
    \<and> n = int (card {p \<in> set (wt_list w). P p \<and> in_root root p})
    \<and> wt_watched w' = wt_watched w - int (card {p \<in> set (wt_list w). P p \<and> in_root root p})"
proof -
  have dist: "distinct (wt_list w)" and len: "int (length (wt_list w)) \<le> wt_watched w"
    using assms(1) by (simp_all add: budget_ok_def)
  let ?gone = "filter (\<lambda>p. in_root root p) (filter P (wt_list w))"
  have card: "card {p \<in> set (wt_list w). P p \<and> in_root root p} = length ?gone"
    using distinct_card [of ?gone] dist by (simp add: conj_ac)
  have "length (filter (\<lambda>x. P x \<and> in_root root x) (wt_list w)) \<le> length (wt_list w)"
    by (rule length_filter_le)
  with assms(2,3) len card show ?thesis
    by (auto simp: Remove_def Let_def conj_ac)
qed

theorem remove_releases_root_witness:
  "\<exists>w. Add (\<lambda>p. True) ''/r'' (Some (Dir ''/r'' True [])) None NewWatcher = (None, w) \<and>
     wt_list (snd (Remove (\<lambda>p. True) ''/r'' (w\<lparr>wt_list := filter (\<lambda>p. False) (wt_list w)\<rparr>))) = [] \<and>
     wt_watched (snd (Remove (\<lambda>p. True) ''/r'' (w\<lparr>wt_list := filter (\<lambda>p. False) (wt_list w)\<rparr>))) = 1"
proof -
  define w where "w = NewWatcher\<lparr>wt_watched := 1, wt_list := [''/r''], wt_roots := [(''/r'', None)]\<rparr>"
  have run: "Add (\<lambda>p. True) ''/r'' (Some (Dir ''/r'' True [])) None NewWatcher = (None, w)"
    unfolding w_def by (rule sample_add)
  have "budget_ok w" by (simp add: w_def budget_ok_def NewWatcher_def maxWatchedDirectories_def)
  from remove_releases_root [OF this, of "\<lambda>p. True" "''/r''" "\<lambda>p. False"
      "fst (Remove (\<lambda>p. True) ''/r'' (w\<lparr>wt_list := filter (\<lambda>p. False) (wt_list w)\<rparr>))"
      "snd (Remove (\<lambda>p. True) ''/r'' (w\<lparr>wt_list := filter (\<lambda>p. False) (wt_list w)\<rparr>))"] run
  show ?thesis by (auto simp: w_def)
qed

end
