(* ===== verification/Hosted_Client.thy ===== *)
theory Hosted_Client
  imports Store_Delivery
begin

text \<open>
  The client of the hosted API, \<^verbatim>\<open>internal/hosted/client.go\<close> and
  \<^verbatim>\<open>internal/hosted/credential_state.go\<close>: how a request is formed, which errors an answer becomes,
  the endpoints the service calls, and what an error says about the stored credential.

  The network and the server are one parameter, \<open>srv\<close>: the answer to the last request of a history,
  given every request this client has sent before it. It is arbitrary, so a result holds for every
  server, also one whose answers depend on all it was sent. A response body is its length in bytes
  and the JSON value it holds, if it holds one. A request is logged in the history it extends.
\<close>

section \<open>Errors\<close>

record api_error =
  ae_status :: int
  ae_code :: string
  ae_request_id :: string
  ae_retryable :: bool
  ae_message :: string

text \<open>
  A Go error as the service distinguishes it: \<^verbatim>\<open>errors.As(err, &api)\<close>, \<^verbatim>\<open>errors.Is\<close> a context
  error, \<^verbatim>\<open>errors.Is(err, syscall.ECONNREFUSED)\<close>, or only its text.
\<close>

datatype go_error = API api_error | ContextError string | ConnRefused string | PlainError string

definition APIError_Error :: "api_error \<Rightarrow> string" where
  "APIError_Error e = (if ae_message e \<noteq> [] then ae_message e
     else ''hosted API '' @ ae_code e @ '' ('' @ int_dec (ae_status e) @ '')'')"

text \<open>\<^verbatim>\<open>errors.Is(e, ErrProjectIDUnavailable)\<close>.\<close>

definition APIError_Is_ProjectIDUnavailable :: "api_error \<Rightarrow> bool" where
  "APIError_Is_ProjectIDUnavailable e \<longleftrightarrow> ae_code e = ''project_id_unavailable''"

fun error_text :: "go_error \<Rightarrow> string" where
  "error_text (API e) = APIError_Error e"
| "error_text (ContextError s) = s"
| "error_text (ConnRefused s) = s"
| "error_text (PlainError s) = s"

text \<open>\<^verbatim>\<open>fmt.Errorf(prefix + "%w", err)\<close> on an error of the transport.\<close>

datatype net_error = NetContext string | NetRefused string | NetOther string

fun wrap_net :: "string \<Rightarrow> net_error \<Rightarrow> go_error" where
  "wrap_net p (NetContext s) = ContextError (p @ s)"
| "wrap_net p (NetRefused s) = ConnRefused (p @ s)"
| "wrap_net p (NetOther s) = PlainError (p @ s)"

datatype credential_status = CredentialOK | CredentialRevoked | CredentialUnknown | CredentialUncertain

definition ClassifyCredentialError :: "go_error option \<Rightarrow> credential_status" where
  "ClassifyCredentialError err =
     (case err of
        None \<Rightarrow> CredentialOK
      | Some (API e) \<Rightarrow>
          if ae_code e = ''credential_revoked'' then CredentialRevoked
          else if ae_code e = ''unauthorized'' then CredentialUnknown
          else if ae_status e = 401 then CredentialUnknown
          else CredentialUncertain
      | Some _ \<Rightarrow> CredentialUncertain)"

definition Recoverable :: "credential_status \<Rightarrow> bool" where
  "Recoverable s \<longleftrightarrow> s = CredentialRevoked \<or> s = CredentialUnknown"

section \<open>Paths\<close>

text \<open>
  \<^verbatim>\<open>url.PathEscape\<close> and \<^verbatim>\<open>URL.EscapedPath\<close>: the bytes each of them leaves alone, and the
  percent-encoding of the others.
\<close>

definition unreserved :: "char \<Rightarrow> bool" where
  "unreserved c \<longleftrightarrow> (let n = byte c in
     (48 \<le> n \<and> n \<le> 57) \<or> (65 \<le> n \<and> n \<le> 90) \<or> (97 \<le> n \<and> n \<le> 122) \<or> c \<in> set ''-_.~'')"

definition segment_safe :: "char \<Rightarrow> bool" where
  "segment_safe c \<longleftrightarrow> unreserved c \<or> c \<in> set ''$&+:=@''"

definition path_safe :: "char \<Rightarrow> bool" where
  "path_safe c \<longleftrightarrow> segment_safe c \<or> c \<in> set ''/,;''"

definition upper_hex :: "nat \<Rightarrow> char" where
  "upper_hex d = char_of (if d < 10 then 48 + d else 55 + d)"

definition escape_char :: "(char \<Rightarrow> bool) \<Rightarrow> char \<Rightarrow> string" where
  "escape_char safe c = (if safe c then [c] else [CHR ''%'', upper_hex (byte c div 16), upper_hex (byte c mod 16)])"

definition PathEscape :: "string \<Rightarrow> string" where
  "PathEscape s = concat (map (escape_char segment_safe) s)"

definition EscapedPath :: "string \<Rightarrow> string" where
  "EscapedPath s = (if s = ''*'' then s else concat (map (escape_char path_safe) s))"

section \<open>One request\<close>

datatype body = NoBody | JsonBody json | EventsBody "event_envelope list"

record http_request =
  rq_method :: string
  rq_origin :: string
  rq_path :: string
  rq_token :: string
  rq_body :: body

record http_response =
  rs_status :: int
  rs_length :: nat
  rs_body :: "json option"

datatype http_result = DoFailed net_error | ReadFailed net_error | Answer http_response

type_synonym wire = "http_request list"
type_synonym server = "wire \<Rightarrow> http_result"

record client =
  cl_base :: string
  cl_token :: string

definition responseLimit :: nat where "responseLimit = 2 ^ 20"

text \<open>The error envelope is decoded as far as it goes; what does not decode stays zero.\<close>

definition error_envelope :: "json option \<Rightarrow> (string \<times> json) list" where
  "error_envelope j =
     (case j of None \<Rightarrow> []
      | Some v \<Rightarrow> (case object_members v of None \<Rightarrow> []
          | Some kvs \<Rightarrow> (case member ''Error'' kvs of None \<Rightarrow> []
              | Some e \<Rightarrow> (case object_members e of None \<Rightarrow> [] | Some m \<Rightarrow> m))))"

definition lenient :: "'a \<Rightarrow> string + 'a \<Rightarrow> 'a" where
  "lenient z r = (case r of Inl e \<Rightarrow> z | Inr x \<Rightarrow> x)"

definition bounded_message :: "string \<Rightarrow> string" where
  "bounded_message message = (if 300 < length message \<or> contains_any message [CR, LF, NUL] then [] else message)"

definition api_error_of :: "http_response \<Rightarrow> api_error" where
  "api_error_of r =
     (let envelope = error_envelope (rs_body r);
          code = lenient [] (dec_string ''Code'' envelope)
      in \<lparr>ae_status = rs_status r, ae_code = (if code = [] then ''unexpected_status'' else code),
          ae_request_id = lenient [] (dec_string ''RequestId'' envelope),
          ae_retryable = lenient False (dec_bool ''Retryable'' envelope),
          ae_message = bounded_message (lenient [] (dec_string ''Message'' envelope))\<rparr>)"

text \<open>
  \<open>out\<close> decodes the body into what \<^verbatim>\<open>out\<close> points to, \<^term>\<open>None\<close> when it is nil, and \<open>zero\<close> is
  what it holds before.
\<close>

definition http_request_of :: "client \<Rightarrow> string \<Rightarrow> string \<Rightarrow> body \<Rightarrow> http_request" where
  "http_request_of c meth path b =
     \<lparr>rq_method = meth, rq_origin = cl_base c, rq_path = EscapedPath path, rq_token = cl_token c, rq_body = b\<rparr>"

definition requestBytes :: "server \<Rightarrow> client \<Rightarrow> string \<Rightarrow> string \<Rightarrow> body \<Rightarrow> (json \<Rightarrow> string + 'a) option \<Rightarrow> 'a \<Rightarrow> int
    \<Rightarrow> wire \<Rightarrow> (go_error + 'a) \<times> wire" where
  "requestBytes srv c meth path b out zero want w =
     (let w' = w @ [http_request_of c meth path b] in
      (case srv w' of
         DoFailed e \<Rightarrow> Inl (wrap_net ''call hosted API: '' e)
       | ReadFailed e \<Rightarrow> Inl (wrap_net ''read hosted response: '' e)
       | Answer r \<Rightarrow>
           if responseLimit < rs_length r then Inl (PlainError ''hosted response exceeds limit'')
           else if rs_status r \<noteq> want then Inl (API (api_error_of r))
           else (case out of
               None \<Rightarrow> Inr zero
             | Some dec \<Rightarrow>
                 if rs_length r = 0 then Inr zero
                 else (case rs_body r of
                     None \<Rightarrow> Inl (PlainError ''decode hosted response: invalid JSON'')
                   | Some j \<Rightarrow> map_sum (\<lambda>e. PlainError (''decode hosted response: '' @ e)) id (dec j))),
       w'))"

text \<open>\<^verbatim>\<open>Client.request\<close>: encoding a body of the protocol types always succeeds.\<close>

definition request :: "server \<Rightarrow> client \<Rightarrow> string \<Rightarrow> string \<Rightarrow> json option \<Rightarrow> (json \<Rightarrow> string + 'a) option \<Rightarrow> 'a \<Rightarrow> int
    \<Rightarrow> wire \<Rightarrow> (go_error + 'a) \<times> wire" where
  "request srv c meth path b =
     requestBytes srv c meth path (case b of None \<Rightarrow> NoBody | Some j \<Rightarrow> JsonBody j)"

section \<open>Endpoints\<close>

text \<open>A member that is sent only when it is not empty.\<close>

definition optional :: "string \<Rightarrow> string \<Rightarrow> (string \<times> json) list" where
  "optional k s = (if s = [] then [] else [(k, JStr s)])"

record new_project =
  np_label :: string
  np_device_label :: string
  np_display_name :: string
  np_app_version :: string
  np_id :: string

record project =
  pr_id :: string
  pr_label :: string

definition dec_project :: "json \<Rightarrow> string + project" where
  "dec_project j = bindE (strict_object [''ID'', ''Label''] j) (\<lambda>m.
     bindE (dec_string ''ID'' m) (\<lambda>i. bindE (dec_string ''Label'' m) (\<lambda>l. Inr \<lparr>pr_id = i, pr_label = l\<rparr>)))"

definition CreateProject :: "server \<Rightarrow> client \<Rightarrow> new_project \<Rightarrow> wire \<Rightarrow> (go_error + project) \<times> wire" where
  "CreateProject srv c p =
     request srv c ''POST'' ''/v1/projects''
       (Some (JStruct (optional ''appVersion'' (np_app_version p) @ [(''deviceLabel'', JStr (np_device_label p))] @
          optional ''displayName'' (np_display_name p) @ [(''label'', JStr (np_label p))] @
          optional ''projectId'' (np_id p))))
       (Some dec_project) \<lparr>pr_id = [], pr_label = []\<rparr> 201"

text \<open>The body \<^verbatim>\<open>Enroll\<close> and \<^verbatim>\<open>JoinProject\<close> share.\<close>

definition invite_body :: "string \<Rightarrow> string \<Rightarrow> string \<Rightarrow> string \<Rightarrow> string \<Rightarrow> json" where
  "invite_body inviteID secret deviceLabel displayName appVersion =
     JStruct ([(''appVersion'', JStr appVersion), (''deviceLabel'', JStr deviceLabel)] @
       optional ''displayName'' displayName @
       [(''inviteId'', JStr inviteID), (''inviteSecret'', JStr secret), (''schemaMaximum'', JInt 1), (''schemaMinimum'', JInt 1)])"

record enrollment =
  en_device_id :: string
  en_device_token :: string
  en_dashboard_ticket :: string

definition Enroll :: "server \<Rightarrow> client \<Rightarrow> string \<Rightarrow> string \<Rightarrow> string \<Rightarrow> string \<Rightarrow> string \<Rightarrow> wire \<Rightarrow> (go_error + enrollment) \<times> wire" where
  "Enroll srv c inviteID secret deviceLabel displayName appVersion =
     request srv c ''POST'' ''/v1/enrollments'' (Some (invite_body inviteID secret deviceLabel displayName appVersion))
       (Some (\<lambda>j. bindE (strict_object [''DeviceId'', ''DeviceToken'', ''DashboardTicket''] j) (\<lambda>m.
          bindE (dec_string ''DeviceId'' m) (\<lambda>d. bindE (dec_string ''DeviceToken'' m) (\<lambda>t.
          bindE (dec_string ''DashboardTicket'' m) (\<lambda>k.
            Inr \<lparr>en_device_id = d, en_device_token = t, en_dashboard_ticket = k\<rparr>))))))
       \<lparr>en_device_id = [], en_device_token = [], en_dashboard_ticket = []\<rparr> 201"

record membership =
  me_project_id :: string
  me_dashboard_ticket :: string

definition JoinProject :: "server \<Rightarrow> client \<Rightarrow> string \<Rightarrow> string \<Rightarrow> string \<Rightarrow> string \<Rightarrow> string \<Rightarrow> wire \<Rightarrow> (go_error + membership) \<times> wire" where
  "JoinProject srv c inviteID secret deviceLabel displayName appVersion =
     request srv c ''POST'' ''/v1/memberships'' (Some (invite_body inviteID secret deviceLabel displayName appVersion))
       (Some (\<lambda>j. bindE (strict_object [''ProjectId'', ''DashboardTicket''] j) (\<lambda>m.
          bindE (dec_string ''ProjectId'' m) (\<lambda>p. bindE (dec_string ''DashboardTicket'' m) (\<lambda>k.
            Inr \<lparr>me_project_id = p, me_dashboard_ticket = k\<rparr>)))))
       \<lparr>me_project_id = [], me_dashboard_ticket = []\<rparr> 201"

record batch_ack =
  ba_accepted :: "string list"
  ba_cursor :: string

definition dec_ack :: "json \<Rightarrow> string + batch_ack" where
  "dec_ack j = bindE (strict_object [''AcceptedEventIds'', ''Cursor''] j) (\<lambda>m.
     bindE (dec_list dec_element ''AcceptedEventIds'' m) (\<lambda>ids. bindE (dec_string ''Cursor'' m) (\<lambda>cur.
       Inr \<lparr>ba_accepted = ids, ba_cursor = cur\<rparr>)))"

definition PublishBatch :: "server \<Rightarrow> client \<Rightarrow> event_envelope list \<Rightarrow> wire \<Rightarrow> (go_error + batch_ack) \<times> wire" where
  "PublishBatch srv c batch =
     requestBytes srv c ''POST'' ''/v1/events/batch'' (EventsBody batch) (Some dec_ack) \<lparr>ba_accepted = [], ba_cursor = []\<rparr> 200"

definition Heartbeat :: "server \<Rightarrow> client \<Rightarrow> string \<Rightarrow> string \<Rightarrow> wire \<Rightarrow> (go_error + unit) \<times> wire" where
  "Heartbeat srv c ws state =
     request srv c ''POST'' ''/v1/presence/heartbeat''
       (Some (JStruct [(''state'', JStr state), (''workspaceId'', JStr ws)])) None () 204"

definition RevokeDevice :: "server \<Rightarrow> client \<Rightarrow> string \<Rightarrow> wire \<Rightarrow> (go_error + unit) \<times> wire" where
  "RevokeDevice srv c device =
     request srv c ''POST'' (''/v1/devices/'' @ PathEscape device @ ''/revoke'') None None () 204"

record change_page =
  ch_items :: "json list"
  ch_cursor :: string

text \<open>An element of \<^verbatim>\<open>[]map[string]any\<close>.\<close>

fun dec_map :: "json \<Rightarrow> string + json" where
  "dec_map (JMap kvs) = Inr (decode_any (JMap kvs))"
| "dec_map (JStruct kvs) = Inr (decode_any (JStruct kvs))"
| "dec_map JNull = Inr JNull"
| "dec_map _ = Inl ''cannot unmarshal into map''"

definition ProjectChanges :: "server \<Rightarrow> client \<Rightarrow> string \<Rightarrow> wire \<Rightarrow> (go_error + change_page) \<times> wire" where
  "ProjectChanges srv c project =
     request srv c ''GET'' (''/v1/projects/'' @ PathEscape project @ ''/changes'') None
       (Some (\<lambda>j. bindE (strict_object [''Items'', ''Cursor''] j) (\<lambda>m.
          bindE (dec_list dec_map ''Items'' m) (\<lambda>xs. bindE (dec_string ''Cursor'' m) (\<lambda>cur.
            Inr \<lparr>ch_items = xs, ch_cursor = cur\<rparr>)))))
       \<lparr>ch_items = [], ch_cursor = []\<rparr> 200"

record sync_comment =
  sy_id :: string
  sy_member_name :: string
  sy_body :: string
  sy_created_at :: string

definition dec_sync_comment :: "json \<Rightarrow> string + sync_comment" where
  "dec_sync_comment j = bindE (strict_object [''ID'', ''MemberName'', ''Body'', ''CreatedAt''] j) (\<lambda>m.
     bindE (dec_string ''ID'' m) (\<lambda>i. bindE (dec_string ''MemberName'' m) (\<lambda>n.
     bindE (dec_string ''Body'' m) (\<lambda>b. bindE (dec_string ''CreatedAt'' m) (\<lambda>t.
       Inr \<lparr>sy_id = i, sy_member_name = n, sy_body = b, sy_created_at = t\<rparr>)))))"

definition CommentSyncCard :: "server \<Rightarrow> client \<Rightarrow> string \<Rightarrow> string \<Rightarrow> wire \<Rightarrow> (go_error + sync_comment) \<times> wire" where
  "CommentSyncCard srv c cardID txt =
     request srv c ''POST'' (''/v1/sync-cards/'' @ PathEscape cardID @ ''/comments'') (Some (JMap [(''body'', JStr txt)]))
       (Some dec_sync_comment) \<lparr>sy_id = [], sy_member_name = [], sy_body = [], sy_created_at = []\<rparr> 201"

record resolution =
  re_id :: string
  re_sync_card_id :: string
  re_summary :: string
  re_created_at :: string
  re_affected_member_ids :: "string list"
  re_affected_workstream_ids :: "string list"
  re_revision :: int

definition no_resolution :: resolution where
  "no_resolution = \<lparr>re_id = [], re_sync_card_id = [], re_summary = [], re_created_at = [], re_affected_member_ids = [],
     re_affected_workstream_ids = [], re_revision = 0\<rparr>"

definition dec_resolution :: "json \<Rightarrow> string + resolution" where
  "dec_resolution j = bindE (strict_object [''ID'', ''SyncCardID'', ''Summary'', ''CreatedAt'', ''AffectedMemberIDs'',
       ''AffectedWorkstreamIDs'', ''Revision''] j) (\<lambda>m.
     bindE (dec_string ''ID'' m) (\<lambda>i. bindE (dec_string ''SyncCardID'' m) (\<lambda>c. bindE (dec_string ''Summary'' m) (\<lambda>s.
     bindE (dec_string ''CreatedAt'' m) (\<lambda>t. bindE (dec_list dec_element ''AffectedMemberIDs'' m) (\<lambda>ms.
     bindE (dec_list dec_element ''AffectedWorkstreamIDs'' m) (\<lambda>ws. bindE (dec_int ''Revision'' m) (\<lambda>rv.
       Inr \<lparr>re_id = i, re_sync_card_id = c, re_summary = s, re_created_at = t, re_affected_member_ids = ms,
            re_affected_workstream_ids = ws, re_revision = rv\<rparr>))))))))"

record sync_card =
  sc_id :: string
  sc_finding_id :: string
  sc_title :: string
  sc_summary :: string
  sc_state :: string
  sc_updated_at :: string
  sc_revision :: int
  sc_comments :: "sync_comment list"
  sc_resolution :: "resolution option"

definition no_sync_card :: sync_card where
  "no_sync_card = \<lparr>sc_id = [], sc_finding_id = [], sc_title = [], sc_summary = [], sc_state = [], sc_updated_at = [],
     sc_revision = 0, sc_comments = [], sc_resolution = None\<rparr>"

definition dec_sync_card :: "json \<Rightarrow> string + sync_card" where
  "dec_sync_card j = bindE (strict_object [''ID'', ''FindingID'', ''Title'', ''Summary'', ''State'', ''UpdatedAt'', ''Revision'',
       ''Comments'', ''Resolution''] j) (\<lambda>m.
     bindE (dec_string ''ID'' m) (\<lambda>i. bindE (dec_string ''FindingID'' m) (\<lambda>f. bindE (dec_string ''Title'' m) (\<lambda>t.
     bindE (dec_string ''Summary'' m) (\<lambda>s. bindE (dec_string ''State'' m) (\<lambda>st. bindE (dec_string ''UpdatedAt'' m) (\<lambda>u.
     bindE (dec_int ''Revision'' m) (\<lambda>rv. bindE (dec_list dec_sync_comment ''Comments'' m) (\<lambda>cs.
     bindE (case member ''Resolution'' m of None \<Rightarrow> Inr None | Some r \<Rightarrow> bindE (dec_resolution r) (\<lambda>x. Inr (Some x))) (\<lambda>r.
       Inr \<lparr>sc_id = i, sc_finding_id = f, sc_title = t, sc_summary = s, sc_state = st, sc_updated_at = u, sc_revision = rv,
            sc_comments = cs, sc_resolution = r\<rparr>))))))))))"

record collaboration_snapshot =
  co_project_id :: string
  co_sync_cards :: "sync_card list"
  co_resolutions :: "resolution list"
  co_cursor :: string

definition Collaboration :: "server \<Rightarrow> client \<Rightarrow> string \<Rightarrow> wire \<Rightarrow> (go_error + collaboration_snapshot) \<times> wire" where
  "Collaboration srv c projectID =
     request srv c ''GET'' (''/v1/projects/'' @ PathEscape projectID @ ''/collaboration'') None
       (Some (\<lambda>j. bindE (strict_object [''projectId'', ''syncCards'', ''resolutions'', ''cursor''] j) (\<lambda>m.
          bindE (dec_string ''projectId'' m) (\<lambda>p. bindE (dec_list dec_sync_card ''syncCards'' m) (\<lambda>cs.
          bindE (dec_list dec_resolution ''resolutions'' m) (\<lambda>rs. bindE (dec_string ''cursor'' m) (\<lambda>cur.
            Inr \<lparr>co_project_id = p, co_sync_cards = cs, co_resolutions = rs, co_cursor = cur\<rparr>)))))))
       \<lparr>co_project_id = [], co_sync_cards = [], co_resolutions = [], co_cursor = []\<rparr> 200"

definition CreateSyncCard :: "server \<Rightarrow> client \<Rightarrow> string \<Rightarrow> string \<Rightarrow> string \<Rightarrow> string \<Rightarrow> wire \<Rightarrow> (go_error + sync_card) \<times> wire" where
  "CreateSyncCard srv c projectID findingID title summary =
     request srv c ''POST'' (''/v1/projects/'' @ PathEscape projectID @ ''/sync-cards'')
       (Some (JMap ([(''title'', JStr title), (''summary'', JStr summary)] @ optional ''findingId'' findingID)))
       (Some dec_sync_card) no_sync_card 201"

definition ResolveSyncCard :: "server \<Rightarrow> client \<Rightarrow> string \<Rightarrow> int \<Rightarrow> string \<Rightarrow> string list \<Rightarrow> string list \<Rightarrow> wire \<Rightarrow> (go_error + resolution) \<times> wire" where
  "ResolveSyncCard srv c cardID expected summary members streams =
     request srv c ''POST'' (''/v1/sync-cards/'' @ PathEscape cardID @ ''/resolve'')
       (Some (JMap [(''expectedRevision'', JInt expected), (''summary'', JStr summary),
          (''affectedMemberIds'', JArr (map JStr members)), (''affectedWorkstreamIds'', JArr (map JStr streams))]))
       (Some dec_resolution) no_resolution 200"

record brief_item =
  bi_id :: string
  bi_kind :: string
  bi_text :: string
  bi_relevance_reason :: string
  bi_fidelity :: string
  bi_advisory_action :: string
  bi_revision :: int
  bi_priority :: int

record coordination_brief =
  br_brief_id :: string
  br_project_id :: string
  br_repository_id :: string
  br_workstream_id :: string
  br_generated_at :: string
  br_trigger :: string
  br_next_cursor :: string
  br_context_revision :: int
  br_requested_budget :: int
  br_rendered_size :: int
  br_truncated :: bool
  br_items :: "brief_item list"

definition dec_brief_item :: "json \<Rightarrow> string + brief_item" where
  "dec_brief_item j = bindE (strict_object [''Id'', ''Kind'', ''Text'', ''RelevanceReason'', ''Fidelity'', ''AdvisoryAction'',
       ''Revision'', ''Priority''] j) (\<lambda>m.
     bindE (dec_string ''Id'' m) (\<lambda>i. bindE (dec_string ''Kind'' m) (\<lambda>k. bindE (dec_string ''Text'' m) (\<lambda>t.
     bindE (dec_string ''RelevanceReason'' m) (\<lambda>why. bindE (dec_string ''Fidelity'' m) (\<lambda>f.
     bindE (dec_string ''AdvisoryAction'' m) (\<lambda>act. bindE (dec_int ''Revision'' m) (\<lambda>rv. bindE (dec_int ''Priority'' m) (\<lambda>p.
       Inr \<lparr>bi_id = i, bi_kind = k, bi_text = t, bi_relevance_reason = why, bi_fidelity = f, bi_advisory_action = act,
            bi_revision = rv, bi_priority = p\<rparr>)))))))))"

definition dec_brief :: "json \<Rightarrow> string + coordination_brief" where
  "dec_brief j = bindE (strict_object [''BriefId'', ''ProjectId'', ''RepositoryId'', ''WorkstreamId'', ''GeneratedAt'', ''Trigger'',
       ''ContextRevision'', ''RequestedBudget'', ''RenderedSize'', ''Truncated'', ''NextCursor'', ''Items''] j) (\<lambda>m.
     bindE (dec_string ''BriefId'' m) (\<lambda>i. bindE (dec_string ''ProjectId'' m) (\<lambda>p. bindE (dec_string ''RepositoryId'' m) (\<lambda>r.
     bindE (dec_string ''WorkstreamId'' m) (\<lambda>ws. bindE (dec_string ''GeneratedAt'' m) (\<lambda>g. bindE (dec_string ''Trigger'' m) (\<lambda>t.
     bindE (dec_int ''ContextRevision'' m) (\<lambda>cr. bindE (dec_int ''RequestedBudget'' m) (\<lambda>rb.
     bindE (dec_int ''RenderedSize'' m) (\<lambda>sz. bindE (dec_bool ''Truncated'' m) (\<lambda>tr. bindE (dec_string ''NextCursor'' m) (\<lambda>nc.
     bindE (dec_list dec_brief_item ''Items'' m) (\<lambda>xs.
       Inr \<lparr>br_brief_id = i, br_project_id = p, br_repository_id = r, br_workstream_id = ws, br_generated_at = g,
            br_trigger = t, br_next_cursor = nc, br_context_revision = cr, br_requested_budget = rb,
            br_rendered_size = sz, br_truncated = tr, br_items = xs\<rparr>)))))))))))))"

definition empty_brief :: coordination_brief where
  "empty_brief = \<lparr>br_brief_id = [], br_project_id = [], br_repository_id = [], br_workstream_id = [], br_generated_at = [],
     br_trigger = [], br_next_cursor = [], br_context_revision = 0, br_requested_budget = 0, br_rendered_size = 0,
     br_truncated = False, br_items = []\<rparr>"

definition CreateBrief :: "server \<Rightarrow> client \<Rightarrow> string \<Rightarrow> string \<Rightarrow> string \<Rightarrow> int \<Rightarrow> wire \<Rightarrow> (go_error + coordination_brief) \<times> wire" where
  "CreateBrief srv c workstream trigger since budget =
     request srv c ''POST'' (''/v1/workstreams/'' @ PathEscape workstream @ ''/briefs'')
       (Some (JStruct ([(''approximateTokenBudget'', JInt (if budget = 0 then 400 else budget))] @
          optional ''sinceCursor'' since @ [(''trigger'', JStr trigger)])))
       (Some dec_brief) empty_brief 200"

end
