(* ===== verification/App_Service.thy ===== *)
theory App_Service
  imports Hosted_Client Profile_Config Store_Sessions Watch_Tree
begin

text \<open>
  The state of the local service, \<^verbatim>\<open>Service\<close> of \<^verbatim>\<open>internal/app/app.go\<close>, and the publishers it keeps,
  one per backend (\<^verbatim>\<open>internal/app/hosted_sender.go\<close>).

  The profile on disk is \<open>sv_saved\<close>, the requests that left the device are \<open>sv_wire\<close>. The mutexes are
  not modelled: an operation is one step. The supervisor of the loopback backend
  (\<^verbatim>\<open>internal/localbackend\<close>) keeps no state an operation here reads, so its calls \<^verbatim>\<open>Touch\<close> and
  \<^verbatim>\<open>Ensure\<close> have no counterpart. The Keychain and \<^verbatim>\<open>hosted.New\<close> are parameters.
\<close>

section \<open>State\<close>

record service =
  sv_config :: config
  sv_saved :: config_file
  sv_db :: db
  sv_wire :: wire
  sv_senders :: "string \<rightharpoonup> client option"
  sv_sender_state :: "string \<rightharpoonup> credential_status"
  sv_boot :: int
  sv_scans :: int
  sv_scan_cycles :: int
  sv_watch :: watcher
  sv_transcripts :: "string \<rightharpoonup> string"
  sv_codex_background :: int
  sv_codex_read_failed :: "string \<Rightarrow> bool"
  sv_last_error :: string
  sv_mid_turn :: "string \<rightharpoonup> int"

type_synonym sender_factory = "backend \<Rightarrow> go_error + client"

text \<open>\<^verbatim>\<open>Sender.Send\<close>: the workspace, the batch, and the requests sent before.\<close>

type_synonym send_fun = "string \<Rightarrow> event_envelope list \<Rightarrow> wire \<Rightarrow> go_error option \<times> wire"

section \<open>Publishers\<close>

definition NewHostedSenders :: "(string \<Rightarrow> go_error + string) \<Rightarrow> (string \<Rightarrow> string \<Rightarrow> go_error + client) \<Rightarrow> sender_factory" where
  "NewHostedSenders keychain new_client b =
     (if bk_device_id b = [] \<or> bk_api_base_url b = []
      then Inl (PlainError ''service is not enrolled; run overgent create or join'')
      else bindE (keychain (bk_device_id b)) (\<lambda>token. new_client (bk_api_base_url b) token))"

definition Send :: "server \<Rightarrow> client \<Rightarrow> send_fun" where
  "Send srv c ws batch w =
     (if batch = [] then (Some (PlainError ''queued event batch is empty''), w)
      else (case PublishBatch srv c batch w of
          (Inl e, w') \<Rightarrow> (Some e, w')
        | (Inr ack, w') \<Rightarrow>
            (case find (\<lambda>v. env_event_id v \<notin> set (ba_accepted ack)) batch of
               Some v \<Rightarrow> (Some (PlainError (''hosted acknowledgement omitted queued event '' @ env_event_id v)), w')
             | None \<Rightarrow>
                 if ba_cursor ack = [] then (Some (PlainError ''hosted acknowledgement omitted workspace cursor''), w')
                 else (None, w'))))"

definition senderFor :: "sender_factory option \<Rightarrow> backend \<Rightarrow> service \<Rightarrow> client option \<times> service" where
  "senderFor new_sender b s =
     (if bk_id b = [] then (None, s)
      else case sv_senders s (bk_id b) of
        Some built \<Rightarrow> (built, s)
      | None \<Rightarrow>
          (case new_sender of
             None \<Rightarrow> (None, s)
           | Some factory \<Rightarrow>
               (case factory b of
                  Inl e \<Rightarrow> (None, s\<lparr>sv_senders := (sv_senders s)(bk_id b \<mapsto> None),
                                  sv_sender_state := (sv_sender_state s)(bk_id b \<mapsto> CredentialUnknown)\<rparr>)
                | Inr c \<Rightarrow> (Some c, s\<lparr>sv_senders := (sv_senders s)(bk_id b \<mapsto> Some c),
                                    sv_sender_state := (sv_sender_state s)(bk_id b \<mapsto> CredentialOK)\<rparr>))))"

definition senderForWorkspace :: "sender_factory option \<Rightarrow> config_workspace \<Rightarrow> service \<Rightarrow> client option \<times> service" where
  "senderForWorkspace new_sender w s =
     (case BackendForWorkspace w (sv_config s) of
        None \<Rightarrow> (None, s)
      | Some b \<Rightarrow> senderFor new_sender b s)"

definition workspaceByID :: "config \<Rightarrow> string \<Rightarrow> config_workspace option" where
  "workspaceByID c ws = find (\<lambda>w. cw_id w = ws) (cf_workspaces c)"

definition workspaceWorkstream :: "config \<Rightarrow> string \<Rightarrow> string" where
  "workspaceWorkstream c ws =
     (case find (\<lambda>w. cw_id w = ws) (cf_workspaces c) of None \<Rightarrow> [] | Some w \<Rightarrow> cw_workstream_id w)"

definition senderForWorkspaceID :: "sender_factory option \<Rightarrow> string \<Rightarrow> service \<Rightarrow> client option \<times> service" where
  "senderForWorkspaceID new_sender ws s =
     (case workspaceByID (sv_config s) ws of
        None \<Rightarrow> (None, s)
      | Some w \<Rightarrow> senderForWorkspace new_sender w s)"

fun credential_text :: "credential_status \<Rightarrow> string" where
  "credential_text CredentialOK = ''ok''"
| "credential_text CredentialRevoked = ''revoked''"
| "credential_text CredentialUnknown = ''unknown''"
| "credential_text CredentialUncertain = ''uncertain''"

definition credentialStates :: "service \<Rightarrow> json list" where
  "credentialStates s = map (\<lambda>b. JMap [(''id'', JStr (bk_id b)), (''kind'', JStr (bk_kind b)),
       (''apiBaseUrl'', JStr (bk_api_base_url b)),
       (''credential'', JStr (credential_text
          (case sv_sender_state s (bk_id b) of None \<Rightarrow> CredentialUncertain | Some st \<Rightarrow> st)))])
     (cf_backends (sv_config s))"

section \<open>The contract of a publisher\<close>

fun permanentRejection :: "go_error \<Rightarrow> bool" where
  "permanentRejection (API e) \<longleftrightarrow> \<not> ae_retryable e
     \<and> 400 \<le> ae_status e \<and> ae_status e < 500 \<and> ae_status e \<noteq> 401 \<and> ae_status e \<noteq> 408 \<and> ae_status e \<noteq> 429"
| "permanentRejection _ \<longleftrightarrow> False"

text \<open>
  What the publish loop relies on: a call sends at most the one request that carries the batch, and
  reports success only if the answer acknowledges every event of it, and a permanent rejection only
  if the answer is one. \<open>acknowledged\<close> and \<open>refused\<close> read the answer to the last request of a history.
\<close>

locale batch_sender =
  fixes send :: send_fun
    and request_for :: "event_envelope list \<Rightarrow> http_request"
    and acknowledged :: "wire \<Rightarrow> string set"
    and refused :: "wire \<Rightarrow> bool"
  assumes sends_batch: "batch \<noteq> [] \<Longrightarrow> snd (send ws batch w) = w @ [request_for batch]"
    and sends_nothing: "snd (send ws [] w) = w"
    and never_empty: "fst (send ws [] w) \<noteq> None"
    and success: "fst (send ws batch w) = None \<Longrightarrow> env_event_id ` set batch \<subseteq> acknowledged (w @ [request_for batch])"
    and refusal: "fst (send ws batch w) = Some e \<Longrightarrow> permanentRejection e \<Longrightarrow> refused (w @ [request_for batch])"
    and not_both: "refused w \<Longrightarrow> acknowledged w = {}"
begin

lemma success_sends: "fst (send ws batch w) = None \<Longrightarrow> batch \<noteq> [] \<and> snd (send ws batch w) = w @ [request_for batch]"
  using never_empty sends_batch by metis

end

text \<open>The ids a history's last answer acknowledges: those of a 200 answer that decodes.\<close>

definition acked_ids :: "server \<Rightarrow> wire \<Rightarrow> string set" where
  "acked_ids srv w = (case srv w of
     Answer r \<Rightarrow> if rs_status r = 200 \<and> 0 < rs_length r \<and> rs_length r \<le> responseLimit
       then (case rs_body r of Some j \<Rightarrow> (case dec_ack j of Inr ack \<Rightarrow> set (ba_accepted ack) | Inl e \<Rightarrow> {}) | None \<Rightarrow> {})
       else {}
   | _ \<Rightarrow> {})"

definition refused_by :: "server \<Rightarrow> wire \<Rightarrow> bool" where
  "refused_by srv w = (case srv w of Answer r \<Rightarrow> permanentRejection (API (api_error_of r)) | _ \<Rightarrow> False)"

definition batch_request :: "client \<Rightarrow> event_envelope list \<Rightarrow> http_request" where
  "batch_request c batch = http_request_of c ''POST'' ''/v1/events/batch'' (EventsBody batch)"

lemma PublishBatch_wire: "snd (PublishBatch srv c batch w) = w @ [batch_request c batch]"
  by (simp add: PublishBatch_def requestBytes_def batch_request_def Let_def)

lemma PublishBatch_ack:
  assumes "fst (PublishBatch srv c batch w) = Inr ack" and "ba_cursor ack \<noteq> []"
  shows "set (ba_accepted ack) \<subseteq> acked_ids srv (w @ [batch_request c batch])"
  using assms
  by (auto simp: PublishBatch_def requestBytes_def batch_request_def acked_ids_def Let_def map_sum_def
      split: http_result.splits if_splits option.splits sum.splits)

lemma Send_outcome:
  assumes "fst (Send srv c ws batch w) = None"
  shows "\<exists>ack. fst (PublishBatch srv c batch w) = Inr ack \<and> ba_cursor ack \<noteq> []
    \<and> (\<forall>v \<in> set batch. env_event_id v \<in> set (ba_accepted ack))"
  using assms
  by (cases "PublishBatch srv c batch w")
    (auto simp: Send_def find_None_iff split: if_splits sum.splits option.splits)

lemma PublishBatch_refused:
  assumes "fst (PublishBatch srv c batch w) = Inl e" and "permanentRejection e"
  shows "refused_by srv (w @ [batch_request c batch])"
proof -
  have "\<not> permanentRejection (wrap_net p n)" for p n by (cases n) simp_all
  with assms show ?thesis
    by (auto simp: PublishBatch_def requestBytes_def batch_request_def refused_by_def Let_def map_sum_def
        split: http_result.splits if_splits option.splits sum.splits)
qed

lemma Send_refused:
  assumes "fst (Send srv c ws batch w) = Some e" and "permanentRejection e"
  shows "fst (PublishBatch srv c batch w) = Inl e"
  using assms
  by (cases "PublishBatch srv c batch w") (auto simp: Send_def split: if_splits sum.splits option.splits)

interpretation hosted: batch_sender "Send srv c" "batch_request c" "acked_ids srv" "refused_by srv" for srv c
proof unfold_locales
  show "snd (Send srv c ws batch w) = w @ [batch_request c batch]" if "batch \<noteq> []" for ws batch w
    using that PublishBatch_wire [of srv c batch w]
    by (cases "PublishBatch srv c batch w") (auto simp: Send_def split: sum.split option.split)
  show "env_event_id ` set batch \<subseteq> acked_ids srv (w @ [batch_request c batch])"
    if "fst (Send srv c ws batch w) = None" for ws batch w
    using Send_outcome [OF that] PublishBatch_ack [of srv c batch w] by blast
  show "refused_by srv (w @ [batch_request c batch])"
    if "fst (Send srv c ws batch w) = Some e" "permanentRejection e" for ws batch w e
    using PublishBatch_refused [OF Send_refused [OF that] that(2)] .
  show "acked_ids srv w = {}" if "refused_by srv w" for w
    using that by (auto simp: refused_by_def acked_ids_def api_error_of_def Let_def split: http_result.splits)
qed (simp_all add: Send_def)

end
