(* ===== verification/App_Publisher.thy ===== *)
theory App_Publisher
  imports App_Service
begin

text \<open>
  The publish loop of \<^verbatim>\<open>internal/app/app.go\<close>: \<^verbatim>\<open>flush\<close> drains the queue of every workspace that is
  not paused, window by window, to the backend its Project is bound to, with \<^verbatim>\<open>retryIndividually\<close>
  for a window a backend refuses for good; \<^verbatim>\<open>retryDelay\<close> spaces the passes; \<^verbatim>\<open>sendHeartbeats\<close> is
  the body of the heartbeat loop.

  \<open>clock eid\<close> is the time at which the event \<open>eid\<close> is settled in the pass. The log lines are not
  modelled.
\<close>

section \<open>Verdicts\<close>

definition backendRefused :: "go_error \<Rightarrow> bool" where
  "backendRefused e = (case e of ConnRefused s \<Rightarrow> True | _ \<Rightarrow> False)"

fun is_context_error :: "go_error \<Rightarrow> bool" where
  "is_context_error (ContextError s) = True"
| "is_context_error _ = False"

definition publishFailureReason :: "go_error option \<Rightarrow> string" where
  "publishFailureReason err =
     (case err of
        None \<Rightarrow> []
      | Some e \<Rightarrow>
          if is_context_error e then ''offline''
          else let message = to_lower (error_text e) in
            if list_ex (str_contains message) [''rate_limited'', ''rate limited'', ''429'', ''quota''] then ''quota''
            else if str_contains message ''paused'' then ''paused''
            else if list_ex (str_contains message) [''timeout'', ''unavailable'', ''connection'', ''no such host'', ''network'']
            then ''offline''
            else ''provider_error'')"

text \<open>The text of a store error; the driver's own wording of a violated constraint is abbreviated.\<close>

fun store_error_go :: "store_error \<Rightarrow> go_error" where
  "store_error_go ErrNoRows = PlainError ''sql: no rows in result set''"
| "store_error_go ErrConstraint = PlainError ''constraint failed''"
| "store_error_go (ErrText s) = PlainError s"

definition recordPublishReason :: "string \<Rightarrow> service \<Rightarrow> service" where
  "recordPublishReason reason s = s\<lparr>sv_last_error := reason\<rparr>"

definition recordPublishError :: "go_error \<Rightarrow> service \<Rightarrow> service" where
  "recordPublishError e s = recordPublishReason (publishFailureReason (Some e)) s"

definition clearPublishError :: "service \<Rightarrow> service" where
  "clearPublishError s = s\<lparr>sv_last_error := []\<rparr>"

definition publishError :: "service \<Rightarrow> string" where
  "publishError s = sv_last_error s"

section \<open>One workspace\<close>

text \<open>The events of a window are resent one at a time; the error that stops the pass, if one does.\<close>

fun retryIndividually :: "send_fun \<Rightarrow> (string \<Rightarrow> int) \<Rightarrow> string \<Rightarrow> queue_event list \<Rightarrow> service \<Rightarrow> go_error option \<times> service" where
  "retryIndividually send clock ws [] s = (None, s)"
| "retryIndividually send clock ws (q # window) s =
     (case Batch [q] of
        Inl e \<Rightarrow> (Some (store_error_go e), s)
      | Inr single \<Rightarrow>
          (let (err, w') = send ws single (sv_wire s); s' = s\<lparr>sv_wire := w'\<rparr> in
           case err of
             Some e \<Rightarrow>
               if \<not> permanentRejection e then (Some e, s')
               else retryIndividually send clock ws window
                 (recordPublishReason ''rejected'' (s'\<lparr>sv_db := Quarantine (q_id q) (clock (q_id q)) (sv_db s')\<rparr>))
           | None \<Rightarrow>
               (case Ack (q_id q) (clock (q_id q)) (sv_db s') of
                  Inl e \<Rightarrow> (Some (store_error_go e), s')
                | Inr d \<Rightarrow> retryIndividually send clock ws window (s'\<lparr>sv_db := d\<rparr>))))"

text \<open>The loop that acknowledges a delivered window.\<close>

fun ack_window :: "(string \<Rightarrow> int) \<Rightarrow> queue_event list \<Rightarrow> db \<Rightarrow> store_error option \<times> db" where
  "ack_window clock [] d = (None, d)"
| "ack_window clock (q # window) d =
     (case Ack (q_id q) (clock (q_id q)) d of
        Inl e \<Rightarrow> (Some e, d)
      | Inr d' \<Rightarrow> ack_window clock window d')"

text \<open>
  How the loop over one workspace's events ends: all of them left the queue, or the backend failed,
  with \<^verbatim>\<open>anyQuarantined\<close> as it then is; or \<^verbatim>\<open>flush\<close> returns.
\<close>

datatype drain_outcome = Drained bool | BackendFailed bool | Abort

function drain :: "send_fun \<Rightarrow> (string \<Rightarrow> int) \<Rightarrow> string \<Rightarrow> queue_event list \<Rightarrow> bool \<Rightarrow> service \<Rightarrow> drain_outcome \<times> service" where
  "drain send clock ws events quarantined s =
     (if events = [] then (Drained quarantined, s)
      else let window = take 100 events; rest = drop 100 events in
        case Batch window of
          Inl e \<Rightarrow> (Abort, recordPublishError (store_error_go e) s)
        | Inr batch \<Rightarrow>
            (let (err, w') = send ws batch (sv_wire s); s' = s\<lparr>sv_wire := w'\<rparr> in
             case err of
               Some e \<Rightarrow>
                 if \<not> permanentRejection e then (BackendFailed quarantined, recordPublishError e s')
                 else (case retryIndividually send clock ws window s' of
                     (Some e', s'') \<Rightarrow> (BackendFailed quarantined, recordPublishError e' s'')
                   | (None, s'') \<Rightarrow> drain send clock ws rest True s'')
             | None \<Rightarrow>
                 (case ack_window clock window (sv_db s') of
                    (Some e, d) \<Rightarrow> (Abort, recordPublishError (store_error_go e) (s'\<lparr>sv_db := d\<rparr>))
                  | (None, d) \<Rightarrow> drain send clock ws rest quarantined (s'\<lparr>sv_db := d\<rparr>))))"
  by pat_completeness auto
termination
  by (relation "measure (\<lambda>(send, clock, ws, events, q, s). length events)") auto

declare drain.simps [simp del]

section \<open>One pass\<close>

definition paused_map :: "workspace list \<Rightarrow> string \<Rightarrow> bool" where
  "paused_map rows = fold (\<lambda>w m. m(w_id w := w_paused w)) rows (\<lambda>_. False)"

definition backend_map :: "workspace list \<Rightarrow> string \<Rightarrow> string" where
  "backend_map rows = fold (\<lambda>w m. m(w_id w := w_backend_id w)) rows (\<lambda>_. [])"

text \<open>The groups per workspace and the order in which the workspaces were first seen.\<close>

definition add_to_group :: "(string \<Rightarrow> bool) \<Rightarrow> queue_event \<Rightarrow> string list \<times> (string \<Rightarrow> queue_event list)
    \<Rightarrow> string list \<times> (string \<Rightarrow> queue_event list)" where
  "add_to_group paused e og =
     (let ws = q_workspace_id e; (order, groups) = og in
      if paused ws then (order, groups)
      else (if groups ws = [] then order @ [ws] else order, groups(ws := groups ws @ [e])))"

definition group_events :: "(string \<Rightarrow> bool) \<Rightarrow> queue_event list \<Rightarrow> string list \<times> (string \<Rightarrow> queue_event list)" where
  "group_events paused pending = fold (add_to_group paused) pending ([], \<lambda>_. [])"

text \<open>
  The loop over the workspaces; \<open>send_of c\<close> is the publisher of the client \<open>c\<close>. It returns
  \<^verbatim>\<open>healthy\<close> and \<^verbatim>\<open>anyQuarantined\<close>, or \<^term>\<open>None\<close> when \<^verbatim>\<open>flush\<close> returns from inside it.
\<close>

fun flush_groups :: "sender_factory option \<Rightarrow> (client \<Rightarrow> send_fun) \<Rightarrow> (string \<Rightarrow> int) \<Rightarrow> (string \<Rightarrow> string)
    \<Rightarrow> (string \<Rightarrow> queue_event list) \<Rightarrow> string list \<Rightarrow> string set \<Rightarrow> bool \<times> bool \<Rightarrow> service \<Rightarrow> (bool \<times> bool) option \<times> service" where
  "flush_groups new_sender send_of clock backendOf groups [] failed hq s = (Some hq, s)"
| "flush_groups new_sender send_of clock backendOf groups (ws # order) failed (healthy, quarantined) s =
     (if backendOf ws \<in> failed
      then flush_groups new_sender send_of clock backendOf groups order failed (healthy, quarantined) s
      else (case senderForWorkspaceID new_sender ws s of
          (None, s1) \<Rightarrow>
            flush_groups new_sender send_of clock backendOf groups order (insert (backendOf ws) failed) (False, quarantined)
              (recordPublishReason ''not_configured'' s1)
        | (Some c, s1) \<Rightarrow>
            (case drain (send_of c) clock ws (groups ws) quarantined s1 of
               (Abort, s2) \<Rightarrow> (None, s2)
             | (BackendFailed q, s2) \<Rightarrow>
                 flush_groups new_sender send_of clock backendOf groups order (insert (backendOf ws) failed) (False, q) s2
             | (Drained q, s2) \<Rightarrow>
                 flush_groups new_sender send_of clock backendOf groups order failed (healthy, q) s2)))"

definition flush :: "sender_factory option \<Rightarrow> server \<Rightarrow> (string \<Rightarrow> int) \<Rightarrow> service \<Rightarrow> bool \<times> service" where
  "flush new_sender srv clock s =
     (let pending = Pending (sv_db s) in
      if pending = [] then (True, clearPublishError s)
      else let rows = Workspaces (sv_db s);
               (order, groups) = group_events (paused_map rows) pending
           in case flush_groups new_sender (Send srv) clock (backend_map rows) groups order {} (True, False) s of
             (None, s') \<Rightarrow> (False, s')
           | (Some (healthy, quarantined), s') \<Rightarrow>
               if \<not> healthy then (False, s')
               else if quarantined then (True, s')
               else (True, clearPublishError s'))"

section \<open>Spacing the passes\<close>

text \<open>\<open>random\<close> is the 64-bit number read from \<^verbatim>\<open>crypto/rand\<close>, \<^term>\<open>None\<close> when reading it failed.\<close>

function double_until :: "int \<Rightarrow> int \<Rightarrow> int \<Rightarrow> int" where
  "double_until failures i delay =
     (if i < failures \<and> delay < 30 * second_ns then double_until failures (i + 1) (delay * 2) else delay)"
  by pat_completeness auto
termination
  by (relation "measure (\<lambda>(failures, i, delay). nat (failures - i))") auto

declare double_until.simps [simp del]

definition retryDelay :: "nat option \<Rightarrow> int \<Rightarrow> int" where
  "retryDelay random failures =
     (if failures \<le> 0 then 500 * millisecond_ns
      else let delay = min (double_until failures 1 (500 * millisecond_ns)) (30 * second_ns) in
        case random of
          None \<Rightarrow> delay
        | Some n \<Rightarrow> delay * int (800 + n mod 401) div 1000)"

section \<open>The other loops\<close>

definition sendHeartbeats :: "sender_factory option \<Rightarrow> server \<Rightarrow> service \<Rightarrow> service" where
  "sendHeartbeats new_sender srv s =
     fold (\<lambda>w s. case senderForWorkspaceID new_sender (w_id w) s of
         (None, s') \<Rightarrow> s'
       | (Some c, s') \<Rightarrow>
           s'\<lparr>sv_wire := snd (Heartbeat srv c (w_id w) (if w_paused w then ''paused'' else ''active'') (sv_wire s'))\<rparr>)
       (Workspaces (sv_db s)) s"

end
