(* ===== verification/App_Delivery.thy ===== *)
theory App_Delivery
  imports App_Publisher
begin

text \<open>
  What a pass of the publish loop does: which requests leave the device, which events leave the queue
  and on whose word, in which order, and that a pass makes progress on every backend that answers.
\<close>

section \<open>Settling events\<close>

datatype verdict = Accepted | Refused

text \<open>The abstract effect of a pass on the store: a list of verdicts applied in order.\<close>

definition settle :: "(string \<Rightarrow> int) \<Rightarrow> queue_event \<times> verdict \<Rightarrow> db \<Rightarrow> db" where
  "settle clock x d = (let eid = q_id (fst x) in
     case snd x of
       Accepted \<Rightarrow> (case Ack eid (clock eid) d of Inl e \<Rightarrow> d | Inr d' \<Rightarrow> d')
     | Refused \<Rightarrow> Quarantine eid (clock eid) d)"

text \<open>An event that can be put into a batch and is in the queue.\<close>

definition deliverable :: "db \<Rightarrow> queue_event \<Rightarrow> bool" where
  "deliverable d q \<longleftrightarrow> q_payload q = Envelope (event_envelope_of q) \<and> env_event_id (event_envelope_of q) = q_id q
     \<and> q_id q \<in> e_id ` set (event_queue d)"

lemma Ack_Inr: "q_id q \<in> e_id ` set (event_queue d) \<Longrightarrow> \<exists>d'. Ack (q_id q) now d = Inr d'"
  using t_get_None [of e_id "q_id q" "event_queue d"] by (auto simp: Ack_def split: option.split)

lemma settle_ids: "map e_id (event_queue (settle clock x d)) = map e_id (event_queue d)"
  by (auto simp: settle_def Let_def Ack_def Quarantine_def map_key_update split: verdict.split sum.split option.split)

lemma deliverable_settle: "deliverable (settle clock x d) q = deliverable d q"
  using settle_ids [of clock x d] unfolding deliverable_def by (metis list.set_map)

lemma settle_workspaces: "workspaces (settle clock x d) = workspaces d"
  by (auto simp: settle_def Let_def Ack_def Quarantine_def split: verdict.split sum.split option.split)

lemma fold_settle_workspaces: "workspaces (fold (settle clock) xs d) = workspaces d"
  by (induction xs arbitrary: d) (simp_all add: settle_workspaces)

lemma deliverable_fold: "deliverable (fold (settle clock) xs d) q = deliverable d q"
  by (induction xs arbitrary: d) (simp_all add: deliverable_settle)

lemma settle_pending:
  assumes "deliverable d (fst x)"
  shows "Pending (settle clock x d) = filter (\<lambda>q. q_id q \<noteq> q_id (fst x)) (Pending d)"
proof (cases "snd x")
  case Accepted
  obtain d' where "Ack (q_id (fst x)) (clock (q_id (fst x))) d = Inr d'"
    using Ack_Inr assms unfolding deliverable_def by blast
  with Accepted Ack_pending [OF this] show ?thesis by (simp add: settle_def Let_def)
next
  case Refused
  then show ?thesis by (simp add: settle_def Let_def Quarantine_pending)
qed

lemma fold_settle_pending:
  assumes "\<forall>x \<in> set xs. deliverable d (fst x)"
  shows "Pending (fold (settle clock) xs d) = filter (\<lambda>q. q_id q \<notin> (q_id \<circ> fst) ` set xs) (Pending d)"
  using assms
proof (induction xs arbitrary: d)
  case (Cons x xs)
  then have "Pending (fold (settle clock) xs (settle clock x d)) =
      filter (\<lambda>q. q_id q \<notin> (q_id \<circ> fst) ` set xs) (Pending (settle clock x d))"
    by (simp add: deliverable_settle)
  with Cons.prems show ?case
    by (simp add: settle_pending conj_commute)
qed simp

section \<open>Batches\<close>

lemma Batch_deliverable:
  assumes "events \<noteq> []" and "length events \<le> 100"
    and "\<forall>q \<in> set events. q_workspace_id q = ws \<and> deliverable d q"
  shows "Batch events = Inr (map event_envelope_of events)"
proof -
  obtain e es where events: "events = e # es" using assms(1) by (cases events) auto
  have "\<forall>x \<in> set events. q_workspace_id x = q_workspace_id e \<and> q_payload x = Envelope (event_envelope_of x)"
    using assms(3) by (simp add: events deliverable_def)
  from Batch_loop [OF this, of "[]"] show ?thesis
    using assms(2) by (simp add: Batch_def events)
qed

lemma ack_window_settles:
  assumes "\<forall>q \<in> set window. deliverable d q"
  shows "ack_window clock window d = (None, fold (settle clock) (map (\<lambda>q. (q, Accepted)) window) d)"
  using assms
proof (induction window arbitrary: d)
  case (Cons q window)
  obtain d' where d': "Ack (q_id q) (clock (q_id q)) d = Inr d'"
    using Ack_Inr Cons.prems unfolding deliverable_def by (metis list.set_intros(1))
  then have "settle clock (q, Accepted) d = d'" by (simp add: settle_def Let_def)
  with d' Cons show ?case
    using deliverable_settle [of clock "(q, Accepted)" d] by simp
qed simp

section \<open>What a publisher did\<close>

text \<open>A history strictly after \<open>w0\<close> and no later than \<open>w'\<close>.\<close>

definition within :: "wire \<Rightarrow> wire \<Rightarrow> wire \<Rightarrow> bool" where
  "within w0 w' w1 \<longleftrightarrow> (\<exists>a b. a \<noteq> [] \<and> w1 = w0 @ a \<and> w' = w1 @ b)"

text \<open>
  A verdict is justified by an answer of the pass: an accepted event was in a request whose answer
  acknowledges it, a refused one was alone in a request that was refused for good.
\<close>

definition justified :: "(event_envelope list \<Rightarrow> http_request) \<Rightarrow> (wire \<Rightarrow> string set) \<Rightarrow> (wire \<Rightarrow> bool) \<Rightarrow> wire \<Rightarrow> wire
    \<Rightarrow> queue_event \<times> verdict \<Rightarrow> bool" where
  "justified request_for acknowledged refused w0 w' x \<longleftrightarrow>
     (\<exists>w1. within w0 w' w1 \<and>
        (case snd x of
           Accepted \<Rightarrow> q_id (fst x) \<in> acknowledged w1 \<and> (\<exists>b. last w1 = request_for b \<and> event_envelope_of (fst x) \<in> set b)
         | Refused \<Rightarrow> last w1 = request_for [event_envelope_of (fst x)] \<and> refused w1))"

text \<open>A request that carries at most a hundred of the given events.\<close>

definition carries :: "(event_envelope list \<Rightarrow> http_request) \<Rightarrow> queue_event list \<Rightarrow> http_request \<Rightarrow> bool" where
  "carries request_for events r \<longleftrightarrow>
     (\<exists>evs. evs \<noteq> [] \<and> length evs \<le> 100 \<and> set evs \<subseteq> set events \<and> r = request_for (map event_envelope_of evs))"

definition unchanged :: "service \<Rightarrow> service \<Rightarrow> bool" where
  "unchanged s s' \<longleftrightarrow> sv_config s' = sv_config s \<and> sv_senders s' = sv_senders s \<and> sv_sender_state s' = sv_sender_state s"

text \<open>The verdicts \<open>xs\<close> are a prefix of \<open>events\<close>, they are what happened to the store, and each is justified.\<close>

definition progress :: "(event_envelope list \<Rightarrow> http_request) \<Rightarrow> (wire \<Rightarrow> string set) \<Rightarrow> (wire \<Rightarrow> bool) \<Rightarrow> (string \<Rightarrow> int)
    \<Rightarrow> queue_event list \<Rightarrow> (queue_event \<times> verdict) list \<Rightarrow> service \<Rightarrow> service \<Rightarrow> bool" where
  "progress request_for acknowledged refused clock events xs s s' \<longleftrightarrow>
     sv_db s' = fold (settle clock) xs (sv_db s)
     \<and> (\<exists>rest. events = map fst xs @ rest)
     \<and> (\<exists>reqs. sv_wire s' = sv_wire s @ reqs \<and> (\<forall>r \<in> set reqs. carries request_for events r))
     \<and> (\<forall>x \<in> set xs. justified request_for acknowledged refused (sv_wire s) (sv_wire s') x)
     \<and> unchanged s s'"

lemma justified_extend:
  "justified rf ack ref w0 w1 x \<Longrightarrow> justified rf ack ref w0 (w1 @ b) x"
  "justified rf ack ref (w0 @ a) w1 x \<Longrightarrow> justified rf ack ref w0 w1 x"
proof -
  have "within w0 w1 w \<Longrightarrow> within w0 (w1 @ b) w" "within (w0 @ a) w1 w \<Longrightarrow> within w0 w1 w" for w
    unfolding within_def by (metis append.assoc) (metis append.assoc append_is_Nil_conv)
  then show "justified rf ack ref w0 w1 x \<Longrightarrow> justified rf ack ref w0 (w1 @ b) x"
    "justified rf ack ref (w0 @ a) w1 x \<Longrightarrow> justified rf ack ref w0 w1 x"
    unfolding justified_def by blast+
qed

lemma carries_mono: "carries rf es r \<Longrightarrow> set es \<subseteq> set fs \<Longrightarrow> carries rf fs r"
  unfolding carries_def by blast

lemma progress_none:
  "sv_db s' = sv_db s \<Longrightarrow> sv_wire s' = sv_wire s \<Longrightarrow> unchanged s s' \<Longrightarrow> progress rf ack ref clock events [] s s'"
  by (simp add: progress_def)

lemma progress_mono: "progress rf ack ref clock es xs s s' \<Longrightarrow> progress rf ack ref clock (es @ fs) xs s s'"
proof -
  assume "progress rf ack ref clock es xs s s'"
  then obtain rest reqs where "sv_db s' = fold (settle clock) xs (sv_db s)" "es = map fst xs @ rest"
    "sv_wire s' = sv_wire s @ reqs" "\<forall>r \<in> set reqs. carries rf es r"
    "\<forall>x \<in> set xs. justified rf ack ref (sv_wire s) (sv_wire s') x" "unchanged s s'"
    unfolding progress_def by blast
  moreover from this(4) have "\<forall>r \<in> set reqs. carries rf (es @ fs) r"
    using carries_mono [of rf es _ "es @ fs"] by (metis Un_upper1 set_append)
  ultimately show ?thesis unfolding progress_def by simp
qed

lemma progress_trans:
  assumes "progress rf ack ref clock es xs s s1" and "progress rf ack ref clock fs ys s1 s2"
    and "\<exists>rest. es = map fst xs @ fs @ rest"
  shows "progress rf ack ref clock es (xs @ ys) s s2"
proof -
  from assms(1) obtain r1 where 1: "sv_db s1 = fold (settle clock) xs (sv_db s)" "sv_wire s1 = sv_wire s @ r1"
    "\<forall>r \<in> set r1. carries rf es r" "\<forall>x \<in> set xs. justified rf ack ref (sv_wire s) (sv_wire s1) x" "unchanged s s1"
    unfolding progress_def by blast
  from assms(2) obtain r2 rest2 where 2: "sv_db s2 = fold (settle clock) ys (sv_db s1)" "sv_wire s2 = sv_wire s1 @ r2"
    "\<forall>r \<in> set r2. carries rf fs r" "\<forall>x \<in> set ys. justified rf ack ref (sv_wire s1) (sv_wire s2) x" "unchanged s1 s2"
    "fs = map fst ys @ rest2"
    unfolding progress_def by blast
  obtain rest where es: "es = map fst xs @ fs @ rest" using assms(3) by blast
  have "\<forall>r \<in> set r2. carries rf es r" using 2(3) carries_mono [of rf fs _ es] es by auto
  moreover have "\<forall>x \<in> set xs. justified rf ack ref (sv_wire s) (sv_wire s2) x"
    using 1(4) justified_extend(1) 2(2) by auto
  moreover have "\<forall>x \<in> set ys. justified rf ack ref (sv_wire s) (sv_wire s2) x"
    using 2(4) justified_extend(2) 1(2) by auto
  ultimately show ?thesis
    unfolding progress_def using 1 2 es by (auto simp: unchanged_def)
qed

text \<open>A backend that judges every event on its own: it takes a batch of good events and refuses any other for good.\<close>

definition judges :: "send_fun \<Rightarrow> (event_envelope \<Rightarrow> bool) \<Rightarrow> bool" where
  "judges send good \<longleftrightarrow> (\<forall>ws w b. b \<noteq> [] \<longrightarrow>
     (if \<forall>v \<in> set b. good v then fst (send ws b w) = None else \<exists>e. fst (send ws b w) = Some e \<and> permanentRejection e))"

lemma judgesD:
  assumes "judges send good" and "b \<noteq> []"
  shows "\<forall>v \<in> set b. good v \<Longrightarrow> fst (send ws b w) = None"
    and "\<not> (\<forall>v \<in> set b. good v) \<Longrightarrow> \<exists>e. fst (send ws b w) = Some e \<and> permanentRejection e"
  using assms unfolding judges_def by metis+

lemma judges_never_fails:
  "judges send good \<Longrightarrow> b \<noteq> [] \<Longrightarrow> fst (send ws b w) = Some e \<Longrightarrow> permanentRejection e"
  by (metis judgesD option.distinct(1) option.inject)

context batch_sender
begin

lemma verdict_judged:
  assumes good: "judges send good" and just: "justified request_for acknowledged refused w0 w' x"
  shows "snd x = (if good (event_envelope_of (fst x)) then Accepted else Refused)"
proof -
  let ?v = "event_envelope_of (fst x)"
  obtain w1 where w1: "within w0 w' w1" and reason: "case snd x of
      Accepted \<Rightarrow> q_id (fst x) \<in> acknowledged w1 \<and> (\<exists>b. last w1 = request_for b \<and> ?v \<in> set b)
    | Refused \<Rightarrow> last w1 = request_for [?v] \<and> refused w1"
    using just unfolding justified_def by blast
  have w1: "w1 = butlast w1 @ [last w1]" using w1 unfolding within_def by (metis append_butlast_last_id append_is_Nil_conv)
  show ?thesis
  proof (cases "snd x")
    case Accepted
    with reason obtain b where b: "last w1 = request_for b" "?v \<in> set b" and ack: "q_id (fst x) \<in> acknowledged w1" by auto
    have "good ?v"
    proof (rule ccontr)
      assume "\<not> good ?v"
      with b(2) judgesD(2) [OF good, of b] obtain e where "fst (send [] b (butlast w1)) = Some e" "permanentRejection e" by force
      from refusal [OF this] w1 b(1) have "refused w1" by metis
      with not_both ack show False by blast
    qed
    with Accepted show ?thesis by simp
  next
    case Refused
    with reason have "last w1 = request_for [?v]" "refused w1" by auto
    have "\<not> good ?v"
    proof
      assume "good ?v"
      then have "fst (send [] [?v] (butlast w1)) = None" using judgesD(1) [OF good, of "[?v]"] by simp
      from success [OF this] w1 \<open>last w1 = request_for [?v]\<close> have "env_event_id ?v \<in> acknowledged w1" by auto
      with not_both \<open>refused w1\<close> show False by blast
    qed
    with Refused show ?thesis by simp
  qed
qed

lemma retry_judged:
  assumes "judges send good" and "\<forall>q \<in> set window. q_workspace_id q = ws \<and> deliverable (sv_db s) q"
  shows "fst (retryIndividually send clock ws window s) = None"
  using assms(2)
proof (induction window arbitrary: s)
  case (Cons q window)
  have q: "deliverable (sv_db s) q" "q_workspace_id q = ws" using Cons.prems by simp_all
  then have b: "Batch [q] = Inr [event_envelope_of q]" using Batch_deliverable [of "[q]" ws "sv_db s"] by simp
  obtain err w' where call: "send ws [event_envelope_of q] (sv_wire s) = (err, w')" by fastforce
  obtain d' where d': "Ack (q_id q) (clock (q_id q)) (sv_db s) = Inr d'" using Ack_Inr q(1) unfolding deliverable_def by blast
  have kept: "deliverable d' p = deliverable (sv_db s) p"
    "deliverable (Quarantine (q_id q) (clock (q_id q)) (sv_db s)) p = deliverable (sv_db s) p" for p
    using deliverable_settle [of clock "(q, Accepted)" "sv_db s" p] deliverable_settle [of clock "(q, Refused)" "sv_db s" p] d'
    by (simp_all add: settle_def Let_def)
  show ?case
  proof (cases err)
    case None
    then show ?thesis using b call d' Cons.IH [of "s\<lparr>sv_wire := w', sv_db := d'\<rparr>"] Cons.prems by (simp add: kept)
  next
    case (Some e)
    then have "permanentRejection e" using judges_never_fails [OF assms(1), of "[event_envelope_of q]"] call by (metis fst_conv list.distinct(1))
    then show ?thesis
      using Some b call Cons.prems by (simp add: recordPublishReason_def Cons.IH kept)
  qed
qed simp

lemma accepted_step:
  assumes "window \<noteq> []" and "length window \<le> 100" and "\<forall>q \<in> set window. deliverable (sv_db s) q"
    and "fst (send ws (map event_envelope_of window) (sv_wire s)) = None"
    and "sv_db s' = fold (settle clock) (map (\<lambda>q. (q, Accepted)) window) (sv_db s)"
    and "sv_wire s' = sv_wire s @ [request_for (map event_envelope_of window)]" and "unchanged s s'"
  shows "progress request_for acknowledged refused clock window (map (\<lambda>q. (q, Accepted)) window) s s'"
proof -
  let ?b = "map event_envelope_of window"
  have "carries request_for window (request_for ?b)" using assms(1,2) unfolding carries_def by blast
  moreover have "justified request_for acknowledged refused (sv_wire s) (sv_wire s') (q, Accepted)" if "q \<in> set window" for q
  proof -
    have "q_id q \<in> env_event_id ` set ?b" using assms(3) that by (force simp: deliverable_def)
    then have "q_id q \<in> acknowledged (sv_wire s')" using success [OF assms(4)] assms(6) by auto
    moreover have "within (sv_wire s) (sv_wire s') (sv_wire s')" by (simp add: within_def assms(6))
    moreover have "last (sv_wire s') = request_for ?b \<and> event_envelope_of q \<in> set ?b" using that assms(6) by simp
    ultimately show ?thesis unfolding justified_def by fastforce
  qed
  ultimately show ?thesis unfolding progress_def using assms(5-7) by (auto simp: comp_def)
qed

lemma refused_step:
  assumes "fst (send ws [event_envelope_of q] (sv_wire s)) = Some e" and "permanentRejection e"
    and "sv_db s' = settle clock (q, Refused) (sv_db s)"
    and "sv_wire s' = sv_wire s @ [request_for [event_envelope_of q]]" and "unchanged s s'"
  shows "progress request_for acknowledged refused clock [q] [(q, Refused)] s s'"
proof -
  have "within (sv_wire s) (sv_wire s') (sv_wire s')" by (simp add: within_def assms(4))
  then have "justified request_for acknowledged refused (sv_wire s) (sv_wire s') (q, Refused)"
    unfolding justified_def using refusal [OF assms(1,2)] assms(4) by fastforce
  moreover have "carries request_for [q] (request_for [event_envelope_of q])"
    unfolding carries_def by (rule exI [of _ "[q]"]) simp
  ultimately show ?thesis unfolding progress_def using assms(3-5) by simp
qed

lemma failed_step:
  assumes "window \<noteq> []" and "length window \<le> 100"
    and "sv_db s' = sv_db s" and "sv_wire s' = sv_wire s @ [request_for (map event_envelope_of window)]" and "unchanged s s'"
  shows "progress request_for acknowledged refused clock window [] s s'"
  unfolding progress_def carries_def using assms by auto

text \<open>One event of a retried window, and then all of them.\<close>

lemma retry_one:
  assumes q: "q_workspace_id q = ws" "deliverable (sv_db s) q"
  shows "\<exists>xs s1. progress request_for acknowledged refused clock [q] xs s s1
    \<and> ((map fst xs = [q] \<and> retryIndividually send clock ws (q # window) s = retryIndividually send clock ws window s1)
      \<or> (\<exists>e. retryIndividually send clock ws (q # window) s = (Some e, s1)))"
proof -
  let ?v = "event_envelope_of q" and ?retry = "\<lambda>qs. retryIndividually send clock ws qs"
  have b: "Batch [q] = Inr [?v]" using Batch_deliverable [of "[q]" ws "sv_db s"] q by simp
  obtain err w' where call: "send ws [?v] (sv_wire s) = (err, w')" by fastforce
  have w': "w' = sv_wire s @ [request_for [?v]]" using sends_batch [of "[?v]" ws "sv_wire s"] call by simp
  consider "err = None" | e where "err = Some e" "permanentRejection e" | e where "err = Some e" "\<not> permanentRejection e"
    by (cases err) auto
  then show ?thesis
  proof cases
    case 1
    let ?s1 = "s\<lparr>sv_wire := w', sv_db := settle clock (q, Accepted) (sv_db s)\<rparr>"
    obtain d' where d': "Ack (q_id q) (clock (q_id q)) (sv_db s) = Inr d'"
      using Ack_Inr q(2) unfolding deliverable_def by blast
    then have "settle clock (q, Accepted) (sv_db s) = d'" by (simp add: settle_def Let_def)
    with 1 b call d' have "?retry (q # window) s = ?retry window ?s1" by simp
    moreover have "progress request_for acknowledged refused clock [q] [(q, Accepted)] s ?s1"
      using accepted_step [of "[q]" s ws ?s1 clock] q 1 call w' by (simp add: unchanged_def)
    ultimately show ?thesis by (intro exI conjI disjI1) (assumption, simp_all)
  next
    case (2 e)
    let ?s1 = "recordPublishReason ''rejected'' (s\<lparr>sv_wire := w', sv_db := settle clock (q, Refused) (sv_db s)\<rparr>)"
    have "?retry (q # window) s = ?retry window ?s1" using 2 b call by (simp add: settle_def Let_def)
    moreover have "progress request_for acknowledged refused clock [q] [(q, Refused)] s ?s1"
      using refused_step [of ws q s e ?s1 clock] 2 call w' by (simp add: unchanged_def recordPublishReason_def)
    ultimately show ?thesis by (intro exI conjI disjI1) (assumption, simp_all)
  next
    case (3 e)
    have "progress request_for acknowledged refused clock [q] [] s (s\<lparr>sv_wire := w'\<rparr>)"
      by (rule failed_step) (simp_all add: w' unchanged_def)
    moreover have "?retry (q # window) s = (Some e, s\<lparr>sv_wire := w'\<rparr>)" using 3 b call by simp
    ultimately show ?thesis by (intro exI conjI disjI2)
  qed
qed

lemma retry_progress:
  assumes "\<forall>q \<in> set window. q_workspace_id q = ws \<and> deliverable (sv_db s) q"
  shows "\<exists>err xs s'. retryIndividually send clock ws window s = (err, s')
    \<and> progress request_for acknowledged refused clock window xs s s' \<and> (err = None \<longrightarrow> map fst xs = window)"
  using assms
proof (induction window arbitrary: s)
  case Nil
  have "progress request_for acknowledged refused clock [] [] s s" by (rule progress_none) (simp_all add: unchanged_def)
  then show ?case by (intro exI conjI [rotated]) simp_all
next
  case (Cons q window)
  let ?retry = "\<lambda>qs. retryIndividually send clock ws qs"
  obtain xs s1 where one: "progress request_for acknowledged refused clock [q] xs s s1"
    and next_step: "map fst xs = [q] \<and> ?retry (q # window) s = ?retry window s1 \<or> (\<exists>e. ?retry (q # window) s = (Some e, s1))"
    using retry_one [of q ws s clock window] Cons.prems by auto
  have one': "progress request_for acknowledged refused clock (q # window) xs s s1"
    using progress_mono [OF one, of window] by simp
  show ?case
  proof (cases "\<exists>e. ?retry (q # window) s = (Some e, s1)")
    case True
    with one' show ?thesis by (metis option.distinct(1))
  next
    case False
    with next_step have xs: "map fst xs = [q]" and unfold: "?retry (q # window) s = ?retry window s1" by simp_all
    have "sv_db s1 = fold (settle clock) xs (sv_db s)" using one by (simp add: progress_def)
    then have "\<forall>p \<in> set window. q_workspace_id p = ws \<and> deliverable (sv_db s1) p"
      using Cons.prems by (simp add: deliverable_fold)
    from Cons.IH [OF this] obtain err ys s' where rest: "?retry window s1 = (err, s')"
      "progress request_for acknowledged refused clock window ys s1 s'" "err = None \<longrightarrow> map fst ys = window" by blast
    have "progress request_for acknowledged refused clock (q # window) (xs @ ys) s s'"
      by (rule progress_trans [OF one' rest(2)]) (simp add: xs)
    moreover have "?retry (q # window) s = (err, s')" using unfold rest(1) by (rule trans)
    moreover have "err = None \<longrightarrow> map fst (xs @ ys) = q # window" using rest(3) xs by simp
    ultimately show ?thesis by (intro exI conjI)
  qed
qed

text \<open>One window of a workspace's events, and then all of them.\<close>

lemma drain_window:
  assumes events: "events \<noteq> []" "\<forall>q \<in> set events. q_workspace_id q = ws \<and> deliverable (sv_db s) q"
  shows "\<exists>xs s1. progress request_for acknowledged refused clock (take 100 events) xs s s1
    \<and> ((\<exists>c. map fst xs = take 100 events \<and> drain send clock ws events b s = drain send clock ws (drop 100 events) c s1)
      \<or> drain send clock ws events b s = (BackendFailed b, s1) \<and> (\<forall>good. \<not> judges send good))"
proof -
  let ?window = "take 100 events" and ?batch = "map event_envelope_of (take 100 events)"
  have sub: "\<forall>q \<in> set ?window. q_workspace_id q = ws \<and> deliverable (sv_db s) q" using events(2) by (meson in_set_takeD)
  have window: "?window \<noteq> []" "length ?window \<le> 100" using events(1) by simp_all
  have b: "Batch ?window = Inr ?batch" by (rule Batch_deliverable [OF window sub])
  obtain err w' where call: "send ws ?batch (sv_wire s) = (err, w')" by fastforce
  have w': "w' = sv_wire s @ [request_for ?batch]" using sends_batch [of ?batch ws "sv_wire s"] call window by simp
  have sent: "progress request_for acknowledged refused clock ?window [] s (s\<lparr>sv_wire := w'\<rparr>)"
    by (rule failed_step [OF window]) (simp_all add: w' unchanged_def)
  have noted: "progress request_for acknowledged refused clock es xs s (recordPublishError e s')"
    if "progress request_for acknowledged refused clock es xs s s'" for es xs s' e
    using that by (simp add: progress_def recordPublishError_def recordPublishReason_def unchanged_def)
  from retry_progress [of ?window ws "s\<lparr>sv_wire := w'\<rparr>" clock] sub obtain err' xs s'
    where retry: "retryIndividually send clock ws ?window (s\<lparr>sv_wire := w'\<rparr>) = (err', s')"
      "progress request_for acknowledged refused clock ?window xs (s\<lparr>sv_wire := w'\<rparr>) s'" "err' = None \<longrightarrow> map fst xs = ?window" by auto
  have both: "progress request_for acknowledged refused clock ?window xs s s'" using progress_trans [OF sent retry(2)] by simp
  note unfold = events(1) b call
  consider "err = None" | e where "err = Some e" "permanentRejection e" "err' = None"
    | e e' where "err = Some e" "permanentRejection e" "err' = Some e'" | e where "err = Some e" "\<not> permanentRejection e"
    by (cases err; cases err') auto
  then show ?thesis
  proof cases
    case 1
    let ?xs = "map (\<lambda>q. (q, Accepted)) ?window"
    let ?s1 = "s\<lparr>sv_wire := w', sv_db := fold (settle clock) ?xs (sv_db s)\<rparr>"
    have "progress request_for acknowledged refused clock ?window ?xs s ?s1"
      by (rule accepted_step [OF window, of s ws ?s1 clock]) (use sub 1 call w' in \<open>simp_all add: unchanged_def\<close>)
    moreover have "drain send clock ws events b s = drain send clock ws (drop 100 events) b ?s1"
      using unfold 1 ack_window_settles [of ?window "sv_db s" clock] sub by (subst drain.simps) (simp add: Let_def)
    moreover have "map fst ?xs = ?window" by (simp add: comp_def)
    ultimately show ?thesis by (intro exI conjI disjI1)
  next
    case (2 e)
    then have "drain send clock ws events b s = drain send clock ws (drop 100 events) True s'"
      using unfold retry(1) by (subst drain.simps) (simp add: Let_def)
    moreover have "map fst xs = ?window" using retry(3) 2 by simp
    ultimately show ?thesis using both by (intro exI conjI disjI1)
  next
    case (3 e e')
    then have "drain send clock ws events b s = (BackendFailed b, recordPublishError e' s')"
      using unfold retry(1) by (subst drain.simps) (simp add: Let_def)
    moreover have "\<forall>good. \<not> judges send good"
      using retry_judged [of _ ?window ws "s\<lparr>sv_wire := w'\<rparr>" clock] sub retry(1) 3 by auto
    ultimately show ?thesis using noted [OF both] by (intro exI conjI disjI2)
  next
    case (4 e)
    then have "drain send clock ws events b s = (BackendFailed b, recordPublishError e (s\<lparr>sv_wire := w'\<rparr>))"
      using unfold by (subst drain.simps) (simp add: Let_def)
    moreover have "\<forall>good. \<not> judges send good"
      using judges_never_fails [of send _ ?batch ws "sv_wire s" e] 4 call window(1) by auto
    ultimately show ?thesis using noted [OF sent] by (intro exI conjI disjI2)
  qed
qed

lemma drain_progress:
  assumes "\<forall>q \<in> set events. q_workspace_id q = ws \<and> deliverable (sv_db s) q"
  shows "\<exists>out xs s'. drain send clock ws events b s = (out, s') \<and> out \<noteq> Abort
    \<and> progress request_for acknowledged refused clock events xs s s' \<and> (\<forall>c. out = Drained c \<longrightarrow> map fst xs = events)
    \<and> (\<forall>c good. out = BackendFailed c \<longrightarrow> \<not> judges send good)"
  using assms
proof (induction events arbitrary: s b rule: length_induct)
  case (1 events)
  let ?drain = "drain send clock ws" and ?rest = "drop 100 events"
  show ?case
  proof (cases "events = []")
    case True
    have "progress request_for acknowledged refused clock events [] s s" by (rule progress_none) (simp_all add: unchanged_def)
    then show ?thesis using True by (intro exI [of _ "Drained b"] exI [of _ "[]"] exI [of _ s]) (simp add: drain.simps)
  next
    case False
    from drain_window [OF False "1.prems"] obtain xs s1 where one: "progress request_for acknowledged refused clock (take 100 events) xs s s1"
      and next_step: "(\<exists>c. map fst xs = take 100 events \<and> ?drain events b s = ?drain ?rest c s1)
        \<or> ?drain events b s = (BackendFailed b, s1) \<and> (\<forall>good. \<not> judges send good)"
      by blast
    have one': "progress request_for acknowledged refused clock events xs s s1" using progress_mono [OF one, of ?rest] by simp
    from next_step consider
      c where "map fst xs = take 100 events" "?drain events b s = ?drain ?rest c s1"
      | "?drain events b s = (BackendFailed b, s1)" "\<forall>good. \<not> judges send good" by blast
    then show ?thesis
    proof cases
      case 2
      with one' show ?thesis by (intro exI conjI) (assumption+, simp_all)
    next
      case (1 c)
      note all = 1(1) and unfold = 1(2)
      have "sv_db s1 = fold (settle clock) xs (sv_db s)" using one by (simp add: progress_def)
      then have "\<forall>q \<in> set ?rest. q_workspace_id q = ws \<and> deliverable (sv_db s1) q"
        using "1.prems" by (simp add: deliverable_fold) (meson in_set_dropD)
      moreover have "length ?rest < length events" using False by simp
      ultimately obtain out ys s' where rest: "?drain ?rest c s1 = (out, s')" "out \<noteq> Abort"
        "progress request_for acknowledged refused clock ?rest ys s1 s'" "\<forall>c. out = Drained c \<longrightarrow> map fst ys = ?rest"
        "\<forall>c good. out = BackendFailed c \<longrightarrow> \<not> judges send good"
        using "1.IH" by blast
      have "\<exists>more. events = map fst xs @ ?rest @ more" by (rule exI [of _ "[]"]) (simp add: all)
      from progress_trans [OF one' rest(3) this] have "progress request_for acknowledged refused clock events (xs @ ys) s s'" .
      moreover have "?drain events b s = (out, s')" using unfold rest(1) by (rule trans)
      moreover have "\<forall>c. out = Drained c \<longrightarrow> map fst (xs @ ys) = events"
        using rest(4) all by (metis append_take_drop_id map_append)
      ultimately show ?thesis using rest(2,5) by (intro exI conjI)
    qed
  qed
qed

end

section \<open>Which publisher serves a workspace\<close>

definition publisher :: "sender_factory \<Rightarrow> config \<Rightarrow> string \<Rightarrow> client option" where
  "publisher factory cfg ws =
     (case workspaceByID cfg ws of
        None \<Rightarrow> None
      | Some w \<Rightarrow> (case BackendForWorkspace w cfg of
          None \<Rightarrow> None
        | Some b \<Rightarrow> if bk_id b = [] then None else (case factory b of Inl e \<Rightarrow> None | Inr c \<Rightarrow> Some c)))"

text \<open>The publishers built so far are those the factory builds.\<close>

definition senders_coherent :: "sender_factory \<Rightarrow> service \<Rightarrow> bool" where
  "senders_coherent factory s \<longleftrightarrow> (\<forall>b \<in> set (cf_backends (sv_config s)). \<forall>built. sv_senders s (bk_id b) = Some built \<longrightarrow>
     built = (case factory b of Inl e \<Rightarrow> None | Inr c \<Rightarrow> Some c))"

text \<open>A step that changes nothing but the publishers built.\<close>

definition only_senders :: "service \<Rightarrow> service \<Rightarrow> bool" where
  "only_senders s s' \<longleftrightarrow> sv_config s' = sv_config s \<and> sv_db s' = sv_db s \<and> sv_wire s' = sv_wire s \<and> sv_last_error s' = sv_last_error s"

lemma senderFor_spec:
  assumes "b \<in> set (cf_backends (sv_config s))" and "keyed bk_id (cf_backends (sv_config s))" and "senders_coherent factory s"
    and "bk_id b \<noteq> []" and "senderFor (Some factory) b s = (res, s')"
  shows "res = (case factory b of Inl e \<Rightarrow> None | Inr c \<Rightarrow> Some c) \<and> senders_coherent factory s' \<and> only_senders s s'"
proof (cases "sv_senders s (bk_id b)")
  case None
  let ?built = "case factory b of Inl e \<Rightarrow> None | Inr c \<Rightarrow> Some c"
  have s': "sv_senders s' = (sv_senders s)(bk_id b \<mapsto> ?built)" "only_senders s s'" "res = ?built"
    using assms(4,5) None by (auto simp: senderFor_def only_senders_def split: sum.splits)
  have "built = (case factory b' of Inl e \<Rightarrow> None | Inr c \<Rightarrow> Some c)"
    if "b' \<in> set (cf_backends (sv_config s))" "sv_senders s' (bk_id b') = Some built" for b' built
  proof (cases "bk_id b' = bk_id b")
    case True
    then have "b' = b" using keyed_eqD [OF assms(2) that(1) assms(1)] by simp
    then show ?thesis using that(2) s'(1) by simp
  next
    case False
    then show ?thesis using that s'(1) assms(3) unfolding senders_coherent_def by simp
  qed
  then show ?thesis using s' unfolding senders_coherent_def only_senders_def by simp
next
  case (Some built)
  then have "res = built \<and> s' = s" using assms(4,5) by (simp add: senderFor_def)
  with Some assms(1,3) show ?thesis unfolding senders_coherent_def only_senders_def by simp
qed

lemma BackendForWorkspace_mem: "BackendForWorkspace w c = Some b \<Longrightarrow> b \<in> set (cf_backends c)"
  by (auto simp: BackendForWorkspace_def BackendForProject_def BackendByID_def find_Some_iff split: option.splits)

lemma senderForWorkspaceID_spec:
  assumes "keyed bk_id (cf_backends (sv_config s))" and "senders_coherent factory s"
    and "senderForWorkspaceID (Some factory) ws s = (res, s')"
  shows "res = publisher factory (sv_config s) ws \<and> senders_coherent factory s' \<and> only_senders s s'"
proof (cases "\<exists>w b. workspaceByID (sv_config s) ws = Some w \<and> BackendForWorkspace w (sv_config s) = Some b \<and> bk_id b \<noteq> []")
  case True
  then obtain w b where wb: "workspaceByID (sv_config s) ws = Some w" "BackendForWorkspace w (sv_config s) = Some b" "bk_id b \<noteq> []" by blast
  with assms(3) have "senderFor (Some factory) b s = (res, s')" by (simp add: senderForWorkspaceID_def senderForWorkspace_def)
  from senderFor_spec [OF BackendForWorkspace_mem [OF wb(2)] assms(1,2) wb(3) this] wb show ?thesis by (simp add: publisher_def)
next
  case False
  then have "res = None \<and> s' = s \<and> publisher factory (sv_config s) ws = None"
    using assms(3) by (auto simp: senderForWorkspaceID_def senderForWorkspace_def senderFor_def publisher_def split: option.splits)
  with assms(2) show ?thesis by (simp add: only_senders_def)
qed

section \<open>Grouping\<close>

lemma group_events_spec:
  assumes "group_events paused pending = (order, groups)"
  shows "groups ws = (if paused ws then [] else filter (\<lambda>q. q_workspace_id q = ws) pending)"
    and "distinct order" and "set order = {ws. groups ws \<noteq> []}"
proof -
  have "\<forall>order groups. group_events paused pending = (order, groups) \<longrightarrow>
      (\<forall>ws. groups ws = (if paused ws then [] else filter (\<lambda>q. q_workspace_id q = ws) pending))
      \<and> distinct order \<and> set order = {ws. groups ws \<noteq> []}"
  proof (induction pending rule: rev_induct)
    case Nil
    then show ?case by (simp add: group_events_def)
  next
    case (snoc e pending)
    obtain order groups where og: "group_events paused pending = (order, groups)" by fastforce
    have "group_events paused (pending @ [e]) = add_to_group paused e (order, groups)"
      using og by (simp add: group_events_def)
    with snoc.IH og show ?case
      by (auto simp: add_to_group_def Let_def split: if_splits)
  qed
  with assms show "groups ws = (if paused ws then [] else filter (\<lambda>q. q_workspace_id q = ws) pending)"
    "distinct order" "set order = {ws. groups ws \<noteq> []}" by blast+
qed

lemma fold_upd_get:
  assumes "keyed key rows"
  shows "fold (\<lambda>r m. m(key r := val r)) rows z k = (case t_get key k rows of None \<Rightarrow> z k | Some r \<Rightarrow> val r)"
  using assms
proof (induction rows rule: rev_induct)
  case (snoc r rows)
  then show ?case
    by (auto simp: keyed_snoc t_get_append t_get_single t_get_None [symmetric] split: option.split)
qed (simp add: t_get_def)

lemma t_get_sort:
  assumes "keyed key rows"
  shows "t_get key k (sort_key f rows) = t_get key k rows"
proof (cases "t_get key k rows")
  case None
  then have "t_get key k (sort_key f rows) = None" unfolding t_get_None by simp
  with None show ?thesis by simp
next
  case (Some r)
  then have "t_get key k (sort_key f rows) = Some r" using assms by (simp add: t_get_Some)
  with Some show ?thesis by simp
qed

lemma truncate_sel [simp]:
  "w_id (workspace.truncate r) = w_id r" "w_paused (workspace.truncate r) = w_paused r"
  "w_backend_id (workspace.truncate r) = w_backend_id r"
  by (simp_all add: workspace.truncate_def)

lemma paused_map_rows:
  assumes "keyed w_id (workspaces d)"
  shows "paused_map (Workspaces d) ws = (case find_workspace ws d of None \<Rightarrow> False | Some r \<Rightarrow> w_paused r)"
    and "backend_map (Workspaces d) ws = (case find_workspace ws d of None \<Rightarrow> [] | Some r \<Rightarrow> w_backend_id r)"
  using t_get_sort [OF assms, of ws w_id] assms
  by (simp_all add: paused_map_def backend_map_def Workspaces_def find_workspace_def fold_map comp_def fold_upd_get)

section \<open>A pass over the workspaces\<close>

text \<open>The verdicts of a pass that concern one workspace.\<close>

definition verdicts_of :: "string \<Rightarrow> (queue_event \<times> verdict) list \<Rightarrow> (queue_event \<times> verdict) list" where
  "verdicts_of ws xs = filter (\<lambda>x. q_workspace_id (fst x) = ws) xs"

definition sent_to :: "sender_factory \<Rightarrow> config \<Rightarrow> (string \<Rightarrow> queue_event list) \<Rightarrow> string set \<Rightarrow> http_request \<Rightarrow> bool" where
  "sent_to factory cfg groups order r \<longleftrightarrow>
     (\<exists>ws \<in> order. \<exists>c. publisher factory cfg ws = Some c \<and> carries (batch_request c) (groups ws) r)"

definition judged :: "server \<Rightarrow> sender_factory \<Rightarrow> config \<Rightarrow> string set \<Rightarrow> wire \<Rightarrow> wire \<Rightarrow> queue_event \<times> verdict \<Rightarrow> bool" where
  "judged srv factory cfg order w w' x \<longleftrightarrow> q_workspace_id (fst x) \<in> order
     \<and> (\<exists>c. publisher factory cfg (q_workspace_id (fst x)) = Some c
          \<and> justified (batch_request c) (acked_ids srv) (refused_by srv) w w' x)"

definition pass :: "server \<Rightarrow> sender_factory \<Rightarrow> (string \<Rightarrow> int) \<Rightarrow> (string \<Rightarrow> queue_event list) \<Rightarrow> string list
    \<Rightarrow> (queue_event \<times> verdict) list \<Rightarrow> service \<Rightarrow> service \<Rightarrow> bool" where
  "pass srv factory clock groups order xs s s' \<longleftrightarrow>
     sv_config s' = sv_config s \<and> senders_coherent factory s'
     \<and> sv_db s' = fold (settle clock) xs (sv_db s)
     \<and> (\<exists>reqs. sv_wire s' = sv_wire s @ reqs \<and> (\<forall>r \<in> set reqs. sent_to factory (sv_config s) groups (set order) r))
     \<and> (\<forall>x \<in> set xs. judged srv factory (sv_config s) (set order) (sv_wire s) (sv_wire s') x)
     \<and> (\<forall>ws \<in> set order. \<exists>rest. groups ws = map fst (verdicts_of ws xs) @ rest)"

text \<open>A backend that never fails.\<close>

definition answers :: "server \<Rightarrow> sender_factory \<Rightarrow> config \<Rightarrow> string \<Rightarrow> bool" where
  "answers srv factory cfg ws \<longleftrightarrow> (\<exists>c good. publisher factory cfg ws = Some c \<and> judges (Send srv c) good)"

lemma verdicts_of_other:
  assumes "\<forall>x \<in> set xs. q_workspace_id (fst x) = k" and "ws \<noteq> k"
  shows "verdicts_of ws xs = []"
  using assms by (simp add: verdicts_of_def filter_empty_conv)

lemma verdicts_of_same: "\<forall>x \<in> set xs. q_workspace_id (fst x) = ws \<Longrightarrow> verdicts_of ws xs = xs"
  by (simp add: verdicts_of_def)

lemma verdicts_of_append: "verdicts_of ws (xs @ ys) = verdicts_of ws xs @ verdicts_of ws ys"
  by (simp add: verdicts_of_def)

lemma pass_skip:
  assumes "senders_coherent factory s'" and "sv_config s' = sv_config s" and "sv_db s' = sv_db s" and "sv_wire s' = sv_wire s"
  shows "pass srv factory clock groups order [] s s'"
  using assms by (simp add: pass_def verdicts_of_def)

lemma pass_cons:
  assumes one: "progress (batch_request c) (acked_ids srv) (refused_by srv) clock (groups ws) xs s1 s2"
    and start: "only_senders s s1" "senders_coherent factory s2" "publisher factory (sv_config s) ws = Some c"
    and ws: "\<forall>q \<in> set (groups ws). q_workspace_id q = ws" "ws \<notin> set order"
    and rest: "pass srv factory clock groups order ys s2 s3"
  shows "pass srv factory clock groups (ws # order) (xs @ ys) s s3"
proof -
  from one obtain more r1 where 1: "sv_db s2 = fold (settle clock) xs (sv_db s1)" "groups ws = map fst xs @ more"
    "sv_wire s2 = sv_wire s1 @ r1" "\<forall>r \<in> set r1. carries (batch_request c) (groups ws) r"
    "\<forall>x \<in> set xs. justified (batch_request c) (acked_ids srv) (refused_by srv) (sv_wire s1) (sv_wire s2) x" "unchanged s1 s2"
    unfolding progress_def by blast
  from rest obtain r2 where 2: "sv_config s3 = sv_config s2" "senders_coherent factory s3"
    "sv_db s3 = fold (settle clock) ys (sv_db s2)" "sv_wire s3 = sv_wire s2 @ r2"
    "\<forall>r \<in> set r2. sent_to factory (sv_config s2) groups (set order) r"
    "\<forall>x \<in> set ys. judged srv factory (sv_config s2) (set order) (sv_wire s2) (sv_wire s3) x"
    "\<forall>k \<in> set order. \<exists>rest. groups k = map fst (verdicts_of k ys) @ rest"
    unfolding pass_def by blast
  have cfg: "sv_config s1 = sv_config s" "sv_config s2 = sv_config s" "sv_wire s1 = sv_wire s" "sv_db s1 = sv_db s"
    using start(1) 1(6) by (simp_all add: only_senders_def unchanged_def)
  have xs: "\<forall>x \<in> set xs. q_workspace_id (fst x) = ws" using ws(1) 1(2) by simp
  have ys: "\<forall>x \<in> set ys. q_workspace_id (fst x) \<noteq> ws" using 2(6) ws(2) unfolding judged_def by blast
  have j1: "\<forall>x \<in> set xs. judged srv factory (sv_config s) (set (ws # order)) (sv_wire s) (sv_wire s3) x"
    using 1(5) xs start(3) justified_extend(1) 2(4) cfg unfolding judged_def by (metis list.set_intros(1))
  have j2: "\<forall>x \<in> set ys. judged srv factory (sv_config s) (set (ws # order)) (sv_wire s) (sv_wire s3) x"
    using 2(6) justified_extend(2) 1(3) cfg unfolding judged_def by (metis list.set_intros(2))
  have s1: "\<forall>r \<in> set r1. sent_to factory (sv_config s) groups (set (ws # order)) r"
    using 1(4) start(3) unfolding sent_to_def by (metis list.set_intros(1))
  have s2: "\<forall>r \<in> set r2. sent_to factory (sv_config s) groups (set (ws # order)) r"
    using 2(5) cfg unfolding sent_to_def by (metis list.set_intros(2))
  have own: "verdicts_of ws (xs @ ys) = xs"
    using xs ys by (simp add: verdicts_of_append verdicts_of_same) (simp add: verdicts_of_def filter_empty_conv)
  have other: "verdicts_of k (xs @ ys) = verdicts_of k ys" if "k \<in> set order" for k
    using verdicts_of_other [OF xs, of k] that ws(2) by (auto simp: verdicts_of_append)
  have "\<exists>reqs. sv_wire s3 = sv_wire s @ reqs \<and> (\<forall>r \<in> set reqs. sent_to factory (sv_config s) groups (set (ws # order)) r)"
    using s1 s2 1(3) 2(4) cfg by (intro exI [of _ "r1 @ r2"]) auto
  moreover have "\<forall>k \<in> set (ws # order). \<exists>rest. groups k = map fst (verdicts_of k (xs @ ys)) @ rest"
    using 2(7) 1(2) own other by auto
  ultimately show ?thesis
    unfolding pass_def using 1(1) 2(1-3) j1 j2 cfg by auto
qed

end
