(* ===== verification/App_Flush.thy ===== *)
theory App_Flush
  imports App_Delivery
begin

text \<open>
  The correctness of one publish pass as a whole: \<^verbatim>\<open>flush\<close> refines "settle a prefix of each unpaused
  workspace's queue on the verdict of the backend its Project is bound to", and it settles all of it
  where that backend answers. Also the bounds of \<^verbatim>\<open>retryDelay\<close>.
\<close>

section \<open>The loop over the workspaces\<close>

lemma pass_widen:
  assumes "pass srv factory clock groups order ys s1 s'" and "ws \<notin> set order"
    and "sv_config s1 = sv_config s" "sv_db s1 = sv_db s" "sv_wire s1 = sv_wire s"
  shows "pass srv factory clock groups (ws # order) ys s s'"
proof -
  from assms(1) obtain reqs where 1: "sv_config s' = sv_config s" "senders_coherent factory s'"
    "sv_db s' = fold (settle clock) ys (sv_db s)" "sv_wire s' = sv_wire s @ reqs"
    "\<forall>r \<in> set reqs. sent_to factory (sv_config s) groups (set order) r"
    "\<forall>x \<in> set ys. judged srv factory (sv_config s) (set order) (sv_wire s) (sv_wire s') x"
    "\<forall>k \<in> set order. \<exists>rest. groups k = map fst (verdicts_of k ys) @ rest"
    unfolding pass_def assms(3-5) by blast
  have "verdicts_of ws ys = []"
    using 1(6) assms(2) by (auto simp: verdicts_of_def filter_empty_conv judged_def)
  then have "\<forall>k \<in> set (ws # order). \<exists>rest. groups k = map fst (verdicts_of k ys) @ rest" using 1(7) by simp
  moreover have "\<forall>r \<in> set reqs. sent_to factory (sv_config s) groups (set (ws # order)) r"
    using 1(5) unfolding sent_to_def by (metis list.set_intros(2))
  moreover have "\<forall>x \<in> set ys. judged srv factory (sv_config s) (set (ws # order)) (sv_wire s) (sv_wire s') x"
    using 1(6) unfolding judged_def by (metis list.set_intros(2))
  ultimately show ?thesis unfolding pass_def using 1(1-4) by blast
qed

text \<open>
  What the loop guarantees: a workspace whose backend has not failed and answers all its workspaces
  is settled completely, and the pass stays healthy if no backend fails.
\<close>

definition completes :: "server \<Rightarrow> sender_factory \<Rightarrow> config \<Rightarrow> (string \<Rightarrow> string) \<Rightarrow> (string \<Rightarrow> queue_event list)
    \<Rightarrow> string list \<Rightarrow> string set \<Rightarrow> (queue_event \<times> verdict) list \<Rightarrow> bool" where
  "completes srv factory cfg backendOf groups order failed xs \<longleftrightarrow>
     (\<forall>ws \<in> set order. backendOf ws \<notin> failed
        \<and> (\<forall>k \<in> set order. backendOf k = backendOf ws \<longrightarrow> answers srv factory cfg k)
      \<longrightarrow> map fst (verdicts_of ws xs) = groups ws)"

lemma completes_cons:
  assumes "completes srv factory cfg backendOf groups order failed' ys" and "ws \<notin> set order"
    and "\<forall>x \<in> set xs. q_workspace_id (fst x) = ws" and "\<forall>x \<in> set ys. q_workspace_id (fst x) \<in> set order"
    and "failed' = failed \<and> (map fst xs = groups ws \<or> backendOf ws \<in> failed)
      \<or> failed' = insert (backendOf ws) failed \<and> \<not> answers srv factory cfg ws"
  shows "completes srv factory cfg backendOf groups (ws # order) failed (xs @ ys)"
proof -
  have "verdicts_of ws ys = []" using assms(2,4) by (auto simp: verdicts_of_def filter_empty_conv)
  then have own: "verdicts_of ws (xs @ ys) = xs" using assms(3) by (simp add: verdicts_of_append verdicts_of_same)
  have other: "verdicts_of k (xs @ ys) = verdicts_of k ys" if "k \<noteq> ws" for k
    using verdicts_of_other [OF assms(3) that] by (simp add: verdicts_of_append)
  show ?thesis
    using assms(1,2,5) own other unfolding completes_def by (metis insert_iff list.set(2))
qed

lemma pass_workspaces: "pass srv factory clock groups order ys s s' \<Longrightarrow> \<forall>x \<in> set ys. q_workspace_id (fst x) \<in> set order"
  unfolding pass_def judged_def by blast

lemma coherent_unchanged: "senders_coherent factory s \<Longrightarrow> unchanged s s' \<Longrightarrow> senders_coherent factory s'"
  unfolding senders_coherent_def unchanged_def by simp

text \<open>
  One workspace of the loop: its verdicts \<open>xs\<close>, the failed backends and the flags it leaves, and how
  its effect is put before what the rest of the loop does.
\<close>

definition extends_pass :: "server \<Rightarrow> sender_factory \<Rightarrow> (string \<Rightarrow> int) \<Rightarrow> (string \<Rightarrow> queue_event list) \<Rightarrow> string
    \<Rightarrow> (queue_event \<times> verdict) list \<Rightarrow> service \<Rightarrow> service \<Rightarrow> bool" where
  "extends_pass srv factory clock groups ws xs s s1 \<longleftrightarrow>
     sv_config s1 = sv_config s \<and> senders_coherent factory s1 \<and> sv_db s1 = fold (settle clock) xs (sv_db s)
     \<and> (\<forall>x \<in> set xs. q_workspace_id (fst x) = ws)
     \<and> (\<forall>order ys s2. ws \<notin> set order \<longrightarrow> pass srv factory clock groups order ys s1 s2 \<longrightarrow>
          pass srv factory clock groups (ws # order) (xs @ ys) s s2)"

lemma extends_pass_idle:
  assumes "sv_config s1 = sv_config s" "sv_db s1 = sv_db s" "sv_wire s1 = sv_wire s" "senders_coherent factory s1"
  shows "extends_pass srv factory clock groups ws [] s s1"
  unfolding extends_pass_def using assms pass_widen [OF _ _ assms(1-3)] by simp

lemma extends_pass_drain:
  assumes "only_senders s s1" and "senders_coherent factory s1" and "publisher factory (sv_config s) ws = Some c"
    and "\<forall>q \<in> set (groups ws). q_workspace_id q = ws"
    and "progress (batch_request c) (acked_ids srv) (refused_by srv) clock (groups ws) xs s1 s2"
  shows "extends_pass srv factory clock groups ws xs s s2"
proof -
  have coherent: "senders_coherent factory s2" and "sv_config s2 = sv_config s" "sv_db s2 = fold (settle clock) xs (sv_db s)"
    using assms(1,2,5) coherent_unchanged [of factory s1 s2] by (auto simp: progress_def only_senders_def unchanged_def)
  moreover have "\<forall>x \<in> set xs. q_workspace_id (fst x) = ws"
    using assms(4,5) unfolding progress_def by (metis UnI1 image_eqI list.set_map set_append)
  ultimately show ?thesis
    unfolding extends_pass_def using pass_cons [where groups = groups and ws = ws, OF assms(5,1) coherent assms(3,4)] by blast
qed

lemma flush_group:
  assumes "keyed bk_id (cf_backends (sv_config s))" and "senders_coherent factory s"
    and ws: "\<forall>q \<in> set (groups ws). q_workspace_id q = ws \<and> deliverable (sv_db s) q"
  shows "\<exists>xs s1 failed' h1 q1. extends_pass srv factory clock groups ws xs s s1
    \<and> flush_groups (Some factory) (Send srv) clock backendOf groups (ws # order) failed (h, q) s =
        flush_groups (Some factory) (Send srv) clock backendOf groups order failed' (h1, q1) s1
    \<and> (failed' = failed \<and> h1 = h \<and> (map fst xs = groups ws \<or> backendOf ws \<in> failed)
      \<or> failed' = insert (backendOf ws) failed \<and> \<not> answers srv factory (sv_config s) ws)"
proof -
  let ?go = "\<lambda>order failed hq s. flush_groups (Some factory) (Send srv) clock backendOf groups order failed hq s"
  obtain res s1 where sender: "senderForWorkspaceID (Some factory) ws s = (res, s1)" by fastforce
  note spec = senderForWorkspaceID_spec [OF assms(1,2) sender]
  have result: ?thesis if "extends_pass srv factory clock groups ws xs s s1" and "?go (ws # order) failed (h, q) s = ?go order failed' (h1, q1) s1"
    and "failed' = failed \<and> h1 = h \<and> (map fst xs = groups ws \<or> backendOf ws \<in> failed)
      \<or> failed' = insert (backendOf ws) failed \<and> \<not> answers srv factory (sv_config s) ws" for xs s1 failed' h1 q1
    using that by (intro exI conjI)
  consider "backendOf ws \<in> failed" | "backendOf ws \<notin> failed" "res = None" | c where "backendOf ws \<notin> failed" "res = Some c"
    by (cases res) auto
  then show ?thesis
  proof cases
    case 1
    then have "?go (ws # order) failed (h, q) s = ?go order failed (h, q) s" by simp
    from result [OF extends_pass_idle [OF refl refl refl assms(2)] this] 1 show ?thesis by simp
  next
    case 2
    let ?s1 = "recordPublishReason ''not_configured'' s1"
    have "extends_pass srv factory clock groups ws [] s ?s1"
      by (rule extends_pass_idle) (use spec in \<open>simp_all add: recordPublishReason_def only_senders_def senders_coherent_def\<close>)
    moreover have "?go (ws # order) failed (h, q) s = ?go order (insert (backendOf ws) failed) (False, q) ?s1"
      using 2 sender by simp
    moreover have "\<not> answers srv factory (sv_config s) ws" using spec 2 by (simp add: answers_def)
    ultimately show ?thesis by (intro result) (assumption+, simp)
  next
    case (3 c)
    then have pub: "publisher factory (sv_config s) ws = Some c" and s1: "only_senders s s1" "senders_coherent factory s1"
      using spec by auto
    have "\<forall>p \<in> set (groups ws). q_workspace_id p = ws \<and> deliverable (sv_db s1) p" using s1(1) ws by (simp add: only_senders_def)
    from hosted.drain_progress [OF this, of srv c clock q] obtain out xs s2
      where drain: "drain (Send srv c) clock ws (groups ws) q s1 = (out, s2)" "out \<noteq> Abort"
        "progress (batch_request c) (acked_ids srv) (refused_by srv) clock (groups ws) xs s1 s2"
        "\<forall>b. out = Drained b \<longrightarrow> map fst xs = groups ws" "\<forall>b good. out = BackendFailed b \<longrightarrow> \<not> judges (Send srv c) good" by blast
    have ext: "extends_pass srv factory clock groups ws xs s s2"
      by (rule extends_pass_drain [where groups = groups and ws = ws, OF s1 pub _ drain(3)]) (use ws in simp)
    show ?thesis
    proof (cases out)
      case (Drained b)
      then have "?go (ws # order) failed (h, q) s = ?go order failed (h, b) s2" using 3 sender drain(1) by simp
      from result [OF ext this] drain(4) Drained show ?thesis by simp
    next
      case (BackendFailed b)
      then have "?go (ws # order) failed (h, q) s = ?go order (insert (backendOf ws) failed) (False, b) s2" using 3 sender drain(1) by simp
      moreover have "\<not> answers srv factory (sv_config s) ws" using pub drain(5) BackendFailed by (simp add: answers_def)
      ultimately show ?thesis by (intro result [OF ext]) (assumption, simp)
    qed (use drain(2) in simp)
  qed
qed

lemma flush_groups_pass:
  assumes "keyed bk_id (cf_backends (sv_config s))" and "senders_coherent factory s" and "distinct order"
    and "\<forall>ws \<in> set order. \<forall>q \<in> set (groups ws). q_workspace_id q = ws \<and> deliverable (sv_db s) q"
  shows "\<exists>h' q' xs s'. flush_groups (Some factory) (Send srv) clock backendOf groups order failed (h, q) s = (Some (h', q'), s')
    \<and> pass srv factory clock groups order xs s s' \<and> completes srv factory (sv_config s) backendOf groups order failed xs
    \<and> ((\<forall>ws \<in> set order. backendOf ws \<notin> failed \<and> answers srv factory (sv_config s) ws) \<longrightarrow> h' = h)"
  using assms
proof (induction order arbitrary: failed h q s)
  case Nil
  have "pass srv factory clock groups [] [] s s" by (rule pass_skip) (simp_all add: Nil)
  then show ?case by (auto simp: completes_def)
next
  case (Cons ws order)
  let ?go = "\<lambda>order failed hq s. flush_groups (Some factory) (Send srv) clock backendOf groups order failed hq s"
  let ?cfg = "sv_config s"
  have ws: "ws \<notin> set order" "distinct order" "\<forall>q \<in> set (groups ws). q_workspace_id q = ws \<and> deliverable (sv_db s) q"
    using Cons.prems(3,4) by auto
  from flush_group [where groups = groups and ws = ws and backendOf = backendOf and h = h and q = q and failed = failed and order = order
    and srv = srv and clock = clock, OF Cons.prems(1,2) ws(3)]
  obtain xs s1 failed' h1 q1 where ext: "extends_pass srv factory clock groups ws xs s s1"
    and unfold: "?go (ws # order) failed (h, q) s = ?go order failed' (h1, q1) s1"
    and fails: "failed' = failed \<and> h1 = h \<and> (map fst xs = groups ws \<or> backendOf ws \<in> failed)
      \<or> failed' = insert (backendOf ws) failed \<and> \<not> answers srv factory ?cfg ws" by blast
  have s1: "sv_config s1 = ?cfg" "senders_coherent factory s1" "sv_db s1 = fold (settle clock) xs (sv_db s)"
    "\<forall>x \<in> set xs. q_workspace_id (fst x) = ws"
    using ext unfolding extends_pass_def by auto
  have "\<exists>h' q' ys s'. ?go order failed' (h1, q1) s1 = (Some (h', q'), s') \<and> pass srv factory clock groups order ys s1 s'
      \<and> completes srv factory ?cfg backendOf groups order failed' ys
      \<and> ((\<forall>ws \<in> set order. backendOf ws \<notin> failed' \<and> answers srv factory ?cfg ws) \<longrightarrow> h' = h1)"
    using Cons.IH [of s1 failed' h1 q1] s1 Cons.prems ws(2) by (simp add: deliverable_fold)
  then obtain h' q' ys s' where rest: "?go order failed' (h1, q1) s1 = (Some (h', q'), s')"
    "pass srv factory clock groups order ys s1 s'" "completes srv factory ?cfg backendOf groups order failed' ys"
    "(\<forall>ws \<in> set order. backendOf ws \<notin> failed' \<and> answers srv factory ?cfg ws) \<longrightarrow> h' = h1" by blast
  have "pass srv factory clock groups (ws # order) (xs @ ys) s s'"
    using ext rest(2) ws(1) unfolding extends_pass_def by blast
  moreover have "completes srv factory ?cfg backendOf groups (ws # order) failed (xs @ ys)"
    using completes_cons [OF rest(3) ws(1) s1(4) pass_workspaces [OF rest(2)]] fails by blast
  moreover have "(\<forall>k \<in> set (ws # order). backendOf k \<notin> failed \<and> answers srv factory ?cfg k) \<longrightarrow> h' = h"
    using rest(4) fails by auto
  moreover have "?go (ws # order) failed (h, q) s = (Some (h', q'), s')" using unfold rest(1) by (rule trans)
  ultimately show ?case by (intro exI conjI)
qed

section \<open>The whole pass\<close>

text \<open>The events of a workspace a pass works on.\<close>

definition sendable :: "db \<Rightarrow> string \<Rightarrow> queue_event list" where
  "sendable d ws = (case find_workspace ws d of
     None \<Rightarrow> pending_of ws d
   | Some r \<Rightarrow> if w_paused r then [] else pending_of ws d)"

lemma pending_deliverable: "queue_ok d \<Longrightarrow> q \<in> set (pending_of ws d) \<Longrightarrow> deliverable d q"
proof -
  assume "queue_ok d" and q: "q \<in> set (pending_of ws d)"
  then have "q_id q \<in> e_id ` set (event_queue d)" by (auto simp: pending_of_def Pending_set queue_event_of_def)
  then show ?thesis using pending_envelope [OF \<open>queue_ok d\<close> q] by (simp add: deliverable_def)
qed

lemma sendable_deliverable:
  assumes "queue_ok d" and "q \<in> set (sendable d ws)"
  shows "q_workspace_id q = ws \<and> deliverable d q"
proof -
  have q: "q \<in> set (pending_of ws d)" using assms(2) by (auto simp: sendable_def split: option.splits if_splits)
  then show ?thesis using pending_deliverable [OF assms(1) q] pending_envelope(5) [OF assms(1) q] by simp
qed

lemma pass_noted: "pass srv factory clock groups order xs s s' \<Longrightarrow> pass srv factory clock groups order xs s (clearPublishError s')"
  by (simp add: pass_def clearPublishError_def senders_coherent_def)

lemma flush_pass:
  assumes ok: "queue_ok (sv_db s)" and cfg: "keyed bk_id (cf_backends (sv_config s))" and senders: "senders_coherent factory s"
    and call: "flush (Some factory) srv clock s = (healthy, s')"
  shows "\<exists>xs order. pass srv factory clock (sendable (sv_db s)) order xs s s' \<and> set order = {ws. sendable (sv_db s) ws \<noteq> []}
    \<and> completes srv factory (sv_config s) (backend_map (Workspaces (sv_db s))) (sendable (sv_db s)) order {} xs
    \<and> ((\<forall>ws \<in> set order. answers srv factory (sv_config s) ws) \<longrightarrow> healthy)"
proof (cases "Pending (sv_db s) = []")
  case True
  then have "sendable (sv_db s) ws = []" for ws by (simp add: sendable_def pending_of_def split: option.split)
  moreover have "pass srv factory clock (sendable (sv_db s)) [] [] s s'"
    by (rule pass_skip) (use call True senders in \<open>auto simp: flush_def clearPublishError_def senders_coherent_def\<close>)
  ultimately show ?thesis using call True by (intro exI [of _ "[]"]) (simp add: completes_def flush_def)
next
  case False
  let ?d = "sv_db s" and ?rows = "Workspaces (sv_db s)"
  obtain order groups where og: "group_events (paused_map ?rows) (Pending ?d) = (order, groups)" by fastforce
  note grouped = group_events_spec [OF og]
  have groups: "groups = sendable ?d"
    using grouped(1) paused_map_rows(1) [OF queue_okD(1) [OF ok]]
    by (intro ext) (simp add: sendable_def pending_of_def split: option.split)
  have "\<forall>ws \<in> set order. \<forall>q \<in> set (groups ws). q_workspace_id q = ws \<and> deliverable ?d q"
    using sendable_deliverable [OF ok] groups by simp
  from flush_groups_pass [OF cfg senders grouped(2) this, of srv clock "backend_map ?rows" "{}" True False]
  obtain h q xs s1 where go: "flush_groups (Some factory) (Send srv) clock (backend_map ?rows) groups order {} (True, False) s = (Some (h, q), s1)"
    "pass srv factory clock groups order xs s s1" "completes srv factory (sv_config s) (backend_map ?rows) groups order {} xs"
    "(\<forall>ws \<in> set order. answers srv factory (sv_config s) ws) \<longrightarrow> h" unfolding empty_iff by blast
  have "healthy = h" "s' = s1 \<or> s' = clearPublishError s1"
    using call False og go(1) by (auto simp: flush_def Let_def split: if_splits)
  then show ?thesis using go(2-4) pass_noted [OF go(2)] grouped(3) groups by blast
qed

text \<open>What a pass leaves pending.\<close>

lemma filter_after_prefix: "distinct (map f (xs @ ys)) \<Longrightarrow> filter (\<lambda>q. f q \<notin> f ` set xs) (xs @ ys) = ys"
  by (auto simp: filter_empty_conv filter_id_conv)

lemma pass_prefix:
  assumes pass: "pass srv factory clock (sendable (sv_db s)) order xs s s'"
  shows "\<exists>rest. pending_of ws (sv_db s) = map fst (verdicts_of ws xs) @ rest"
proof (cases "ws \<in> set order")
  case True
  then obtain rest where "sendable (sv_db s) ws = map fst (verdicts_of ws xs) @ rest" using pass unfolding pass_def by blast
  moreover have "sendable (sv_db s) ws = pending_of ws (sv_db s) \<or> sendable (sv_db s) ws = []"
    by (simp add: sendable_def split: option.split)
  ultimately show ?thesis by (metis Nil_is_append_conv append_Nil)
next
  case False
  then have "verdicts_of ws xs = []" using pass_workspaces [OF pass] unfolding verdicts_of_def filter_empty_conv by metis
  then show ?thesis by simp
qed

lemma pass_member:
  assumes "pass srv factory clock (sendable (sv_db s)) order xs s s'" and "x \<in> set xs"
  shows "fst x \<in> set (pending_of (q_workspace_id (fst x)) (sv_db s))"
proof -
  have "x \<in> set (verdicts_of (q_workspace_id (fst x)) xs)" using assms(2) unfolding verdicts_of_def by simp
  then have "fst x \<in> set (map fst (verdicts_of (q_workspace_id (fst x)) xs))" by simp
  then show ?thesis using pass_prefix [OF assms(1)] by (metis UnI1 set_append)
qed

lemma pass_pending:
  assumes ok: "queue_ok (sv_db s)" and pass: "pass srv factory clock (sendable (sv_db s)) order xs s s'"
  shows "pending_of ws (sv_db s) = map fst (verdicts_of ws xs) @ pending_of ws (sv_db s')"
proof -
  let ?d = "sv_db s" and ?mine = "map fst (verdicts_of ws xs)"
  have db: "sv_db s' = fold (settle clock) xs ?d" using pass unfolding pass_def by blast
  have deliverable: "\<forall>x \<in> set xs. deliverable ?d (fst x)" using pass_member [OF pass] pending_deliverable [OF ok] by blast
  obtain rest where rest: "pending_of ws ?d = ?mine @ rest" using pass_prefix [OF pass] by blast
  have ids: "distinct (map q_id (Pending ?d))" by (rule Pending_distinct(2) [OF ok])
  have sub: "set (pending_of k ?d) \<subseteq> set (Pending ?d)" for k unfolding pending_of_def by simp
  have gone: "q_id q \<in> (q_id \<circ> fst) ` set xs \<longleftrightarrow> q_id q \<in> q_id ` set ?mine" if q: "q \<in> set (pending_of ws ?d)" for q
  proof
    assume "q_id q \<in> (q_id \<circ> fst) ` set xs"
    then obtain x where x: "x \<in> set xs" "q_id q = q_id (fst x)" by (rule imageE) (simp add: comp_def)
    have "fst x = q"
      using inj_onD [of q_id "set (Pending ?d)" "fst x" q] ids x q sub pass_member [OF pass x(1)]
      unfolding distinct_map by (metis subsetD)
    moreover have "q_workspace_id q = ws" using q unfolding pending_of_def by simp
    ultimately have "x \<in> set (verdicts_of ws xs)" using x(1) unfolding verdicts_of_def by simp
    then show "q_id q \<in> q_id ` set ?mine" unfolding x(2) by simp
  next
    assume "q_id q \<in> q_id ` set ?mine"
    then show "q_id q \<in> (q_id \<circ> fst) ` set xs" unfolding verdicts_of_def by (simp add: image_comp) blast
  qed
  have "pending_of ws (sv_db s') = filter (\<lambda>q. q_id q \<notin> (q_id \<circ> fst) ` set xs) (pending_of ws ?d)"
    unfolding pending_of_def db fold_settle_pending [OF deliverable] filter_filter by (simp only: conj_commute)
  also have "\<dots> = filter (\<lambda>q. q_id q \<notin> q_id ` set ?mine) (pending_of ws ?d)"
    using gone by (intro filter_cong) simp_all
  also have "\<dots> = rest"
    unfolding rest by (rule filter_after_prefix) (use distinct_map_filter [OF ids, of "\<lambda>q. q_workspace_id q = ws"] rest in \<open>simp only: pending_of_def\<close>)
  finally show ?thesis using rest by simp
qed

section \<open>What becomes of a row\<close>

definition settled_row :: "(string \<Rightarrow> int) \<Rightarrow> verdict \<Rightarrow> event_row \<Rightarrow> event_row" where
  "settled_row clock v r = (case v of
     Accepted \<Rightarrow> r\<lparr>e_acked_at := Some (unix_sec (clock (e_id r)))\<rparr>
   | Refused \<Rightarrow> if e_acked_at r = None then r\<lparr>e_quarantined_at := Some (unix_sec (clock (e_id r)))\<rparr> else r)"

lemma settled_row_sel [simp]: "e_id (settled_row clock v r) = e_id r"
  by (simp add: settled_row_def split: verdict.split)

lemma settled_row_twice [simp]: "settled_row clock v (settled_row clock v r) = settled_row clock v r"
  by (simp add: settled_row_def split: verdict.split)

lemma find_mapped:
  assumes "\<And>r. key (f r) = key r" and "\<And>r. key r = k \<Longrightarrow> f r = g r"
  shows "t_get key k (map f rows) = map_option g (t_get key k rows)"
  using assms by (induction rows) (auto simp: t_get_def)

lemma settle_queue:
  assumes "deliverable d (fst x)"
  shows "event_queue (settle clock x d) = map (\<lambda>r. if e_id r = q_id (fst x) then settled_row clock (snd x) r else r) (event_queue d)"
proof (cases "snd x")
  case Accepted
  obtain d' where "Ack (q_id (fst x)) (clock (q_id (fst x))) d = Inr d'"
    using Ack_Inr assms unfolding deliverable_def by blast
  with Accepted Ack_queue [OF this] show ?thesis
    by (simp add: settle_def Let_def settled_row_def t_update_def)
next
  case Refused
  then show ?thesis
    by (simp add: settle_def Let_def settled_row_def Quarantine_def t_update_def)
qed

lemma settle_row:
  assumes "deliverable d (fst x)"
  shows "t_get e_id eid (event_queue (settle clock x d)) =
    map_option (\<lambda>r. if q_id (fst x) = eid then settled_row clock (snd x) r else r) (t_get e_id eid (event_queue d))"
  unfolding settle_queue [OF assms] by (rule find_mapped) simp_all

lemma fold_settle_row:
  assumes "\<forall>x \<in> set xs. deliverable d (fst x) \<and> (q_id (fst x) = eid \<longrightarrow> snd x = v)" and "t_get e_id eid (event_queue d) = Some r"
  shows "t_get e_id eid (event_queue (fold (settle clock) xs d)) =
    Some (if eid \<in> (q_id \<circ> fst) ` set xs then settled_row clock v r else r)"
  using assms
proof (induction xs arbitrary: d r)
  case (Cons x xs)
  let ?r = "if q_id (fst x) = eid then settled_row clock v r else r"
  have x: "deliverable d (fst x)" "q_id (fst x) = eid \<longrightarrow> snd x = v" using Cons.prems(1) by simp_all
  then have "t_get e_id eid (event_queue (settle clock x d)) = Some ?r"
    using Cons.prems(2) by (simp add: settle_row)
  moreover have "\<forall>y \<in> set xs. deliverable (settle clock x d) (fst y) \<and> (q_id (fst y) = eid \<longrightarrow> snd y = v)"
    using Cons.prems(1) by (simp add: deliverable_settle)
  ultimately show ?case using Cons.IH by simp
qed simp

section \<open>Properties of a pass\<close>

lemma sendable_nonempty:
  assumes "sendable d ws \<noteq> []"
  shows "sendable d ws = pending_of ws d \<and> (\<forall>row. find_workspace ws d = Some row \<longrightarrow> \<not> w_paused row)"
  using assms by (cases "find_workspace ws d") (simp_all add: sendable_def split: if_splits)

lemma publisher_details:
  assumes "publisher factory cfg ws = Some c"
  shows "\<exists>w b. workspaceByID cfg ws = Some w \<and> BackendForWorkspace w cfg = Some b \<and> factory b = Inr c"
  using assms unfolding publisher_def by (simp split: option.splits if_splits sum.splits)

lemma sent_to_details:
  assumes "sent_to factory cfg (sendable d) order r"
  shows "\<exists>ws w b c evs. workspaceByID cfg ws = Some w \<and> BackendForWorkspace w cfg = Some b \<and> factory b = Inr c
    \<and> r = batch_request c (map event_envelope_of evs) \<and> evs \<noteq> [] \<and> length evs \<le> 100
    \<and> set evs \<subseteq> set (pending_of ws d) \<and> (\<forall>row. find_workspace ws d = Some row \<longrightarrow> \<not> w_paused row)"
proof -
  from assms obtain ws c evs where ws: "publisher factory cfg ws = Some c" "evs \<noteq> []" "length evs \<le> 100"
    "set evs \<subseteq> set (sendable d ws)" "r = batch_request c (map event_envelope_of evs)"
    unfolding sent_to_def carries_def by blast
  have "sendable d ws \<noteq> []" using ws(2,4) by (metis empty_set set_empty subset_empty)
  from sendable_nonempty [OF this] have "set evs \<subseteq> set (pending_of ws d)" "\<forall>row. find_workspace ws d = Some row \<longrightarrow> \<not> w_paused row"
    using ws(4) by simp_all
  moreover obtain w b where "workspaceByID cfg ws = Some w" "BackendForWorkspace w cfg = Some b" "factory b = Inr c"
    using publisher_details [OF ws(1)] by blast
  ultimately show ?thesis using ws(2,3,5) by (intro exI conjI)
qed

text \<open>C18. A pass of the publish loop sends nothing but event batches, and each of them holds between
  one and a hundred pending events of one workspace that is not paused and goes to the origin, with
  the credential, of the backend that workspace's Project is bound to, whatever the servers answer.\<close>

theorem flush_sends_only_unpaused:
  assumes "store_ok (sv_db s)" and "config_ok (sv_config s)" and "senders_coherent factory s"
    and "flush (Some factory) srv clock s = (healthy, s')"
  shows "\<exists>reqs. sv_wire s' = sv_wire s @ reqs \<and> (\<forall>r \<in> set reqs. \<exists>ws w b c evs.
      workspaceByID (sv_config s) ws = Some w \<and> BackendForWorkspace w (sv_config s) = Some b \<and> factory b = Inr c
    \<and> r = batch_request c (map event_envelope_of evs) \<and> evs \<noteq> [] \<and> length evs \<le> 100
    \<and> set evs \<subseteq> set (pending_of ws (sv_db s)) \<and> (\<forall>row. find_workspace ws (sv_db s) = Some row \<longrightarrow> \<not> w_paused row))"
proof -
  from flush_pass [OF store_okD(1) [OF assms(1)] config_okD(1) [OF assms(2)] assms(3,4)] obtain xs order
    where pass: "pass srv factory clock (sendable (sv_db s)) order xs s s'" by blast
  then obtain reqs where "sv_wire s' = sv_wire s @ reqs"
    "\<forall>r \<in> set reqs. sent_to factory (sv_config s) (sendable (sv_db s)) (set order) r"
    unfolding pass_def by blast
  then show ?thesis by (intro exI [of _ reqs] conjI ballI sent_to_details [of _ _ _ "set order"]) simp_all
qed

text \<open>C17. A pass changes the store by nothing but verdicts on pending events. It settles a prefix of each
  workspace's queue, in order, and leaves the rest pending; an event is acknowledged locally only if
  its own backend acknowledged it in an answer of this pass, and set aside only if that backend
  refused a request holding nothing but it, for good.\<close>

theorem flush_settles_on_verdicts:
  assumes "store_ok (sv_db s)" and "config_ok (sv_config s)" and "senders_coherent factory s"
    and "flush (Some factory) srv clock s = (healthy, s')"
  shows "\<exists>xs. sv_db s' = fold (settle clock) xs (sv_db s)
    \<and> (\<forall>ws. pending_of ws (sv_db s) = map fst (verdicts_of ws xs) @ pending_of ws (sv_db s'))
    \<and> (\<forall>x \<in> set xs. judged srv factory (sv_config s) UNIV (sv_wire s) (sv_wire s') x)"
proof -
  from flush_pass [OF store_okD(1) [OF assms(1)] config_okD(1) [OF assms(2)] assms(3,4)] obtain xs order
    where pass: "pass srv factory clock (sendable (sv_db s)) order xs s s'" by blast
  then have "sv_db s' = fold (settle clock) xs (sv_db s)"
    "\<forall>x \<in> set xs. judged srv factory (sv_config s) UNIV (sv_wire s) (sv_wire s') x"
    unfolding pass_def judged_def by blast+
  with pass_pending [OF store_okD(1) [OF assms(1)] pass] show ?thesis by blast
qed

lemma pass_settles_row:
  assumes q: "queue_ok (sv_db s)" and pass: "pass srv factory clock (sendable (sv_db s)) order xs s s'"
    and mine: "map fst (verdicts_of ws xs) = pending_of ws (sv_db s)"
    and r: "r \<in> set (event_queue (sv_db s))" "e_workspace_id r = ws" "is_pending r"
    and judge: "\<exists>c. publisher factory (sv_config s) ws = Some c \<and> judges (Send srv c) good"
  shows "t_get e_id (e_id r) (event_queue (sv_db s')) =
    Some (settled_row clock (if good (event_envelope_of (queue_event_of r)) then Accepted else Refused) r)"
proof -
  let ?q = "queue_event_of r" and ?v = "if good (event_envelope_of (queue_event_of r)) then Accepted else Refused"
  have sel: "q_id ?q = e_id r" "q_workspace_id ?q = e_workspace_id r" by (simp_all add: queue_event_of_def)
  have "?q \<in> set (Pending (sv_db s))" unfolding Pending_set using r(1,3) by blast
  then have member: "?q \<in> set (pending_of ws (sv_db s))" using r(2) sel(2) unfolding pending_of_def by simp
  have "?q \<in> fst ` set (verdicts_of ws xs)" using member unfolding mine [symmetric] list.set_map .
  then have "?q \<in> fst ` set xs" unfolding verdicts_of_def set_filter by blast
  then have present: "e_id r \<in> (q_id \<circ> fst) ` set xs" unfolding image_comp [symmetric] using sel(1) by (metis imageI)
  have same: "fst x = ?q" if "x \<in> set xs" "q_id (fst x) = e_id r" for x
  proof -
    have "inj_on q_id (set (Pending (sv_db s)))" using Pending_distinct(2) [OF q] unfolding distinct_map by blast
    moreover have "fst x \<in> set (Pending (sv_db s))" "?q \<in> set (Pending (sv_db s))"
      using pass_member [OF pass that(1)] member unfolding pending_of_def by simp_all
    ultimately show ?thesis using that(2) sel(1) by (metis inj_onD)
  qed
  have "snd x = ?v" if x: "x \<in> set xs" "q_id (fst x) = e_id r" for x
  proof -
    have "judged srv factory (sv_config s) (set order) (sv_wire s) (sv_wire s') x" using pass x(1) unfolding pass_def by blast
    then obtain c where "publisher factory (sv_config s) ws = Some c"
      "justified (batch_request c) (acked_ids srv) (refused_by srv) (sv_wire s) (sv_wire s') x"
      unfolding judged_def same [OF x] sel(2) r(2) by blast
    with judge hosted.verdict_judged same [OF x] show ?thesis by (metis option.inject)
  qed
  moreover have "\<forall>x \<in> set xs. deliverable (sv_db s) (fst x)" using pass_member [OF pass] pending_deliverable [OF q] by blast
  moreover have "t_get e_id (e_id r) (event_queue (sv_db s)) = Some r" by (rule t_get_unique [OF queue_okD(2) [OF q] r(1)])
  ultimately have "t_get e_id (e_id r) (event_queue (fold (settle clock) xs (sv_db s))) = Some (settled_row clock ?v r)"
    using fold_settle_row [of xs "sv_db s" "e_id r" ?v r clock] present by simp
  moreover have "sv_db s' = fold (settle clock) xs (sv_db s)" using pass unfolding pass_def by blast
  ultimately show ?thesis by simp
qed


section \<open>Spacing\<close>

lemma double_until_capped:
  assumes "0 < delay" and "i \<le> failures"
  shows "min (double_until failures i delay) (30 * second_ns) = min (delay * 2 ^ nat (failures - i)) (30 * second_ns)"
  using assms
proof (induction failures i delay rule: double_until.induct)
  case (1 failures i delay)
  show ?case
  proof (cases "i < failures \<and> delay < 30 * second_ns")
    case True
    then have "nat (failures - i) = Suc (nat (failures - (i + 1)))" by linarith
    with True 1 show ?thesis by (subst double_until.simps) (simp add: mult.assoc)
  next
    case False
    have "delay \<le> delay * 2 ^ nat (failures - i)" using "1.prems"(1) by simp
    moreover have "i = failures \<or> 30 * second_ns \<le> delay" using False "1.prems"(2) by linarith
    ultimately show ?thesis using False by (subst double_until.simps) auto
  qed
qed

text \<open>The pause before the next pass is half a second after a healthy one; after \<open>n\<close> failed ones it
  is half a second doubled \<open>n - 1\<close> times but at most thirty seconds, moved by at most a fifth of
  that either way by the random number, so it always stays between 0.4 and 36 seconds.\<close>

theorem retryDelay_bounds:
  fixes failures :: int
  defines "delay \<equiv> min (500 * millisecond_ns * 2 ^ nat (failures - 1)) (30 * second_ns)"
  assumes "0 < failures"
  shows "retryDelay None failures = delay
    \<and> delay * 4 \<le> retryDelay (Some n) failures * 5 \<and> retryDelay (Some n) failures * 5 \<le> delay * 6
    \<and> 400 * millisecond_ns \<le> retryDelay (Some n) failures \<and> retryDelay (Some n) failures \<le> 36 * second_ns
    \<and> retryDelay None 0 = 500 * millisecond_ns"
proof -
  define m :: int where "m = min (500000 * 2 ^ nat (failures - 1)) 30000000"
  have delay: "delay = 1000 * m" by (simp add: delay_def m_def min_def duration_defs)
  have m: "500000 \<le> m" "m \<le> 30000000" by (simp_all add: m_def)
  have none: "retryDelay None failures = delay"
    using assms(2) double_until_capped [of "500 * millisecond_ns" 1 failures] by (simp add: retryDelay_def Let_def delay_def duration_defs)
  then have "retryDelay (Some n) failures = delay * int (800 + n mod 401) div 1000"
    using assms(2) by (simp add: retryDelay_def Let_def)
  also have "\<dots> = m * int (800 + n mod 401)" by (simp add: delay mult.assoc)
  finally have some: "retryDelay (Some n) failures = m * int (800 + n mod 401)" .
  have "n mod 401 \<le> 400" by (simp add: less_Suc_eq_le [symmetric])
  then have "m * 800 \<le> m * int (800 + n mod 401)" "m * int (800 + n mod 401) \<le> m * 1200"
    using m by (intro mult_left_mono; simp)+
  then have "m * 800 \<le> retryDelay (Some n) failures" "retryDelay (Some n) failures \<le> m * 1200"
    unfolding some .
  moreover have "retryDelay None 0 = 500 * millisecond_ns" by (simp add: retryDelay_def)
  ultimately show ?thesis unfolding none delay duration_defs using m by linarith
qed

theorem retryDelay_bounds_witness:
  "retryDelay None 3 = 2 * second_ns \<and> retryDelay (Some 0) 3 = 1600 * millisecond_ns"
proof -
  have "retryDelay None 3 = 2 * second_ns"
    using retryDelay_bounds [of 3 0] by (simp add: duration_defs)
  then show ?thesis by (simp add: retryDelay_def Let_def duration_defs)
qed

section \<open>A service that publishes\<close>

text \<open>A server that acknowledges every event it is sent.\<close>

definition accepting :: server where
  "accepting w = (case rq_body (last w) of
     EventsBody b \<Rightarrow> Answer \<lparr>rs_status = 200, rs_length = 100,
       rs_body = Some (JMap [(''acceptedEventIds'', JArr (map (JStr \<circ> env_event_id) b)), (''cursor'', JStr ''1'')])\<rparr>
   | _ \<Rightarrow> Answer \<lparr>rs_status = 204, rs_length = 0, rs_body = None\<rparr>)"

definition sample_factory :: sender_factory where
  "sample_factory b = Inr \<lparr>cl_base = bk_api_base_url b, cl_token = ''token''\<rparr>"

definition sample_service :: service where
  "sample_service = \<lparr>sv_config = sample_config, sv_saved = Save sample_config, sv_db = sample_db, sv_wire = [],
     sv_senders = (\<lambda>_. None), sv_sender_state = (\<lambda>_. None), sv_boot = 1, sv_scans = 0, sv_scan_cycles = 0,
     sv_watch = NewWatcher, sv_transcripts = (\<lambda>_. None), sv_codex_background = 0, sv_codex_read_failed = (\<lambda>_. False),
     sv_last_error = [], sv_mid_turn = (\<lambda>_. None)\<rparr>"

lemma dec_elements: "foldE (\<lambda>x acc. bindE (dec_element x) (\<lambda>y. Inr (acc @ [y]))) (map (JStr \<circ> f) xs) acc = Inr (acc @ map f xs)"
  by (induction xs arbitrary: acc) simp_all

lemma accepted_ack:
  "dec_ack (JMap [(''acceptedEventIds'', JArr (map (JStr \<circ> f) xs)), (''cursor'', JStr ''1'')]) = Inr \<lparr>ba_accepted = map f xs, ba_cursor = ''1''\<rparr>"
proof -
  have lower: "to_lower ''acceptedEventIds'' = ''acceptedeventids''" "to_lower ''AcceptedEventIds'' = ''acceptedeventids''"
    "to_lower ''cursor'' = ''cursor''" "to_lower ''Cursor'' = ''cursor''"
    by code_simp+
  show ?thesis
    by (simp add: dec_ack_def strict_object_def lower dec_list_def dec_string_def member_def dec_elements)
qed

lemma accepting_judges: "judges (Send accepting c) (\<lambda>_. True)"
proof -
  have "find (\<lambda>v. env_event_id v \<notin> env_event_id ` set b) b = None" for b :: "event_envelope list"
    by (simp add: find_None_iff)
  then have "fst (Send accepting c ws b w) = None" if "b \<noteq> []" for ws b w
    using that by (simp add: Send_def PublishBatch_def requestBytes_def accepting_def http_request_of_def Let_def
        responseLimit_def accepted_ack)
  then show ?thesis by (simp add: judges_def)
qed

lemma sample_service_ok:
  "store_ok (sv_db sample_service)" "config_ok (sv_config sample_service)" "senders_coherent sample_factory sample_service"
  using sample_db_facts(1) sample_config_ok by (simp_all add: sample_service_def senders_coherent_def)

lemma sample_publisher: "publisher sample_factory (sv_config sample_service) ''wsp_a'' = Some \<lparr>cl_base = ''https://a'', cl_token = ''token''\<rparr>"
  by (simp add: publisher_def sample_service_def sample_config_def sample_factory_def workspaceByID_def BackendForWorkspace_def
      BackendForProject_def BackendByID_def)

lemma sample_pending:
  "pending_of ws (sv_db sample_service) = (if ws = ''wsp_a'' then map queue_event_of (event_queue sample_db) else [])"
  by (simp add: pending_of_alt sample_service_def sample_db_facts(4) sample_row_def sample_workspace_def)


lemma sample_backend:
  assumes "workspaceByID (sv_config sample_service) ws = Some w" and "BackendForWorkspace w (sv_config sample_service) = Some b"
  shows "bk_api_base_url b = ''https://a''"
  using assms by (auto simp: sample_service_def sample_config_def workspaceByID_def BackendForWorkspace_def BackendForProject_def
      BackendByID_def split: if_splits)

theorem flush_sends_only_unpaused_witness:
  "\<exists>healthy s'. flush (Some sample_factory) accepting (\<lambda>_. 0) sample_service = (healthy, s')
    \<and> (\<forall>r \<in> set (sv_wire s'). rq_origin r = ''https://a'' \<and> rq_path r = EscapedPath ''/v1/events/batch'')"
proof -
  obtain healthy s' where call: "flush (Some sample_factory) accepting (\<lambda>_. 0) sample_service = (healthy, s')" by fastforce
  from flush_sends_only_unpaused [OF sample_service_ok call] obtain reqs where reqs: "sv_wire s' = sv_wire sample_service @ reqs"
    "\<forall>r \<in> set reqs. \<exists>ws w b c evs. workspaceByID (sv_config sample_service) ws = Some w
      \<and> BackendForWorkspace w (sv_config sample_service) = Some b \<and> sample_factory b = Inr c \<and> r = batch_request c (map event_envelope_of evs)
      \<and> evs \<noteq> [] \<and> length evs \<le> 100 \<and> set evs \<subseteq> set (pending_of ws (sv_db sample_service))
      \<and> (\<forall>row. find_workspace ws (sv_db sample_service) = Some row \<longrightarrow> \<not> w_paused row)"
    by (elim exE conjE)
  have "rq_origin r = ''https://a'' \<and> rq_path r = EscapedPath ''/v1/events/batch''" if r: "r \<in> set reqs" for r
  proof -
    from reqs(2) r obtain ws w b c evs where "workspaceByID (sv_config sample_service) ws = Some w"
      "BackendForWorkspace w (sv_config sample_service) = Some b" "sample_factory b = Inr c" "r = batch_request c (map event_envelope_of evs)" by blast
    with sample_backend show ?thesis by (auto simp: sample_factory_def batch_request_def http_request_of_def)
  qed
  moreover have "sv_wire sample_service = []" by (simp add: sample_service_def)
  ultimately show ?thesis using call reqs(1) by auto
qed

theorem flush_settles_on_verdicts_witness:
  "\<exists>healthy s' xs. flush (Some sample_factory) accepting (\<lambda>_. 0) sample_service = (healthy, s')
    \<and> map queue_event_of (event_queue sample_db) = map fst (verdicts_of ''wsp_a'' xs) @ pending_of ''wsp_a'' (sv_db s')"
proof -
  obtain healthy s' where call: "flush (Some sample_factory) accepting (\<lambda>_. 0) sample_service = (healthy, s')" by fastforce
  from flush_settles_on_verdicts [OF sample_service_ok call] obtain xs
    where "\<forall>ws. pending_of ws (sv_db sample_service) = map fst (verdicts_of ws xs) @ pending_of ws (sv_db s')" by blast
  then have "map queue_event_of (event_queue sample_db) = map fst (verdicts_of ''wsp_a'' xs) @ pending_of ''wsp_a'' (sv_db s')"
    using sample_pending by metis
  with call show ?thesis by blast
qed

end
