(* ===== verification/Go_Regexp.thy ===== *)
theory Go_Regexp
  imports Go_Path
begin

text \<open>
  Package \<^verbatim>\<open>regexp\<close> as far as the service uses it: whether an expression matches somewhere in a text
  (\<^verbatim>\<open>MatchString\<close>). A position is the byte before it and the bytes after it. Only the existence of a
  match is observable, so an expression denotes the list of positions where it can end.

  A scan by bytes finds the same matches as Go's scan by runes: the literals and classes below are
  ASCII, and inside a longer rune no byte is one of them. A literal or class that ignores case also
  matches the two letters outside ASCII that fold into it, the long s and the Kelvin sign.
\<close>

section \<open>Expressions\<close>

datatype re =
    Eps
  | Cls "char \<Rightarrow> bool"
  | Seq re re
  | Alt re re
  | Star re
  | WordB
  | LineStart

type_synonym position = "char option \<times> string"

definition word_char :: "char \<Rightarrow> bool" where
  "word_char c \<longleftrightarrow> (97 \<le> byte c \<and> byte c \<le> 122) \<or> (65 \<le> byte c \<and> byte c \<le> 90) \<or> (48 \<le> byte c \<and> byte c \<le> 57) \<or> c = CHR ''_''"

definition re_space :: "char \<Rightarrow> bool" where
  "re_space c \<longleftrightarrow> byte c \<in> {9, 10, 12, 13, 32}"

definition word_before :: "position \<Rightarrow> bool" where
  "word_before st = (case fst st of None \<Rightarrow> False | Some c \<Rightarrow> word_char c)"

definition word_after :: "position \<Rightarrow> bool" where
  "word_after st = (case snd st of [] \<Rightarrow> False | c # cs \<Rightarrow> word_char c)"

fun star_from :: "nat \<Rightarrow> (position \<Rightarrow> position list) \<Rightarrow> position \<Rightarrow> position list" where
  "star_from 0 f st = [st]"
| "star_from (Suc n) f st = st # concat (map (star_from n f) (f st))"

text \<open>A repetition that consumes nothing adds no position, so as many rounds as bytes are enough.\<close>

fun ends :: "re \<Rightarrow> position \<Rightarrow> position list" where
  "ends Eps st = [st]"
| "ends (Cls p) st = (case snd st of [] \<Rightarrow> [] | c # cs \<Rightarrow> if p c then [(Some c, cs)] else [])"
| "ends (Seq a b) st = concat (map (ends b) (ends a st))"
| "ends (Alt a b) st = ends a st @ ends b st"
| "ends (Star a) st = star_from (length (snd st)) (ends a) st"
| "ends WordB st = (if word_before st \<noteq> word_after st then [st] else [])"
| "ends LineStart st = (if fst st = None \<or> fst st = Some LF then [st] else [])"

fun search :: "re \<Rightarrow> char option \<Rightarrow> string \<Rightarrow> bool" where
  "search r prev [] \<longleftrightarrow> ends r (prev, []) \<noteq> []"
| "search r prev (c # cs) \<longleftrightarrow> ends r (prev, c # cs) \<noteq> [] \<or> search r (Some c) cs"

definition MatchString :: "re \<Rightarrow> string \<Rightarrow> bool" where
  "MatchString r s = search r None s"

section \<open>Derived forms\<close>

fun Times :: "nat \<Rightarrow> re \<Rightarrow> re" where
  "Times 0 r = Eps"
| "Times (Suc n) r = Seq r (Times n r)"

definition AtLeast :: "nat \<Rightarrow> re \<Rightarrow> re" where "AtLeast n r = Seq (Times n r) (Star r)"
definition Opt :: "re \<Rightarrow> re" where "Opt r = Alt Eps r"

definition Lit :: "string \<Rightarrow> re" where "Lit s = foldr (\<lambda>c. Seq (Cls (\<lambda>x. x = c))) s Eps"

text \<open>The letters outside ASCII that fold to \<^verbatim>\<open>s\<close> and \<^verbatim>\<open>k\<close>, in UTF-8.\<close>

definition long_s :: re where "long_s = Lit [CHR 0xC5, CHR 0xBF]"
definition kelvin :: re where "kelvin = Lit [CHR 0xE2, CHR 0x84, CHR 0xAA]"

text \<open>A lower-case letter, or another ASCII byte, without regard to case.\<close>

definition Fold_char :: "char \<Rightarrow> re" where
  "Fold_char c =
     (let ascii = Cls (\<lambda>x. lower_char x = c)
      in if c = CHR ''s'' then Alt ascii long_s else if c = CHR ''k'' then Alt ascii kelvin else ascii)"

definition Fold :: "string \<Rightarrow> re" where "Fold s = foldr (\<lambda>c. Seq (Fold_char c)) s Eps"

text \<open>A class that holds every letter, without regard to case.\<close>

definition Fold_cls :: "(char \<Rightarrow> bool) \<Rightarrow> re" where
  "Fold_cls p = Alt (Cls (\<lambda>x. p (lower_char x))) (Alt long_s kelvin)"

fun Any :: "re list \<Rightarrow> re" where
  "Any [] = Cls (\<lambda>_. False)"
| "Any [r] = r"
| "Any (r # s # rs) = Alt r (Any (s # rs))"

definition spaces :: re where "spaces = Star (Cls re_space)"

section \<open>Matching in context\<close>

text \<open>\<open>after u prev\<close> is the byte before the position that follows \<open>u\<close>.\<close>

definition last_of :: "char option \<Rightarrow> string \<Rightarrow> char option" where
  "last_of prev u = (if u = [] then prev else Some (last u))"

lemma last_of_simps [simp]: "last_of prev [] = prev" "last_of prev (c # u) = last_of (Some c) u"
  by (simp_all add: last_of_def)

lemma search_at: "ends r (last_of prev u, w) \<noteq> [] \<Longrightarrow> search r prev (u @ w)"
proof (induction u arbitrary: prev)
  case Nil
  then show ?case by (cases w) (simp_all add: last_of_def)
next
  case (Cons c u)
  then show ?case by simp
qed

lemma ends_Seq_I: "st' \<in> set (ends a st) \<Longrightarrow> st'' \<in> set (ends b st') \<Longrightarrow> st'' \<in> set (ends (Seq a b) st)"
  by auto

lemma ends_Alt_I: "st' \<in> set (ends a st) \<or> st' \<in> set (ends b st) \<Longrightarrow> st' \<in> set (ends (Alt a b) st)"
  by auto

lemma ends_Fold_char: "lower_char x = c \<Longrightarrow> (Some x, cs) \<in> set (ends (Fold_char c) (prev, x # cs))"
  by (simp add: Fold_char_def Let_def)

lemma ends_Fold: "map lower_char w = s \<Longrightarrow> (last_of prev w, v) \<in> set (ends (Fold s) (prev, w @ v))"
proof (induction w arbitrary: s prev)
  case Nil
  then show ?case by (simp add: Fold_def last_of_def)
next
  case (Cons x w)
  then have s: "s = lower_char x # map lower_char w" by simp
  have "(Some x, w @ v) \<in> set (ends (Fold_char (lower_char x)) (prev, x # w @ v))" by (rule ends_Fold_char) simp
  moreover have "(last_of (Some x) w, v) \<in> set (ends (Fold (map lower_char w)) (Some x, w @ v))" by (rule Cons.IH) simp
  ultimately show ?case using s by (auto simp: Fold_def intro: bexI [of _ "(Some x, w @ v)"])
qed

lemma star_from_refl: "st \<in> set (star_from n f st)"
  by (cases n) simp_all

lemma star_from_run:
  assumes step: "\<And>c cs q. p c \<Longrightarrow> (Some c, cs) \<in> set (f (q, c # cs))"
  shows "list_all p w \<Longrightarrow> length w \<le> n \<Longrightarrow> (last_of prev w, v) \<in> set (star_from n f (prev, w @ v))"
proof (induction w arbitrary: n prev)
  case Nil
  then show ?case using star_from_refl [of "(prev, v)"] by simp
next
  case (Cons c w)
  then obtain m where m: "n = Suc m" "length w \<le> m" by (cases n) auto
  have "(last_of (Some c) w, v) \<in> set (star_from m f (Some c, w @ v))"
    using Cons.prems m by (intro Cons.IH) simp_all
  moreover have "(Some c, w @ v) \<in> set (f (prev, c # w @ v))" using Cons.prems by (intro step) simp
  ultimately show ?case by (auto simp: m)
qed

text \<open>An expression that can always take one byte of a class.\<close>

definition takes :: "re \<Rightarrow> (char \<Rightarrow> bool) \<Rightarrow> bool" where
  "takes r p \<longleftrightarrow> (\<forall>c cs q. p c \<longrightarrow> (Some c, cs) \<in> set (ends r (q, c # cs)))"

lemma takes_Cls: "takes (Cls p) p"
  by (simp add: takes_def)

lemma takes_Fold_cls: "takes (Fold_cls p) (\<lambda>c. p (lower_char c))"
  by (simp add: takes_def Fold_cls_def)

lemma ends_Star:
  assumes "takes r p" and "list_all p w"
  shows "(last_of prev w, v) \<in> set (ends (Star r) (prev, w @ v))"
  using star_from_run [of p "ends r" w "length (w @ v)" prev v] assms by (simp add: takes_def)

lemma ends_Times:
  assumes "takes r p"
  shows "list_all p w \<Longrightarrow> (last_of prev w, v) \<in> set (ends (Times (length w) r) (prev, w @ v))"
proof (induction w arbitrary: prev)
  case (Cons c w)
  then have "(Some c, w @ v) \<in> set (ends r (prev, c # w @ v))" using assms by (simp add: takes_def)
  with Cons show ?case by (auto intro!: bexI [of _ "(Some c, w @ v)"])
qed simp

lemma ends_AtLeast:
  assumes r: "takes r p" and w: "list_all p w" and n: "n \<le> length w"
  shows "(last_of prev w, v) \<in> set (ends (AtLeast n r) (prev, w @ v))"
proof -
  let ?a = "take n w" and ?b = "drop n w"
  have "(last_of prev ?a, ?b @ v) \<in> set (ends (Times (length ?a) r) (prev, ?a @ ?b @ v))"
    using w by (intro ends_Times [OF r]) (auto simp: list_all_iff dest: in_set_takeD)
  moreover have "(last_of (last_of prev ?a) ?b, v) \<in> set (ends (Star r) (last_of prev ?a, ?b @ v))"
    using w by (intro ends_Star [OF r]) (auto simp: list_all_iff dest: in_set_dropD)
  moreover have "last_of (last_of prev ?a) ?b = last_of prev w"
    by (cases "?b = []") (auto simp: last_of_def)
  moreover have "length ?a = n" using n by simp
  moreover have "?a @ ?b @ v = w @ v" by (metis append.assoc append_take_drop_id)
  ultimately show ?thesis unfolding AtLeast_def by (metis ends_Seq_I)
qed

lemma ends_Any: "r \<in> set rs \<Longrightarrow> st' \<in> set (ends r st) \<Longrightarrow> st' \<in> set (ends (Any rs) st)"
  by (induction rs rule: Any.induct) auto

end
