(* ===== verification/Agent_Activity.thy ===== *)
theory Agent_Activity
  imports Go_Regexp Go_Encoding
begin

text \<open>
  Package \<^verbatim>\<open>internal/agentactivity\<close>: a vendor hook becomes a bounded event, its paths become safe
  repository paths, and text passes the classifiers before it may leave the device.

  The parser of \<^verbatim>\<open>encoding/json\<close> is the parameter \<open>unmarshal\<close>; the working directory and
  \<^verbatim>\<open>filepath.EvalSymlinks\<close> are the parameter \<open>fs\<close>.
\<close>

section \<open>Events\<close>

record resolver =
  rv_wd :: string
  rv_eval :: "string \<Rightarrow> string option"

definition abs_of :: "resolver \<Rightarrow> string \<Rightarrow> string" where
  "abs_of fs p = (if is_abs p then clean p else join_path (rv_wd fs) p)"

record activity_event =
  ev_vendor :: string
  ev_cwd :: string
  ev_workstream_id :: string
  ev_session_alias :: string
  ev_kind :: string
  ev_status :: string
  ev_action :: string
  ev_tool :: string
  ev_agent_type :: string
  ev_subagent_alias :: string
  ev_candidate_paths :: "string list"
  ev_candidate_roots :: "string list"
  ev_session_title :: string
  ev_transcript_path :: string
  ev_vendor_session_id :: string

record activity_message =
  am_kind :: string
  am_text :: string

definition MaxInputBytes :: nat where "MaxInputBytes = 256 * 1024"
definition MaxMessageBytes :: nat where "MaxMessageBytes = 8000"

section \<open>Identities\<close>

definition WorkstreamIDFor :: "string \<Rightarrow> string \<Rightarrow> (string \<times> string) option" where
  "WorkstreamIDFor vendor session =
     (if vendor \<noteq> ''codex'' \<and> vendor \<noteq> ''claude'' \<and> vendor \<noteq> ''cursor'' then None
      else if session = [] \<or> 512 < length session then None
      else let text = ''overgent.agent-session.v1'' @ [NUL] @ vendor @ [NUL] @ session
           in Some (''wrk_agent_'' @ sha256_hex_prefix 16 text, vendor @ ''-'' @ sha256_hex_prefix 3 text))"

definition PublishedWorkstreamID :: "string \<Rightarrow> string \<Rightarrow> string \<Rightarrow> string" where
  "PublishedWorkstreamID workstream project ws =
     ''wrk_agent_'' @ sha256_hex_prefix 16 (''overgent.agent-session-scope.v1'' @ [NUL] @ project @ [NUL] @ ws @ [NUL] @ workstream)"

text \<open>\<^verbatim>\<open>^[A-Za-z][A-Za-z0-9._:-]{0,63}$\<close>.\<close>

definition alpha :: "char \<Rightarrow> bool" where
  "alpha c \<longleftrightarrow> (97 \<le> byte c \<and> byte c \<le> 122) \<or> (65 \<le> byte c \<and> byte c \<le> 90)"

definition digit :: "char \<Rightarrow> bool" where
  "digit c \<longleftrightarrow> 48 \<le> byte c \<and> byte c \<le> 57"

definition identifier_ok :: "string \<Rightarrow> bool" where
  "identifier_ok v = (case v of [] \<Rightarrow> False
     | c # cs \<Rightarrow> alpha c \<and> length cs \<le> 63 \<and> list_all (\<lambda>x. alpha x \<or> digit x \<or> x \<in> set ''._:-'') cs)"

section \<open>Labels\<close>

definition toolLabel :: "string \<Rightarrow> string" where
  "toolLabel tool =
     (let t = to_lower tool in
      if t \<in> set [''edit'', ''write'', ''multiedit'', ''apply_patch'', ''notebookedit''] then ''editing''
      else if t \<in> set [''read'', ''glob'', ''grep''] then ''inspecting files''
      else if t \<in> set [''bash'', ''exec_command'', ''write_stdin''] then ''running a command''
      else if t \<in> set [''agent'', ''task''] then ''using a subagent''
      else if t \<in> set [''websearch'', ''webfetch''] then ''researching''
      else if t = [] then ''a tool'' else ''tool '' @ tool)"

definition toolAction :: "string \<Rightarrow> bool \<Rightarrow> string" where
  "toolAction tool completed = (if completed then ''Finished'' else ''Using'') @ '' '' @ toolLabel tool"

definition agentLabel :: "string \<Rightarrow> string" where
  "agentLabel agent = (if agent = [] then ''subagent'' else agent @ '' subagent'')"

definition ReadTool :: "string \<Rightarrow> bool" where
  "ReadTool tool \<longleftrightarrow> to_lower tool \<in> set [''read'', ''glob'', ''grep'']"

definition ReadCoverage :: "string \<Rightarrow> bool \<Rightarrow> string" where
  "ReadCoverage vendor inferred =
     (if vendor = ''claude'' \<or> vendor = ''cursor'' then ''observed''
      else if vendor = ''codex'' \<and> inferred then ''vendor_inferred'' else ''none'')"

section \<open>Decoding a hook\<close>

definition path_keys :: "string list" where
  "path_keys = [''file_path'', ''path'', ''old_path'', ''new_path'', ''notebook_path'']"

definition patch_prefixes :: "string list" where
  "patch_prefixes = [''*** Add File: '', ''*** Update File: '', ''*** Delete File: '', ''*** Move to: '']"

definition patch_paths :: "string \<Rightarrow> string list" where
  "patch_paths line = map (\<lambda>p. trim_space (drop (length p) line)) (filter (has_prefix line) patch_prefixes)"

definition candidatePaths :: "string \<Rightarrow> (string \<times> json) list \<Rightarrow> string list" where
  "candidatePaths tool input =
     filter (\<lambda>v. v \<noteq> [] \<and> length v \<le> 4096) (map (\<lambda>k. raw_string k input) path_keys) @
     (if tool = ''apply_patch''
      then (case raw_member ''command'' input of
          Some (JStr command) \<Rightarrow> if length command \<le> MaxInputBytes then concat (map patch_paths (split_on LF command)) else []
        | _ \<Rightarrow> [])
      else [])"

text \<open>Status and action of a hook event; \<^term>\<open>None\<close> for an unsupported one.\<close>

definition hook_phase :: "string \<Rightarrow> string \<Rightarrow> string \<Rightarrow> (string \<times> string) option" where
  "hook_phase kind tool agent =
     (if kind = ''SessionStart'' then Some (''active'', ''Session started'')
      else if kind = ''UserPromptSubmit'' then Some (''active'', ''Working on a new request'')
      else if kind = ''PreToolUse'' then Some (''active'', toolAction tool False)
      else if kind = ''PermissionRequest'' then Some (''waiting'', ''Waiting for permission'')
      else if kind = ''PostToolUse'' then Some (''active'', toolAction tool True)
      else if kind = ''PostToolUseFailure'' then Some (''error'', toolLabel tool @ '' failed'')
      else if kind = ''SubagentStart'' then Some (''active'', ''Started '' @ agentLabel agent)
      else if kind = ''SubagentStop'' then Some (''active'', ''Finished '' @ agentLabel agent)
      else if kind = ''Stop'' then Some (''idle'', ''Turn finished'')
      else if kind = ''SessionEnd'' then Some (''done'', ''Session ended'')
      else None)"

definition Parse :: "(string \<Rightarrow> json option) \<Rightarrow> resolver \<Rightarrow> string \<Rightarrow> string \<Rightarrow> string + activity_event" where
  "Parse unmarshal fs vendor input =
     (if vendor \<noteq> ''codex'' \<and> vendor \<noteq> ''claude'' then Inl ''unsupported activity vendor''
      else if input = [] \<or> MaxInputBytes < length input then Inl ''activity hook input is empty or too large''
      else case Option.bind (unmarshal input) object_members of
        None \<Rightarrow> Inl ''invalid activity hook JSON''
      | Some raw \<Rightarrow>
          let session = raw_string ''session_id'' raw; cwd = raw_string ''cwd'' raw; kind = raw_string ''hook_event_name'' raw;
              tool = raw_string ''tool_name'' raw; agent = raw_string ''agent_type'' raw; agent_id = raw_string ''agent_id'' raw;
              path = raw_string ''transcript_path'' raw
          in if session = [] \<or> cwd = [] \<or> kind = [] \<or> 512 < length session \<or> 4096 < length cwd
             then Inl ''activity hook identity is missing or invalid''
             else case WorkstreamIDFor vendor session of
               None \<Rightarrow> Inl ''activity hook identity is missing or invalid''
             | Some (workstream, alias) \<Rightarrow>
                 if tool \<noteq> [] \<and> (64 < length tool \<or> \<not> identifier_ok tool) then Inl ''activity tool name is invalid''
                 else if agent \<noteq> [] \<and> (64 < length agent \<or> \<not> identifier_ok agent) then Inl ''activity agent type is invalid''
                 else case hook_phase kind tool agent of
                   None \<Rightarrow> Inl ''unsupported activity hook event''
                 | Some (st, action) \<Rightarrow> Inr
                     \<lparr>ev_vendor = vendor, ev_cwd = abs_of fs cwd, ev_workstream_id = workstream, ev_session_alias = alias,
                      ev_kind = kind, ev_status = st, ev_action = action, ev_tool = tool, ev_agent_type = agent,
                      ev_subagent_alias = (if agent_id = [] then []
                        else ''sub-'' @ sha256_hex_prefix 3 (''overgent.subagent.v1'' @ [NUL] @ vendor @ [NUL] @ session @ [NUL] @ agent_id)),
                      ev_candidate_paths = (case raw_member ''tool_input'' raw of
                          Some (JMap input_map) \<Rightarrow> candidatePaths tool input_map
                        | _ \<Rightarrow> []),
                      ev_candidate_roots = [], ev_session_title = [],
                      ev_transcript_path = (if path \<noteq> [] \<and> length path \<le> 4096 then path else []),
                      ev_vendor_session_id = session\<rparr>)"

section \<open>The classifiers\<close>

definition key_class :: "char \<Rightarrow> bool" where
  "key_class c \<longleftrightarrow> alpha c \<or> digit c \<or> c \<in> set ''_-''"

definition not_space :: re where "not_space = Cls (\<lambda>c. \<not> re_space c)"

definition dash :: re where "dash = Opt (Cls (\<lambda>c. c \<in> set ''_-''))"

definition secret_names :: "re list" where
  "secret_names = [Seq (Fold ''api'') (Seq dash (Fold ''key'')), Seq (Fold ''access'') (Seq dash (Fold ''token'')),
     Seq (Fold ''client'') (Seq dash (Fold ''secret'')), Fold ''password'', Fold ''passwd'', Fold ''secret'']"

definition bearer_form :: re where
  "bearer_form = Seq (Fold ''bearer'') (Seq (AtLeast 1 (Cls re_space))
     (AtLeast 12 (Fold_cls (\<lambda>c. alpha c \<or> digit c \<or> c \<in> set ''._~+/=-''))))"

definition assignment_form :: re where
  "assignment_form = Seq (Any secret_names) (Seq spaces (Seq (Cls (\<lambda>c. c \<in> set '':='')) (Seq spaces (AtLeast 1 not_space))))"

definition token_form :: re where
  "token_form = Seq WordB (Seq
     (Any [Fold ''sk'', Fold ''ghp'', Fold ''github_pat'', Seq (Fold ''xox'') (Any [Cls (\<lambda>c. lower_char c \<in> set ''baprs''), long_s])])
     (Seq (Cls (\<lambda>c. c \<in> set ''-_'')) (AtLeast 12 (Fold_cls key_class))))"

definition aws_form :: re where
  "aws_form = Seq WordB (Seq (Fold ''akia'') (Seq (Times 16 (Fold_cls (\<lambda>c. alpha c \<or> digit c))) WordB))"

definition credentialPattern :: re where
  "credentialPattern = Any [bearer_form, assignment_form, token_form, aws_form]"

definition upper :: "char \<Rightarrow> bool" where "upper c \<longleftrightarrow> 65 \<le> byte c \<and> byte c \<le> 90"

definition environmentPattern :: re where
  "environmentPattern = Seq WordB (Seq (Cls upper) (Seq (AtLeast 2 (Cls (\<lambda>c. upper c \<or> digit c \<or> c = CHR ''_'')))
     (Seq spaces (Seq (Cls (\<lambda>c. c = CHR ''='')) (Seq (Cls (\<lambda>c. c \<noteq> CHR ''='' \<and> \<not> re_space c)) (Star not_space))))))"

definition privateKeyPattern :: re where
  "privateKeyPattern = Seq (Fold ''-----begin '') (Seq (Star (Fold_cls (\<lambda>c. alpha c \<or> c = CHR '' ''))) (Fold ''private key-----''))"

definition toolOutputPattern :: re where
  "toolOutputPattern = Any [Seq WordB (Seq (Fold ''tool_result'') WordB), Seq WordB (Seq (Fold ''transcript_path'') WordB),
     Seq LineStart (Seq spaces (Seq (Any [Fold ''stdout'', Fold ''stderr'']) (Seq spaces (Cls (\<lambda>c. c = CHR '':'')))))]"

definition shareableKinds :: "string list" where
  "shareableKinds = [''user'', ''assistant'', ''thinking'', ''system'']"

definition prohibited_text :: "string \<Rightarrow> bool" where
  "prohibited_text t \<longleftrightarrow> MatchString privateKeyPattern t \<or> MatchString credentialPattern t
     \<or> MatchString environmentPattern t \<or> MatchString toolOutputPattern t"

definition ClassifyCoordinationTitle :: "string \<Rightarrow> string + string" where
  "ClassifyCoordinationTitle v =
     (let title = join '' '' (Go_Prelude.fields v) in
      if title = [] \<or> 160 < rune_count title \<or> NUL \<in> set title then Inl ''session title is empty, invalid, or too large''
      else if prohibited_text title then Inl ''session title contains prohibited content''
      else Inr title)"

definition ClassifyMessage :: "activity_message \<Rightarrow> string + activity_message" where
  "ClassifyMessage m =
     (if am_kind m \<notin> set shareableKinds then Inl ''conversation message kind is unsupported''
      else let text = trim_space (am_text m) in
        if text = [] \<or> MaxMessageBytes < length text \<or> \<not> valid_utf8 text \<or> NUL \<in> set text
        then Inl ''conversation message is empty, invalid, or too large''
        else if prohibited_text text then Inl ''conversation message contains prohibited content''
        else Inr \<lparr>am_kind = am_kind m, am_text = text\<rparr>)"

definition ProhibitedContractSignature :: "string \<Rightarrow> bool" where
  "ProhibitedContractSignature sig \<longleftrightarrow> NUL \<in> set sig \<or> MatchString privateKeyPattern sig
     \<or> MatchString credentialPattern sig \<or> MatchString toolOutputPattern sig"

section \<open>Safe paths\<close>

text \<open>
  \<^verbatim>\<open>strings.ToLower\<close> as far as a comparison with ASCII text can tell: besides the ASCII letters, the
  Kelvin sign becomes \<^verbatim>\<open>k\<close> and the dotted capital I becomes \<^verbatim>\<open>i\<close>.
\<close>

fun lower_text :: "string \<Rightarrow> string" where
  "lower_text [] = []"
| "lower_text (c # s) =
     (if take 3 (c # s) = [CHR 0xE2, CHR 0x84, CHR 0xAA] then CHR ''k'' # lower_text (drop 2 s)
      else if take 2 (c # s) = [CHR 0xC4, CHR 0xB0] then CHR ''i'' # lower_text (drop 1 s)
      else lower_char c # lower_text s)"

definition protected_names :: "string list" where
  "protected_names = [''.ssh'', ''.aws'', ''.azure'', ''.kube'', ''.npmrc'', ''.pypirc'', ''.git-credentials'', ''credentials'',
     ''secrets'', ''id_rsa'', ''id_ed25519'']"

definition protected_segment :: "string \<Rightarrow> bool" where
  "protected_segment g \<longleftrightarrow> g = ''.env'' \<or> has_prefix g ''.env.'' \<or> g \<in> set protected_names
     \<or> has_suffix g ''.pem'' \<or> has_suffix g ''.key''"

definition validateSafePath :: "string \<Rightarrow> string option" where
  "validateSafePath v =
     (if v = [] \<or> v = ''.'' \<or> 512 < length v \<or> NUL \<in> set v \<or> CHR 0x5C \<in> set v then Some ''activity path is invalid''
      else let lower = lower_text v in
        if list_ex protected_segment (split_on (CHR ''/'') lower) then Some ''activity event references a protected path''
        else if str_contains lower ''/.config/gcloud/'' then Some ''activity event references a protected path''
        else None)"

definition SafeRepositoryPath :: "string \<Rightarrow> bool" where
  "SafeRepositoryPath v \<longleftrightarrow> validateSafePath v = None"

text \<open>
  The elements of a cleaned path and the path they make; the parent of a path drops its last element.
\<close>

definition path_elems :: "string \<Rightarrow> string list" where
  "path_elems p = filter (\<lambda>e. e \<noteq> [] \<and> e \<noteq> ''.'') (split_on (CHR ''/'') p)"

definition path_of :: "bool \<Rightarrow> string list \<Rightarrow> string" where
  "path_of rooted es = (if rooted then CHR ''/'' # join ''/'' es else if es = [] then ''.'' else join ''/'' es)"

text \<open>\<open>parents\<close> are the elements of the current path in reverse, \<open>remainder\<close> what was taken off it.\<close>

fun canon_up :: "resolver \<Rightarrow> string \<Rightarrow> string list \<Rightarrow> string list \<Rightarrow> string" where
  "canon_up fs absolute [] remainder = absolute"
| "canon_up fs absolute (e # parents) remainder =
     (case rv_eval fs (path_of (is_abs absolute) (rev parents)) of
        Some resolved \<Rightarrow> join_path resolved (join ''/'' (e # remainder))
      | None \<Rightarrow> canon_up fs absolute parents (e # remainder))"

definition canonicalizeExisting :: "resolver \<Rightarrow> string \<Rightarrow> string" where
  "canonicalizeExisting fs absolute =
     (case rv_eval fs absolute of
        Some resolved \<Rightarrow> resolved
      | None \<Rightarrow> canon_up fs absolute (rev (path_elems absolute)) [])"

text \<open>Where a candidate lies.\<close>

definition located :: "resolver \<Rightarrow> string \<Rightarrow> string \<Rightarrow> string" where
  "located fs cwd candidate =
     canonicalizeExisting fs (clean (if is_abs candidate then candidate else join_path cwd candidate))"

definition normalize_candidate :: "resolver \<Rightarrow> string \<Rightarrow> string \<Rightarrow> string \<Rightarrow> string list \<Rightarrow> string + string list" where
  "normalize_candidate fs cwd root candidate paths =
     (case rel_inside (clean root) (clean (located fs cwd candidate)) of
        None \<Rightarrow> Inl ''activity path escapes the registered repository''
      | Some r \<Rightarrow>
          (case validateSafePath r of
             Some e \<Rightarrow> Inl e
           | None \<Rightarrow> Inr (if r \<in> set paths then paths else paths @ [r])))"

definition NormalizePaths :: "resolver \<Rightarrow> activity_event \<Rightarrow> string \<Rightarrow> string + activity_event" where
  "NormalizePaths fs e repository =
     (case rv_eval fs repository of
        None \<Rightarrow> Inl ''canonicalize registered repository''
      | Some root \<Rightarrow>
          bindE (foldE (normalize_candidate fs (ev_cwd e) root) (ev_candidate_paths e) []) (\<lambda>found.
            let paths = sort found in
            if 100 < length paths then Inl ''activity event exceeds the safe-path limit''
            else Inr (e\<lparr>ev_candidate_paths := paths,
              ev_action := (if paths \<noteq> [] \<and> (ev_kind e = ''PreToolUse'' \<or> ev_kind e = ''PostToolUse'')
                then toolLabel (ev_tool e) @ '' '' @ hd paths @
                  (if 1 < length paths then '' and '' @ nat_dec (length paths - 1) @ '' more'' else [])
                else ev_action e)\<rparr>)))"

section \<open>Cursor\<close>

definition MaxCursorInputBytes :: nat where "MaxCursorInputBytes = 64 * 1024 * 1024"

record cursor_lifecycle =
  cl_kind :: string
  cl_status :: string
  cl_action :: string
  cl_tool :: string

definition cursorEvents :: "(string \<times> cursor_lifecycle) list" where
  "cursorEvents =
     [(''sessionStart'', \<lparr>cl_kind = ''SessionStart'', cl_status = ''active'', cl_action = ''Session started'', cl_tool = []\<rparr>),
      (''beforeSubmitPrompt'', \<lparr>cl_kind = ''UserPromptSubmit'', cl_status = ''active'', cl_action = ''Working on a new request'', cl_tool = []\<rparr>),
      (''beforeReadFile'', \<lparr>cl_kind = ''PreToolUse'', cl_status = ''active'', cl_action = toolAction ''read'' False, cl_tool = ''read''\<rparr>),
      (''afterFileEdit'', \<lparr>cl_kind = ''PostToolUse'', cl_status = ''active'', cl_action = toolAction ''edit'' True, cl_tool = ''edit''\<rparr>),
      (''stop'', \<lparr>cl_kind = ''Stop'', cl_status = ''idle'', cl_action = ''Turn finished'', cl_tool = []\<rparr>),
      (''sessionEnd'', \<lparr>cl_kind = ''SessionEnd'', cl_status = ''done'', cl_action = ''Session ended'', cl_tool = []\<rparr>)]"

definition SupportedCursorEvent :: "string \<Rightarrow> bool" where
  "SupportedCursorEvent event \<longleftrightarrow> map_of cursorEvents event \<noteq> None"

text \<open>The bytes are trimmed; the loop stops once it holds sixteen roots.\<close>

fun cursor_roots_from :: "string list \<Rightarrow> string list \<Rightarrow> string list" where
  "cursor_roots_from [] roots = roots"
| "cursor_roots_from (candidate # candidates) roots =
     (let c = trim_space candidate in
      if c = [] \<or> 4096 < length c \<or> NUL \<in> set c then cursor_roots_from candidates roots
      else if c \<in> set roots then cursor_roots_from candidates roots
      else if length roots + 1 = 16 then roots @ [c]
      else cursor_roots_from candidates (roots @ [c]))"

definition cursorRoots :: "string list \<Rightarrow> string list" where
  "cursorRoots candidates = cursor_roots_from candidates []"

record cursor_payload =
  cp_conversation_id :: string
  cp_hook_event_name :: string
  cp_workspace_roots :: "string list"
  cp_file_path :: string
  cp_prompt :: string

text \<open>The prompt is decoded for \<^verbatim>\<open>beforeSubmitPrompt\<close> only; elsewhere the member is skipped whatever its type.\<close>

definition decode_cursor :: "bool \<Rightarrow> json \<Rightarrow> string + cursor_payload" where
  "decode_cursor prompted j =
     (case object_members j of
        None \<Rightarrow> Inl ''cannot unmarshal into struct''
      | Some kvs \<Rightarrow>
          bindE (dec_string ''conversation_id'' kvs) (\<lambda>conversation.
          bindE (dec_string ''hook_event_name'' kvs) (\<lambda>event.
          bindE (dec_list dec_element ''workspace_roots'' kvs) (\<lambda>roots.
          bindE (dec_string ''file_path'' kvs) (\<lambda>path.
          bindE (if prompted then dec_string ''prompt'' kvs else Inr []) (\<lambda>prompt.
          Inr \<lparr>cp_conversation_id = conversation, cp_hook_event_name = event, cp_workspace_roots = roots,
               cp_file_path = path, cp_prompt = prompt\<rparr>))))))"

text \<open>
  \<open>decode\<close> is \<^verbatim>\<open>json.NewDecoder\<close> on the bytes the hook wrote: the first value of the input, if it is
  well formed.
\<close>

definition ParseCursor :: "(string \<Rightarrow> json option) \<Rightarrow> resolver \<Rightarrow> string \<Rightarrow> string option \<Rightarrow> string \<Rightarrow> string + activity_event" where
  "ParseCursor decode fs declared input session_root =
     (case map_of cursorEvents declared of
        None \<Rightarrow> Inl ''unsupported cursor hook event''
      | Some lifecycle \<Rightarrow>
          (case input of
             None \<Rightarrow> Inl ''cursor hook input is missing''
           | Some bytes \<Rightarrow>
               (case decode (take (MaxCursorInputBytes + 1) bytes) of
                  None \<Rightarrow> Inl ''invalid cursor hook JSON''
                | Some j \<Rightarrow>
                    (case decode_cursor (declared = ''beforeSubmitPrompt'') j of
                       Inl e \<Rightarrow> Inl ''invalid cursor hook JSON''
                     | Inr p \<Rightarrow>
                         if cp_hook_event_name p \<noteq> [] \<and> cp_hook_event_name p \<noteq> declared
                         then Inl ''cursor hook event name does not match its configured hook''
                         else if cp_conversation_id p = [] \<or> 512 < length (cp_conversation_id p)
                         then Inl ''cursor hook conversation identity is missing or invalid''
                         else case WorkstreamIDFor ''cursor'' (cp_conversation_id p) of
                           None \<Rightarrow> Inl ''cursor hook conversation identity is missing or invalid''
                         | Some (workstream, alias) \<Rightarrow>
                             let own = cursorRoots (cp_workspace_roots p);
                                 roots = (if own = [] \<and> session_root \<noteq> [] \<and> length session_root \<le> 4096
                                   then cursorRoots [session_root] else own)
                             in if roots = [] then Inl ''cursor hook has no workspace root''
                                else Inr
                                  \<lparr>ev_vendor = ''cursor'', ev_cwd = abs_of fs (hd roots), ev_workstream_id = workstream,
                                   ev_session_alias = alias, ev_kind = cl_kind lifecycle, ev_status = cl_status lifecycle,
                                   ev_action = cl_action lifecycle, ev_tool = cl_tool lifecycle, ev_agent_type = [],
                                   ev_subagent_alias = [],
                                   ev_candidate_paths = (if cp_file_path p \<noteq> [] \<and> length (cp_file_path p) \<le> 4096 then [cp_file_path p] else []),
                                   ev_candidate_roots = roots,
                                   ev_session_title = (if declared = ''beforeSubmitPrompt''
                                     then (case ClassifyCoordinationTitle (cp_prompt p) of Inr title \<Rightarrow> title | Inl e \<Rightarrow> []) else []),
                                   ev_transcript_path = [], ev_vendor_session_id = cp_conversation_id p\<rparr>))))"

end
