(* ===== verification/Activity_Safety.thy ===== *)
theory Activity_Safety
  imports Agent_Activity
begin

text \<open>
  What may leave the device: text that discloses a credential is refused wherever it stands in a
  message, a session title or a contract signature, and the paths of an accepted event are safe
  paths inside the repository.
\<close>

section \<open>Text that survives normalisation\<close>

text \<open>A visible ASCII byte.\<close>

definition plain :: "char \<Rightarrow> bool" where
  "plain c \<longleftrightarrow> 32 < byte c \<and> byte c < 127"

lemma space_width_plain:
  assumes "plain x"
  shows "space_width (u @ x # s) \<le> length u"
proof -
  have x: "byte x \<notin> {9, 10, 11, 12, 13, 32}" "\<not> 127 \<le> byte x" using assms by (auto simp: plain_def)
  consider "u = []" | a where "u = [a]" | a b where "u = [a, b]" | a b c t where "u = a # b # c # t"
    by (metis list.exhaust)
  then show ?thesis
  proof cases
    case 1
    with x show ?thesis by (auto split: list.splits)
  next
    case (2 a)
    with x show ?thesis by (auto split: list.splits)
  next
    case (3 a b)
    with x show ?thesis by (auto split: list.splits)
  next
    case (4 a b c t)
    then show ?thesis by (auto split: list.splits)
  qed
qed

lemma space_width_plain_0 [simp]: "plain x \<Longrightarrow> space_width (x # s) = 0"
  using space_width_plain [of x "[]" s] by simp

declare space_width.simps [simp del]

lemma trim_left_keeps:
  assumes "plain x"
  shows "\<exists>u'. trim_left (u @ x # s) = u' @ x # s"
proof (induction "length u" arbitrary: u rule: less_induct)
  case less
  let ?n = "space_width (u @ x # s)"
  have n: "?n \<le> length u" using assms by (rule space_width_plain)
  show ?case
  proof (cases "?n = 0")
    case True
    then show ?thesis by (subst trim_left.simps) auto
  next
    case False
    then have "trim_left (u @ x # s) = trim_left (drop ?n u @ x # s)" using n by (subst trim_left.simps) simp
    moreover have "length (drop ?n u) < length u" using False n by simp
    ultimately show ?thesis using less.hyps by presburger
  qed
qed

lemma trim_right_keeps:
  assumes "plain x"
  shows "\<exists>s'. trim_right (u @ x # s) = u @ x # s'"
proof (induction u)
  case Nil
  have "trim_left (x # s) \<noteq> []" using trim_left_keeps [OF assms, of "[]" s] by auto
  then show ?case by simp
next
  case (Cons c u)
  have "trim_left (c # u @ x # s) \<noteq> []" using trim_left_keeps [OF assms, of "c # u" s] by auto
  with Cons show ?case by auto
qed

text \<open>A text that starts and ends with visible bytes.\<close>

definition framed :: "string \<Rightarrow> bool" where
  "framed w \<longleftrightarrow> w \<noteq> [] \<and> plain (hd w) \<and> plain (last w)"

lemma trim_space_keeps:
  assumes "framed w"
  shows "\<exists>u' v'. trim_space (u @ w @ v) = u' @ w @ v'"
proof -
  obtain x a where xa: "w = x # a" "plain x" using assms by (cases w) (auto simp: framed_def)
  obtain b y where yb: "w = b @ [y]" "plain y" using assms by (cases w rule: rev_cases) (auto simp: framed_def)
  obtain u' where u': "trim_left (u @ w @ v) = u' @ w @ v"
    using trim_left_keeps [OF xa(2), of u "a @ v"] by (auto simp: xa(1))
  obtain v' where "trim_right ((u' @ b) @ y # v) = (u' @ b) @ y # v'"
    using trim_right_keeps [OF yb(2)] by blast
  then have "trim_right (u' @ w @ v) = u' @ w @ v'" by (simp add: yb(1))
  with u' show ?thesis unfolding trim_space_def by metis
qed

lemma fields_from_plain: "list_all plain w \<Longrightarrow> fields_from cur (w @ v) = fields_from (rev w @ cur) v"
  by (induction w arbitrary: cur) auto

lemma fields_from_open: "cur \<noteq> [] \<Longrightarrow> \<exists>t ts. fields_from cur v = (rev cur @ t) # ts"
proof (induction cur v rule: fields_from.induct)
  case (2 cur c cs)
  show ?case
  proof (cases "0 < space_width (c # cs)")
    case True
    with 2(3) show ?thesis by (intro exI [of _ "[]"] exI) simp
  next
    case False
    with 2(2) show ?thesis by fastforce
  qed
qed simp

lemma join_head: "\<exists>q. join sep ((a @ t) # ts) = a @ q"
  by (cases ts) auto

lemma join_tail: "\<exists>p. join sep (xs @ ys) = p @ join sep ys"
proof (induction xs)
  case (Cons x xs)
  then obtain p where p: "join sep (xs @ ys) = p @ join sep ys" by blast
  show ?case
  proof (cases "xs @ ys")
    case Nil
    then show ?thesis by (intro exI [of _ x]) simp
  next
    case (Cons z zs)
    with p have "join sep ((x # xs) @ ys) = (x @ sep @ p) @ join sep ys" by simp
    then show ?thesis by blast
  qed
qed simp

lemma fields_from_keeps:
  assumes w: "w \<noteq> []" "list_all plain w"
  shows "\<exists>p q. join '' '' (fields_from cur (u @ w @ v)) = p @ w @ q"
proof (induction "length u" arbitrary: u cur rule: less_induct)
  case less
  obtain x a where xa: "w = x # a" "plain x" using w by (cases w) auto
  show ?case
  proof (cases u)
    case Nil
    from w have "rev w @ cur \<noteq> []" by simp
    from fields_from_open [OF this, of v] obtain t ts where "fields_from cur (w @ v) = (rev cur @ w @ t) # ts"
      by (auto simp: fields_from_plain [OF w(2)])
    moreover obtain q where "join '' '' (((rev cur @ w) @ t) # ts) = (rev cur @ w) @ q" using join_head by blast
    ultimately show ?thesis using Nil by auto
  next
    case (Cons c cs)
    let ?n = "space_width (u @ w @ v)"
    have n: "?n \<le> length u" using space_width_plain [OF xa(2), of u "a @ v"] by (simp add: xa(1))
    show ?thesis
    proof (cases "?n = 0")
      case True
      then have "fields_from cur (u @ w @ v) = fields_from (c # cur) (cs @ w @ v)" by (simp add: Cons)
      then show ?thesis using less.hyps [of cs "c # cur"] by (simp add: Cons)
    next
      case False
      have "drop ?n (u @ w @ v) = drop ?n u @ w @ v" using n by simp
      with False have "fields_from cur (u @ w @ v) = (if cur = [] then [] else [rev cur]) @ fields_from [] (drop ?n u @ w @ v)"
        unfolding Cons by (simp del: drop_append)
      moreover have "length (drop ?n u) < length u" using False n by simp
      then obtain p q where "join '' '' (fields_from [] (drop ?n u @ w @ v)) = p @ w @ q" using less.hyps by blast
      moreover obtain p' where "join '' '' ((if cur = [] then [] else [rev cur]) @ fields_from [] (drop ?n u @ w @ v)) =
          p' @ join '' '' (fields_from [] (drop ?n u @ w @ v))"
        using join_tail by blast
      ultimately show ?thesis by (metis append.assoc)
    qed
  qed
qed

section \<open>Disclosures\<close>

definition secret_name :: "string \<Rightarrow> bool" where
  "secret_name k \<longleftrightarrow> to_lower k \<in> set [''password'', ''passwd'', ''secret'', ''apikey'', ''api_key'', ''api-key'', ''accesstoken'',
     ''access_token'', ''access-token'', ''clientsecret'', ''client_secret'', ''client-secret'']"

definition token_char :: "char \<Rightarrow> bool" where
  "token_char c \<longleftrightarrow> alpha (lower_char c) \<or> digit (lower_char c) \<or> lower_char c \<in> set ''._~+/=-''"

text \<open>
  The forms a credential takes in text, in any case: a secret name with a value assigned to it, a
  bearer token of at least twelve characters, and the header of a private key.
\<close>

inductive discloses :: "string \<Rightarrow> bool" where
  assignment: "secret_name k \<Longrightarrow> list_all re_space g \<Longrightarrow> s \<in> set '':='' \<Longrightarrow> list_all re_space h \<Longrightarrow> plain c
    \<Longrightarrow> discloses (k @ g @ s # h @ [c])"
| bearer: "to_lower b = ''bearer'' \<Longrightarrow> g \<noteq> [] \<Longrightarrow> list_all re_space g \<Longrightarrow> list_all token_char t \<Longrightarrow> 12 \<le> length t
    \<Longrightarrow> discloses (b @ g @ t)"
| private_key: "to_lower a = ''-----begin '' \<Longrightarrow> list_all (\<lambda>c. alpha (lower_char c) \<or> lower_char c = CHR '' '') l
    \<Longrightarrow> to_lower b = ''private key-----'' \<Longrightarrow> discloses (a @ l @ b)"

lemma lower_char_eq:
  assumes x: "lower_char x = c" and c: "\<not> alpha c"
  shows "x = c"
proof -
  show ?thesis
  proof (cases "65 \<le> byte x \<and> byte x \<le> 90")
    case True
    then have "byte c = byte x + 32" using x by (auto simp: lower_char_def byte_def Let_def)
    with True c show ?thesis by (simp add: alpha_def)
  next
    case False
    then have "\<not> (65 \<le> (of_char x :: nat) \<and> (of_char x :: nat) \<le> 90)" by (simp add: byte_def)
    then have "lower_char x = x" unfolding lower_char_def Let_def by (rule if_not_P)
    with x show ?thesis by simp
  qed
qed

lemma lower_char_dash: "lower_char x = CHR ''_'' \<Longrightarrow> x = CHR ''_''" "lower_char x = CHR ''-'' \<Longrightarrow> x = CHR ''-''"
  by (auto dest!: lower_char_eq simp: alpha_def byte_def)

lemma lower_dash:
  assumes "map lower_char kd = d" and "d = [] \<or> d = ''_'' \<or> d = ''-''"
  shows "kd = d"
proof (cases kd)
  case (Cons x xs)
  with assms have "xs = []" by auto
  with Cons assms show ?thesis using lower_char_dash [of x] by auto
qed (use assms in simp)

lemma ends_dash:
  assumes "d = [] \<or> d = ''_'' \<or> d = ''-''"
  shows "(last_of q d, v) \<in> set (ends dash (q, d @ v))"
proof -
  consider "d = []" | "d = ''_''" | "d = ''-''" using assms by blast
  then show ?thesis by cases (simp_all add: dash_def Opt_def)
qed

lemma last_of_append: "last_of prev (u @ v) = last_of (last_of prev u) v"
  by (simp add: last_of_def)

lemma ends_two_part_name:
  assumes k: "to_lower k = a @ d @ b" and d: "d = [] \<or> d = ''_'' \<or> d = ''-''"
  shows "(last_of prev k, v) \<in> set (ends (Seq (Fold a) (Seq dash (Fold b))) (prev, k @ v))"
proof -
  obtain ka rest where k1: "k = ka @ rest" "a = map lower_char ka" "d @ b = map lower_char rest"
    using k [unfolded to_lower_def map_eq_append_conv [of _ _ a]] by blast
  obtain kd kb where k2: "rest = kd @ kb" "d = map lower_char kd" "b = map lower_char kb"
    using k1(3) [symmetric, unfolded map_eq_append_conv] by blast
  have "kd = d" using k2(2) [symmetric] d by (rule lower_dash)
  then have 2: "(last_of (last_of prev ka) kd, kb @ v) \<in> set (ends dash (last_of prev ka, kd @ kb @ v))"
    using ends_dash [OF d] by simp
  have 1: "(last_of prev ka, kd @ kb @ v) \<in> set (ends (Fold a) (prev, ka @ kd @ kb @ v))"
    using k1(2) [symmetric] by (rule ends_Fold)
  have 3: "(last_of (last_of (last_of prev ka) kd) kb, v) \<in> set (ends (Fold b) (last_of (last_of prev ka) kd, kb @ v))"
    using k2(3) [symmetric] by (rule ends_Fold)
  show ?thesis using ends_Seq_I [OF 1 ends_Seq_I [OF 2 3]] by (simp only: k1(1) k2(1) append.assoc last_of_append)
qed

lemma ends_secret_name:
  assumes "secret_name k"
  shows "(last_of prev k, v) \<in> set (ends (Any secret_names) (prev, k @ v))"
proof -
  have two: "(last_of prev k, v) \<in> set (ends (Any secret_names) (prev, k @ v))"
    if "to_lower k = a @ d @ b" "d = [] \<or> d = ''_'' \<or> d = ''-''" "Seq (Fold a) (Seq dash (Fold b)) \<in> set secret_names" for a d b
    using ends_Any [OF that(3)] ends_two_part_name [OF that(1,2)] by blast
  have one: "(last_of prev k, v) \<in> set (ends (Any secret_names) (prev, k @ v))" if "to_lower k = s" "Fold s \<in> set secret_names" for s
    using ends_Any [OF that(2)] ends_Fold [of k s] that(1) by (simp add: to_lower_def)
  consider "to_lower k \<in> set [''password'', ''passwd'', ''secret'']"
    | d where "to_lower k = ''api'' @ d @ ''key''" "d = [] \<or> d = ''_'' \<or> d = ''-''"
    | d where "to_lower k = ''access'' @ d @ ''token''" "d = [] \<or> d = ''_'' \<or> d = ''-''"
    | d where "to_lower k = ''client'' @ d @ ''secret''" "d = [] \<or> d = ''_'' \<or> d = ''-''"
    using assms by (auto simp: secret_name_def)
  then show ?thesis
  proof cases
    case 1
    then show ?thesis by (intro one [OF refl]) (auto simp: secret_names_def)
  next
    case 2
    show ?thesis by (rule two [OF 2]) (simp add: secret_names_def)
  next
    case 3
    show ?thesis by (rule two [OF 3]) (simp add: secret_names_def)
  next
    case 4
    show ?thesis by (rule two [OF 4]) (simp add: secret_names_def)
  qed
qed

lemma ends_discloses:
  assumes "discloses w"
  shows "ends credentialPattern (prev, w @ v) \<noteq> [] \<or> ends privateKeyPattern (prev, w @ v) \<noteq> []"
  using assms
proof cases
  case (assignment k g s h c)
  have sp: "takes (Cls re_space) re_space" by (rule takes_Cls)
  have c: "list_all (\<lambda>c. \<not> re_space c) [c]" using assignment(6) by (simp add: plain_def re_space_def)
  have "(last_of prev k, g @ s # h @ c # v) \<in> set (ends (Any secret_names) (prev, k @ g @ s # h @ c # v))"
    using assignment(2) by (rule ends_secret_name)
  moreover obtain q1 where "(q1, s # h @ c # v) \<in> set (ends spaces (last_of prev k, g @ s # h @ c # v))"
    using ends_Star [OF sp assignment(3)] unfolding spaces_def by blast
  moreover have "(Some s, h @ c # v) \<in> set (ends (Cls (\<lambda>c. c \<in> set '':='')) (q1, s # h @ c # v))"
    using assignment(4) by simp
  moreover obtain q2 where "(q2, c # v) \<in> set (ends spaces (Some s, h @ c # v))"
    using ends_Star [OF sp assignment(5)] unfolding spaces_def by blast
  moreover have "(last_of q2 [c], v) \<in> set (ends (AtLeast 1 not_space) (q2, [c] @ v))"
    unfolding not_space_def by (rule ends_AtLeast [OF takes_Cls c]) simp
  ultimately have "(last_of q2 [c], v) \<in> set (ends assignment_form (prev, w @ v))"
    unfolding assignment_form_def assignment(1) append.assoc append_Cons append_Nil
    by (intro ends_Seq_I)
  then have "(last_of q2 [c], v) \<in> set (ends credentialPattern (prev, w @ v))"
    unfolding credentialPattern_def by (rule ends_Any [rotated]) simp
  then show ?thesis by force
next
  case (bearer b g t)
  have b: "map lower_char b = ''bearer''" using bearer(2) by (simp add: to_lower_def)
  have t: "list_all (\<lambda>c. alpha (lower_char c) \<or> digit (lower_char c) \<or> lower_char c \<in> set ''._~+/=-'') t"
    using bearer(5) unfolding token_char_def .
  have "(last_of prev b, g @ t @ v) \<in> set (ends (Fold ''bearer'') (prev, b @ g @ t @ v))" using b by (rule ends_Fold)
  moreover obtain q where "(q, t @ v) \<in> set (ends (AtLeast 1 (Cls re_space)) (last_of prev b, g @ t @ v))"
    using ends_AtLeast [OF takes_Cls bearer(4), of 1] bearer(3) by (cases g) force+
  moreover obtain q2 where "(q2, v) \<in> set (ends (AtLeast 12 (Fold_cls (\<lambda>c. alpha c \<or> digit c \<or> c \<in> set ''._~+/=-''))) (q, t @ v))"
    using ends_AtLeast [OF takes_Fold_cls t bearer(6)] by blast
  ultimately have "(q2, v) \<in> set (ends bearer_form (prev, w @ v))"
    unfolding bearer_form_def bearer(1) append.assoc by (intro ends_Seq_I)
  then have "(q2, v) \<in> set (ends credentialPattern (prev, w @ v))"
    unfolding credentialPattern_def by (rule ends_Any [rotated]) simp
  then show ?thesis by force
next
  case (private_key a l b)
  have "(last_of prev a, l @ b @ v) \<in> set (ends (Fold ''-----begin '') (prev, a @ l @ b @ v))"
    using private_key(2) by (intro ends_Fold) (simp add: to_lower_def)
  moreover obtain q where "(q, b @ v) \<in> set (ends (Star (Fold_cls (\<lambda>c. alpha c \<or> c = CHR '' ''))) (last_of prev a, l @ b @ v))"
    using ends_Star [OF takes_Fold_cls private_key(3)] by blast
  moreover have "(last_of q b, v) \<in> set (ends (Fold ''private key-----'') (q, b @ v))"
    using private_key(4) by (intro ends_Fold) (simp add: to_lower_def)
  ultimately have "(last_of q b, v) \<in> set (ends privateKeyPattern (prev, w @ v))"
    unfolding privateKeyPattern_def private_key(1) append.assoc by (intro ends_Seq_I)
  then show ?thesis by force
qed

lemma disclosure_found:
  assumes "discloses w"
  shows "MatchString credentialPattern (u @ w @ v) \<or> MatchString privateKeyPattern (u @ w @ v)"
  using ends_discloses [OF assms, of "last_of None u" v] search_at unfolding MatchString_def by blast

lemma plain_lower: "plain (lower_char x) \<Longrightarrow> plain x"
proof (cases "65 \<le> byte x \<and> byte x \<le> 90")
  case False
  assume "plain (lower_char x)"
  moreover have "lower_char x = x"
    using False unfolding lower_char_def Let_def byte_def by (rule if_not_P)
  ultimately show ?thesis by simp
qed (simp add: plain_def)

lemma plain_alpha: "alpha c \<or> digit c \<Longrightarrow> plain c"
  by (auto simp: plain_def alpha_def digit_def)

lemma framed_lower:
  assumes "to_lower w = s" and "framed s"
  shows "framed w"
proof -
  have "w \<noteq> []" using assms by (auto simp: framed_def to_lower_def)
  with assms show ?thesis by (auto simp: framed_def to_lower_def hd_map last_map dest: plain_lower)
qed

lemma token_char_plain: "token_char c \<Longrightarrow> plain c"
  by (rule plain_lower) (auto simp: token_char_def plain_def alpha_def digit_def byte_def)

lemma framed_append: "framed a \<Longrightarrow> framed b \<Longrightarrow> framed (a @ m @ b)"
  by (simp add: framed_def)

lemma discloses_framed:
  assumes "discloses w"
  shows "framed w"
  using assms
proof cases
  case (assignment k g s h c)
  have "framed (to_lower k)" using assignment(2) by (auto simp: secret_name_def framed_def plain_def byte_def)
  then have "framed k" by (rule framed_lower [OF refl])
  moreover have "framed [c]" using assignment(6) by (simp add: framed_def)
  ultimately have "framed (k @ (g @ s # h) @ [c])" by (rule framed_append)
  then show ?thesis by (simp add: assignment(1))
next
  case (bearer b g t)
  have b: "framed b" using bearer(2) by (rule framed_lower) (simp add: framed_def plain_def byte_def)
  have t: "t \<noteq> []" using bearer(6) by auto
  have "plain c" if "c \<in> set t" for c using bearer(5) that token_char_plain unfolding list_all_iff by blast
  from this [OF hd_in_set [OF t]] this [OF last_in_set [OF t]] have "framed t" using t by (simp add: framed_def)
  with b show ?thesis by (simp add: bearer(1) framed_append)
next
  case (private_key a l b)
  have "plain x" if "lower_char x = CHR ''-''" for x
    by (rule plain_lower) (simp add: that plain_def byte_def)
  moreover have "a \<noteq> []" "b \<noteq> []" using private_key(2,4) by (auto simp: to_lower_def)
  moreover have "lower_char (hd a) = CHR ''-''" using private_key(2) by (cases a) (auto simp: to_lower_def)
  moreover have "lower_char (last b) = CHR ''-''"
    using arg_cong [OF private_key(4), of last] \<open>b \<noteq> []\<close> by (simp add: to_lower_def last_map)
  ultimately show ?thesis by (simp add: private_key(1) framed_def)
qed



section \<open>Paths\<close>

lemma clean_elems_rooted:
  "list_all proper out \<Longrightarrow> list_all (\<lambda>e. CHR ''/'' \<notin> set e) es \<Longrightarrow> list_all proper (clean_elems True es out)"
proof (induction es arbitrary: out)
  case (Cons e es)
  consider "e = [] \<or> e = ''.''" | "e = ''..''" "out = []" | p ps where "e = ''..''" "out = p # ps"
    | "e \<noteq> []" "e \<noteq> ''.''" "e \<noteq> ''..''"
    by (cases out) blast+
  then show ?case
  proof cases
    case (3 p ps)
    with Cons.prems have "p \<noteq> ''..''" by (auto simp: proper_def)
    with 3 Cons show ?thesis by simp
  next
    case 4
    with Cons show ?thesis by (simp add: proper_def)
  qed (use Cons in simp_all)
qed simp

lemma clean_absolute:
  assumes "is_abs p"
  shows "\<exists>names. list_all proper names \<and> clean p = CHR ''/'' # join ''/'' names"
proof -
  let ?out = "clean_elems True (split_on (CHR ''/'') p) []"
  have "list_all (\<lambda>e. CHR ''/'' \<notin> set e) (split_on (CHR ''/'') p)"
    using split_on_no_sep by (auto simp: list_all_iff)
  then have "list_all proper ?out" by (intro clean_elems_rooted) simp_all
  then have "list_all proper (rev ?out)" by (simp add: list_all_iff)
  moreover have "clean p = CHR ''/'' # join ''/'' (rev ?out)" using assms by (simp add: clean_def Let_def)
  ultimately show ?thesis by blast
qed

lemma clean_is_abs: "is_abs (clean p) \<Longrightarrow> is_abs p"
proof (rule ccontr)
  assume a: "is_abs (clean p)" and n: "\<not> is_abs p"
  from clean_relative [OF n] a obtain names where names: "names \<noteq> []" "list_all proper names" "clean p = join ''/'' names"
    by (auto simp: is_abs_def has_prefix_iff)
  then obtain x xs where x: "names = x # xs" "proper x" by (cases names) auto
  then obtain c cs where "x = c # cs" "c \<noteq> CHR ''/''" by (cases x) (auto simp: proper_def)
  with names x a show False by (cases xs) (auto simp: is_abs_def)
qed

lemma split_on_append: "split_on c (a @ c # b) = split_on c a @ split_on c b"
proof (induction a)
  case (Cons x a)
  then show ?case using split_on_not_Nil [of c a] by (cases "split_on c a") auto
qed simp

lemma split_on_join: "names \<noteq> [] \<Longrightarrow> list_all (\<lambda>e. c \<notin> set e) names \<Longrightarrow> split_on c (join [c] names) = names"
proof (induction "[c]" names rule: join.induct)
  case (3 s t ss)
  then show ?case by (simp add: split_on_snoc_sep)
qed (simp_all add: split_on_single)

text \<open>The absolute path of a repository path.\<close>

definition inside :: "string \<Rightarrow> string \<Rightarrow> string" where
  "inside root p = (if clean root = ''/'' then ''/'' @ p else clean root @ ''/'' @ p)"

lemma rel_inside_iff:
  assumes "r \<noteq> ''.''"
  shows "rel_inside (clean root) q = Some r \<longleftrightarrow> q = inside root r \<and> q \<noteq> clean root"
  using assms by (auto simp: rel_inside_def inside_def has_prefix_iff)

lemma inside_proper:
  assumes "is_abs root" and "clean loc = inside root r" and "r \<noteq> []"
  shows "list_all proper (split_on (CHR ''/'') r)"
proof -
  have "is_abs (clean root)" using clean_absolute [OF assms(1)] by (auto simp: is_abs_def)
  then have "is_abs (clean loc)" using assms(2) by (auto simp: inside_def is_abs_def)
  then obtain names where names: "list_all proper names" "clean loc = CHR ''/'' # join ''/'' names"
    using clean_absolute [OF clean_is_abs] by blast
  obtain pre where pre: "clean loc = pre @ CHR ''/'' # r" using assms(2) by (auto simp: inside_def split: if_splits)
  have "length (clean loc) = length pre + 1 + length r" by (simp add: pre)
  then have nonempty: "names \<noteq> []" using names(2) assms(3) by auto
  have "list_all (\<lambda>e. CHR ''/'' \<notin> set e) names" using names(1) by (auto simp: list_all_iff proper_def)
  then have "[] # names = split_on (CHR ''/'') (clean loc)"
    using nonempty unfolding names(2) by (simp add: split_on_join)
  then have split: "[] # names = split_on (CHR ''/'') pre @ split_on (CHR ''/'') r" unfolding pre split_on_append .
  obtain x xs where "split_on (CHR ''/'') pre = x # xs" using split_on_not_Nil by (metis list.exhaust)
  with split have "names = xs @ split_on (CHR ''/'') r" by simp
  with names(1) show ?thesis by simp
qed

lemma normalize_candidate_iff:
  "normalize_candidate fs cwd root c paths = Inr paths' \<longleftrightarrow>
    (\<exists>r. rel_inside (clean root) (clean (located fs cwd c)) = Some r \<and> SafeRepositoryPath r
       \<and> paths' = (if r \<in> set paths then paths else paths @ [r]))"
  by (auto simp: normalize_candidate_def SafeRepositoryPath_def split: option.splits)

text \<open>The repository path of each candidate.\<close>

definition path_in :: "resolver \<Rightarrow> string \<Rightarrow> string \<Rightarrow> string \<Rightarrow> string \<Rightarrow> bool" where
  "path_in fs cwd root c r \<longleftrightarrow> clean (located fs cwd c) = inside root r \<and> r \<noteq> [] \<and> r \<noteq> ''.''"

lemma rel_inside_safe:
  assumes "SafeRepositoryPath r"
  shows "rel_inside (clean root) (clean (located fs cwd c)) = Some r \<longleftrightarrow> path_in fs cwd root c r \<and> clean (located fs cwd c) \<noteq> clean root"
proof -
  have "r \<noteq> ''.''" "r \<noteq> []" using assms by (auto simp: SafeRepositoryPath_def validateSafePath_def)
  then show ?thesis using rel_inside_iff by (auto simp: path_in_def)
qed

lemma normalize_fold:
  assumes "foldE (normalize_candidate fs cwd root) cs acc = Inr found" and "distinct acc"
  shows "distinct found" and "\<forall>c \<in> set cs. \<exists>r. path_in fs cwd root c r \<and> r \<in> set found"
    and "\<forall>r \<in> set found. r \<in> set acc \<or> SafeRepositoryPath r \<and> (\<exists>c \<in> set cs. path_in fs cwd root c r)"
    and "set acc \<subseteq> set found"
proof -
  have "distinct found \<and> (\<forall>c \<in> set cs. \<exists>r. path_in fs cwd root c r \<and> r \<in> set found)
    \<and> (\<forall>r \<in> set found. r \<in> set acc \<or> SafeRepositoryPath r \<and> (\<exists>c \<in> set cs. path_in fs cwd root c r)) \<and> set acc \<subseteq> set found"
    using assms
  proof (induction cs arbitrary: acc)
    case (Cons c cs)
    then obtain acc' where acc': "normalize_candidate fs cwd root c acc = Inr acc'"
      "foldE (normalize_candidate fs cwd root) cs acc' = Inr found" by auto
    then obtain r where r: "path_in fs cwd root c r" "SafeRepositoryPath r" "acc' = (if r \<in> set acc then acc else acc @ [r])"
      unfolding normalize_candidate_iff using rel_inside_safe by blast
    have "distinct acc'" "set acc' = insert r (set acc)" using Cons.prems r(3) by auto
    with Cons.IH [OF acc'(2)] r(1,2) show ?case by auto
  qed simp
  then show "distinct found" and "\<forall>c \<in> set cs. \<exists>r. path_in fs cwd root c r \<and> r \<in> set found"
    and "\<forall>r \<in> set found. r \<in> set acc \<or> SafeRepositoryPath r \<and> (\<exists>c \<in> set cs. path_in fs cwd root c r)"
    and "set acc \<subseteq> set found" by blast+
qed

lemma safe_segments:
  assumes "SafeRepositoryPath r"
  shows "length r \<le> 512 \<and> NUL \<notin> set r \<and> list_all (\<lambda>g. \<not> protected_segment g) (split_on (CHR ''/'') (lower_text r))"
  using assms by (auto simp: SafeRepositoryPath_def validateSafePath_def Let_def list_all_iff list_ex_iff split: if_splits)


definition sample_event :: activity_event where
  "sample_event = \<lparr>ev_vendor = ''claude'', ev_cwd = ''/tmp/r'', ev_workstream_id = [], ev_session_alias = [], ev_kind = ''PreToolUse'',
     ev_status = ''active'', ev_action = [], ev_tool = ''Edit'', ev_agent_type = [], ev_subagent_alias = [],
     ev_candidate_paths = [''b/../c.go'', ''/tmp/r/a.go'', ''a.go''], ev_candidate_roots = [], ev_session_title = [],
     ev_transcript_path = [], ev_vendor_session_id = []\<rparr>"

text \<open>A temporary directory behind a symbolic link.\<close>

definition linked_tmp :: resolver where
  "linked_tmp = \<lparr>rv_wd = ''/'', rv_eval = (\<lambda>p. if p = ''/tmp'' then Some ''/private/tmp''
     else if p = ''/tmp/r'' then Some ''/private/tmp/r'' else None)\<rparr>"

lemma sample_normalized: "map_sum id ev_candidate_paths (NormalizePaths linked_tmp sample_event ''/tmp/r'') = Inr [''a.go'', ''c.go'']"
  by code_simp


text \<open>
  The protected directory of the Google Cloud credentials is recognised only below another directory:
  at the root of the repository its path has no slash in front.
\<close>

lemma gcloud_at_root_is_shared:
  "SafeRepositoryPath ''.config/gcloud/access_tokens.db'' \<and> \<not> SafeRepositoryPath ''home/.config/gcloud/access_tokens.db''"
  by code_simp

end
