(* ===== verification/App_Sessions.thy ===== *)
theory App_Sessions
  imports App_Service Agent_Activity
begin

text \<open>
  The calls of \<^verbatim>\<open>internal/app/app.go\<close> that concern one agent session: the request of the local IPC
  protocol (\<^verbatim>\<open>internal/daemon/daemon.go\<close>), the repository a working directory belongs to, focus, the
  injection of coordination items into a turn, and which session owns a directory
  (\<^verbatim>\<open>internal/app/session_identity.go\<close>).

  \<open>clock k\<close> is the \<open>k\<close>-th time a handler reads \<^verbatim>\<open>time.Now()\<close>. Resolving a path is the parameter \<open>fs\<close>:
  the working directory of the service and \<^verbatim>\<open>filepath.EvalSymlinks\<close> of an absolute path.
\<close>

section \<open>Requests\<close>

record verification_summary =
  vs_state :: string
  vs_check_kind :: string
  vs_label :: string
  vs_summary :: string
  vs_affected_component :: string
  vs_source :: string
  vs_observed_at :: string
  vs_manifest_revision :: int

record ipc_request =
  ir_method :: string
  ir_workspace_id :: string
  ir_project_id :: string
  ir_workstream_id :: string
  ir_member_id :: string
  ir_session_id :: string
  ir_root :: string
  ir_api_base_url :: string
  ir_device_id :: string
  ir_title :: string
  ir_intended_outcome :: string
  ir_approach_summary :: string
  ir_components :: "string list"
  ir_contracts :: "string list"
  ir_waiting_on :: "string list option"
  ir_anticipated_paths :: "string list"
  ir_plan_item_ids :: "string list"
  ir_idempotency_key :: string
  ir_trigger :: string
  ir_since_cursor :: string
  ir_checkpoint_id :: string
  ir_brief_id :: string
  ir_kind :: string
  ir_summary :: string
  ir_outcome :: string
  ir_revision :: int
  ir_manifest_revision :: int
  ir_token_budget :: int
  ir_discoveries :: "string list"
  ir_considered_item_ids :: "string list"
  ir_verification :: "verification_summary list"
  ir_agent_vendor :: string
  ir_agent_cwd :: string
  ir_agent_workstream_id :: string
  ir_agent_session_alias :: string
  ir_agent_event :: string
  ir_agent_status :: string
  ir_agent_action :: string
  ir_agent_tool :: string
  ir_agent_type :: string
  ir_agent_subagent_alias :: string
  ir_agent_paths :: "string list"
  ir_agent_candidate_roots :: "string list"
  ir_agent_session_title :: string
  ir_agent_transcript_path :: string
  ir_agent_vendor_session_id :: string
  ir_since_revision :: int
  ir_focus_seconds :: int

text \<open>A response: \<^term>\<open>Inl\<close> its \<^verbatim>\<open>Error\<close>, \<^term>\<open>Inr\<close> its \<^verbatim>\<open>Data\<close>.\<close>

type_synonym 'a response = "string + 'a"

definition class_char :: "string \<Rightarrow> char \<Rightarrow> bool" where
  "class_char extra c \<longleftrightarrow> (97 \<le> byte c \<and> byte c \<le> 122) \<or> (48 \<le> byte c \<and> byte c \<le> 57) \<or> c \<in> set extra"

text \<open>\<^verbatim>\<open>^[a-z][a-z0-9_]{2,127}$\<close>.\<close>

definition validContractID :: "string \<Rightarrow> bool" where
  "validContractID v = (case v of [] \<Rightarrow> False
     | c # cs \<Rightarrow> 97 \<le> byte c \<and> byte c \<le> 122 \<and> 2 \<le> length cs \<and> length cs \<le> 127 \<and> list_all (class_char ''_'') cs)"

section \<open>Which repository a directory belongs to\<close>

definition canonicalDirectory :: "resolver \<Rightarrow> string \<Rightarrow> string option" where
  "canonicalDirectory fs d =
     (if d = [] then None
      else let a = abs_of fs d in Some (clean (case rv_eval fs a of Some r \<Rightarrow> r | None \<Rightarrow> a)))"

text \<open>The loop keeps the registered root that contains the directory and is longest, the first of equals.\<close>

definition better_root :: "string \<Rightarrow> config_workspace \<Rightarrow> config_workspace option \<Rightarrow> config_workspace option" where
  "better_root p candidate selected =
     (if rel_inside (cw_root candidate) p = None then selected
      else case selected of
        None \<Rightarrow> Some candidate
      | Some w \<Rightarrow> if cw_root w = [] \<or> length (cw_root w) < length (cw_root candidate) then Some candidate else selected)"

definition workspaceForCWD :: "resolver \<Rightarrow> config \<Rightarrow> string \<Rightarrow> config_workspace option" where
  "workspaceForCWD fs c cwd =
     (case canonicalDirectory fs cwd of
        None \<Rightarrow> None
      | Some p \<Rightarrow>
          (case fold (better_root p) (cf_workspaces c) None of
             None \<Rightarrow> None
           | Some w \<Rightarrow> if cw_root w = [] then None else Some w))"

fun workspaceForAnyRoot_from :: "resolver \<Rightarrow> config \<Rightarrow> string list \<Rightarrow> (string \<times> config_workspace) option" where
  "workspaceForAnyRoot_from fs c [] = None"
| "workspaceForAnyRoot_from fs c (p # ps) =
     (if p = [] then workspaceForAnyRoot_from fs c ps
      else case workspaceForCWD fs c p of
        Some w \<Rightarrow> Some (p, w)
      | None \<Rightarrow> workspaceForAnyRoot_from fs c ps)"

definition workspaceForAnyRoot :: "resolver \<Rightarrow> config \<Rightarrow> string \<Rightarrow> string list \<Rightarrow> (string \<times> config_workspace) option" where
  "workspaceForAnyRoot fs c primary candidates = workspaceForAnyRoot_from fs c (primary # candidates)"

section \<open>Focus\<close>

definition focusState :: "string \<Rightarrow> int \<Rightarrow> bool \<Rightarrow> json" where
  "focusState session until focused =
     JMap ([(''sessionId'', JStr session), (''focused'', JBool focused)] @
       (if focused then [(''until'', JStr (rfc3339 until))] else []))"

text \<open>\<^verbatim>\<open>time.Duration(n) * time.Second\<close> on 64 bits.\<close>

definition seconds64 :: "int \<Rightarrow> int" where
  "seconds64 n = sint (of_int (n * second_ns) :: 64 word)"

definition handleFocus :: "ipc_request \<Rightarrow> int \<Rightarrow> db \<Rightarrow> json response \<times> db" where
  "handleFocus q now d =
     (let session = ir_agent_workstream_id q in
      if \<not> validContractID session then (Inl ''session id required'', d)
      else if ir_method q = ''focus'' then
        (case SetFocus session now (seconds64 (ir_focus_seconds q)) d of
           Inl e \<Rightarrow> (Inl (case e of ErrText t \<Rightarrow> t | _ \<Rightarrow> []), d)
         | Inr (until, d') \<Rightarrow> (Inr (focusState session until True), d'))
      else if ir_method q = ''unfocus'' then (Inr (focusState session zero_time False), ClearFocus session d)
      else let (until, focused) = FocusedUntil session now d in (Inr (focusState session until focused), d))"

section \<open>Injection\<close>

definition maxInjectionChars :: int where "maxInjectionChars = 3200"
definition injectionBudget :: int where "injectionBudget = 800"
definition midTurnWindow :: int where "midTurnWindow = 20 * second_ns"

definition claimMidTurnFetch :: "string \<Rightarrow> int \<Rightarrow> service \<Rightarrow> bool \<times> service" where
  "claimMidTurnFetch workstream now s =
     (let grant = (True, s\<lparr>sv_mid_turn := (sv_mid_turn s)(workstream \<mapsto> now)\<rparr>) in
      case sv_mid_turn s workstream of
        Some last_fetch \<Rightarrow> if now - last_fetch < midTurnWindow then (False, s) else grant
      | None \<Rightarrow> grant)"

definition one_line :: "string \<Rightarrow> string" where
  "one_line t = join '' '' (Go_Prelude.fields t)"

definition injectionLine :: "brief_item \<Rightarrow> string" where
  "injectionLine i =
     ''- '' @ one_line (bi_text i) @
     (let reason = one_line (bi_relevance_reason i) in if reason = [] then [] else '' Reason: '' @ reason) @
     (let action = one_line (bi_advisory_action i) in if action = [] then [] else '' Action: '' @ action @ ''.'') @ [LF]"

definition injection_header :: string where
  "injection_header = ''Coordination update:'' @ [LF]"

definition renderInjection :: "brief_item list \<Rightarrow> string" where
  "renderInjection items = (if items = [] then [] else injection_header @ concat (map injectionLine items))"

definition compact_reference :: "brief_item \<Rightarrow> brief_item" where
  "compact_reference i = i\<lparr>bi_text := ''Review coordination item '' @ bi_id i @ ''.'',
     bi_relevance_reason := ''Required context was compacted to honor the injection budget.'',
     bi_advisory_action := ''review_recommended''\<rparr>"

fun select_from :: "int \<Rightarrow> brief_item list \<Rightarrow> brief_item list" where
  "select_from used [] = []"
| "select_from used (i # items) =
     (let remaining = maxInjectionChars - used in
      if remaining \<le> 0 then []
      else if int (length (injectionLine i)) \<le> remaining
      then i # select_from (used + int (length (injectionLine i))) items
      else let r = compact_reference i in
        if remaining < int (length (injectionLine r)) then []
        else r # select_from (used + int (length (injectionLine r))) items)"

definition selectInjectionItems :: "brief_item list \<Rightarrow> brief_item list" where
  "selectInjectionItems items = select_from (int (length injection_header)) items"

definition item_key :: "brief_item \<Rightarrow> injection_item" where
  "item_key i = \<lparr>ii_id = bi_id i, ii_revision = bi_revision i\<rparr>"

record injection_result =
  ar_context :: string
  ar_item_ids :: "string list"

definition no_injection :: injection_result where
  "no_injection = \<lparr>ar_context = [], ar_item_ids = []\<rparr>"

text \<open>
  The part after the brief was fetched; \<open>expired\<close> says that the fetch deadline has passed when the
  items are about to be claimed.
\<close>

definition waiting_items :: "bool \<Rightarrow> injection_item list \<Rightarrow> brief_item list \<Rightarrow> brief_item list" where
  "waiting_items midTurn undelivered items = filter (\<lambda>i. item_key i \<in> set undelivered
     \<and> \<not> (midTurn \<and> bi_advisory_action i \<noteq> ''coordination_required'')) items"

definition deliver_items :: "string \<Rightarrow> bool \<Rightarrow> bool \<Rightarrow> int \<Rightarrow> brief_item list \<Rightarrow> db \<Rightarrow> injection_result \<times> db" where
  "deliver_items session midTurn expired now items d =
     (case UndeliveredInjectionItems session (map item_key items) d of
        Inl e \<Rightarrow> (no_injection, d)
      | Inr undelivered \<Rightarrow>
          if undelivered = [] then (no_injection, d)
          else
            let selected = selectInjectionItems (waiting_items midTurn undelivered items)
            in if expired then (no_injection, d)
               else case ClaimInjectionDeliveries session (map item_key selected) now d of
                 Inl e \<Rightarrow> (no_injection, d)
               | Inr (claimed, d') \<Rightarrow>
                   if claimed = [] then (no_injection, d')
                   else let given = filter (\<lambda>i. item_key i \<in> set claimed) selected
                        in if renderInjection given = [] then (no_injection, d')
                           else (\<lparr>ar_context = renderInjection given, ar_item_ids = map bi_id given\<rparr>, d'))"

text \<open>The part after the throttle of mid-turn fetches.\<close>

definition inject_session :: "sender_factory option \<Rightarrow> server \<Rightarrow> resolver \<Rightarrow> (nat \<Rightarrow> int) \<Rightarrow> bool \<Rightarrow> ipc_request \<Rightarrow> service
    \<Rightarrow> injection_result \<times> service" where
  "inject_session new_sender srv fs clock expired q s =
     (if ir_agent_vendor q \<noteq> ''claude'' \<and> ir_agent_vendor q \<noteq> ''codex'' \<and> ir_agent_vendor q \<noteq> ''cursor''
          \<or> \<not> validContractID (ir_agent_workstream_id q) then (no_injection, s)
      else case workspaceForAnyRoot fs (sv_config s) (ir_agent_cwd q) (ir_agent_candidate_roots q) of
        None \<Rightarrow> (no_injection, s)
      | Some (_, w) \<Rightarrow>
          let session = PublishedWorkstreamID (ir_agent_workstream_id q) (cw_project_id w) (cw_id w) in
          if snd (FocusedUntil session (clock 1) (sv_db s)) then (no_injection, s)
          else case senderForWorkspace new_sender w s of
            (None, s1) \<Rightarrow> (no_injection, s1)
          | (Some c, s1) \<Rightarrow>
              (case CreateBrief srv c session ''refresh'' [] injectionBudget (sv_wire s1) of
                 (Inl e, w') \<Rightarrow> (no_injection, s1\<lparr>sv_wire := w'\<rparr>)
               | (Inr brief, w') \<Rightarrow>
                   if br_items brief = [] then (no_injection, s1\<lparr>sv_wire := w'\<rparr>)
                   else let (r, d') = deliver_items session (ir_agent_event q = ''PostToolUse'') expired (clock 2)
                              (br_items brief) (sv_db s1)
                        in (r, s1\<lparr>sv_wire := w', sv_db := d'\<rparr>)))"

definition handleAgentInjection :: "sender_factory option \<Rightarrow> server \<Rightarrow> resolver \<Rightarrow> (nat \<Rightarrow> int) \<Rightarrow> bool \<Rightarrow> ipc_request \<Rightarrow> service
    \<Rightarrow> injection_result \<times> service" where
  "handleAgentInjection new_sender srv fs clock expired q s =
     (let midTurn = (ir_agent_event q = ''PostToolUse'') in
      if ir_agent_event q \<noteq> ''SessionStart'' \<and> ir_agent_event q \<noteq> ''UserPromptSubmit'' \<and> \<not> midTurn then (no_injection, s)
      else if midTurn
      then (case claimMidTurnFetch (ir_agent_workstream_id q) (clock 0) s of
          (False, s1) \<Rightarrow> (no_injection, s1)
        | (True, s1) \<Rightarrow> inject_session new_sender srv fs clock expired q s1)
      else inject_session new_sender srv fs clock expired q s)"

section \<open>Which session owns a directory\<close>

record thread =
  th_id :: string
  th_cwd :: string
  th_updated_at :: int

record session_resolution =
  sr_workstream_id :: string
  sr_identified :: bool
  sr_ambiguous :: bool

definition unresolved :: session_resolution where
  "unresolved = \<lparr>sr_workstream_id = [], sr_identified = False, sr_ambiguous = False\<rparr>"

definition agentSessionLiveWindow :: int where "agentSessionLiveWindow = 30 * minute_ns"

text \<open>The workstreams of the recent threads of a directory; \<^term>\<open>None\<close> when one has no identity.\<close>

fun thread_workstreams :: "resolver \<Rightarrow> string \<Rightarrow> int \<Rightarrow> thread list \<Rightarrow> string list \<Rightarrow> string list option" where
  "thread_workstreams fs cwd cutoff [] acc = Some acc"
| "thread_workstreams fs cwd cutoff (t # ts) acc =
     (if canonicalDirectory fs (th_cwd t) \<noteq> Some cwd \<or> th_updated_at t < cutoff
      then thread_workstreams fs cwd cutoff ts acc
      else case WorkstreamIDFor ''codex'' (th_id t) of
        None \<Rightarrow> None
      | Some (ws, _) \<Rightarrow> thread_workstreams fs cwd cutoff ts (List.insert ws acc))"

definition handleAgentSessionResolution :: "resolver \<Rightarrow> (string \<Rightarrow> thread list option) \<Rightarrow> int \<Rightarrow> ipc_request \<Rightarrow> service \<Rightarrow> session_resolution" where
  "handleAgentSessionResolution fs threads now q s =
     (if ir_agent_vendor q \<noteq> ''codex'' then unresolved
      else case canonicalDirectory fs (ir_agent_cwd q) of
        None \<Rightarrow> unresolved
      | Some cwd \<Rightarrow>
          (case workspaceForCWD fs (sv_config s) cwd of
             None \<Rightarrow> unresolved
           | Some w \<Rightarrow>
               (case ActiveAgentSessions (cw_id w) ''codex'' cwd (now - agentSessionLiveWindow) (sv_db s) of
                  Inl e \<Rightarrow> unresolved
                | Inr sessions \<Rightarrow>
                    if 1 < length sessions then unresolved\<lparr>sr_ambiguous := True\<rparr>
                    else if sessions \<noteq> []
                    then unresolved\<lparr>sr_workstream_id := a_workstream_id (hd sessions), sr_identified := True\<rparr>
                    else (case threads cwd of
                        None \<Rightarrow> unresolved
                      | Some ts \<Rightarrow>
                          (case thread_workstreams fs cwd (unix_sec (now - agentSessionLiveWindow)) ts [] of
                             None \<Rightarrow> unresolved
                           | Some found \<Rightarrow>
                               if length found \<noteq> 1 then unresolved\<lparr>sr_ambiguous := 1 < length found\<rparr>
                               else unresolved\<lparr>sr_workstream_id := hd found, sr_identified := True\<rparr>)))))"

end
