(* ===== verification/Contract_Symbol.thy ===== *)
theory Contract_Symbol
  imports Agent_Activity "HOL-Library.Multiset"
begin

text \<open>
  One exported declaration of a file (\<^verbatim>\<open>internal/contract/fingerprint\<close>, \<^verbatim>\<open>newSymbol\<close> and
  \<^verbatim>\<open>normalizeSignature\<close> of \<^verbatim>\<open>internal/contract/contract.go\<close>): its normalized signature and hash.
\<close>

section \<open>Symbols\<close>

record symbol =
  sy_name :: string
  sy_kind :: string
  sy_signature :: string
  sy_hash :: string

definition MaxSignatureRunes :: nat where "MaxSignatureRunes = 500"
definition MaxSourceBytes :: nat where "MaxSourceBytes = 2 ^ 20"
definition MaxSymbols :: nat where "MaxSymbols = 200"
definition TruncationMarker :: string where "TruncationMarker = [CHR 0xE2, CHR 0x80, CHR 0xA6]"

text \<open>\<^verbatim>\<open>string([]rune(s)[:n])\<close>: an invalid byte becomes the replacement character.\<close>

fun take_runes :: "nat \<Rightarrow> string \<Rightarrow> string" where
  "take_runes 0 s = []"
| "take_runes (Suc n) s =
     (if s = [] then []
      else let w = rune_width s in
        if w = 0 then [CHR 0xEF, CHR 0xBF, CHR 0xBD] @ take_runes n (drop 1 s)
        else take w s @ take_runes n (drop w s))"

definition normalizeSignature :: "string \<Rightarrow> string" where
  "normalizeSignature raw =
     (let sig = join '' '' (Go_Prelude.fields raw) in
      if rune_count sig \<le> MaxSignatureRunes then sig
      else take_runes (MaxSignatureRunes - rune_count TruncationMarker) sig @ TruncationMarker)"

definition newSymbol :: "string \<Rightarrow> string \<Rightarrow> string \<Rightarrow> symbol" where
  "newSymbol name kind raw =
     (let sig = normalizeSignature raw
      in \<lparr>sy_name = name, sy_kind = kind, sy_signature = sig, sy_hash = sha256_hex sig\<rparr>)"

text \<open>\<^verbatim>\<open>strings.LastIndexByte\<close>.\<close>

definition last_index :: "char \<Rightarrow> string \<Rightarrow> nat option" where
  "last_index c s = (if c \<in> set s then Some (length s - 1 - length (takeWhile (\<lambda>x. x \<noteq> c) (rev s))) else None)"

text \<open>A declaration as the rules of a language find it, before normalization.\<close>

record raw_declaration =
  de_name :: string
  de_kind :: string
  de_raw :: string

end
