(* ===== verification/Contract_TypeScript.thy ===== *)
theory Contract_TypeScript
  imports Contract_Symbol
begin

text \<open>
  The bounded scanner that records the exported surface of a TypeScript file
  (\<^verbatim>\<open>internal/contract/typescript.go\<close>).

  A rune is the byte sequence that encodes it, an invalid byte the encoding of the replacement
  character, so \<^verbatim>\<open>[]rune(string(source))\<close> is \<open>runes_of source\<close> and writing runes is \<^term>\<open>concat\<close>. The
  scanner's two arrays \<^verbatim>\<open>runes\<close> and \<^verbatim>\<open>kinds\<close> are one list of pairs, and a position in them is the
  rest of that list. The loop over declarations continues where the last one ended, wherever that
  is, so it is a \<^verbatim>\<open>partial_function\<close>: that it ends is a theorem.
\<close>

section \<open>Runes\<close>

type_synonym rune = string

function runes_of :: "string \<Rightarrow> rune list" where
  "runes_of s =
     (if s = [] then []
      else if rune_width s = 0 then [CHR 0xEF, CHR 0xBF, CHR 0xBD] # runes_of (drop 1 s)
      else take (rune_width s) s # runes_of (drop (rune_width s) s))"
  by pat_completeness auto
termination
  by (relation "measure length") auto

declare runes_of.simps [simp del]

definition LINE :: rune where "LINE = [LF]"

definition blank :: "rune \<Rightarrow> bool" where
  "blank r \<longleftrightarrow> r \<in> set ['' '', [CHR 0x09], [CR], LINE]"

definition in_runes :: "rune \<Rightarrow> string \<Rightarrow> bool" where
  "in_runes r s \<longleftrightarrow> (\<exists>c \<in> set s. r = [c])"

definition identifier_char :: "char \<Rightarrow> bool" where
  "identifier_char c \<longleftrightarrow> c = CHR ''_'' \<or> c = CHR ''$'' \<or> 97 \<le> byte c \<and> byte c \<le> 122
     \<or> 65 \<le> byte c \<and> byte c \<le> 90 \<or> 48 \<le> byte c \<and> byte c \<le> 57"

definition identifierRune :: "rune \<Rightarrow> bool" where
  "identifierRune r \<longleftrightarrow> (case r of [c] \<Rightarrow> identifier_char c | _ \<Rightarrow> False)"

definition identifier_word :: "string \<Rightarrow> bool" where
  "identifier_word w \<longleftrightarrow> w \<noteq> [] \<and> list_all identifier_char w \<and> \<not> (48 \<le> byte (hd w) \<and> byte (hd w) \<le> 57)"

section \<open>Comments and strings\<close>

datatype ts_kind = TsCode | TsComment | TsString

type_synonym token = "rune \<times> ts_kind"

text \<open>What a block comment and a string literal take, and what follows; \<^term>\<open>None\<close> when they do not end.\<close>

fun block_comment :: "rune list \<Rightarrow> (rune list \<times> rune list) option" where
  "block_comment [] = None"
| "block_comment (a # rs) =
     (if a = ''*'' \<and> rs \<noteq> [] \<and> hd rs = ''/'' then Some ([a, hd rs], tl rs)
      else map_option (\<lambda>(x, y). (a # x, y)) (block_comment rs))"

fun string_literal :: "rune \<Rightarrow> rune list \<Rightarrow> (rune list \<times> rune list) option" where
  "string_literal q [] = None"
| "string_literal q [a] = (if a = [CHR 0x5C] \<or> q \<noteq> ''`'' \<and> a = LINE then None else if a = q then Some ([a], []) else None)"
| "string_literal q (a # b # rs) =
     (if a = [CHR 0x5C] then map_option (\<lambda>(x, y). (a # b # x, y)) (string_literal q rs)
      else if q \<noteq> ''`'' \<and> a = LINE then None
      else if a = q then Some ([a], b # rs)
      else map_option (\<lambda>(x, y). (a # x, y)) (string_literal q (b # rs)))"

lemma block_comment_parts: "block_comment rs = Some (x, y) \<Longrightarrow> rs = x @ y \<and> x \<noteq> []"
proof (induction rs arbitrary: x)
  case (Cons a rs)
  show ?case
  proof (cases "a = ''*'' \<and> rs \<noteq> [] \<and> hd rs = ''/''")
    case True
    with Cons.prems show ?thesis by (cases rs) auto
  next
    case False
    with Cons.prems obtain x' where "block_comment rs = Some (x', y)" "x = a # x'"
      by (auto split: if_splits)
    with Cons.IH show ?thesis by simp
  qed
qed simp

lemma string_literal_parts: "string_literal q rs = Some (x, y) \<Longrightarrow> rs = x @ y \<and> x \<noteq> []"
proof (induction q rs arbitrary: x rule: string_literal.induct)
  case (3 q a b rs)
  consider "a = [CHR 0x5C]" | "a \<noteq> [CHR 0x5C]" "a = q" "x = [a]" "y = b # rs"
    | "a \<noteq> [CHR 0x5C]" "\<not> (q \<noteq> ''`'' \<and> a = LINE)" "a \<noteq> q"
    using "3.prems" by (auto split: if_splits)
  then show ?case
  proof cases
    case 1
    with "3.prems" obtain x' where "string_literal q rs = Some (x', y)" "x = a # b # x'" by auto
    with "3.IH"(1) [OF 1] show ?thesis by simp
  next
    case 3
    with "3.prems" obtain x' where "string_literal q (b # rs) = Some (x', y)" "x = a # x'" by auto
    with "3.IH"(2) [OF 3] show ?thesis by simp
  qed simp
qed (auto split: if_splits)

definition tag :: "ts_kind \<Rightarrow> rune list \<Rightarrow> token list" where
  "tag k rs = map (\<lambda>r. (r, k)) rs"

function classifyTypeScript :: "rune list \<Rightarrow> token list option" where
  "classifyTypeScript rs =
     (case rs of [] \<Rightarrow> Some []
      | a # rest \<Rightarrow>
          if a = ''/'' \<and> rest \<noteq> [] \<and> hd rest = ''/'' then
            map_option (\<lambda>ts. tag TsComment (takeWhile (\<lambda>r. r \<noteq> LINE) rs) @ ts) (classifyTypeScript (dropWhile (\<lambda>r. r \<noteq> LINE) rs))
          else if a = ''/'' \<and> rest \<noteq> [] \<and> hd rest = ''*'' then
            (case block_comment (tl rest) of None \<Rightarrow> None
             | Some (x, y) \<Rightarrow> map_option (\<lambda>ts. tag TsComment ([a, hd rest] @ x) @ ts) (classifyTypeScript y))
          else if a \<in> set [[CHR 0x27], [CHR 0x22], ''`''] then
            (case string_literal a rest of None \<Rightarrow> None
             | Some (x, y) \<Rightarrow> map_option (\<lambda>ts. tag TsString (a # x) @ ts) (classifyTypeScript y))
          else map_option (\<lambda>ts. (a, TsCode) # ts) (classifyTypeScript rest))"
  by pat_completeness auto
termination
proof (relation "measure length", goal_cases)
  case (2 rs a rest)
  have "length (dropWhile (\<lambda>r. r \<noteq> LINE) rest) \<le> length rest" by (rule length_dropWhile_le)
  with 2 show ?case by (simp add: LINE_def LF_def)
next
  case (3 rs a rest p x y)
  with block_comment_parts [of "tl rest" x y] show ?case by (cases rest) auto
next
  case (4 rs a rest p x y)
  with string_literal_parts [of a rest x y] show ?case by auto
qed auto

declare classifyTypeScript.simps [simp del]

section \<open>Words\<close>

definition nextWord :: "token list \<Rightarrow> string \<times> token list" where
  "nextWord ts =
     (let rest = dropWhile (\<lambda>(r, k). k = TsComment \<or> blank r \<or> r = ''*'') ts;
          word = takeWhile (\<lambda>(r, k). k = TsCode \<and> identifierRune r) rest
      in (concat (map fst word), drop (length word) rest))"

definition wordAt :: "token list \<Rightarrow> string \<Rightarrow> bool" where
  "wordAt ts w \<longleftrightarrow>
     (let n = length w in
      take n ts = map (\<lambda>c. ([c], TsCode)) w \<and> (length ts = n \<or> \<not> identifierRune (fst (ts ! n))))"

section \<open>Declarations\<close>

datatype stopMode = StopBody | StopAssign | StopStatement

definition maxDeclarationRunes :: nat where "maxDeclarationRunes = 4000"

definition typePositionBrace :: "rune \<Rightarrow> string \<Rightarrow> bool" where
  "typePositionBrace previous w \<longleftrightarrow> in_runes previous '':|&,=([<''
     \<or> w \<in> set [''keyof'', ''typeof'', ''infer'', ''as'', ''is'', ''satisfies'']"

definition continuesAfter :: "rune \<Rightarrow> string \<Rightarrow> bool" where
  "continuesAfter previous w \<longleftrightarrow> in_runes previous ''=|&,<([{?:.+-*/!~^''
     \<or> w \<in> set [''extends'', ''keyof'', ''typeof'', ''infer'', ''readonly'', ''in'', ''as'', ''is'', ''new'', ''satisfies'']"

text \<open>The argument is what follows the line feed.\<close>

fun continuesBefore :: "token list \<Rightarrow> bool" where
  "continuesBefore [] = False"
| "continuesBefore ((r, k) # ts) =
     (if k = TsComment \<or> blank r then continuesBefore ts
      else if k = TsString then False
      else if in_runes r ''|&?:=.,<>)]}'' then True
      else fst (nextWord ((r, k) # ts)) = ''extends'')"

record nesting =
  ne_paren :: nat
  ne_bracket :: nat
  ne_brace :: nat
  ne_angle :: nat
  ne_previous :: rune
  ne_word :: string

definition nested_balanced :: "nesting \<Rightarrow> bool" where
  "nested_balanced n \<longleftrightarrow> ne_paren n = 0 \<and> ne_bracket n = 0 \<and> ne_brace n = 0 \<and> ne_angle n = 0"

text \<open>One rune of code: stop here, give up, or go on with other nesting.\<close>

datatype scan_step = StopHere | GiveUp | GoOn nesting

definition note_rune :: "rune \<Rightarrow> nesting \<Rightarrow> nesting" where
  "note_rune r n =
     (if blank r then n
      else n\<lparr>ne_word := (if identifierRune r then ne_word n @ r else []), ne_previous := r\<rparr>)"

definition scan_rune :: "stopMode \<Rightarrow> nesting \<Rightarrow> rune \<Rightarrow> token list \<Rightarrow> scan_step" where
  "scan_rune mode n r rest =
     (let balanced = nested_balanced n in
      if r = ''('' then GoOn (note_rune r (n\<lparr>ne_paren := ne_paren n + 1\<rparr>))
      else if r = '')'' then
        (if ne_paren n = 0 then GiveUp else GoOn (note_rune r (n\<lparr>ne_paren := ne_paren n - 1\<rparr>)))
      else if r = ''['' then GoOn (note_rune r (n\<lparr>ne_bracket := ne_bracket n + 1\<rparr>))
      else if r = '']'' then
        (if ne_bracket n = 0 then GiveUp else GoOn (note_rune r (n\<lparr>ne_bracket := ne_bracket n - 1\<rparr>)))
      else if r = ''<'' then
        GoOn (note_rune r (if identifierRune (ne_previous n) \<or> ne_previous n = ''>'' then n\<lparr>ne_angle := ne_angle n + 1\<rparr> else n))
      else if r = ''>'' then GoOn (note_rune r (if 0 < ne_angle n then n\<lparr>ne_angle := ne_angle n - 1\<rparr> else n))
      else if r = ''{'' then
        (if mode = StopBody \<and> balanced \<and> \<not> typePositionBrace (ne_previous n) (ne_word n) then StopHere
         else GoOn (note_rune r (n\<lparr>ne_brace := ne_brace n + 1\<rparr>)))
      else if r = ''}'' then
        (if ne_brace n = 0 then GiveUp else GoOn (note_rune r (n\<lparr>ne_brace := ne_brace n - 1\<rparr>)))
      else if r = '';'' then (if balanced then StopHere else GoOn (note_rune r n))
      else if r = ''='' then (if mode = StopAssign \<and> balanced then StopHere else GoOn (note_rune r n))
      else if r = LINE then
        (if mode \<noteq> StopBody \<and> balanced \<and> \<not> continuesAfter (ne_previous n) (ne_word n) \<and> \<not> continuesBefore rest
         then StopHere else GoOn (note_rune r n))
      else GoOn (note_rune r n))"

text \<open>How many tokens the captured header has; the first argument is what is left of the limit.\<close>

fun scan_header :: "nat \<Rightarrow> stopMode \<Rightarrow> nesting \<Rightarrow> token list \<Rightarrow> nat option" where
  "scan_header 0 mode n ts = None"
| "scan_header (Suc l) mode n [] = None"
| "scan_header (Suc l) mode n ((r, k) # ts) =
     (case k of
        TsComment \<Rightarrow> map_option Suc (scan_header l mode n ts)
      | TsString \<Rightarrow> map_option Suc (scan_header l mode (n\<lparr>ne_previous := r, ne_word := []\<rparr>) ts)
      | TsCode \<Rightarrow>
          (case scan_rune mode n r ts of
             StopHere \<Rightarrow> Some 0 | GiveUp \<Rightarrow> None
           | GoOn n' \<Rightarrow> map_option Suc (scan_header l mode n' ts)))"

definition no_nesting :: nesting where
  "no_nesting = \<lparr>ne_paren = 0, ne_bracket = 0, ne_brace = 0, ne_angle = 0, ne_previous = [NUL], ne_word = []\<rparr>"

definition scanDeclaration :: "token list \<Rightarrow> stopMode \<Rightarrow> nat option" where
  "scanDeclaration ts mode = scan_header maxDeclarationRunes mode no_nesting ts"

definition declarationText :: "token list \<Rightarrow> string" where
  "declarationText ts = concat (map (\<lambda>(r, k). if k = TsComment then '' '' else r) ts)"

definition kindFunction :: string where "kindFunction = ''function''"
definition kindClass :: string where "kindClass = ''class''"
definition kindInterface :: string where "kindInterface = ''interface''"
definition kindEnum :: string where "kindEnum = ''enum''"
definition kindAlias :: string where "kindAlias = ''type''"
definition kindConstant :: string where "kindConstant = ''const''"

lemma nextWord_shorter: "nextWord ts = (w, rest) \<Longrightarrow> w \<noteq> [] \<Longrightarrow> length rest < length ts"
proof -
  assume n: "nextWord ts = (w, rest)" and w: "w \<noteq> []"
  let ?r = "dropWhile (\<lambda>(r, k). k = TsComment \<or> blank r \<or> r = ''*'') ts"
  let ?w = "takeWhile (\<lambda>(r, k). k = TsCode \<and> identifierRune r) ?r"
  have "w = concat (map fst ?w)" "rest = drop (length ?w) ?r" using n by (auto simp: nextWord_def Let_def)
  moreover from this w have "?w \<noteq> []" by auto
  moreover have "length ?w \<le> length ?r" by (rule length_takeWhile_le)
  moreover have "length ?r \<le> length ts" by (rule length_dropWhile_le)
  ultimately show ?thesis by (cases "?w") (simp, simp only: length_drop, linarith?, simp)
qed

text \<open>The modifiers before the keyword.\<close>

function skip_modifiers :: "string \<times> token list \<Rightarrow> string \<times> token list" where
  "skip_modifiers (w, ts) = (if w \<in> {''declare'', ''abstract'', ''async''} then skip_modifiers (nextWord ts) else (w, ts))"
  by pat_completeness auto
termination
proof (relation "measure (\<lambda>(w, ts). if w = [] then 0 else Suc (length ts))", simp)
  fix w :: string and ts :: "token list"
  assume "w \<in> {''declare'', ''abstract'', ''async''}"
  then have "w \<noteq> []" by auto
  moreover obtain v rest where n: "nextWord ts = (v, rest)" by (cases "nextWord ts")
  ultimately show "(nextWord ts, w, ts) \<in> measure (\<lambda>(w, ts). if w = [] then 0 else Suc (length ts))"
    using nextWord_shorter [OF n] by (cases "v = []") simp_all
qed

declare skip_modifiers.simps [simp del]

text \<open>The symbol and what follows the captured header, if the declaration is one of the recorded forms.\<close>

definition parseExport :: "token list \<Rightarrow> (symbol \<times> token list) option" where
  "parseExport ts =
     (let (word, after) = skip_modifiers (nextWord (drop (length ''export'') ts));
          form = (if word = ''function'' then Some (kindFunction, StopBody, after)
            else if word = ''class'' then Some (kindClass, StopBody, after)
            else if word = ''interface'' then Some (kindInterface, StopBody, after)
            else if word = ''enum'' then Some (kindEnum, StopBody, after)
            else if word = ''type'' then Some (kindAlias, StopStatement, after)
            else if word = ''const'' then
              (let (peek, beyond) = nextWord after in
               if peek = ''enum'' then Some (kindEnum, StopBody, beyond) else Some (kindConstant, StopAssign, after))
            else None) in
      case form of None \<Rightarrow> None
      | Some (kind, mode, rest) \<Rightarrow>
          (let name = fst (nextWord rest) in
           if \<not> identifier_word name then None
           else case scanDeclaration ts mode of
                  None \<Rightarrow> None
                | Some stop \<Rightarrow> Some (newSymbol name kind (declarationText (take stop ts)), drop stop ts)))"

record depth =
  dp_brace :: nat
  dp_paren :: nat
  dp_bracket :: nat

definition at_top :: "depth \<Rightarrow> bool" where
  "at_top d \<longleftrightarrow> dp_brace d = 0 \<and> dp_paren d = 0 \<and> dp_bracket d = 0"

text \<open>Brackets of code outside the recorded headers; \<^term>\<open>None\<close> when one closes that was not opened.\<close>

definition count_rune :: "rune \<Rightarrow> depth \<Rightarrow> depth option" where
  "count_rune r d =
     (if r = ''{'' then Some (d\<lparr>dp_brace := dp_brace d + 1\<rparr>)
      else if r = ''}'' then (if dp_brace d = 0 then None else Some (d\<lparr>dp_brace := dp_brace d - 1\<rparr>))
      else if r = ''('' then Some (d\<lparr>dp_paren := dp_paren d + 1\<rparr>)
      else if r = '')'' then (if dp_paren d = 0 then None else Some (d\<lparr>dp_paren := dp_paren d - 1\<rparr>))
      else if r = ''['' then Some (d\<lparr>dp_bracket := dp_bracket d + 1\<rparr>)
      else if r = '']'' then (if dp_bracket d = 0 then None else Some (d\<lparr>dp_bracket := dp_bracket d - 1\<rparr>))
      else Some d)"

text \<open>
  The loop: the outer option is whether it returns, the inner one is its boolean result.
\<close>

partial_function (option) scan_exports :: "depth \<Rightarrow> bool \<Rightarrow> symbol list \<Rightarrow> token list \<Rightarrow> symbol list option option" where
  "scan_exports d lineStart symbols ts =
     (case ts of [] \<Rightarrow> Some (if at_top d then Some symbols else None)
      | (r, k) # rest \<Rightarrow>
          if r = LINE then scan_exports d True symbols rest
          else if k \<noteq> TsCode \<or> blank r then scan_exports d lineStart symbols rest
          else case (if lineStart \<and> at_top d \<and> wordAt ts ''export'' then parseExport ts else None) of
                 Some (symbol, following) \<Rightarrow> scan_exports d False (symbols @ [symbol]) following
               | None \<Rightarrow>
                   (case count_rune r d of None \<Rightarrow> Some None
                    | Some d' \<Rightarrow> scan_exports d' False symbols rest))"

definition top_level :: depth where "top_level = \<lparr>dp_brace = 0, dp_paren = 0, dp_bracket = 0\<rparr>"

definition run_typescript :: "string \<Rightarrow> symbol list option option" where
  "run_typescript source =
     (case classifyTypeScript (runes_of source) of None \<Rightarrow> Some None
      | Some ts \<Rightarrow> scan_exports top_level True [] ts)"

definition extractTypeScript :: "string \<Rightarrow> symbol list option" where
  "extractTypeScript source = (case run_typescript source of Some r \<Rightarrow> r | None \<Rightarrow> None)"

section \<open>The loop ends\<close>

text \<open>A declaration that is recorded captures at least its keyword.\<close>

lemma scan_header_le: "scan_header l mode n ts = Some stop \<Longrightarrow> stop < length ts \<and> stop < l"
proof (induction l mode n ts arbitrary: stop rule: scan_header.induct)
  case (3 l mode n r k ts)
  show ?case
  proof (cases k)
    case TsCode
    with 3 show ?thesis by (cases "scan_rune mode n r ts") (auto dest!: "3.IH"(3))
  qed (use 3 in auto)
qed simp_all

lemma keyword_goes_on: "scan_rune mode n ''e'' rest = GoOn (note_rune ''e'' n)"
  by (simp add: scan_rune_def Let_def LINE_def LF_def)

lemma header_of_export:
  assumes "wordAt ts ''export''" and "scanDeclaration ts mode = Some stop"
  shows "0 < stop \<and> stop < length ts"
proof -
  from assms(1) obtain rest where "ts = (''e'', TsCode) # rest"
    by (cases ts) (auto simp: wordAt_def Let_def)
  with assms(2) scan_header_le show ?thesis
    by (auto simp: scanDeclaration_def maxDeclarationRunes_def keyword_goes_on numeral_eq_Suc)
qed

lemma parseExport_rest:
  assumes "parseExport ts = Some (symbol, following)"
  shows "\<exists>name kind mode stop. scanDeclaration ts mode = Some stop \<and> following = drop stop ts \<and> identifier_word name
    \<and> kind \<in> {kindFunction, kindClass, kindInterface, kindEnum, kindAlias, kindConstant}
    \<and> symbol = newSymbol name kind (declarationText (take stop ts))"
  using assms unfolding parseExport_def Let_def
  by (auto split: prod.splits option.splits if_splits)

lemma parseExport_shorter:
  "wordAt ts ''export'' \<Longrightarrow> parseExport ts = Some (symbol, following) \<Longrightarrow> length following < length ts"
  using parseExport_rest [of ts symbol following] header_of_export by force

lemma scan_exports_returns: "\<exists>res. scan_exports d lineStart symbols ts = Some res"
proof (induction "length ts" arbitrary: d lineStart symbols ts rule: less_induct)
  case less
  show ?case
  proof (cases ts)
    case Nil
    then show ?thesis by (subst scan_exports.simps) simp
  next
    case (Cons t rest)
    obtain r k where t: "t = (r, k)" by (cases t)
    have rest: "\<exists>res. scan_exports d' l' s' rest = Some res" for d' l' s' using less Cons by simp
    show ?thesis
    proof (cases "(if lineStart \<and> at_top d \<and> wordAt ts ''export'' then parseExport ts else None)")
      case None
      with rest Cons t show ?thesis by (subst scan_exports.simps) (auto split: option.splits)
    next
      case (Some a)
      obtain symbol following where a: "a = (symbol, following)" by (cases a)
      with Some have "length following < length ts" using parseExport_shorter by (auto split: if_splits)
      with less have "\<exists>res. scan_exports False' l' s' following = Some res" for False' l' s' by blast
      with rest Some a Cons t show ?thesis by (subst scan_exports.simps) auto
    qed
  qed
qed

text \<open>C31. The scanner returns on every file: whatever the runes are, and wherever the scan of one
  declaration stops, the loop over the declarations ends, with a surface or with none.\<close>

theorem typescript_scan_returns:
  "\<exists>result. run_typescript source = Some result \<and> extractTypeScript source = result"
proof -
  obtain result where "run_typescript source = Some result"
    using scan_exports_returns by (cases "classifyTypeScript (runes_of source)") (force simp: run_typescript_def)+
  then show ?thesis by (simp add: extractTypeScript_def)
qed

section \<open>What is recorded\<close>

text \<open>The depth of code brackets after some tokens, if none of them closes what was not opened.\<close>

fun count_tokens :: "token list \<Rightarrow> depth \<Rightarrow> depth option" where
  "count_tokens [] d = Some d"
| "count_tokens ((r, k) # ts) d =
     (if k = TsCode then (case count_rune r d of None \<Rightarrow> None | Some d' \<Rightarrow> count_tokens ts d') else count_tokens ts d)"

lemma count_append: "count_tokens (a @ b) d = (case count_tokens a d of None \<Rightarrow> None | Some d' \<Rightarrow> count_tokens b d')"
  by (induction a d rule: count_tokens.induct) (auto split: option.splits)

definition depth_of :: "nesting \<Rightarrow> depth" where
  "depth_of n = \<lparr>dp_brace = ne_brace n, dp_paren = ne_paren n, dp_bracket = ne_bracket n\<rparr>"

lemma depth_of_note [simp]: "depth_of (note_rune r n) = depth_of n"
  by (simp add: depth_of_def note_rune_def)

lemma scan_rune_depth: "scan_rune mode n r rest = GoOn n' \<Longrightarrow> count_rune r (depth_of n) = Some (depth_of n')"
  by (cases "r = ''(''"; cases "r = '')''"; cases "r = ''[''"; cases "r = '']''"; cases "r = ''{''"; cases "r = ''}''")
    (auto simp: scan_rune_def count_rune_def Let_def depth_of_def note_rune_def split: if_splits)

lemma scan_rune_stop: "scan_rune mode n r rest = StopHere \<Longrightarrow> nested_balanced n"
  by (auto simp: scan_rune_def Let_def split: if_splits)

lemma header_depth:
  "scan_header l mode n ts = Some stop \<Longrightarrow> \<exists>n'. count_tokens (take stop ts) (depth_of n) = Some (depth_of n') \<and> nested_balanced n'"
proof (induction l mode n ts arbitrary: stop rule: scan_header.induct)
  case (3 l mode n r k ts)
  show ?case
  proof (cases k)
    case TsCode
    show ?thesis
    proof (cases "scan_rune mode n r ts")
      case StopHere
      with 3 TsCode scan_rune_stop show ?thesis by auto
    next
      case GiveUp
      with 3 TsCode show ?thesis by simp
    next
      case (GoOn n')
      with "3.prems" TsCode obtain stop' where stop': "scan_header l mode n' ts = Some stop'" "stop = Suc stop'" by auto
      from "3.IH"(1) [OF TsCode GoOn stop'(1)] scan_rune_depth [OF GoOn] TsCode stop'(2) show ?thesis by simp
    qed
  next
    case TsComment
    with "3.prems" obtain stop' where stop': "scan_header l mode n ts = Some stop'" "stop = Suc stop'" by auto
    from "3.IH"(2) [OF TsComment stop'(1)] TsComment stop'(2) show ?thesis by simp
  next
    case TsString
    with "3.prems" obtain stop' where stop': "scan_header l mode (n\<lparr>ne_previous := r, ne_word := []\<rparr>) ts = Some stop'" "stop = Suc stop'" by auto
    from "3.IH"(3) [OF TsString stop'(1)] TsString stop'(2) show ?thesis by (simp add: depth_of_def)
  qed
qed simp_all

lemma top_unique: "at_top d \<longleftrightarrow> d = top_level"
  by (cases d) (auto simp: at_top_def top_level_def)

lemma declaration_depth: "scanDeclaration ts mode = Some stop \<Longrightarrow> count_tokens (take stop ts) top_level = Some top_level"
proof -
  assume "scanDeclaration ts mode = Some stop"
  then obtain n' where c: "count_tokens (take stop ts) (depth_of no_nesting) = Some (depth_of n')" "nested_balanced n'"
    using header_depth [of maxDeclarationRunes mode no_nesting ts stop] by (auto simp: scanDeclaration_def)
  have "depth_of no_nesting = top_level" "depth_of n' = top_level"
    using c(2) by (simp_all add: depth_of_def no_nesting_def top_level_def nested_balanced_def)
  with c(1) show ?thesis by simp
qed

text \<open>A symbol that stands for an \<^verbatim>\<open>export\<close> outside every bracket, with an identifier as its name.\<close>

definition exported_at :: "token list \<Rightarrow> symbol \<Rightarrow> bool" where
  "exported_at ts y \<longleftrightarrow> (\<exists>before decl stop name kind mode. ts = before @ decl \<and> count_tokens before top_level = Some top_level
     \<and> wordAt decl ''export'' \<and> scanDeclaration decl mode = Some stop \<and> identifier_word name
     \<and> kind \<in> {kindFunction, kindClass, kindInterface, kindEnum, kindAlias, kindConstant}
     \<and> y = newSymbol name kind (declarationText (take stop decl)))"

lemma scan_exports_sound:
  assumes "scan_exports d lineStart symbols ts = Some (Some ys)"
    and "all = before @ ts" and "count_tokens before top_level = Some d" and "\<forall>y \<in> set symbols. exported_at all y"
  shows "count_tokens all top_level = Some top_level \<and> (\<forall>y \<in> set ys. exported_at all y)"
  using assms
proof (induction "length ts" arbitrary: d lineStart symbols ts before rule: less_induct)
  case less
  show ?case
  proof (cases ts)
    case Nil
    with less.prems(1) have "at_top d" "ys = symbols" by (subst (asm) scan_exports.simps, simp split: if_splits)+
    with less.prems Nil show ?thesis by (simp add: top_unique)
  next
    case (Cons t rest)
    obtain r k where t: "t = (r, k)" by (cases t)
    have step: "count_tokens all top_level = Some top_level \<and> (\<forall>y \<in> set ys. exported_at all y)"
      if "scan_exports d' l' symbols rest = Some (Some ys)" "count_tokens [t] d = Some d'" for d' l'
    proof (rule less.hyps [of rest d' l' symbols "before @ [t]"])
      show "length rest < length ts" using Cons by simp
      show "all = (before @ [t]) @ rest" using less.prems(2) Cons by simp
      show "count_tokens (before @ [t]) top_level = Some d'" using less.prems(3) that(2) by (simp add: count_append)
    qed (use that(1) less.prems(4) in simp_all)
    have line: "count_rune LINE d = Some d" by (simp add: count_rune_def LINE_def LF_def)
    have blank: "count_rune r d = Some d" if "blank r" using that by (auto simp: blank_def count_rune_def LINE_def LF_def CR_def)
    consider "r = LINE" | "r \<noteq> LINE" "k \<noteq> TsCode \<or> blank r" | "r \<noteq> LINE" "k = TsCode" "\<not> blank r" by blast
    then show ?thesis
    proof cases
      case 1
      have "scan_exports d True symbols rest = Some (Some ys)"
        using less.prems(1) Cons t 1 by (subst (asm) scan_exports.simps) simp
      then show ?thesis by (rule step) (simp add: t 1 line)
    next
      case 2
      have "scan_exports d lineStart symbols rest = Some (Some ys)"
        using less.prems(1) Cons t 2 by (subst (asm) scan_exports.simps) simp
      then show ?thesis by (rule step) (use 2 blank in \<open>auto simp: t\<close>)
    next
      case 3
      show ?thesis
      proof (cases "(if lineStart \<and> at_top d \<and> wordAt ts ''export'' then parseExport ts else None)")
        case None
        with less.prems(1) Cons t 3 obtain d' where d': "count_rune r d = Some d'" "scan_exports d' False symbols rest = Some (Some ys)"
          by (subst (asm) scan_exports.simps) (auto split: option.splits)
        from d'(2) show ?thesis by (rule step) (simp add: t 3 d'(1))
      next
        case (Some a)
        obtain y following where a: "a = (y, following)" by (cases a)
        with Some have top: "at_top d" "wordAt ts ''export''" and pe: "parseExport ts = Some (y, following)"
          by (auto split: if_splits)
        obtain name kind mode stop where p: "scanDeclaration ts mode = Some stop" "following = drop stop ts" "identifier_word name"
            "kind \<in> {kindFunction, kindClass, kindInterface, kindEnum, kindAlias, kindConstant}"
            "y = newSymbol name kind (declarationText (take stop ts))"
          using parseExport_rest [OF pe] by blast
        have "exported_at all y"
          unfolding exported_at_def
        proof (rule exI [of _ before], rule exI [of _ ts], rule exI [of _ stop], rule exI [of _ name], rule exI [of _ kind],
            rule exI [of _ mode], intro conjI)
          show "count_tokens before top_level = Some top_level" using less.prems(3) top(1) by (simp add: top_unique)
        qed (fact less.prems(2) top(2) p)+
        then have each: "\<forall>x \<in> set (symbols @ [y]). exported_at all x" using less.prems(4) by simp
        have go: "scan_exports d False (symbols @ [y]) following = Some (Some ys)"
          using less.prems(1) Cons t 3 Some a by (subst (asm) scan_exports.simps) simp
        have depth: "count_tokens (before @ take stop ts) top_level = Some d"
          using less.prems(3) top(1) declaration_depth [OF p(1)] by (simp add: count_append top_unique)
        have "all = (before @ take stop ts) @ following" using less.prems(2) p(2) by simp
        from less.hyps [OF parseExport_shorter [OF top(2) pe] go this depth each] show ?thesis .
      qed
    qed
  qed
qed

lemma tag_fst [simp]: "map fst (tag k rs) = rs"
  by (simp add: tag_def comp_def)

lemma classify_keeps: "classifyTypeScript rs = Some ts \<Longrightarrow> map fst ts = rs"
proof (induction rs arbitrary: ts rule: classifyTypeScript.induct)
  case (1 rs)
  show ?case
  proof (cases rs)
    case Nil
    with 1 show ?thesis by (subst (asm) classifyTypeScript.simps) simp
  next
    case (Cons a rest)
    consider "a = ''/'' \<and> rest \<noteq> [] \<and> hd rest = ''/''" | "\<not> (a = ''/'' \<and> rest \<noteq> [] \<and> hd rest = ''/'')" "a = ''/'' \<and> rest \<noteq> [] \<and> hd rest = ''*''"
      | "\<not> (a = ''/'' \<and> rest \<noteq> [] \<and> hd rest = ''/'')" "\<not> (a = ''/'' \<and> rest \<noteq> [] \<and> hd rest = ''*'')" "a \<in> set [[CHR 0x27], [CHR 0x22], ''`'']"
      | "\<not> (a = ''/'' \<and> rest \<noteq> [] \<and> hd rest = ''/'')" "\<not> (a = ''/'' \<and> rest \<noteq> [] \<and> hd rest = ''*'')" "a \<notin> set [[CHR 0x27], [CHR 0x22], ''`'']"
      by blast
    then show ?thesis
    proof cases
      case 1
      with "1.prems" Cons obtain ts' where "classifyTypeScript (dropWhile (\<lambda>r. r \<noteq> LINE) rs) = Some ts'"
        "ts = tag TsComment (takeWhile (\<lambda>r. r \<noteq> LINE) rs) @ ts'"
        by (subst (asm) classifyTypeScript.simps) auto
      with "1.IH"(1) [OF Cons 1] show ?thesis by simp
    next
      case 2
      with "1.prems" Cons obtain x y ts' where xy: "block_comment (tl rest) = Some (x, y)" "classifyTypeScript y = Some ts'"
        "ts = tag TsComment ([a, hd rest] @ x) @ ts'"
        by (subst (asm) classifyTypeScript.simps) (auto split: option.splits)
      with "1.IH"(2) [OF Cons 2 xy(1) refl xy(2)] block_comment_parts [OF xy(1)] 2 Cons show ?thesis
        by (cases rest) simp_all
    next
      case 3
      with "1.prems" Cons obtain x y ts' where xy: "string_literal a rest = Some (x, y)" "classifyTypeScript y = Some ts'"
        "ts = tag TsString (a # x) @ ts'"
        by (subst (asm) classifyTypeScript.simps) (auto split: option.splits)
      with "1.IH"(3) [OF Cons 3 xy(1) refl xy(2)] string_literal_parts [OF xy(1)] Cons show ?thesis by simp
    next
      case 4
      with "1.prems" Cons obtain ts' where "classifyTypeScript rest = Some ts'" "ts = (a, TsCode) # ts'"
        by (subst (asm) classifyTypeScript.simps) auto
      with "1.IH"(4) [OF Cons 4] Cons show ?thesis by simp
    qed
  qed
qed

text \<open>C32. A TypeScript surface is read off the file's top level: when the scanner gives one, the code
  brackets of the whole file match, and every symbol stands for an \<^verbatim>\<open>export\<close> outside all of them, is
  named by an identifier, is one of six kinds, and has as its signature the normalized text of the declaration up to
  where its header ends, comments replaced, with the hash of that signature.\<close>

theorem typescript_surface_is_exported:
  assumes "extractTypeScript source = Some ys"
  shows "\<exists>ts. classifyTypeScript (runes_of source) = Some ts \<and> map fst ts = runes_of source
    \<and> count_tokens ts top_level = Some top_level \<and> (\<forall>y \<in> set ys. exported_at ts y)"
proof -
  obtain ts where ts: "classifyTypeScript (runes_of source) = Some ts" "scan_exports top_level True [] ts = Some (Some ys)"
    using assms by (auto simp: extractTypeScript_def run_typescript_def split: option.splits)
  from scan_exports_sound [OF ts(2), of ts "[]"] classify_keeps [OF ts(1)] ts(1) show ?thesis by auto
qed

text \<open>A file with one class.\<close>

definition sample_typescript :: string where "sample_typescript = ''export class C {}''"

definition sample_tokens :: "token list" where
  "sample_tokens = map (\<lambda>c. ([c], TsCode)) sample_typescript"

definition sample_class :: symbol where
  "sample_class = newSymbol ''C'' kindClass ''export class C ''"

lemma scan_header_limit: "scan_header l mode n ts = Some stop \<Longrightarrow> scan_header (l + m) mode n ts = Some stop"
proof (induction l mode n ts arbitrary: stop rule: scan_header.induct)
  case (3 l mode n r k ts)
  show ?case
  proof (cases k)
    case TsCode
    with 3 show ?thesis by (cases "scan_rune mode n r ts") auto
  qed (use 3 in auto)
qed simp_all

lemma sample_declaration: "scanDeclaration sample_tokens StopBody = Some 15"
proof -
  have "scan_header 16 StopBody no_nesting sample_tokens = Some 15" by code_simp
  from scan_header_limit [OF this, of 3984] show ?thesis by (simp add: scanDeclaration_def maxDeclarationRunes_def)
qed

lemma sample_export: "parseExport sample_tokens = Some (sample_class, drop 15 sample_tokens)"
proof -
  have w: "skip_modifiers (nextWord (drop (length ''export'') sample_tokens)) = (''class'', drop 12 sample_tokens)" by code_simp
  have n: "fst (nextWord (drop 12 sample_tokens)) = ''C''" by code_simp
  have i: "identifier_word ''C''" by code_simp
  have t: "declarationText (take 15 sample_tokens) = ''export class C ''" by code_simp
  show ?thesis unfolding parseExport_def w Let_def prod.case using n i t sample_declaration by (simp add: sample_class_def)
qed

lemma sample_surface: "extractTypeScript sample_typescript = Some [sample_class]"
proof -
  have c: "classifyTypeScript (runes_of sample_typescript) = Some sample_tokens" by code_simp
  have w: "wordAt sample_tokens ''export''" and d: "drop 15 sample_tokens = [(''{'', TsCode), (''}'', TsCode)]"
    and h: "sample_tokens = (''e'', TsCode) # tl sample_tokens" by code_simp+
  then obtain r0 where r0: "sample_tokens = (''e'', TsCode) # r0" by blast
  have at: "at_top top_level" and e: "\<not> blank ''e''" "''e'' \<noteq> LINE" "''{'' \<noteq> LINE" "''}'' \<noteq> LINE" "\<not> blank ''{''" "\<not> blank ''}''"
    by code_simp+
  obtain d1 where d1: "count_rune ''{'' top_level = Some d1" "count_rune ''}'' d1 = Some top_level"
    by (simp add: count_rune_def top_level_def)
  have close: "scan_exports top_level False [sample_class] [] = Some (Some [sample_class])"
    by (subst scan_exports.simps) (simp add: at)
  have body: "scan_exports d1 False [sample_class] [(''}'', TsCode)] = Some (Some [sample_class])"
    by (subst scan_exports.simps) (simp add: e d1 close)
  have rest: "scan_exports top_level False [sample_class] (drop 15 sample_tokens) = Some (Some [sample_class])"
    unfolding d by (subst scan_exports.simps) (simp add: e d1 body)
  have "scan_exports top_level True [] sample_tokens = Some (Some [sample_class])"
    by (subst scan_exports.simps, simp only: r0 list.case prod.case, fold r0) (simp add: e at w sample_export rest)
  then show ?thesis by (simp add: extractTypeScript_def run_typescript_def c)
qed

theorem typescript_surface_is_exported_witness:
  "\<exists>ts. classifyTypeScript (runes_of sample_typescript) = Some ts \<and> count_tokens ts top_level = Some top_level
    \<and> exported_at ts sample_class"
  using typescript_surface_is_exported [OF sample_surface] by auto

end
