(* ===== verification/Contract_Golang.thy ===== *)
theory Contract_Golang
  imports Contract_Symbol
begin

text \<open>
  The exported surface of a Go file (\<^verbatim>\<open>internal/contract/golang.go\<close>), from the syntax tree that
  \<^verbatim>\<open>go/parser\<close> builds. Every expression of the tree carries the text that \<^verbatim>\<open>go/printer\<close> prints for it,
  a function declaration the text of its header, so \<^verbatim>\<open>printNode\<close> reads it off. The parser and
  the printer are parameters, and so is which runes beyond ASCII are wide case.
\<close>

section \<open>The syntax tree\<close>

datatype go_expr = GoExpr (ge_form: go_form) (ge_text: string)
  and go_form =
    Ident string
  | StarExpr go_expr
  | IndexExpr go_expr
  | IndexListExpr go_expr
  | StructType "go_field list option"
  | InterfaceType "go_field list option"
  | FuncType
  | OtherExpr
  and go_field = GoField (gf_names: "string list") (gf_type: go_expr) (gf_tag: "string option")

record go_func =
  gu_name :: string
  gu_receiver :: "go_field list option"
  gu_header :: string

record go_type_spec =
  gt_name :: string
  gt_params :: "go_field list"
  gt_alias :: bool
  gt_type :: go_expr

record go_value_spec =
  gv_names :: "string list"
  gv_type :: "go_expr option"
  gv_values :: "string list"

datatype go_spec = TypeSpec go_type_spec | ValueSpec go_value_spec | ImportSpec

datatype go_decl = FuncDecl go_func | GenDecl string "go_spec list" | BadDecl

record go_front =
  go_parse :: "string \<Rightarrow> go_decl list option"
  go_upper :: "string \<Rightarrow> bool"

section \<open>Names\<close>

text \<open>\<^verbatim>\<open>ast.IsExported\<close>.\<close>

definition IsExported :: "(string \<Rightarrow> bool) \<Rightarrow> string \<Rightarrow> bool" where
  "IsExported wide name \<longleftrightarrow>
     (case name of [] \<Rightarrow> False
      | c # cs \<Rightarrow> if byte c < 128 then 65 \<le> byte c \<and> byte c \<le> 90 else wide (take (max 1 (rune_width name)) name))"

definition expr_base :: "go_expr \<Rightarrow> go_expr" where
  "expr_base e =
     (let e1 = (case ge_form e of StarExpr x \<Rightarrow> x | _ \<Rightarrow> e);
          e2 = (case ge_form e1 of IndexExpr x \<Rightarrow> x | _ \<Rightarrow> e1)
      in case ge_form e2 of IndexListExpr x \<Rightarrow> x | _ \<Rightarrow> e2)"

definition receiverTypeName :: "go_field list \<Rightarrow> string option" where
  "receiverTypeName receiver =
     (if length receiver \<noteq> 1 then None
      else case ge_form (expr_base (gf_type (hd receiver))) of Ident name \<Rightarrow> Some name | _ \<Rightarrow> None)"

definition trim_star :: "string \<Rightarrow> string" where
  "trim_star s = (if has_prefix s ''*'' then drop 1 s else s)"

definition exportedEmbedded :: "(string \<Rightarrow> bool) \<Rightarrow> string \<Rightarrow> bool" where
  "exportedEmbedded wide text0 \<longleftrightarrow>
     (let name = trim_star text0;
          name1 = (case last_index (CHR ''.'') name of Some i \<Rightarrow> drop (i + 1) name | None \<Rightarrow> name);
          name2 = takeWhile (\<lambda>c. c \<noteq> CHR ''['' \<and> c \<noteq> CHR ''('') name1
      in name2 \<noteq> [] \<and> IsExported wide name2)"

section \<open>Declarations\<close>

definition goTypeParams :: "go_type_spec \<Rightarrow> string" where
  "goTypeParams t =
     (if gt_params t = [] then []
      else ''['' @ join '', '' (map (\<lambda>f. trim_space (join '', '' (gf_names f) @ '' '' @ ge_text (gf_type f))) (gt_params t)) @ '']'')"

definition member_text :: "string \<Rightarrow> go_field \<Rightarrow> string \<Rightarrow> string" where
  "member_text kind f name =
     (let printed = ge_text (gf_type f);
          member = (if ge_form (gf_type f) = FuncType \<and> kind = ''interface_member''
                    then name @ (if has_prefix printed ''func'' then drop 4 printed else printed)
                    else name @ '' '' @ printed)
      in case gf_tag f of Some t \<Rightarrow> member @ '' '' @ t | None \<Rightarrow> member)"

definition field_symbols :: "(string \<Rightarrow> bool) \<Rightarrow> string \<Rightarrow> string \<Rightarrow> go_field \<Rightarrow> symbol list" where
  "field_symbols wide owner kind f =
     (if gf_names f = [] then
        (let embedded = normalizeSignature (ge_text (gf_type f)) in
         if embedded = [] \<or> \<not> exportedEmbedded wide embedded then []
         else [newSymbol (owner @ ''.'' @ embedded) kind embedded])
      else map (\<lambda>name. newSymbol (owner @ ''.'' @ name) kind (member_text kind f name)) (filter (IsExported wide) (gf_names f)))"

definition goFields :: "(string \<Rightarrow> bool) \<Rightarrow> string \<Rightarrow> go_field list option \<Rightarrow> string \<Rightarrow> symbol list" where
  "goFields wide owner fields0 kind =
     (case fields0 of None \<Rightarrow> [] | Some fs \<Rightarrow> concat (map (field_symbols wide owner kind) fs))"

definition goTypeSpec :: "(string \<Rightarrow> bool) \<Rightarrow> go_type_spec \<Rightarrow> symbol list" where
  "goTypeSpec wide t =
     (if \<not> IsExported wide (gt_name t) then []
      else let name = gt_name t;
        header = (case ge_form (gt_type t) of
            StructType fs \<Rightarrow> ''type '' @ name @ goTypeParams t @ '' struct''
          | InterfaceType fs \<Rightarrow> ''type '' @ name @ goTypeParams t @ '' interface''
          | _ \<Rightarrow> ''type '' @ name @ goTypeParams t @ (if gt_alias t then '' = '' else '' '') @ ge_text (gt_type t));
        members = (case ge_form (gt_type t) of
            StructType fs \<Rightarrow> goFields wide name fs ''field''
          | InterfaceType fs \<Rightarrow> goFields wide name fs ''interface_member''
          | _ \<Rightarrow> [])
      in newSymbol name ''type'' header # members)"

definition value_symbol :: "string \<Rightarrow> go_value_spec \<Rightarrow> nat \<times> string \<Rightarrow> symbol" where
  "value_symbol keyword v p =
     (let (index, name) = p in
      newSymbol name keyword (join '' '' ([keyword, name]
        @ (case gv_type v of Some e \<Rightarrow> [ge_text e] | None \<Rightarrow> [])
        @ (if index < length (gv_values v) then [''='', gv_values v ! index] else []))))"

definition goValueSpec :: "(string \<Rightarrow> bool) \<Rightarrow> go_value_spec \<Rightarrow> string \<Rightarrow> symbol list" where
  "goValueSpec wide v keyword =
     map (value_symbol keyword v) (filter (\<lambda>(index, name). IsExported wide name) (enumerate 0 (gv_names v)))"

definition goSpec :: "(string \<Rightarrow> bool) \<Rightarrow> string \<Rightarrow> go_spec \<Rightarrow> symbol list" where
  "goSpec wide tok s =
     (case s of TypeSpec t \<Rightarrow> goTypeSpec wide t
      | ValueSpec v \<Rightarrow>
          if tok = ''var'' then goValueSpec wide v ''var''
          else if tok \<noteq> ''const'' then [] else goValueSpec wide v ''const''
      | ImportSpec \<Rightarrow> [])"

definition goGenDecl :: "(string \<Rightarrow> bool) \<Rightarrow> string \<Rightarrow> go_spec list \<Rightarrow> symbol list" where
  "goGenDecl wide tok specs = concat (map (goSpec wide tok) specs)"

definition goFunc :: "(string \<Rightarrow> bool) \<Rightarrow> go_func \<Rightarrow> symbol list" where
  "goFunc wide f =
     (if \<not> IsExported wide (gu_name f) then []
      else case gu_receiver f of
        None \<Rightarrow> [newSymbol (gu_name f) ''func'' (gu_header f)]
      | Some receiver \<Rightarrow>
          (case receiverTypeName receiver of
             None \<Rightarrow> []
           | Some owner \<Rightarrow> if IsExported wide owner then [newSymbol (owner @ ''.'' @ gu_name f) ''method'' (gu_header f)] else []))"

definition go_symbols :: "(string \<Rightarrow> bool) \<Rightarrow> go_decl \<Rightarrow> symbol list" where
  "go_symbols wide d =
     (case d of FuncDecl f \<Rightarrow> goFunc wide f | GenDecl tok specs \<Rightarrow> goGenDecl wide tok specs | BadDecl \<Rightarrow> [])"

definition extractGo :: "go_front \<Rightarrow> string \<Rightarrow> symbol list option" where
  "extractGo g source = map_option (\<lambda>decls. concat (map (go_symbols (go_upper g)) decls)) (go_parse g source)"

section \<open>Only exported names\<close>

text \<open>A name the package exports, or a member of an exported owner that is exported or embedded.\<close>

definition exported_name :: "(string \<Rightarrow> bool) \<Rightarrow> string \<Rightarrow> bool" where
  "exported_name wide n \<longleftrightarrow> IsExported wide n
     \<or> (\<exists>owner member. n = owner @ ''.'' @ member \<and> IsExported wide owner
         \<and> (IsExported wide member \<or> exportedEmbedded wide member))"

lemma newSymbol_name [simp]: "sy_name (newSymbol n k r) = n"
  by (simp add: newSymbol_def Let_def)

lemma fields_exported:
  "IsExported wide owner \<Longrightarrow> y \<in> set (goFields wide owner fs kind) \<Longrightarrow> exported_name wide (sy_name y)"
  by (cases fs) (auto simp: goFields_def field_symbols_def exported_name_def Let_def split: if_splits)

lemma types_exported: "y \<in> set (goTypeSpec wide t) \<Longrightarrow> exported_name wide (sy_name y)"
proof -
  assume y: "y \<in> set (goTypeSpec wide t)"
  then have e: "IsExported wide (gt_name t)" by (auto simp: goTypeSpec_def split: if_splits)
  from y have "sy_name y = gt_name t \<or> (\<exists>fs kind. y \<in> set (goFields wide (gt_name t) fs kind))"
    by (cases "ge_form (gt_type t)") (auto simp: goTypeSpec_def Let_def split: if_splits)
  with e fields_exported [OF e] show ?thesis by (auto simp: exported_name_def)
qed

lemma values_exported: "y \<in> set (goValueSpec wide v keyword) \<Longrightarrow> exported_name wide (sy_name y)"
  by (auto simp: goValueSpec_def value_symbol_def exported_name_def)

lemma funcs_exported: "y \<in> set (goFunc wide f) \<Longrightarrow> exported_name wide (sy_name y)"
  by (auto simp: goFunc_def exported_name_def split: option.splits if_splits)

lemma specs_exported: "y \<in> set (goSpec wide tok s) \<Longrightarrow> exported_name wide (sy_name y)"
  using types_exported values_exported by (cases s) (auto simp: goSpec_def split: if_splits)

lemma go_symbols_exported: "y \<in> set (go_symbols wide d) \<Longrightarrow> exported_name wide (sy_name y)"
  using specs_exported funcs_exported by (cases d) (auto simp: go_symbols_def goGenDecl_def)

lemma go_surface_is_exported: "extractGo g source = Some ys \<Longrightarrow> y \<in> set ys \<Longrightarrow> exported_name (go_upper g) (sy_name y)"
  using go_symbols_exported by (auto simp: extractGo_def)

end
