(* ===== verification/Contract_View.thy ===== *)
theory Contract_View
  imports Contract_Symbol
begin

text \<open>
  Navigation of a parse tree (\<^verbatim>\<open>internal/contract/multilang/view.go\<close>): tree-sitter's guest writes the tree as
  a flat list of records in pre-order, each with its depth, and the rules of a language find their
  way by depth alone.
\<close>

record node_record =
  rc_symbol :: nat
  rc_start :: nat
  rc_end :: nat
  rc_depth :: nat

record view =
  vw_records :: "node_record list"
  vw_source :: string
  vw_names :: "string list"

definition node_kind :: "view \<Rightarrow> nat \<Rightarrow> string" where
  "node_kind v i = (let s = rc_symbol (vw_records v ! i) in if s < length (vw_names v) then vw_names v ! s else [])"

definition slice :: "string \<Rightarrow> nat \<Rightarrow> nat \<Rightarrow> string" where
  "slice s a b = (if length s < b \<or> b < a then [] else take (b - a) (drop a s))"

definition node_text :: "view \<Rightarrow> nat \<Rightarrow> string" where
  "node_text v i = slice (vw_source v) (rc_start (vw_records v ! i)) (rc_end (vw_records v ! i))"

definition textTo :: "view \<Rightarrow> nat \<Rightarrow> nat \<Rightarrow> string" where
  "textTo v i stop = slice (vw_source v) (rc_start (vw_records v ! i)) (rc_start (vw_records v ! stop))"

definition depth_at :: "view \<Rightarrow> nat \<Rightarrow> nat" where
  "depth_at v i = rc_depth (vw_records v ! i)"

definition children :: "view \<Rightarrow> nat \<Rightarrow> nat list" where
  "children v i = filter (\<lambda>j. depth_at v j = depth_at v i + 1)
     (takeWhile (\<lambda>j. depth_at v i < depth_at v j) [i + 1 ..< length (vw_records v)])"

definition childOfKind :: "view \<Rightarrow> nat \<Rightarrow> string list \<Rightarrow> nat option" where
  "childOfKind v i kinds = find (\<lambda>c. node_kind v c \<in> set kinds) (children v i)"

definition node_header :: "view \<Rightarrow> nat \<Rightarrow> string list \<Rightarrow> string" where
  "node_header v i bodies = (case childOfKind v i bodies of Some body \<Rightarrow> textTo v i body | None \<Rightarrow> node_text v i)"

lemma children_bounds: "c \<in> set (children v i) \<Longrightarrow> i < c \<and> c < length (vw_records v)"
  by (auto simp: children_def dest!: set_takeWhileD)

lemma kind_of_child: "childOfKind v i kinds = Some c \<Longrightarrow> node_kind v c \<in> set kinds \<and> c \<in> set (children v i)"
  by (auto simp: childOfKind_def find_Some_iff)

lemma child_bounds: "childOfKind v i kinds = Some c \<Longrightarrow> i < c \<and> c < length (vw_records v)"
  using kind_of_child [of v i kinds c] children_bounds [of c v i] by blast

lemma grandchild_bounds:
  "childOfKind v i kinds = Some b \<Longrightarrow> c \<in> set (children v b) \<Longrightarrow> length (vw_records v) - c < length (vw_records v) - i"
  using child_bounds [of v i kinds b] children_bounds [of c v b] by linarith

lemma child_measure: "c \<in> set (children v i) \<Longrightarrow> length (vw_records v) - c < length (vw_records v) - i"
  using children_bounds [of c v i] by linarith

section \<open>The tree behind the records\<close>

text \<open>A syntax tree and the dump of it that the guest makes, down to a bound on the depth.\<close>

datatype tree = Tree (tr_symbol: nat) (tr_span: "nat \<times> nat") (tr_children: "tree list")

function dump :: "nat \<Rightarrow> nat \<Rightarrow> tree \<Rightarrow> node_record list" where
  "dump bound d (Tree s p ts) =
     \<lparr>rc_symbol = s, rc_start = fst p, rc_end = snd p, rc_depth = d\<rparr>
     # (if d < bound then concat (map (dump bound (d + 1)) ts) else [])"
  by pat_completeness auto
termination
  by (relation "measure (\<lambda>(b, d, t). size t)") (auto simp: less_Suc_eq_le intro: size_list_estimation' order_refl)

definition root_record :: "nat \<Rightarrow> tree \<Rightarrow> node_record" where
  "root_record d t = \<lparr>rc_symbol = tr_symbol t, rc_start = fst (tr_span t), rc_end = snd (tr_span t), rc_depth = d\<rparr>"

text \<open>Where the dumps of a list of trees start, when the first is at \<open>k\<close>.\<close>

fun starts :: "nat \<Rightarrow> nat \<Rightarrow> nat \<Rightarrow> tree list \<Rightarrow> nat list" where
  "starts bound d k [] = []"
| "starts bound d k (t # ts) = k # starts bound d (k + length (dump bound d t)) ts"

lemma dump_hd: "\<exists>rest. dump bound d t = root_record d t # rest \<and> (\<forall>r \<in> set rest. d < rc_depth r)"
proof (induction bound d t rule: dump.induct)
  case (1 bound d s p ts)
  have "\<forall>r \<in> set (dump bound (d + 1) t). d < rc_depth r" if t: "t \<in> set ts" and d: "d < bound" for t
  proof -
    obtain rest where "dump bound (d + 1) t = root_record (d + 1) t # rest" "\<forall>r \<in> set rest. d + 1 < rc_depth r"
      using 1 [OF d t] by blast
    then show ?thesis by (auto simp: root_record_def)
  qed
  then show ?case by (auto simp: root_record_def)
qed

lemma dump_deeper: "r \<in> set (dump bound d t) \<Longrightarrow> d \<le> rc_depth r"
proof -
  assume r: "r \<in> set (dump bound d t)"
  obtain rest where "dump bound d t = root_record d t # rest" "\<forall>r \<in> set rest. d < rc_depth r" using dump_hd by blast
  with r show ?thesis by (auto simp: root_record_def)
qed

lemma upt_split: "i \<le> j \<Longrightarrow> j \<le> k \<Longrightarrow> [i ..< k] = [i ..< j] @ [j ..< k]"
  by (metis le_Suc_ex upt_add_eq_append)

lemma nth_inside:
  "length pre < j \<Longrightarrow> j \<le> length pre + length rest \<Longrightarrow> (pre @ (r # rest) @ post) ! j = rest ! (j - length pre - 1)"
  by (cases "j - length pre") (auto simp: nth_append)

lemma filter_starts:
  "filter (\<lambda>j. rc_depth ((pre @ concat (map (dump bound d) ts) @ post) ! j) = d)
     [length pre ..< length pre + length (concat (map (dump bound d) ts))] = starts bound d (length pre) ts"
proof (induction ts arbitrary: pre)
  case (Cons t ts)
  obtain rest where rest: "dump bound d t = root_record d t # rest" "\<forall>r \<in> set rest. d < rc_depth r" using dump_hd by blast
  let ?n = "length (dump bound d t)" and ?all = "pre @ concat (map (dump bound d) (t # ts)) @ post"
  have split: "[length pre ..< length pre + length (concat (map (dump bound d) (t # ts)))]
      = [length pre ..< length pre + ?n] @ [length pre + ?n ..< length pre + ?n + length (concat (map (dump bound d) ts))]"
    by (subst upt_split [of _ "length pre + ?n"]) (simp_all add: add.assoc)
  have first: "filter (\<lambda>j. rc_depth (?all ! j) = d) [length pre ..< length pre + ?n] = [length pre]"
  proof -
    have "[length pre ..< length pre + ?n] = length pre # [length pre + 1 ..< length pre + ?n]"
      using rest(1) by (simp add: upt_rec)
    moreover have "rc_depth (?all ! length pre) = d" using rest(1) by (simp add: nth_append root_record_def)
    moreover have "rc_depth (?all ! j) \<noteq> d" if "j \<in> set [length pre + 1 ..< length pre + ?n]" for j
    proof -
      have "?all ! j = rest ! (j - length pre - 1)"
      proof -
        have "?all = pre @ (root_record d t # rest) @ (concat (map (dump bound d) ts) @ post)" using rest(1) by simp
        moreover have "length pre < j" "j \<le> length pre + length rest" using that rest(1) by auto
        ultimately show ?thesis by (simp only: nth_inside)
      qed
      moreover have "rest ! (j - length pre - 1) \<in> set rest" using that rest(1) by (intro nth_mem) auto
      ultimately show ?thesis using rest(2) by force
    qed
    ultimately show ?thesis by (simp add: filter_empty_conv)
  qed
  have "?all = (pre @ dump bound d t) @ concat (map (dump bound d) ts) @ post" by simp
  with Cons [of "pre @ dump bound d t"] show ?case unfolding split filter_append first by simp
qed simp

text \<open>C33. Depth alone finds the children: in the dump of a tree, wherever it stands among other
  records, the children of the root are the roots of its subtrees, in order, when the subtrees lie within the bound;
  and there are none at the bound.\<close>

theorem children_are_subtrees:
  assumes records: "vw_records v = before @ dump bound d t @ after"
    and stop: "after = [] \<or> rc_depth (hd after) \<le> d"
  shows "children v (length before) = (if d < bound then starts bound (d + 1) (length before + 1) (tr_children t) else [])
    \<and> node_kind v (length before) = (if tr_symbol t < length (vw_names v) then vw_names v ! tr_symbol t else [])"
proof -
  obtain s p ts where t: "t = Tree s p ts" by (cases t)
  define body where "body = (if d < bound then concat (map (dump bound (d + 1)) ts) else [])"
  let ?i = "length before" and ?r = "root_record d t"
  have all: "vw_records v = (before @ [?r]) @ body @ after" using records by (simp add: t root_record_def body_def)
  have deeper: "d < rc_depth x" if "x \<in> set body" for x
    using that dump_deeper [of x bound "d + 1"] by (force simp: body_def split: if_splits)
  have root: "vw_records v ! ?i = ?r" by (simp add: all)
  then have depth: "depth_at v ?i = d" by (simp add: depth_at_def root_record_def)
  have range: "[?i + 1 ..< length (vw_records v)] = [?i + 1 ..< ?i + 1 + length body]
      @ [?i + 1 + length body ..< length (vw_records v)]"
    by (rule upt_split) (simp_all add: all)
  have inside: "d < depth_at v j" if "j \<in> set [?i + 1 ..< ?i + 1 + length body]" for j
  proof -
    have "vw_records v ! j = body ! (j - ?i - 1)"
    proof -
      have "vw_records v = before @ (?r # body) @ after" using all by simp
      moreover have "?i < j" "j \<le> ?i + length body" using that unfolding set_upt atLeastLessThan_iff by linarith+
      ultimately show ?thesis by (simp only: nth_inside)
    qed
    moreover have "?i < j" "j \<le> ?i + length body" using that unfolding set_upt atLeastLessThan_iff by linarith+
    then have "j - ?i - 1 < length body" by linarith
    then have "body ! (j - ?i - 1) \<in> set body" by (rule nth_mem)
    then have "d < rc_depth (body ! (j - ?i - 1))" by (rule deeper)
    ultimately show ?thesis by (simp add: depth_at_def)
  qed
  have outside: "takeWhile (\<lambda>j. d < depth_at v j) [?i + 1 + length body ..< length (vw_records v)] = []"
  proof (cases after)
    case Nil
    then show ?thesis by (simp add: all)
  next
    case (Cons a rest)
    have "vw_records v ! (?i + 1 + length body) = a" by (simp add: all Cons nth_append)
    moreover have "[?i + 1 + length body ..< length (vw_records v)]
        = (?i + 1 + length body) # [?i + 2 + length body ..< length (vw_records v)]"
      by (subst upt_rec) (simp add: all Cons)
    ultimately show ?thesis using stop Cons by (simp add: depth_at_def)
  qed
  have taken: "takeWhile (\<lambda>j. d < depth_at v j) [?i + 1 ..< length (vw_records v)] = [?i + 1 ..< ?i + 1 + length body]"
    unfolding range using inside outside by (subst takeWhile_append2) simp_all
  have "children v ?i = (if d < bound then starts bound (d + 1) (?i + 1) ts else [])"
  proof (cases "d < bound")
    case True
    then have b: "body = concat (map (dump bound (d + 1)) ts)" by (simp add: body_def)
    have all': "vw_records v = (before @ [?r]) @ concat (map (dump bound (d + 1)) ts) @ after" using all unfolding b .
    have ends: "?i + 1 = length (before @ [?r])" by simp
    have "children v ?i = filter (\<lambda>j. rc_depth (vw_records v ! j) = d + 1) [?i + 1 ..< ?i + 1 + length body]"
      unfolding children_def depth taken by (simp only: depth_at_def)
    also have "\<dots> = starts bound (d + 1) (?i + 1) ts"
      unfolding all' b ends by (rule filter_starts)
    finally show ?thesis using True by simp
  next
    case False
    then show ?thesis unfolding children_def depth taken by (simp add: body_def)
  qed
  with root show ?thesis by (simp add: t node_kind_def root_record_def)
qed

text \<open>A class with two methods, one of which holds a name, between two other records of the file.\<close>

lemma children_are_subtrees_witness:
  "children \<lparr>vw_records = [\<lparr>rc_symbol = 3, rc_start = 0, rc_end = 9, rc_depth = 0\<rparr>]
        @ dump 7 1 (Tree 0 (0, 8) [Tree 1 (0, 4) [Tree 2 (1, 2) []], Tree 1 (5, 8) []])
        @ [\<lparr>rc_symbol = 3, rc_start = 8, rc_end = 9, rc_depth = 1\<rparr>],
      vw_source = ''abcdefghi'', vw_names = [''class'', ''method'', ''name'', ''file'']\<rparr> 1 = [2, 4]"
proof -
  let ?t = "Tree 0 (0, 8) [Tree 1 (0, 4) [Tree 2 (1, 2) []], Tree 1 (5, 8) []]"
  let ?v = "\<lparr>vw_records = [\<lparr>rc_symbol = 3, rc_start = 0, rc_end = 9, rc_depth = 0\<rparr>] @ dump 7 1 ?t
        @ [\<lparr>rc_symbol = 3, rc_start = 8, rc_end = 9, rc_depth = 1\<rparr>],
      vw_source = ''abcdefghi'', vw_names = [''class'', ''method'', ''name'', ''file'']\<rparr>"
  have "children ?v (length [\<lparr>rc_symbol = 3, rc_start = 0, rc_end = 9, rc_depth = 0\<rparr>])
      = (if 1 < (7::nat) then starts 7 (1 + 1)
          (length [\<lparr>rc_symbol = 3, rc_start = 0, rc_end = 9, rc_depth = 0\<rparr>] + 1) (tr_children ?t) else [])"
    by (rule children_are_subtrees [
          where after = "[\<lparr>rc_symbol = 3, rc_start = 8, rc_end = 9, rc_depth = 1\<rparr>]", THEN conjunct1]) simp_all
  then show ?thesis by simp
qed

end
