(* ===== verification/Contract_Rules.thy ===== *)
theory Contract_Rules
  imports Contract_View
begin

text \<open>
  What is exported in Python and JavaScript (\<^verbatim>\<open>internal/contract/multilang/rules.go\<close>). The source threads a slice
  through its functions and only ever appends to it; here each function returns what it appends.
  Scans for ASCII characters go byte by byte, which finds the same places as Go's scans by rune.
\<close>

definition decl :: "string \<Rightarrow> string \<Rightarrow> string \<Rightarrow> raw_declaration" where
  "decl name kind raw = \<lparr>de_name = name, de_kind = kind, de_raw = raw\<rparr>"

text \<open>\<^verbatim>\<open>strings.TrimRight\<close> and \<^verbatim>\<open>strings.Trim\<close> with a set of ASCII characters.\<close>

definition trimRight :: "string \<Rightarrow> string \<Rightarrow> string" where
  "trimRight s chars = rev (dropWhile (\<lambda>c. c \<in> set chars) (rev s))"

definition trimSet :: "string \<Rightarrow> string \<Rightarrow> string" where
  "trimSet s chars = trimRight (dropWhile (\<lambda>c. c \<in> set chars) s) chars"

definition BLANKS :: string where "BLANKS = [CHR 0x20, CHR 0x09, CR, LF]"

text \<open>The root's children, or nothing for an empty dump.\<close>

definition tops :: "view \<Rightarrow> nat list" where
  "tops v = (if vw_records v = [] then [] else children v 0)"

section \<open>Python\<close>

definition exportedPython :: "string \<Rightarrow> bool" where
  "exportedPython name \<longleftrightarrow> name \<noteq> [] \<and> \<not> has_prefix name ''_''"

definition pythonName :: "view \<Rightarrow> nat \<Rightarrow> string option" where
  "pythonName v i =
     (case childOfKind v i [''identifier''] of None \<Rightarrow> None
      | Some identifier \<Rightarrow> let name = node_text v identifier in if exportedPython name then Some name else None)"

text \<open>The state of the scan for the colon: bracket depth, the open quote, and an escape.\<close>

fun python_scan :: "nat \<Rightarrow> char option \<Rightarrow> bool \<Rightarrow> string \<Rightarrow> string \<Rightarrow> string" where
  "python_scan depth quote escaped seen [] = rev seen"
| "python_scan depth quote escaped seen (r # rs) =
     (case quote of
        Some q \<Rightarrow>
          if escaped then python_scan depth quote False (r # seen) rs
          else if r = CHR 0x5C then python_scan depth quote True (r # seen) rs
          else if r = q then python_scan depth None escaped (r # seen) rs
          else python_scan depth quote escaped (r # seen) rs
      | None \<Rightarrow>
          if r = CHR 0x27 \<or> r = CHR 0x22 then python_scan depth (Some r) escaped (r # seen) rs
          else if r = CHR ''#'' then trimRight (rev seen) BLANKS
          else if r \<in> set ''([{'' then python_scan (depth + 1) None escaped (r # seen) rs
          else if r \<in> set '')]}'' then python_scan (depth - 1) None escaped (r # seen) rs
          else if r = CHR '':'' \<and> depth = 0 then rev (r # seen)
          else python_scan depth None escaped (r # seen) rs)"

definition pythonDefinitionHeader :: "string \<Rightarrow> string" where
  "pythonDefinitionHeader s = python_scan 0 None False [] s"

definition pythonAssignmentHeader :: "view \<Rightarrow> nat \<Rightarrow> string" where
  "pythonAssignmentHeader v assignment =
     (case find (\<lambda>c. node_kind v c = ''='') (children v assignment) of
        Some c \<Rightarrow> textTo v assignment c | None \<Rightarrow> node_text v assignment)"

definition appendPythonAssignment :: "view \<Rightarrow> nat \<Rightarrow> string \<Rightarrow> raw_declaration list" where
  "appendPythonAssignment v assignment prefix =
     (case childOfKind v assignment [''identifier''] of None \<Rightarrow> []
      | Some target \<Rightarrow>
          let name = node_text v target in
          if \<not> exportedPython name \<or> prefix \<noteq> [] then []
          else [decl name ''const'' (pythonAssignmentHeader v assignment)])"

function appendPython :: "view \<Rightarrow> nat \<Rightarrow> nat \<Rightarrow> string \<Rightarrow> raw_declaration list" where
  "appendPython v outer inner prefix =
     (if node_kind v inner = ''function_definition'' then
        (case pythonName v inner of None \<Rightarrow> []
         | Some name \<Rightarrow> [decl (prefix @ name) (if prefix \<noteq> [] then ''method'' else ''function'')
             (pythonDefinitionHeader (node_header v outer [''block'']))])
      else if node_kind v inner = ''class_definition'' then
        (case pythonName v inner of None \<Rightarrow> []
         | Some name \<Rightarrow>
             decl name ''class'' (pythonDefinitionHeader (node_header v outer [''block'']))
             # (case childOfKind v inner [''block''] of None \<Rightarrow> []
                | Some body \<Rightarrow> concat (map (\<lambda>member.
                    if node_kind v member = ''decorated_definition'' then
                      (case childOfKind v member [''function_definition''] of None \<Rightarrow> []
                       | Some definition0 \<Rightarrow> appendPython v member definition0 (name @ ''.''))
                    else appendPython v member member (name @ ''.'')) (children v body))))
      else if node_kind v inner = ''expression_statement'' then
        (case childOfKind v inner [''assignment''] of None \<Rightarrow> []
         | Some assignment \<Rightarrow> appendPythonAssignment v assignment prefix)
      else if node_kind v inner = ''assignment'' then appendPythonAssignment v inner prefix
      else [])"
  by pat_completeness auto
termination
proof (relation "measure (\<lambda>(v, outer, inner, prefix). length (vw_records v) - inner)", simp, goal_cases)
  case (1 v _ inner _ name body member d)
  from grandchild_bounds [OF 1(4,5)] child_bounds [OF 1(7)]
  have "length (vw_records v) - d < length (vw_records v) - inner" by linarith
  then show ?case by simp
next
  case (2 v inner name body member)
  from grandchild_bounds [OF 2(4,5)] show ?case by simp
qed

declare appendPython.simps [simp del]

definition collectPython :: "view \<Rightarrow> raw_declaration list" where
  "collectPython v = concat (map (\<lambda>node.
     if node_kind v node = ''decorated_definition'' then
       (case childOfKind v node [''function_definition'', ''class_definition''] of None \<Rightarrow> []
        | Some inner \<Rightarrow> appendPython v node inner [])
     else appendPython v node node []) (tops v))"

section \<open>JavaScript\<close>

definition jsBodies :: "string list" where "jsBodies = [''statement_block'', ''class_body'']"

definition typeScriptKind :: "string \<Rightarrow> string" where
  "typeScriptKind node =
     (if node = ''interface_declaration'' then ''interface''
      else if node = ''type_alias_declaration'' then ''type''
      else if node = ''enum_declaration'' then ''enum''
      else if node = ''abstract_class_declaration'' then ''class''
      else ''namespace'')"

definition javaScriptName :: "view \<Rightarrow> nat \<Rightarrow> string option" where
  "javaScriptName v i = map_option (node_text v) (childOfKind v i [''identifier'', ''type_identifier''])"

definition firstLine :: "string \<Rightarrow> string" where
  "firstLine s = takeWhile (\<lambda>c. c \<noteq> LF) s"

definition exports_property :: "view \<Rightarrow> nat \<Rightarrow> raw_declaration list" where
  "exports_property v p =
     (if node_kind v p = ''pair'' then
        (case childOfKind v p [''property_identifier'', ''string''] of None \<Rightarrow> []
         | Some key \<Rightarrow> [decl (trimSet (node_text v key) [CHR 0x22, CHR 0x27]) ''reexport'' (''module.exports.'' @ node_text v key)])
      else if node_kind v p = ''shorthand_property_identifier''
      then [decl (node_text v p) ''reexport'' (''module.exports.'' @ node_text v p)]
      else [])"

definition javaScriptExportsObject :: "view \<Rightarrow> nat \<Rightarrow> raw_declaration list" where
  "javaScriptExportsObject v object =
     (if node_kind v object \<noteq> ''object'' then [] else concat (map (exports_property v) (children v object)))"

definition javaScriptCommonJS :: "view \<Rightarrow> nat \<Rightarrow> raw_declaration list" where
  "javaScriptCommonJS v statement =
     (case childOfKind v statement [''assignment_expression''] of None \<Rightarrow> []
      | Some assignment \<Rightarrow>
          let cs = children v assignment in
          if length cs < 2 then []
          else let left = hd cs; right = last cs; target = node_text v left in
            if target = ''module.exports'' \<or> target = ''exports'' then javaScriptExportsObject v right
            else if \<not> has_prefix target ''exports.'' \<and> \<not> has_prefix target ''module.exports.'' then []
            else let name = (case last_index (CHR ''.'') target of Some i \<Rightarrow> drop (i + 1) target | None \<Rightarrow> target);
                     func = node_kind v right \<in> set [''function_expression'', ''arrow_function'', ''generator_function'']
              in [decl name (if func then ''function'' else ''const'')
                   (target @ (if func then '' = '' @ trim_space (node_header v right jsBodies) else []))])"

definition js_methods :: "view \<Rightarrow> string \<Rightarrow> nat \<Rightarrow> raw_declaration list" where
  "js_methods v name body = concat (map (\<lambda>member.
     if node_kind v member \<noteq> ''method_definition'' then []
     else case childOfKind v member [''property_identifier''] of None \<Rightarrow> []
       | Some m \<Rightarrow> [decl (name @ ''.'' @ node_text v m) ''method'' (node_header v member jsBodies)]) (children v body))"

definition js_declarators :: "view \<Rightarrow> nat \<Rightarrow> raw_declaration list" where
  "js_declarators v child = concat (map (\<lambda>declarator.
     if node_kind v declarator \<noteq> ''variable_declarator'' then []
     else case childOfKind v declarator [''identifier''] of None \<Rightarrow> []
       | Some name \<Rightarrow> [decl (node_text v name) ''const'' (trim_space (textTo v child declarator) @ '' '' @ node_text v name)])
     (children v child))"

definition js_specifiers :: "view \<Rightarrow> nat \<Rightarrow> raw_declaration list" where
  "js_specifiers v child = concat (map (\<lambda>specifier.
     if node_kind v specifier \<noteq> ''export_specifier'' then []
     else let names = children v specifier in
       if names = [] then [] else [decl (node_text v (last names)) ''reexport'' (node_text v specifier)]) (children v child))"

definition js_export_child :: "view \<Rightarrow> nat \<Rightarrow> raw_declaration list" where
  "js_export_child v child =
     (let k = node_kind v child in
      if k \<in> set [''function_declaration'', ''generator_function_declaration''] then
        (case javaScriptName v child of None \<Rightarrow> [] | Some name \<Rightarrow> [decl name ''function'' (node_header v child jsBodies)])
      else if k = ''class_declaration'' then
        (case javaScriptName v child of None \<Rightarrow> []
         | Some name \<Rightarrow> decl name ''class'' (node_header v child jsBodies)
             # (case childOfKind v child [''class_body''] of None \<Rightarrow> [] | Some body \<Rightarrow> js_methods v name body))
      else if k \<in> set [''lexical_declaration'', ''variable_declaration''] then js_declarators v child
      else if k \<in> set [''interface_declaration'', ''type_alias_declaration'', ''enum_declaration'', ''abstract_class_declaration'',
            ''module'', ''internal_module''] then
        (case childOfKind v child [''type_identifier'', ''identifier''] of None \<Rightarrow> []
         | Some name \<Rightarrow> [decl (node_text v name) (typeScriptKind k)
             (node_header v child [''interface_body'', ''class_body'', ''enum_body'', ''statement_block''])])
      else if k = ''function_signature'' then
        (case javaScriptName v child of None \<Rightarrow> [] | Some name \<Rightarrow> [decl name ''function'' (node_text v child)])
      else if k = ''export_clause'' then js_specifiers v child
      else [])"

definition javaScriptExport :: "view \<Rightarrow> nat \<Rightarrow> raw_declaration list" where
  "javaScriptExport v statement =
     (let found = concat (map (js_export_child v) (children v statement)); t = node_text v statement in
      if found \<noteq> [] then found
      else if has_prefix t ''export default'' then [decl ''default'' ''reexport'' (firstLine t)]
      else if has_prefix t ''export *'' then [decl ''*'' ''reexport'' (firstLine t)]
      else [])"

definition collectJavaScript :: "view \<Rightarrow> raw_declaration list" where
  "collectJavaScript v = concat (map (\<lambda>node.
     if node_kind v node = ''export_statement'' then javaScriptExport v node
     else if node_kind v node = ''expression_statement'' then javaScriptCommonJS v node
     else []) (tops v))"

section \<open>Private names stay private\<close>

text \<open>Every part of a dotted name is exported.\<close>

definition public_path :: "string \<Rightarrow> bool" where
  "public_path n \<longleftrightarrow> exportedPython n \<or> (\<exists>a b. n = a @ ''.'' @ b \<and> exportedPython a \<and> exportedPython b)"

definition public_prefix :: "string \<Rightarrow> bool" where
  "public_prefix p \<longleftrightarrow> p = [] \<or> (\<exists>a. p = a @ ''.'' \<and> exportedPython a)"

lemma pythonName_exported: "pythonName v i = Some name \<Longrightarrow> exportedPython name"
  by (auto simp: pythonName_def Let_def split: option.splits if_splits)

lemma prefixed_public: "public_prefix p \<Longrightarrow> exportedPython n \<Longrightarrow> public_path (p @ n)"
  by (auto simp: public_prefix_def public_path_def)

lemma assignment_public: "y \<in> set (appendPythonAssignment v i p) \<Longrightarrow> public_path (de_name y)"
  by (auto simp: appendPythonAssignment_def Let_def decl_def public_path_def split: option.splits if_splits)

lemma appendPython_public:
  "public_prefix prefix \<Longrightarrow> y \<in> set (appendPython v outer inner prefix) \<Longrightarrow> public_path (de_name y)"
proof (induction v outer inner prefix rule: appendPython.induct)
  case (1 v outer inner prefix)
  have sub: "public_prefix (name @ ''.'')" if "pythonName v inner = Some name" for name
    using pythonName_exported [OF that] by (auto simp: public_prefix_def)
  consider "node_kind v inner = ''function_definition''"
    | "node_kind v inner \<noteq> ''function_definition''" "node_kind v inner = ''class_definition''"
    | "node_kind v inner \<noteq> ''function_definition''" "node_kind v inner \<noteq> ''class_definition''" by blast
  then show ?case
  proof cases
    case 1
    with "1.prems" show ?thesis
      using pythonName_exported prefixed_public
      by (subst (asm) appendPython.simps) (auto simp: decl_def split: option.splits)
  next
    case 2
    have "pythonName v inner \<noteq> None"
    proof
      assume "pythonName v inner = None"
      with "1.prems"(2) 2 show False by (subst (asm) appendPython.simps) simp
    qed
    then obtain name where name: "pythonName v inner = Some name" by blast
    show ?thesis
    proof (cases "de_name y = name")
      case True
      with pythonName_exported [OF name] show ?thesis by (simp add: public_path_def)
    next
      case False
      have "childOfKind v inner [''block''] \<noteq> None"
      proof
        assume "childOfKind v inner [''block''] = None"
        with "1.prems"(2) 2 name False show False by (subst (asm) appendPython.simps) (simp add: decl_def)
      qed
      then obtain body where body: "childOfKind v inner [''block''] = Some body" by blast
      let ?sub = "\<lambda>member. if node_kind v member = ''decorated_definition'' then
              (case childOfKind v member [''function_definition''] of None \<Rightarrow> []
               | Some definition0 \<Rightarrow> appendPython v member definition0 (name @ ''.''))
            else appendPython v member member (name @ ''.'')"
      let ?d = "decl name ''class'' (pythonDefinitionHeader (node_header v outer [''block'']))"
      have eq: "appendPython v outer inner prefix = decl name ''class'' (pythonDefinitionHeader (node_header v outer [''block'']))
          # concat (map ?sub (children v body))"
        by (subst appendPython.simps) (simp only: 2 if_True if_False name body option.case, simp)
      have "y = ?d \<or> y \<in> set (concat (map ?sub (children v body)))"
        using "1.prems"(2) unfolding eq list.set insert_iff .
      moreover have "y \<noteq> ?d" using False by (auto simp: decl_def)
      ultimately have "y \<in> set (concat (map ?sub (children v body)))" by blast
      then obtain member where member: "member \<in> set (children v body)" and y: "y \<in> set (?sub member)"
        unfolding set_concat set_map by blast
      show ?thesis
      proof (cases "node_kind v member = ''decorated_definition''")
        case True
        with y obtain d where "childOfKind v member [''function_definition''] = Some d" "y \<in> set (appendPython v member d (name @ ''.''))"
          by (cases "childOfKind v member [''function_definition'']") auto
        with "1.IH"(1) [OF 2 name body member True] sub [OF name] show ?thesis by blast
      next
        case False
        with y "1.IH"(2) [OF 2 name body member False] sub [OF name] show ?thesis by simp
      qed
    qed
  next
    case 3
    with "1.prems" assignment_public show ?thesis
      by (subst (asm) appendPython.simps) (auto split: option.splits if_splits)
  qed
qed

text \<open>What a Python file exports is public: whatever the tree, no published name and no owner of a
  published member starts with an underscore, at the module's level or in a class, decorated or not.\<close>

theorem python_surface_is_public:
  "list_all (\<lambda>y. public_path (de_name y)) (collectPython v)"
proof -
  have "public_path (de_name y)" if "y \<in> set (collectPython v)" for y
  proof -
    from that obtain outer inner where "y \<in> set (appendPython v outer inner [])"
      by (auto simp: collectPython_def split: if_splits option.splits)
    then show ?thesis by (rule appendPython_public [rotated]) (simp add: public_prefix_def)
  qed
  then show ?thesis by (simp add: list_all_iff)
qed

end
