(* ===== verification/Contract_Languages.thy ===== *)
theory Contract_Languages
  imports Contract_Rules
begin

text \<open>
  What is exported in the other languages with a grammar: one group of definitions for each
  \<^verbatim>\<open>internal/contract/multilang/rules_*.go\<close>, and the table that selects them.
\<close>

section \<open>Java\<close>

definition javaBodies :: "string list" where
  "javaBodies = [''class_body'', ''interface_body'', ''enum_body'', ''constructor_body'', ''block'', ''annotation_type_body'']"

definition javaTypeKind :: "string \<Rightarrow> string option" where
  "javaTypeKind node =
     (if node \<in> set [''class_declaration'', ''record_declaration''] then Some ''class''
      else if node \<in> set [''interface_declaration'', ''annotation_type_declaration''] then Some ''interface''
      else if node = ''enum_declaration'' then Some ''enum'' else None)"

definition javaIsPublic :: "view \<Rightarrow> nat \<Rightarrow> bool" where
  "javaIsPublic v node \<longleftrightarrow>
     (case childOfKind v node [''modifiers''] of None \<Rightarrow> False
      | Some modifiers \<Rightarrow> \<exists>m \<in> set (children v modifiers). node_kind v m = ''public'')"

text \<open>The text of a child that names the node, unless it is empty; Java, C#, PHP and Rust have the same form.\<close>

definition named_by :: "view \<Rightarrow> nat \<Rightarrow> string list \<Rightarrow> string option" where
  "named_by v node kinds =
     (case childOfKind v node kinds of None \<Rightarrow> None
      | Some identifier \<Rightarrow> let name = node_text v identifier in if name = [] then None else Some name)"

definition javaName :: "view \<Rightarrow> nat \<Rightarrow> string option" where
  "javaName v node = named_by v node [''identifier'']"

definition javaFieldHeader :: "view \<Rightarrow> nat \<Rightarrow> nat \<Rightarrow> string" where
  "javaFieldHeader v field declarator =
     (case childOfKind v declarator [''=''] of Some e \<Rightarrow> textTo v field e | None \<Rightarrow> node_text v field)"

definition java_plain_member :: "view \<Rightarrow> nat \<Rightarrow> string \<Rightarrow> bool \<Rightarrow> raw_declaration list" where
  "java_plain_member v node prefix implicitly =
     (let k = node_kind v node in
      if k \<in> set [''method_declaration'', ''constructor_declaration'', ''compact_constructor_declaration''] then
        (if \<not> implicitly \<and> \<not> javaIsPublic v node then []
         else case javaName v node of None \<Rightarrow> [] | Some name \<Rightarrow> [decl (prefix @ name) ''method'' (node_header v node javaBodies)])
      else if k \<in> set [''field_declaration'', ''constant_declaration''] then
        (if \<not> implicitly \<and> \<not> javaIsPublic v node then []
         else case childOfKind v node [''variable_declarator''] of None \<Rightarrow> []
           | Some declarator \<Rightarrow> (case childOfKind v declarator [''identifier''] of None \<Rightarrow> []
               | Some target \<Rightarrow> [decl (prefix @ node_text v target) ''field'' (javaFieldHeader v node declarator)]))
      else if k = ''enum_constant'' then
        (case javaName v node of None \<Rightarrow> [] | Some name \<Rightarrow> [decl (prefix @ name) ''field'' name])
      else [])"

text \<open>\<^verbatim>\<open>appendJavaType\<close> calls \<^verbatim>\<open>appendJavaMember\<close> for a body, which calls it back for a nested type.\<close>

function appendJavaType :: "view \<Rightarrow> nat \<Rightarrow> string \<Rightarrow> raw_declaration list" where
  "appendJavaType v node prefix =
     (case javaTypeKind (node_kind v node) of None \<Rightarrow> []
      | Some k \<Rightarrow>
          if \<not> javaIsPublic v node then []
          else case javaName v node of None \<Rightarrow> []
            | Some name \<Rightarrow>
                decl (prefix @ name) k (node_header v node javaBodies)
                # (case childOfKind v node javaBodies of None \<Rightarrow> []
                   | Some body \<Rightarrow> concat (map (\<lambda>member.
                       if javaTypeKind (node_kind v member) \<noteq> None then appendJavaType v member (prefix @ name @ ''.'')
                       else java_plain_member v member (prefix @ name @ ''.'')
                         (node_kind v node \<in> set [''interface_declaration'', ''annotation_type_declaration'']))
                     (children v body))))"
  by pat_completeness auto
termination
  by (relation "measure (\<lambda>(v, node, prefix). length (vw_records v) - node)") (auto intro: grandchild_bounds)

declare appendJavaType.simps [simp del]

definition appendJavaMember :: "view \<Rightarrow> nat \<Rightarrow> string \<Rightarrow> bool \<Rightarrow> raw_declaration list" where
  "appendJavaMember v node prefix implicitly =
     (if javaTypeKind (node_kind v node) \<noteq> None then appendJavaType v node prefix
      else java_plain_member v node prefix implicitly)"

definition collectJava :: "view \<Rightarrow> raw_declaration list" where
  "collectJava v = concat (map (\<lambda>node. appendJavaType v node []) (tops v))"

section \<open>Rust\<close>

definition rustBodies :: "string list" where
  "rustBodies = [''block'', ''declaration_list'', ''field_declaration_list'', ''ordered_field_declaration_list'', ''enum_variant_list'']"

definition rustItemKind :: "string \<Rightarrow> string option" where
  "rustItemKind node =
     (if node \<in> set [''function_item'', ''function_signature_item''] then Some ''function''
      else if node \<in> set [''struct_item'', ''union_item''] then Some ''class''
      else if node = ''enum_item'' then Some ''enum''
      else if node = ''trait_item'' then Some ''interface''
      else if node = ''type_item'' then Some ''type''
      else if node \<in> set [''const_item'', ''static_item''] then Some ''const''
      else if node \<in> set [''mod_item'', ''impl_item''] then Some ''namespace'' else None)"

definition rustIsPublic :: "view \<Rightarrow> nat \<Rightarrow> bool" where
  "rustIsPublic v node \<longleftrightarrow>
     (if node_kind v node = ''impl_item'' then True
      else case childOfKind v node [''visibility_modifier''] of None \<Rightarrow> False
        | Some modifier \<Rightarrow> has_prefix (trim_space (node_text v modifier)) ''pub'')"

definition rustName :: "view \<Rightarrow> nat \<Rightarrow> string option" where
  "rustName v node = named_by v node [''identifier'', ''type_identifier'']"

definition rustHeader :: "view \<Rightarrow> nat \<Rightarrow> string" where
  "rustHeader v node =
     (if node_kind v node \<in> set [''const_item'', ''static_item'', ''type_item''] then
        (case childOfKind v node [''=''] of Some e \<Rightarrow> trimRight (textTo v node e) BLANKS | None \<Rightarrow> node_text v node)
      else node_header v node rustBodies)"

function appendRustItem :: "view \<Rightarrow> nat \<Rightarrow> string \<Rightarrow> bool \<Rightarrow> raw_declaration list" where
  "appendRustItem v node prefix implicitly =
     (case rustItemKind (node_kind v node) of None \<Rightarrow> []
      | Some k \<Rightarrow>
          if \<not> implicitly \<and> \<not> rustIsPublic v node then []
          else case rustName v node of None \<Rightarrow> []
            | Some name \<Rightarrow>
                decl (prefix @ name) k (rustHeader v node)
                # (if node_kind v node \<in> set [''trait_item'', ''mod_item'', ''impl_item''] then
                     (case childOfKind v node rustBodies of None \<Rightarrow> []
                      | Some body \<Rightarrow> concat (map (\<lambda>member.
                          appendRustItem v member (prefix @ name @ ''::'') (node_kind v node = ''trait_item'')) (children v body)))
                   else []))"
  by pat_completeness auto
termination
  by (relation "measure (\<lambda>(v, node, prefix, i). length (vw_records v) - node)") (auto intro: grandchild_bounds)

declare appendRustItem.simps [simp del]

definition collectRust :: "view \<Rightarrow> raw_declaration list" where
  "collectRust v = concat (map (\<lambda>node. appendRustItem v node [] False) (tops v))"

section \<open>C sharp\<close>

definition csharpBodies :: "string list" where
  "csharpBodies = [''declaration_list'', ''enum_member_declaration_list'', ''block'', ''accessor_list'', ''arrow_expression_clause'']"

definition csharpTypeKind :: "string \<Rightarrow> string option" where
  "csharpTypeKind node =
     (if node \<in> set [''class_declaration'', ''struct_declaration'', ''record_declaration'', ''record_struct_declaration''] then Some ''class''
      else if node = ''interface_declaration'' then Some ''interface''
      else if node = ''enum_declaration'' then Some ''enum'' else None)"

definition csharpIsPublic :: "view \<Rightarrow> nat \<Rightarrow> bool" where
  "csharpIsPublic v node \<longleftrightarrow> (\<exists>c \<in> set (children v node). node_kind v c = ''modifier'' \<and> node_text v c = ''public'')"

definition csharpName :: "view \<Rightarrow> nat \<Rightarrow> string option" where
  "csharpName v node = named_by v node [''identifier'', ''qualified_name'']"

definition csharpFieldHeader :: "view \<Rightarrow> nat \<Rightarrow> nat \<Rightarrow> string" where
  "csharpFieldHeader v field declarator =
     (case childOfKind v declarator [''=''] of Some e \<Rightarrow> textTo v field e | None \<Rightarrow> node_text v field)"

definition csharp_member :: "view \<Rightarrow> nat \<Rightarrow> string \<Rightarrow> bool \<Rightarrow> raw_declaration list" where
  "csharp_member v node prefix implicitly =
     (let k = node_kind v node; hidden = (\<not> implicitly \<and> \<not> csharpIsPublic v node) in
      if k \<in> set [''method_declaration'', ''constructor_declaration'', ''operator_declaration'', ''conversion_operator_declaration'',
            ''delegate_declaration''] then
        (if hidden then []
         else case csharpName v node of None \<Rightarrow> [] | Some name \<Rightarrow> [decl (prefix @ name) ''method'' (node_header v node csharpBodies)])
      else if k \<in> set [''property_declaration'', ''event_declaration'', ''indexer_declaration''] then
        (if hidden then []
         else case csharpName v node of None \<Rightarrow> [] | Some name \<Rightarrow> [decl (prefix @ name) ''field'' (node_header v node csharpBodies)])
      else if k \<in> set [''field_declaration'', ''event_field_declaration''] then
        (if hidden then []
         else case childOfKind v node [''variable_declaration''] of None \<Rightarrow> []
           | Some d \<Rightarrow> (case childOfKind v d [''variable_declarator''] of None \<Rightarrow> []
             | Some declarator \<Rightarrow> (case childOfKind v declarator [''identifier''] of None \<Rightarrow> []
               | Some target \<Rightarrow> [decl (prefix @ node_text v target) ''field'' (csharpFieldHeader v node declarator)])))
      else if k = ''enum_member_declaration'' then
        (case csharpName v node of None \<Rightarrow> [] | Some name \<Rightarrow> [decl (prefix @ name) ''field'' name])
      else [])"

function appendCSharpNode :: "view \<Rightarrow> nat \<Rightarrow> string \<Rightarrow> bool \<Rightarrow> raw_declaration list" where
  "appendCSharpNode v node prefix implicitly =
     (if node_kind v node \<in> set [''namespace_declaration'', ''file_scoped_namespace_declaration''] then
        (case childOfKind v node [''declaration_list''] of None \<Rightarrow> []
         | Some body \<Rightarrow> concat (map (\<lambda>member. appendCSharpNode v member
             (case csharpName v node of Some name \<Rightarrow> prefix @ name @ ''.'' | None \<Rightarrow> prefix) False) (children v body)))
      else case csharpTypeKind (node_kind v node) of
        Some k \<Rightarrow>
          if \<not> implicitly \<and> \<not> csharpIsPublic v node then []
          else (case csharpName v node of None \<Rightarrow> []
            | Some name \<Rightarrow>
                decl (prefix @ name) k (node_header v node csharpBodies)
                # (case childOfKind v node csharpBodies of None \<Rightarrow> []
                   | Some body \<Rightarrow> concat (map (\<lambda>member. appendCSharpNode v member (prefix @ name @ ''.'')
                       (node_kind v node = ''interface_declaration'')) (children v body))))
      | None \<Rightarrow> csharp_member v node prefix implicitly)"
  by pat_completeness auto
termination
  by (relation "measure (\<lambda>(v, node, prefix, i). length (vw_records v) - node)") (auto intro: grandchild_bounds)

declare appendCSharpNode.simps [simp del]

definition collectCSharp :: "view \<Rightarrow> raw_declaration list" where
  "collectCSharp v = concat (map (\<lambda>node. appendCSharpNode v node [] False) (tops v))"

section \<open>C\<close>

definition cBodies :: "string list" where
  "cBodies = [''compound_statement'', ''field_declaration_list'', ''enumerator_list'']"

definition cDeclarators :: "string list" where
  "cDeclarators = [''function_declarator'', ''pointer_declarator'', ''init_declarator'', ''identifier'', ''array_declarator'']"

definition cSpecifierNameKind :: "view \<Rightarrow> nat \<Rightarrow> (string \<times> string) option" where
  "cSpecifierNameKind v node =
     map_option (\<lambda>identifier. (node_text v identifier, if node_kind v node = ''enum_specifier'' then ''enum'' else ''class''))
       (childOfKind v node [''type_identifier''])"

definition cTypeSpecifier :: "view \<Rightarrow> nat \<Rightarrow> (string \<times> string) option" where
  "cTypeSpecifier v node =
     (case childOfKind v node [''struct_specifier'', ''union_specifier'', ''enum_specifier''] of None \<Rightarrow> None
      | Some specifier \<Rightarrow> if childOfKind v node cDeclarators \<noteq> None then None else cSpecifierNameKind v specifier)"

text \<open>At most eight declarators are unwrapped; the first argument counts them down.\<close>

fun cDeclaratorName :: "nat \<Rightarrow> view \<Rightarrow> nat \<Rightarrow> string option" where
  "cDeclaratorName 0 v node = None"
| "cDeclaratorName (Suc n) v node =
     (if node_kind v node \<in> set [''identifier'', ''type_identifier'', ''field_identifier'']
      then (if node_text v node = [] then None else Some (node_text v node))
      else case childOfKind v node [''function_declarator'', ''pointer_declarator'', ''array_declarator'', ''parenthesized_declarator'',
               ''identifier'', ''type_identifier'', ''field_identifier''] of
             None \<Rightarrow> None | Some inner \<Rightarrow> cDeclaratorName n v inner)"

fun cIsFunction :: "nat \<Rightarrow> view \<Rightarrow> nat \<Rightarrow> bool" where
  "cIsFunction 0 v declarator = False"
| "cIsFunction (Suc n) v declarator =
     (if node_kind v declarator = ''function_declarator'' then True
      else case childOfKind v declarator [''function_declarator'', ''pointer_declarator'', ''array_declarator'', ''parenthesized_declarator''] of
             None \<Rightarrow> False | Some inner \<Rightarrow> cIsFunction n v inner)"

definition cIsStatic :: "view \<Rightarrow> nat \<Rightarrow> bool" where
  "cIsStatic v node \<longleftrightarrow> (\<exists>c \<in> set (children v node). node_kind v c = ''storage_class_specifier'' \<and> node_text v c = ''static'')"

definition cHeader :: "view \<Rightarrow> nat \<Rightarrow> nat \<Rightarrow> string" where
  "cHeader v node declarator =
     (case childOfKind v node cBodies of Some body \<Rightarrow> trimRight (textTo v node body) BLANKS
      | None \<Rightarrow>
          let whole = trimRight (trimRight (node_text v node) BLANKS) '';'' in
          if node_kind v declarator = ''init_declarator'' then
            (case childOfKind v declarator [''=''] of Some e \<Rightarrow> textTo v node e | None \<Rightarrow> whole)
          else whole)"

definition appendCNode :: "view \<Rightarrow> nat \<Rightarrow> string \<Rightarrow> raw_declaration list" where
  "appendCNode v node prefix =
     (let k = node_kind v node in
      if k \<in> set [''function_definition'', ''declaration''] then
        (if cIsStatic v node then []
         else case cTypeSpecifier v node of
           Some (name, knd) \<Rightarrow> [decl (prefix @ name) knd (node_header v node cBodies)]
         | None \<Rightarrow>
             (case childOfKind v node cDeclarators of None \<Rightarrow> []
              | Some declarator \<Rightarrow> (case cDeclaratorName 8 v declarator of None \<Rightarrow> []
                  | Some name \<Rightarrow> [decl (prefix @ name) (if cIsFunction 8 v declarator then ''function'' else ''const'') (cHeader v node declarator)])))
      else if k = ''type_definition'' then
        (case childOfKind v node [''type_identifier'', ''pointer_declarator'', ''function_declarator''] of None \<Rightarrow> []
         | Some declarator \<Rightarrow> (case cDeclaratorName 8 v declarator of None \<Rightarrow> []
             | Some name \<Rightarrow> [decl (prefix @ name) ''type'' (node_text v node)]))
      else if k \<in> set [''struct_specifier'', ''union_specifier'', ''enum_specifier''] then
        (case cSpecifierNameKind v node of None \<Rightarrow> []
         | Some (name, knd) \<Rightarrow> [decl (prefix @ name) knd (node_header v node cBodies)])
      else [])"

definition collectC :: "view \<Rightarrow> raw_declaration list" where
  "collectC v = concat (map (\<lambda>node. appendCNode v node []) (tops v))"

section \<open>C plus plus\<close>

definition cpp_plain_member :: "view \<Rightarrow> nat \<Rightarrow> string \<Rightarrow> raw_declaration list" where
  "cpp_plain_member v node prefix =
     (case childOfKind v node [''function_declarator'', ''pointer_declarator'', ''field_identifier'', ''init_declarator'', ''identifier'',
             ''array_declarator'', ''reference_declarator''] of None \<Rightarrow> []
      | Some declarator \<Rightarrow> (case cDeclaratorName 8 v declarator of None \<Rightarrow> []
          | Some name \<Rightarrow> [decl (prefix @ name) (if cIsFunction 8 v declarator then ''method'' else ''field'') (cHeader v node declarator)]))"

text \<open>The members after a \<^verbatim>\<open>public\<close> label, or before any label in a struct.\<close>

fun public_members :: "view \<Rightarrow> bool \<Rightarrow> nat list \<Rightarrow> nat list" where
  "public_members v public [] = []"
| "public_members v public (m # ms) =
     (if node_kind v m = ''access_specifier''
      then public_members v (node_text v m = ''public'' \<or> node_text v m = ''public:'') ms
      else if \<not> public then public_members v public ms
      else m # public_members v public ms)"

lemma public_members_subset: "set (public_members v public ms) \<subseteq> set ms"
  by (induction v public ms rule: public_members.induct) auto

lemma public_member_bounds:
  "c \<in> set (public_members v public (children v b)) \<Longrightarrow> childOfKind v i kinds = Some b
     \<Longrightarrow> length (vw_records v) - c < length (vw_records v) - i"
  using public_members_subset grandchild_bounds by blast

text \<open>\<^verbatim>\<open>appendCPPMember\<close> is the branch on the member's kind inside the class.\<close>

function appendCPPNode :: "view \<Rightarrow> nat \<Rightarrow> string \<Rightarrow> raw_declaration list" where
  "appendCPPNode v node prefix =
     (let k = node_kind v node in
      if k = ''namespace_definition'' then
        (case childOfKind v node [''declaration_list''] of None \<Rightarrow> []
         | Some body \<Rightarrow> concat (map (\<lambda>member. appendCPPNode v member
             (case childOfKind v node [''namespace_identifier'', ''identifier''] of
                Some identifier \<Rightarrow> prefix @ node_text v identifier @ ''::'' | None \<Rightarrow> prefix)) (children v body)))
      else if k = ''template_declaration'' then concat (map (\<lambda>child. appendCPPNode v child prefix) (children v node))
      else if k \<in> set [''class_specifier'', ''struct_specifier'', ''union_specifier''] then
        (case childOfKind v node [''type_identifier''] of None \<Rightarrow> []
         | Some identifier \<Rightarrow>
             let name = prefix @ node_text v identifier in
             decl name ''class'' (node_header v node cBodies)
             # (case childOfKind v node [''field_declaration_list''] of None \<Rightarrow> []
                | Some body \<Rightarrow> concat (map (\<lambda>member.
                    if node_kind v member \<in> set [''field_declaration'', ''declaration'', ''function_definition'']
                    then cpp_plain_member v member (name @ ''::'')
                    else if node_kind v member \<in> set [''class_specifier'', ''struct_specifier'', ''enum_specifier'', ''template_declaration'']
                    then appendCPPNode v member (name @ ''::'')
                    else []) (public_members v (k \<noteq> ''class_specifier'') (children v body)))))
      else appendCNode v node prefix)"
  by pat_completeness auto
termination
proof (relation "measure (\<lambda>(v, node, prefix). length (vw_records v) - node)", simp, goal_cases)
  case 1
  then show ?case by (auto intro: grandchild_bounds)
next
  case 2
  then show ?case by (auto intro: child_measure)
next
  case 3
  then show ?case by (auto dest: public_member_bounds)
qed

declare appendCPPNode.simps [simp del]

definition collectCPP :: "view \<Rightarrow> raw_declaration list" where
  "collectCPP v = concat (map (\<lambda>node. appendCPPNode v node []) (tops v))"

section \<open>PHP\<close>

definition phpBodies :: "string list" where
  "phpBodies = [''declaration_list'', ''compound_statement'', ''enum_declaration_list'']"

definition phpTypeKind :: "string \<Rightarrow> string option" where
  "phpTypeKind node =
     (if node = ''class_declaration'' then Some ''class''
      else if node \<in> set [''interface_declaration'', ''trait_declaration''] then Some ''interface''
      else if node = ''enum_declaration'' then Some ''enum'' else None)"

definition phpName :: "view \<Rightarrow> nat \<Rightarrow> string option" where
  "phpName v node = named_by v node [''name'']"

definition phpIsHidden :: "view \<Rightarrow> nat \<Rightarrow> bool" where
  "phpIsHidden v node \<longleftrightarrow>
     (case childOfKind v node [''visibility_modifier''] of None \<Rightarrow> False
      | Some modifier \<Rightarrow> node_text v modifier \<in> set [''private'', ''protected''])"

definition phpPropertyHeader :: "view \<Rightarrow> nat \<Rightarrow> nat \<Rightarrow> string" where
  "phpPropertyHeader v property element =
     (case childOfKind v element [''=''] of Some e \<Rightarrow> textTo v property e | None \<Rightarrow> node_text v property)"

definition appendPHPMember :: "view \<Rightarrow> nat \<Rightarrow> string \<Rightarrow> raw_declaration list" where
  "appendPHPMember v node prefix =
     (let k = node_kind v node in
      if k = ''method_declaration'' then
        (if phpIsHidden v node then []
         else case phpName v node of None \<Rightarrow> [] | Some name \<Rightarrow> [decl (prefix @ name) ''method'' (node_header v node phpBodies)])
      else if k = ''property_declaration'' then
        (if phpIsHidden v node then []
         else case childOfKind v node [''property_element''] of None \<Rightarrow> []
           | Some target \<Rightarrow> (case childOfKind v target [''variable_name''] of None \<Rightarrow> []
               | Some variable \<Rightarrow> [decl (prefix @ node_text v variable) ''field'' (phpPropertyHeader v node target)]))
      else if k = ''const_declaration'' then
        (if phpIsHidden v node then []
         else case childOfKind v node [''const_element''] of None \<Rightarrow> []
           | Some element \<Rightarrow> (case childOfKind v element [''name''] of None \<Rightarrow> []
               | Some target \<Rightarrow> [decl (prefix @ node_text v target) ''const'' (prefix @ node_text v target)]))
      else if k = ''enum_case'' then
        (case phpName v node of None \<Rightarrow> [] | Some name \<Rightarrow> [decl (prefix @ name) ''field'' name])
      else [])"

function appendPHPNode :: "view \<Rightarrow> nat \<Rightarrow> string \<Rightarrow> raw_declaration list" where
  "appendPHPNode v node prefix =
     (let k = node_kind v node in
      if k = ''namespace_definition'' then
        (case childOfKind v node [''compound_statement'', ''declaration_list''] of None \<Rightarrow> []
         | Some body \<Rightarrow> concat (map (\<lambda>member. appendPHPNode v member prefix) (children v body)))
      else if k = ''function_definition'' then
        (case phpName v node of None \<Rightarrow> [] | Some name \<Rightarrow> [decl (prefix @ name) ''function'' (node_header v node phpBodies)])
      else case phpTypeKind k of None \<Rightarrow> []
        | Some knd \<Rightarrow>
            (case phpName v node of None \<Rightarrow> []
             | Some name \<Rightarrow> decl (prefix @ name) knd (node_header v node phpBodies)
                 # (case childOfKind v node phpBodies of None \<Rightarrow> []
                    | Some body \<Rightarrow> concat (map (\<lambda>member. appendPHPMember v member (prefix @ name @ ''::'')) (children v body)))))"
  by pat_completeness auto
termination
  by (relation "measure (\<lambda>(v, node, prefix). length (vw_records v) - node)") (auto intro: grandchild_bounds)

declare appendPHPNode.simps [simp del]

definition collectPHP :: "view \<Rightarrow> raw_declaration list" where
  "collectPHP v = concat (map (\<lambda>node. appendPHPNode v node []) (tops v))"

section \<open>Kotlin\<close>

definition kotlinBodies :: "string list" where
  "kotlinBodies = [''class_body'', ''function_body'', ''enum_class_body'']"

definition kotlinKind :: "string \<Rightarrow> string option" where
  "kotlinKind node =
     (if node = ''class_declaration'' then Some ''class''
      else if node = ''object_declaration'' then Some ''namespace''
      else if node = ''function_declaration'' then Some ''function''
      else if node = ''property_declaration'' then Some ''const''
      else if node = ''type_alias'' then Some ''type'' else None)"

text \<open>Kotlin and Scala hide what a modifier says is private or protected.\<close>

definition modifier_hides :: "view \<Rightarrow> nat \<Rightarrow> bool" where
  "modifier_hides v node \<longleftrightarrow>
     (case childOfKind v node [''modifiers''] of None \<Rightarrow> False
      | Some modifiers \<Rightarrow> let t = node_text v modifiers in str_contains t ''private'' \<or> str_contains t ''protected'')"

definition kotlinIsHidden :: "view \<Rightarrow> nat \<Rightarrow> bool" where
  "kotlinIsHidden v node = modifier_hides v node"

definition kotlinHeader :: "view \<Rightarrow> nat \<Rightarrow> string" where
  "kotlinHeader v node =
     (case childOfKind v node kotlinBodies of Some body \<Rightarrow> trimRight (textTo v node body) BLANKS
      | None \<Rightarrow> (case childOfKind v node [''=''] of Some e \<Rightarrow> trimRight (textTo v node e) BLANKS
                | None \<Rightarrow> node_text v node))"

definition kotlin_identifier :: "view \<Rightarrow> nat \<Rightarrow> nat option" where
  "kotlin_identifier v node =
     (case childOfKind v node [''simple_identifier'', ''type_identifier''] of Some i \<Rightarrow> Some i
      | None \<Rightarrow> (case childOfKind v node [''variable_declaration''] of None \<Rightarrow> None
          | Some binding \<Rightarrow> childOfKind v binding [''simple_identifier'']))"

function appendKotlinNode :: "view \<Rightarrow> nat \<Rightarrow> string \<Rightarrow> raw_declaration list" where
  "appendKotlinNode v node prefix =
     (case kotlinKind (node_kind v node) of None \<Rightarrow> []
      | Some k \<Rightarrow>
          if kotlinIsHidden v node then []
          else case kotlin_identifier v node of None \<Rightarrow> []
            | Some i \<Rightarrow>
                let name = node_text v i in
                if name = [] then []
                else decl (prefix @ name) k (kotlinHeader v node)
                  # (case childOfKind v node [''class_body'', ''enum_class_body''] of None \<Rightarrow> []
                     | Some body \<Rightarrow> concat (map (\<lambda>member. appendKotlinNode v member (prefix @ name @ ''.'')) (children v body))))"
  by pat_completeness auto
termination
  by (relation "measure (\<lambda>(v, node, prefix). length (vw_records v) - node)") (auto intro: grandchild_bounds)

declare appendKotlinNode.simps [simp del]

definition collectKotlin :: "view \<Rightarrow> raw_declaration list" where
  "collectKotlin v = concat (map (\<lambda>node. appendKotlinNode v node []) (tops v))"

section \<open>Scala\<close>

definition scalaBodies :: "string list" where "scalaBodies = [''template_body'', ''block'']"
definition scalaMemberBodies :: "string list" where "scalaMemberBodies = [''template_body'']"

definition scalaKind :: "string \<Rightarrow> string option" where
  "scalaKind node =
     (if node \<in> set [''class_definition'', ''case_class_definition''] then Some ''class''
      else if node = ''object_definition'' then Some ''namespace''
      else if node = ''trait_definition'' then Some ''interface''
      else if node \<in> set [''function_definition'', ''function_declaration''] then Some ''function''
      else if node \<in> set [''val_definition'', ''val_declaration'', ''var_definition'', ''var_declaration''] then Some ''const''
      else if node = ''type_definition'' then Some ''type'' else None)"

definition scalaIsHidden :: "view \<Rightarrow> nat \<Rightarrow> bool" where
  "scalaIsHidden v node = modifier_hides v node"

definition scalaHeader :: "view \<Rightarrow> nat \<Rightarrow> string" where
  "scalaHeader v node =
     (case childOfKind v node [''=''] of Some e \<Rightarrow> trimRight (textTo v node e) BLANKS
      | None \<Rightarrow> (case childOfKind v node scalaBodies of Some body \<Rightarrow> trimRight (textTo v node body) BLANKS
                | None \<Rightarrow> node_text v node))"

function appendScalaNode :: "view \<Rightarrow> nat \<Rightarrow> string \<Rightarrow> raw_declaration list" where
  "appendScalaNode v node prefix =
     (case scalaKind (node_kind v node) of None \<Rightarrow> []
      | Some k \<Rightarrow>
          if scalaIsHidden v node then []
          else case childOfKind v node [''identifier'', ''type_identifier'', ''_''] of None \<Rightarrow> []
            | Some i \<Rightarrow>
                let name = node_text v i in
                if name = [] then []
                else decl (prefix @ name) k (scalaHeader v node)
                  # (case childOfKind v node scalaMemberBodies of None \<Rightarrow> []
                     | Some body \<Rightarrow> concat (map (\<lambda>member. appendScalaNode v member (prefix @ name @ ''.'')) (children v body))))"
  by pat_completeness auto
termination
  by (relation "measure (\<lambda>(v, node, prefix). length (vw_records v) - node)") (auto dest: grandchild_bounds)

declare appendScalaNode.simps [simp del]

definition collectScala :: "view \<Rightarrow> raw_declaration list" where
  "collectScala v = concat (map (\<lambda>node. appendScalaNode v node []) (tops v))"

section \<open>Dart\<close>

definition dartExported :: "string \<Rightarrow> bool" where
  "dartExported name \<longleftrightarrow> name \<noteq> [] \<and> \<not> has_prefix name ''_''"

definition dartName :: "view \<Rightarrow> nat \<Rightarrow> string option" where
  "dartName v node =
     (case (case childOfKind v node [''identifier''] of Some i \<Rightarrow> Some i
            | None \<Rightarrow> (case childOfKind v node [''initialized_identifier''] of None \<Rightarrow> None
                | Some wrapper \<Rightarrow> childOfKind v wrapper [''identifier''])) of
        None \<Rightarrow> None
      | Some i \<Rightarrow> let name = node_text v i in if name = [] \<or> \<not> dartExported name then None else Some name)"

definition dartFieldHeader :: "view \<Rightarrow> nat \<Rightarrow> string" where
  "dartFieldHeader v node =
     (case childOfKind v node [''=''] of Some e \<Rightarrow> trimRight (textTo v node e) BLANKS | None \<Rightarrow> node_text v node)"

definition appendDartMember :: "view \<Rightarrow> nat \<Rightarrow> string \<Rightarrow> raw_declaration list" where
  "appendDartMember v node prefix =
     (if node_kind v node = ''method_signature'' then
        (case childOfKind v node [''function_signature'', ''getter_signature'', ''setter_signature'', ''constructor_signature'',
               ''factory_constructor_signature''] of None \<Rightarrow> []
         | Some sig \<Rightarrow> (case dartName v sig of None \<Rightarrow> [] | Some name \<Rightarrow> [decl (prefix @ name) ''method'' (node_text v node)]))
      else if node_kind v node = ''declaration'' then
        (case childOfKind v node [''initialized_identifier_list'', ''static_final_declaration_list'', ''initialized_variable_definition''] of
           None \<Rightarrow> []
         | Some l \<Rightarrow> (case dartName v l of None \<Rightarrow> [] | Some name \<Rightarrow> [decl (prefix @ name) ''field'' (dartFieldHeader v node)]))
      else [])"

definition appendDartNode :: "view \<Rightarrow> nat \<Rightarrow> string \<Rightarrow> raw_declaration list" where
  "appendDartNode v node prefix =
     (if node_kind v node \<in> set [''class_definition'', ''mixin_declaration'', ''extension_declaration'', ''enum_declaration''] then
        (case childOfKind v node [''identifier''] of None \<Rightarrow> []
         | Some i \<Rightarrow>
             let name = node_text v i in
             if \<not> dartExported name then []
             else decl (prefix @ name) (if node_kind v node = ''enum_declaration'' then ''enum'' else ''class'')
                    (node_header v node [''class_body'', ''enum_body''])
               # (case childOfKind v node [''class_body'', ''enum_body''] of None \<Rightarrow> []
                  | Some body \<Rightarrow> concat (map (\<lambda>member. appendDartMember v member (prefix @ name @ ''.'')) (children v body))))
      else if node_kind v node = ''function_signature'' then
        (case dartName v node of None \<Rightarrow> [] | Some name \<Rightarrow> [decl (prefix @ name) ''function'' (node_text v node)])
      else [])"

definition collectDart :: "view \<Rightarrow> raw_declaration list" where
  "collectDart v = concat (map (\<lambda>node. appendDartNode v node []) (tops v))"

section \<open>The languages that have rules\<close>

definition languageRules :: "(string \<times> (view \<Rightarrow> raw_declaration list)) list" where
  "languageRules = [(''python'', collectPython), (''javascript'', collectJavaScript), (''typescript'', collectJavaScript),
     (''tsx'', collectJavaScript), (''java'', collectJava), (''rust'', collectRust), (''c_sharp'', collectCSharp),
     (''php'', collectPHP), (''c'', collectC), (''cpp'', collectCPP), (''scala'', collectScala), (''kotlin'', collectKotlin),
     (''dart'', collectDart)]"

text \<open>A member of a Java type is published only if the type and every type around it are public.\<close>

lemma java_needs_public: "appendJavaType v node prefix \<noteq> [] \<Longrightarrow> javaIsPublic v node"
  by (subst (asm) appendJavaType.simps) (auto split: option.splits if_splits)

end
