(* ===== verification/Contract_Surface.thy ===== *)
theory Contract_Surface
  imports Contract_TypeScript Contract_Golang Contract_Languages
begin

text \<open>
  The fingerprint of a file's exported surface (\<^verbatim>\<open>internal/contract/contract.go\<close>): which files have one,
  how the extracted declarations are gated, ordered, cut and hashed, here and in the tail the tree-sitter
  languages have of their own (\<^verbatim>\<open>internal/contract/multilang\<close>). \<^verbatim>\<open>go/parser\<close> and the tree-sitter grammars
  with their rules are the parameter \<open>ex\<close>.
\<close>

section \<open>Files\<close>

record contract_file =
  fi_path :: string
  fi_hash :: string
  fi_symbols :: "symbol list"

text \<open>\<^verbatim>\<open>filepath.Ext\<close>.\<close>

definition ext :: "string \<Rightarrow> string" where
  "ext p = (let b = last (split_on (CHR ''/'') p) in
     if CHR ''.'' \<in> set b then CHR ''.'' # rev (takeWhile (\<lambda>c. c \<noteq> CHR ''.'') (rev b)) else [])"

definition wasmFingerprintable :: "string \<Rightarrow> bool" where
  "wasmFingerprintable path \<longleftrightarrow> lower_text (ext path) \<in> set
     [''.py'', ''.pyi'', ''.js'', ''.jsx'', ''.mjs'', ''.cjs'', ''.java'', ''.rs'', ''.cs'', ''.php'', ''.c'', ''.h'', ''.cc'', ''.cpp'',
      ''.cxx'', ''.hpp'', ''.hh'', ''.hxx'', ''.scala'', ''.sc'', ''.kt'', ''.kts'', ''.dart'']"

definition Fingerprintable :: "string \<Rightarrow> bool" where
  "Fingerprintable path \<longleftrightarrow> lower_text (ext path) \<in> set [''.go'', ''.ts'', ''.tsx''] \<or> wasmFingerprintable path"

text \<open>Each symbol contributes exactly its name, a colon, its hash and a line feed.\<close>

definition symbol_text :: "symbol \<Rightarrow> string" where
  "symbol_text y = sy_name y @ '':'' @ sy_hash y @ [LF]"

definition fileContractHash :: "symbol list \<Rightarrow> string" where
  "fileContractHash symbols = sha256_hex (concat (map symbol_text symbols))"

text \<open>
  What the source relies on: the front end of Go, and the parse of \<open>ex_wasm language source\<close>, the names of the
  grammar's symbols and the dump of the tree, None when the grammar cannot be loaded or the parse is not clean.
\<close>

record extractors =
  ex_go :: go_front
  ex_wasm :: "string \<Rightarrow> string \<Rightarrow> (string list \<times> node_record list) option"

definition symbol_key :: "symbol \<Rightarrow> string \<times> string \<times> string" where
  "symbol_key y = (sy_name y, sy_kind y, sy_hash y)"

text \<open>What is kept of the declarations: the ones that pass the gate, sorted, at most \<^verbatim>\<open>MaxSymbols\<close>.\<close>

definition surface :: "(string \<Rightarrow> bool) option \<Rightarrow> symbol list \<Rightarrow> symbol list" where
  "surface deny symbols =
     take MaxSymbols (sort_key symbol_key
       (filter (\<lambda>y. \<not> (case deny of None \<Rightarrow> False | Some denied \<Rightarrow> denied (sy_signature y))) symbols))"

section \<open>The tree-sitter languages\<close>

definition languages :: "(string list \<times> string) list" where
  "languages = [([''.py'', ''.pyi''], ''python''), ([''.js'', ''.jsx'', ''.mjs'', ''.cjs''], ''javascript''),
     ([''.ts'', ''.mts'', ''.cts''], ''typescript''), ([''.tsx''], ''tsx''), ([''.java''], ''java''), ([''.rs''], ''rust''), ([''.cs''], ''c_sharp''),
     ([''.php''], ''php''), ([''.c'', ''.h''], ''c''), ([''.cc'', ''.cpp'', ''.cxx'', ''.hpp'', ''.hh'', ''.hxx''], ''cpp''),
     ([''.scala'', ''.sc''], ''scala''), ([''.kt'', ''.kts''], ''kotlin''), ([''.dart''], ''dart'')]"

definition languageFor :: "string \<Rightarrow> string" where
  "languageFor path = (case find (\<lambda>(exts, name). lower_text (ext path) \<in> set exts) languages of
     Some (exts, name) \<Rightarrow> name | None \<Rightarrow> [])"

text \<open>\<^verbatim>\<open>slices.Compact\<close> drops what equals its neighbour.\<close>

definition assemble :: "string \<Rightarrow> raw_declaration list \<Rightarrow> (string \<Rightarrow> bool) option \<Rightarrow> contract_file" where
  "assemble path found deny =
     (let made = map (\<lambda>x. newSymbol (de_name x) (de_kind x) (de_raw x)) found;
          allowed = filter (\<lambda>y. \<not> (case deny of None \<Rightarrow> False | Some denied \<Rightarrow> denied (sy_signature y))) made;
          kept = take MaxSymbols (remdups_adj (sort_key symbol_key allowed))
      in \<lparr>fi_path = path, fi_hash = fileContractHash kept, fi_symbols = kept\<rparr>)"

definition extractWasm :: "extractors \<Rightarrow> string \<Rightarrow> string \<Rightarrow> (string \<Rightarrow> bool) option \<Rightarrow> contract_file option" where
  "extractWasm ex path source deny =
     (let language = languageFor path in
      if language = [] \<or> MaxSourceBytes < length source then None
      else case map_of languageRules language of None \<Rightarrow> None
      | Some collect \<Rightarrow>
          (case ex_wasm ex language source of
             None \<Rightarrow> None
           | Some (names, records) \<Rightarrow>
               Some (assemble path (collect \<lparr>vw_records = records, vw_source = source, vw_names = names\<rparr>) deny)))"

section \<open>Extraction\<close>

text \<open>Go and TypeScript have extractors of their own.\<close>

definition extract_symbols :: "extractors \<Rightarrow> string \<Rightarrow> string \<Rightarrow> symbol list option" where
  "extract_symbols ex path source = (if lower_text (ext path) = ''.go'' then extractGo (ex_go ex) source else extractTypeScript source)"

definition Extract :: "extractors \<Rightarrow> string \<Rightarrow> string \<Rightarrow> (string \<Rightarrow> bool) option \<Rightarrow> contract_file option" where
  "Extract ex path source deny =
     (if \<not> Fingerprintable path \<or> MaxSourceBytes < length source then None
      else if wasmFingerprintable path then extractWasm ex path source deny
      else case extract_symbols ex path source of
        None \<Rightarrow> None
      | Some symbols \<Rightarrow>
          let kept = surface deny symbols
          in Some \<lparr>fi_path = path, fi_hash = fileContractHash kept, fi_symbols = kept\<rparr>)"

section \<open>What moves a fingerprint\<close>

lemma map_sort_key: "map f (sort_key f xs) = sort (map f xs)"
proof (rule properties_for_sort [symmetric])
  show "mset (map f (sort_key f xs)) = mset (map f xs)" by (simp only: mset_map mset_sort)
qed (rule sorted_sort_key)

lemma surface_keys:
  "map symbol_key (surface deny ys) =
     take MaxSymbols (sort (map symbol_key (filter (\<lambda>y. \<not> (case deny of None \<Rightarrow> False | Some f \<Rightarrow> f (sy_signature y))) ys)))"
  by (simp add: surface_def map_sort_key flip: take_map)

definition passes :: "(string \<Rightarrow> bool) option \<Rightarrow> symbol \<Rightarrow> bool" where
  "passes deny y \<longleftrightarrow> \<not> (case deny of None \<Rightarrow> False | Some f \<Rightarrow> f (sy_signature y))"

lemma surface_passes: "y \<in> set (surface deny ys) \<Longrightarrow> passes deny y"
  by (auto simp: surface_def passes_def dest!: in_set_takeD)

lemma assemble_passes: "y \<in> set (fi_symbols (assemble path found deny)) \<Longrightarrow> passes deny y"
  by (auto simp: assemble_def Let_def passes_def dest!: in_set_takeD)

text \<open>Whatever the language, a published declaration has passed the gate.\<close>

lemma Extract_gated:
  assumes "Extract ex path source deny = Some f"
  shows "fi_path f = path" and "length (fi_symbols f) \<le> MaxSymbols" and "y \<in> set (fi_symbols f) \<Longrightarrow> passes deny y"
    and "fi_hash f = fileContractHash (fi_symbols f)" and "Fingerprintable path"
  using assms surface_passes assemble_passes
  by (auto simp: Extract_def extractWasm_def assemble_def surface_def Let_def split: if_splits option.splits)

text \<open>The declarations of a file that count, as a multiset of name, kind and signature hash.\<close>

definition declarations :: "(string \<Rightarrow> bool) option \<Rightarrow> symbol list \<Rightarrow> (string \<times> string \<times> string) multiset" where
  "declarations deny ys = mset (map symbol_key (filter (passes deny) ys))"

lemma symbol_text_key: "symbol_text y = (\<lambda>(n, k, h). n @ '':'' @ h @ [LF]) (symbol_key y)"
  by (simp add: symbol_text_def symbol_key_def)

lemma surface_same:
  assumes "declarations deny ys = declarations deny zs"
  shows "map symbol_key (surface deny ys) = map symbol_key (surface deny zs)"
proof -
  have "sort (map symbol_key (filter (passes deny) ys)) = sort (map symbol_key (filter (passes deny) zs))"
    using assms unfolding declarations_def by (metis mset_sort properties_for_sort sorted_sort)
  then show ?thesis unfolding surface_keys passes_def by simp
qed

lemma hash_of_keys:
  "map symbol_key ys = map symbol_key zs \<Longrightarrow> concat (map symbol_text ys) = concat (map symbol_text zs)"
  unfolding symbol_text_key map_map [of "\<lambda>(n, k, h). n @ '':'' @ h @ [LF]" symbol_key, unfolded comp_def, symmetric] by simp

text \<open>A symbol as the extractors make it: its name is an identifier, its hash is hexadecimal.\<close>

definition well_named :: "symbol \<Rightarrow> bool" where
  "well_named y \<longleftrightarrow> CHR '':'' \<notin> set (sy_name y) \<and> LF \<notin> set (sy_hash y)"

lemma split_first: "c \<notin> set a \<Longrightarrow> c \<notin> set b \<Longrightarrow> a @ c # s = b @ c # t \<longleftrightarrow> a = b \<and> s = t"
proof (induction a arbitrary: b)
  case Nil
  then show ?case by (cases b) auto
next
  case (Cons x a)
  then show ?case by (cases b) auto
qed

lemma symbol_text_append: "symbol_text y @ t = sy_name y @ CHR '':'' # (sy_hash y @ LF # t)"
  by (simp add: symbol_text_def)

lemma symbol_text_injective:
  assumes "list_all well_named ys" and "list_all well_named zs"
    and "concat (map symbol_text ys) = concat (map symbol_text zs)"
  shows "map (\<lambda>y. (sy_name y, sy_hash y)) ys = map (\<lambda>y. (sy_name y, sy_hash y)) zs"
  using assms
proof (induction ys arbitrary: zs)
  case Nil
  then show ?case by (cases zs) (auto simp: symbol_text_def)
next
  case (Cons y ys)
  from Cons.prems(3) obtain z zs' where zs: "zs = z # zs'" by (cases zs) (auto simp: symbol_text_def)
  let ?ry = "concat (map symbol_text ys)" and ?rz = "concat (map symbol_text zs')"
  have eq: "sy_name y @ CHR '':'' # (sy_hash y @ LF # ?ry) = sy_name z @ CHR '':'' # (sy_hash z @ LF # ?rz)"
    using Cons.prems(3) unfolding zs list.map concat.simps symbol_text_append .
  have name: "CHR '':'' \<notin> set (sy_name y)" "CHR '':'' \<notin> set (sy_name z)" "LF \<notin> set (sy_hash y)" "LF \<notin> set (sy_hash z)"
    using Cons.prems(1,2) by (auto simp: zs well_named_def)
  have n: "sy_name y = sy_name z" and h: "sy_hash y @ LF # ?ry = sy_hash z @ LF # ?rz"
    using eq unfolding split_first [OF name(1,2)] by blast+
  have hash: "sy_hash y = sy_hash z" and rest: "?ry = ?rz"
    using h unfolding split_first [OF name(3,4)] by blast+
  with n Cons.IH [OF _ _ rest] Cons.prems(1,2) show ?case by (simp add: zs)
qed


definition sample_func :: "string \<Rightarrow> go_decl" where
  "sample_func name = FuncDecl \<lparr>gu_name = name, gu_receiver = None, gu_header = ''func '' @ name @ ''()''\<rparr>"

definition sample_extractors :: extractors where
  "sample_extractors = \<lparr>ex_go = \<lparr>go_parse = (\<lambda>source. Some (if source = ''1'' then [sample_func ''B'', sample_func ''A'']
       else [sample_func ''A'', sample_func ''B''])), go_upper = (\<lambda>r. False)\<rparr>, ex_wasm = (\<lambda>_ _. None)\<rparr>"

lemma sample_go_path: "\<not> wasmFingerprintable ''a.go'' \<and> Fingerprintable ''a.go'' \<and> lower_text (ext ''a.go'') = ''.go''"
  by code_simp


end
