(* ===== verification/App_Reads.thy ===== *)
theory App_Reads
  imports App_Sessions Contract_Surface Git_Manifest
begin

text \<open>
  What a scan and an observed read publish: \<^verbatim>\<open>internal/app/contract_watch.go\<close>,
  \<^verbatim>\<open>internal/app/codex_reads.go\<close> and \<^verbatim>\<open>scanAll\<close> of \<^verbatim>\<open>internal/app/app.go\<close>.

  The random part of \<^verbatim>\<open>newID\<close> and \<^verbatim>\<open>time.Now()\<close> are the parameter \<open>amb\<close>: the \<open>n\<close>-th draw and the
  \<open>n\<close>-th reading of a call, threaded through it. The disk, git and the codex app server are
  parameters; a codex that cannot be dialled or cannot answer in time is \<^term>\<open>None\<close>.
\<close>

record ambient =
  wo_id :: "nat \<Rightarrow> string"
  wo_now :: "nat \<Rightarrow> int"

definition newID :: "ambient \<Rightarrow> nat \<Rightarrow> string \<Rightarrow> string" where
  "newID amb n prefix = prefix @ wo_id amb n"

section \<open>Reading a file of the repository\<close>

record disk_file =
  df_regular :: bool
  df_size :: nat
  df_content :: "string option"

type_synonym disk = "string \<Rightarrow> disk_file option"

definition fingerprint :: "extractors \<Rightarrow> disk \<Rightarrow> string \<Rightarrow> string \<Rightarrow> contract_file option" where
  "fingerprint ex disk root path =
     (if str_contains path ''..'' \<or> is_abs path then None
      else let absolute = join_path root path in
        if rel_inside (clean root) absolute = None then None
        else case disk absolute of
          None \<Rightarrow> None
        | Some f \<Rightarrow>
            if \<not> df_regular f \<or> MaxSourceBytes < df_size f then None
            else case df_content f of
              None \<Rightarrow> None
            | Some source \<Rightarrow> Extract ex path source (Some ProhibitedContractSignature))"

definition repositoryRelative :: "string \<Rightarrow> string \<Rightarrow> string option" where
  "repositoryRelative root candidate =
     (if candidate = [] \<or> NUL \<in> set candidate then None
      else let absolute = clean (if is_abs candidate then candidate else join_path root candidate) in
        case rel_inside (clean root) absolute of
          None \<Rightarrow> None
        | Some r \<Rightarrow> if SafeRepositoryPath r then Some r else None)"

section \<open>Queueing in windows\<close>

text \<open>
  The loop the two publishers share: one event per window of at most \<open>k + 1\<close> elements, until the store
  refuses one.
\<close>

function enqueue_windows :: "ambient \<Rightarrow> string \<Rightarrow> string \<Rightarrow> string \<Rightarrow> nat \<Rightarrow> ('a list \<Rightarrow> json) \<Rightarrow> 'a list \<Rightarrow> nat \<Rightarrow> db \<Rightarrow> nat \<times> db" where
  "enqueue_windows amb ws source kind k payload changed n d =
     (if changed = [] then (n, d)
      else case EnqueueEvent ws (newID amb n ''evt_'') source kind (payload (take (Suc k) changed)) (wo_now amb n) d of
        Inl e \<Rightarrow> (n + 1, d)
      | Inr d' \<Rightarrow> enqueue_windows amb ws source kind k payload (drop (Suc k) changed) (n + 1) d')"
  by pat_completeness auto
termination
  by (relation "measure (\<lambda>(amb, ws, source, kind, k, payload, changed, n, d). length changed)") auto

declare enqueue_windows.simps [simp del]

definition contractEntriesPerEvent :: nat where "contractEntriesPerEvent = 20"
definition readSetEntriesPerEvent :: nat where "readSetEntriesPerEvent = 100"
definition readPathsPerEvent :: nat where "readPathsPerEvent = 20"
definition inferredReadPathsPerTurn :: nat where "inferredReadPathsPerTurn = 100"

definition symbol_json :: "symbol \<Rightarrow> json" where
  "symbol_json y = JStruct [(''name'', JStr (sy_name y)), (''kind'', JStr (sy_kind y)), (''signature'', JStr (sy_signature y)),
     (''signatureHash'', JStr (sy_hash y))]"

definition file_json :: "contract_file \<Rightarrow> json" where
  "file_json f = JStruct [(''path'', JStr (fi_path f)), (''fileContractHash'', JStr (fi_hash f)),
     (''symbols'', JArr (map symbol_json (fi_symbols f)))]"

definition read_json :: "read_entry \<Rightarrow> json" where
  "read_json e = JStruct [(''path'', JStr (r_path e)), (''fileContractHashAtRead'', JStr (r_hash e)),
     (''observedAt'', JStr (r_observed_at e)), (''fidelity'', JStr (r_fidelity e))]"

text \<open>A Go map from paths to files: a later assignment replaces an earlier one.\<close>

definition put_file :: "string \<Rightarrow> contract_file \<Rightarrow> (string \<times> contract_file) list \<Rightarrow> (string \<times> contract_file) list" where
  "put_file path f files = filter (\<lambda>pf. fst pf \<noteq> path) files @ [(path, f)]"

definition files_payload :: "config_workspace \<Rightarrow> (string \<times> contract_file) list \<Rightarrow> string list \<Rightarrow> json" where
  "files_payload w files window =
     JMap [(''workspaceId'', JStr (cw_id w)), (''workstreamId'', JStr (cw_workstream_id w)),
       (''entries'', JArr (map (\<lambda>path. case map_of files path of Some f \<Rightarrow> file_json f | None \<Rightarrow> JNull) window))]"

definition publishFingerprintFiles :: "ambient \<Rightarrow> config_workspace \<Rightarrow> (string \<times> contract_file) list \<Rightarrow> nat \<Rightarrow> db \<Rightarrow> nat \<times> db" where
  "publishFingerprintFiles amb w files n d =
     (if files = [] then (n, d)
      else case ChangedFingerprints (cw_id w) (map (\<lambda>pf. (fst pf, fi_hash (snd pf))) files) (wo_now amb n) d of
        Inl e \<Rightarrow> (n + 1, d)
      | Inr (changed, d') \<Rightarrow>
          enqueue_windows amb (cw_id w) ''git'' ''workspace.contract_fingerprints_reported'' (contractEntriesPerEvent - 1)
            (files_payload w files) changed (n + 1) d')"

definition publishContractFingerprints :: "ambient \<Rightarrow> extractors \<Rightarrow> disk \<Rightarrow> config_workspace \<Rightarrow> entry list \<Rightarrow> nat \<Rightarrow> db \<Rightarrow> nat \<times> db" where
  "publishContractFingerprints amb ex disk w entries n d =
     (let files = fold (\<lambda>e files.
            if \<not> Fingerprintable (en_path e) then files
            else case fingerprint ex disk (cw_root w) (en_path e) of
              None \<Rightarrow> files
            | Some f \<Rightarrow> put_file (en_path e) f files) entries []
      in publishFingerprintFiles amb w files n d)"

section \<open>Read sets\<close>

text \<open>
  The loop over the candidates. The hash of a file that has none is the recorded one, and a path
  without either is skipped; the loop ends when \<open>limit\<close> entries are held and another path qualifies.
\<close>

fun collect_reads :: "extractors \<Rightarrow> disk \<Rightarrow> config_workspace \<Rightarrow> db \<Rightarrow> string \<Rightarrow> string \<Rightarrow> nat \<Rightarrow> string list
    \<Rightarrow> read_entry list \<Rightarrow> (string \<times> contract_file) list \<Rightarrow> read_entry list \<times> (string \<times> contract_file) list" where
  "collect_reads ex disk w d at fidelity limit [] entries seeds = (entries, seeds)"
| "collect_reads ex disk w d at fidelity limit (candidate # candidates) entries seeds =
     (case repositoryRelative (cw_root w) candidate of
        None \<Rightarrow> collect_reads ex disk w d at fidelity limit candidates entries seeds
      | Some path \<Rightarrow>
          if \<not> Fingerprintable path then collect_reads ex disk w d at fidelity limit candidates entries seeds
          else if limit \<le> length entries then (entries, seeds)
          else
            let file = fingerprint ex disk (cw_root w) path;
                seeds' = (case file of Some f \<Rightarrow> put_file path f seeds | None \<Rightarrow> seeds);
                hash = (case file of Some f \<Rightarrow> fi_hash f
                  | None \<Rightarrow> (case FingerprintHash (cw_id w) path d of Some h \<Rightarrow> h | None \<Rightarrow> []))
            in collect_reads ex disk w d at fidelity limit candidates
                 (if hash = [] then entries
                  else entries @ [\<lparr>r_path = path, r_hash = hash, r_observed_at = at, r_fidelity = fidelity\<rparr>]) seeds')"

definition reads_payload :: "config_workspace \<Rightarrow> string \<Rightarrow> read_entry list \<Rightarrow> json" where
  "reads_payload w session window =
     JMap [(''workspaceId'', JStr (cw_id w)), (''sessionWorkstreamId'', JStr session), (''entries'', JArr (map read_json window))]"

definition publishReadSet :: "ambient \<Rightarrow> extractors \<Rightarrow> disk \<Rightarrow> config_workspace \<Rightarrow> string \<Rightarrow> string list \<Rightarrow> string \<Rightarrow> nat \<Rightarrow> nat \<Rightarrow> db \<Rightarrow> nat \<times> db" where
  "publishReadSet amb ex disk w session candidates fidelity limit n d =
     (if session = [] then (n, d)
      else let (entries, seeds) = collect_reads ex disk w d (rfc3339nano (wo_now amb n)) fidelity limit candidates [] [];
               (n1, d1) = publishFingerprintFiles amb w seeds (n + 1) d
           in case ChangedReadSet (cw_id w) session entries d1 of
                Inl e \<Rightarrow> (n1, d1)
              | Inr (changed, d2) \<Rightarrow>
                  enqueue_windows amb (cw_id w) ''hook'' ''session.read_set_reported'' (readSetEntriesPerEvent - 1)
                    (reads_payload w session) changed n1 d2)"

section \<open>Codex\<close>

definition codexInferredReadsUsable :: "bool \<Rightarrow> string \<Rightarrow> service \<Rightarrow> bool" where
  "codexInferredReadsUsable codex_located session s \<longleftrightarrow> codex_located \<and> \<not> sv_codex_read_failed s session"

definition recordCodexReadRefresh :: "string \<Rightarrow> bool \<Rightarrow> service \<Rightarrow> service" where
  "recordCodexReadRefresh session failed s =
     (if session = [] then s else s\<lparr>sv_codex_read_failed := (sv_codex_read_failed s)(session := failed)\<rparr>)"

text \<open>Both sides are resolved; \<^verbatim>\<open>filepath.Rel\<close> cleans them.\<close>

definition withinRoot :: "resolver \<Rightarrow> string \<Rightarrow> string \<Rightarrow> bool" where
  "withinRoot fs root directory =
     (let r = (case rv_eval fs root of Some x \<Rightarrow> x | None \<Rightarrow> root);
          p = (case rv_eval fs directory of Some x \<Rightarrow> x | None \<Rightarrow> directory)
      in rel_inside (clean r) (clean p) \<noteq> None)"

type_synonym thread_reads = "string \<Rightarrow> (string \<times> string list) option"

definition publishCodexInferredReads :: "ambient \<Rightarrow> extractors \<Rightarrow> disk \<Rightarrow> resolver \<Rightarrow> thread_reads \<Rightarrow> config_workspace
    \<Rightarrow> string \<Rightarrow> string \<Rightarrow> string \<Rightarrow> nat \<Rightarrow> service \<Rightarrow> nat \<times> service" where
  "publishCodexInferredReads amb ex disk fs codex w vendor_session session published n s =
     (if vendor_session = [] \<or> session = [] \<or> published = [] then (n, s)
      else case codex vendor_session of
        None \<Rightarrow> (n, recordCodexReadRefresh session True s)
      | Some (cwd, reads) \<Rightarrow>
          let s1 = recordCodexReadRefresh session False s in
          if reads = [] then (n, s1)
          else if cwd \<noteq> [] \<and> \<not> withinRoot fs (cw_root w) cwd then (n, s1)
          else let (n1, d1) = publishReadSet amb ex disk w published (rev (remdups (rev reads))) ''vendor_inferred''
                     inferredReadPathsPerTurn n (sv_db s1)
               in (n1, s1\<lparr>sv_db := d1\<rparr>))"

section \<open>Scanning\<close>

definition change_json :: "change \<Rightarrow> json" where
  "change_json c = JStruct ((''status'', JStr (ch_status c)) # (if ch_old_path c = [] then [] else [(''oldPath'', JStr (ch_old_path c))]))"

definition states_json :: "states \<Rightarrow> json" where
  "states_json st = JStruct (concat (map (\<lambda>(k, c). case c of None \<Rightarrow> [] | Some x \<Rightarrow> [(k, change_json x)])
     [(''baseline'', st_baseline st), (''index'', st_index st), (''worktree'', st_worktree st)]))"

definition entry_json :: "entry \<Rightarrow> json" where
  "entry_json e = JStruct [(''path'', JStr (en_path e)), (''states'', states_json (en_states e))]"

text \<open>The changed manifest and the fingerprints of its files; the two identities of a manifest are two draws.\<close>

definition publish_scan :: "ambient \<Rightarrow> extractors \<Rightarrow> disk \<Rightarrow> config_workspace \<Rightarrow> git_manifest \<Rightarrow> string \<Rightarrow> nat \<Rightarrow> service \<Rightarrow> nat \<times> service" where
  "publish_scan amb ex disk w m content_hash n s =
     (case PublishManifest \<lparr>mp_workspace_id = cw_id w, mp_manifest_id = newID amb n ''mft_'', mp_baseline = gm_baseline m,
           mp_head = gm_head m, mp_hash = content_hash, mp_event_id = newID amb (n + 1) ''evt_'',
           mp_entries = map entry_json (gm_entries m)\<rparr> (wo_now amb n) (sv_db s) of
        Inl e \<Rightarrow> (n + 2, s)
      | Inr (revision, d1) \<Rightarrow>
          let (n2, d2) = publishContractFingerprints amb ex disk w (gm_entries m) (n + 2) d1
          in (n2, s\<lparr>sv_db := d2, sv_scans := sv_scans s + 1\<rparr>))"

text \<open>One workspace of the loop.\<close>

definition scan_workspace :: "ambient \<Rightarrow> extractors \<Rightarrow> disk \<Rightarrow> (string \<Rightarrow> git_run) \<Rightarrow> (string \<Rightarrow> fs_answer) \<Rightarrow> config_workspace
    \<Rightarrow> nat \<times> service \<Rightarrow> nat \<times> service" where
  "scan_workspace amb ex disk git eval w = (\<lambda>(n, s).
     case Observe (git (cw_root w)) eval (cw_root w) (cw_baseline w) of
       Inl e \<Rightarrow> (n, s)
     | Inr m \<Rightarrow>
         (case Hash (gm_entries m) of
            Inl e \<Rightarrow> (n, s)
          | Inr content_hash \<Rightarrow>
              (case ActiveManifest (cw_id w) (sv_db s) of
                 Inr (revision, h, entries) \<Rightarrow>
                   if h = content_hash then (n, s) else publish_scan amb ex disk w m content_hash n s
               | Inl ErrNoRows \<Rightarrow> publish_scan amb ex disk w m content_hash n s
               | Inl e \<Rightarrow> (n, s))))"

definition scanAll :: "ambient \<Rightarrow> extractors \<Rightarrow> disk \<Rightarrow> (string \<Rightarrow> git_run) \<Rightarrow> (string \<Rightarrow> fs_answer) \<Rightarrow> nat \<Rightarrow> service \<Rightarrow> nat \<times> service" where
  "scanAll amb ex disk git eval n s =
     (let (n1, s1) = fold (scan_workspace amb ex disk git eval) (cf_workspaces (sv_config s)) (n, s)
      in (n1, s1\<lparr>sv_scan_cycles := sv_scan_cycles s1 + 1\<rparr>))"

end
