(* ===== verification/App_Lifecycle.thy ===== *)
theory App_Lifecycle
  imports App_Reads App_Publisher
begin

text \<open>
  The calls an agent's MCP client makes (\<^verbatim>\<open>handleLifecycle\<close>, \<^verbatim>\<open>handleCollaboration\<close>), the hook events
  it causes (\<^verbatim>\<open>handleAgentEvent\<close>, \<^verbatim>\<open>shareTranscript\<close>) and the session view (\<^verbatim>\<open>handleSessionDetail\<close>) of
  \<^verbatim>\<open>internal/app/app.go\<close>.

  Everything outside the service is the record \<open>host\<close>: the disk, git, the codex app server, the reader
  of a vendor's transcripts (\<^verbatim>\<open>internal/sessiontranscript\<close>) and the backends.
\<close>

section \<open>The host\<close>

record transcript_message =
  tm_kind :: string
  tm_text :: string
  tm_tool :: string
  tm_at :: string

record transcript =
  tr_title :: string
  tr_branch :: string
  tr_messages :: "transcript_message list"

definition no_transcript :: transcript where
  "no_transcript = \<lparr>tr_title = [], tr_branch = [], tr_messages = []\<rparr>"

record host =
  h_amb :: ambient
  h_ex :: extractors
  h_disk :: disk
  h_fs :: resolver
  h_git :: "string \<Rightarrow> git_run"
  h_eval :: "string \<Rightarrow> fs_answer"
  h_codex_located :: bool
  h_codex_reads :: thread_reads
  h_codex_threads :: "string \<Rightarrow> thread list option"
  h_rollout :: "string \<Rightarrow> string"
  h_transcript :: "string \<Rightarrow> transcript option"
  h_new_sender :: "sender_factory option"
  h_server :: server

definition store_text :: "store_error \<Rightarrow> string" where
  "store_text e = error_text (store_error_go e)"

section \<open>Validation\<close>

definition unsafe_chars :: "char list" where "unsafe_chars = [CR, LF, NUL]"

definition validateIdempotency :: "string \<Rightarrow> string option" where
  "validateIdempotency key =
     (if length key < 1 \<or> 128 < length key \<or> contains_any key unsafe_chars
      then Some ''idempotency key must be 1-128 safe characters'' else None)"

definition bounded_item :: "nat \<Rightarrow> string \<Rightarrow> bool" where
  "bounded_item most item \<longleftrightarrow> 1 \<le> length item \<and> length item \<le> most \<and> \<not> contains_any item unsafe_chars"

definition intent_lists :: "ipc_request \<Rightarrow> (string \<times> string list \<times> nat) list" where
  "intent_lists q = [(''component'', ir_components q, 160), (''contract'', ir_contracts q, 160),
     (''waiting_on claim'', case ir_waiting_on q of None \<Rightarrow> [] | Some xs \<Rightarrow> xs, 160),
     (''anticipated path'', ir_anticipated_paths q, 512), (''plan item id'', ir_plan_item_ids q, 128)]"

definition waiting_count :: "ipc_request \<Rightarrow> nat" where
  "waiting_count q = (case ir_waiting_on q of None \<Rightarrow> 0 | Some xs \<Rightarrow> length xs)"

definition validateIntent :: "ipc_request \<Rightarrow> string option" where
  "validateIntent q =
     (if ir_workspace_id q = [] then Some ''workspace id required''
      else if length (ir_title q) < 1 \<or> 160 < length (ir_title q) then Some ''intent title must be 1-160 characters''
      else if length (ir_intended_outcome q) < 1 \<or> 2000 < length (ir_intended_outcome q)
      then Some ''intended outcome must be 1-2000 characters''
      else if 2000 < length (ir_approach_summary q) then Some ''approach summary exceeds 2000 characters''
      else if 32 < length (ir_components q) \<or> 32 < length (ir_contracts q) \<or> 8 < waiting_count q
          \<or> 100 < length (ir_anticipated_paths q) \<or> 32 < length (ir_plan_item_ids q)
      then Some ''intent list exceeds contract limit''
      else map_option (\<lambda>(name, items, most). ''intent '' @ name @ '' must be 1-'' @ nat_dec most @ '' safe characters'')
        (find (\<lambda>(name, items, most). \<not> list_all (bounded_item most) items) (intent_lists q)))"

definition validateLifecycleIntent :: "ipc_request \<Rightarrow> string option" where
  "validateLifecycleIntent q =
     (case validateIdempotency (ir_idempotency_key q) of
        Some e \<Rightarrow> Some e
      | None \<Rightarrow>
          if ir_method q = ''update_intent'' \<and> ir_revision q < 1
          then Some ''update_intent requires the current positive revision''
          else validateIntent q)"

definition validBriefTrigger :: "string \<Rightarrow> bool" where
  "validBriefTrigger trigger \<longleftrightarrow> trigger \<in> set [''begin'', ''before_broad_edit'', ''checkpoint'', ''refresh'', ''finish'', ''manual'']"

text \<open>
  \<^verbatim>\<open>time.Parse(time.RFC3339Nano, v)\<close> succeeds: an hour may have one digit, the fraction any number of
  them after a point or a comma, and an offset reaches 24 hours and 60 minutes.
\<close>

definition digit_value :: "char \<Rightarrow> nat" where "digit_value c = byte c - 48"

fun two_digit :: "string \<Rightarrow> (nat \<times> string) option" where
  "two_digit (a # b # s) = (if digit a \<and> digit b then Some (10 * digit_value a + digit_value b, s) else None)"
| "two_digit _ = None"

fun hour_digits :: "string \<Rightarrow> (nat \<times> string) option" where
  "hour_digits [] = None"
| "hour_digits (a # s) =
     (if \<not> digit a then None
      else case s of
        b # t \<Rightarrow> if digit b then Some (10 * digit_value a + digit_value b, t) else Some (digit_value a, s)
      | [] \<Rightarrow> Some (digit_value a, s))"

definition expect :: "char \<Rightarrow> string \<Rightarrow> string option" where
  "expect c s = (case s of x # t \<Rightarrow> if x = c then Some t else None | [] \<Rightarrow> None)"

definition days_in :: "nat \<Rightarrow> nat \<Rightarrow> nat" where
  "days_in year month =
     (if month = 2 then (if year mod 4 = 0 \<and> (year mod 100 \<noteq> 0 \<or> year mod 400 = 0) then 29 else 28)
      else if month \<in> {4, 6, 9, 11} then 30 else 31)"

definition skip_fraction :: "string \<Rightarrow> string" where
  "skip_fraction s =
     (case s of
        p # x # t \<Rightarrow> if (p = CHR ''.'' \<or> p = CHR '','') \<and> digit x then dropWhile digit (x # t) else s
      | _ \<Rightarrow> s)"

definition valid_zone :: "string \<Rightarrow> bool" where
  "valid_zone s =
     (s = ''Z'' \<or> (case s of
        [] \<Rightarrow> False
      | sign # t \<Rightarrow> (sign = CHR ''+'' \<or> sign = CHR ''-'') \<and>
          (case two_digit t of
             None \<Rightarrow> False
           | Some (h, u) \<Rightarrow> h \<le> 24 \<and>
               (case Option.bind (expect (CHR '':'') u) two_digit of
                  None \<Rightarrow> False
                | Some (m, v) \<Rightarrow> m \<le> 60 \<and> v = []))))"

definition valid_rfc3339 :: "string \<Rightarrow> bool" where
  "valid_rfc3339 v =
     (case two_digit v of None \<Rightarrow> False | Some (century, v1) \<Rightarrow>
     (case two_digit v1 of None \<Rightarrow> False | Some (y, v2) \<Rightarrow>
     (case Option.bind (expect (CHR ''-'') v2) two_digit of None \<Rightarrow> False | Some (month, v3) \<Rightarrow>
     (case Option.bind (expect (CHR ''-'') v3) two_digit of None \<Rightarrow> False | Some (day, v4) \<Rightarrow>
     (case Option.bind (expect (CHR ''T'') v4) hour_digits of None \<Rightarrow> False | Some (hour, v5) \<Rightarrow>
     (case Option.bind (expect (CHR '':'') v5) two_digit of None \<Rightarrow> False | Some (minute, v6) \<Rightarrow>
     (case Option.bind (expect (CHR '':'') v6) two_digit of None \<Rightarrow> False | Some (sec, v7) \<Rightarrow>
        1 \<le> month \<and> month \<le> 12 \<and> 1 \<le> day \<and> day \<le> days_in (100 * century + y) month
        \<and> hour < 24 \<and> minute < 60 \<and> sec < 60 \<and> valid_zone (skip_fraction v7))))))))"

definition verification_error :: "verification_summary \<Rightarrow> string option" where
  "verification_error v =
     (if vs_state v \<notin> set [''not_run'', ''running'', ''passed'', ''failed'', ''unknown'']
          \<or> length (vs_check_kind v) < 1 \<or> 80 < length (vs_check_kind v) \<or> length (vs_label v) < 1 \<or> 160 < length (vs_label v)
          \<or> 500 < length (vs_summary v) \<or> 160 < length (vs_affected_component v) \<or> vs_manifest_revision v < 0
      then Some ''invalid structured verification summary''
      else if vs_observed_at v \<noteq> [] \<and> \<not> valid_rfc3339 (vs_observed_at v) then Some ''verification observed_at must be RFC3339''
      else None)"

fun first_error :: "('a \<Rightarrow> string option) \<Rightarrow> 'a list \<Rightarrow> string option" where
  "first_error f [] = None"
| "first_error f (x # xs) = (case f x of Some e \<Rightarrow> Some e | None \<Rightarrow> first_error f xs)"

definition validateVerification :: "verification_summary list \<Rightarrow> string option" where
  "validateVerification vs = (if 32 < length vs then Some ''too many verification summaries'' else first_error verification_error vs)"

text \<open>\<^verbatim>\<open>^chk_[A-Za-z0-9_-]{1,80}$\<close>.\<close>

definition checkpoint_id :: "string \<Rightarrow> bool" where
  "checkpoint_id v \<longleftrightarrow> has_prefix v ''chk_'' \<and> 5 \<le> length v \<and> length v \<le> 84
     \<and> list_all (\<lambda>c. alpha c \<or> digit c \<or> c \<in> set ''_-'') (drop 4 v)"

definition validateCheckpoint :: "ipc_request \<Rightarrow> string option" where
  "validateCheckpoint q =
     (if \<not> checkpoint_id (ir_checkpoint_id q) \<or> length (ir_summary q) < 1 \<or> 2000 < length (ir_summary q)
          \<or> 32 < length (ir_discoveries q) \<or> 32 < length (ir_verification q) \<or> ir_manifest_revision q < 0
          \<or> ir_brief_id q \<noteq> [] \<and> \<not> validContractID (ir_brief_id q)
      then Some ''invalid bounded checkpoint''
      else if \<not> list_all (\<lambda>x. 1 \<le> length x \<and> length x \<le> 500) (ir_discoveries q)
      then Some ''checkpoint discovery exceeds limit''
      else validateVerification (ir_verification q))"

section \<open>Payloads\<close>

definition strings_json :: "string list \<Rightarrow> json" where "strings_json xs = JArr (map JStr xs)"

definition optional_list :: "string \<Rightarrow> string list \<Rightarrow> (string \<times> json) list" where
  "optional_list k xs = (if xs = [] then [] else [(k, strings_json xs)])"

definition intentPayload :: "string \<Rightarrow> ipc_request \<Rightarrow> json" where
  "intentPayload workstream q =
     JMap ([(''workstreamId'', JStr workstream), (''title'', JStr (ir_title q)), (''intendedOutcome'', JStr (ir_intended_outcome q))] @
       optional ''approachSummary'' (ir_approach_summary q) @
       optional_list ''components'' (ir_components q) @ optional_list ''contracts'' (ir_contracts q) @
       (case ir_waiting_on q of None \<Rightarrow> [] | Some xs \<Rightarrow> [(''waitingOn'', strings_json xs)]) @
       optional_list ''anticipatedPaths'' (ir_anticipated_paths q) @ optional_list ''planItemIds'' (ir_plan_item_ids q))"

definition verificationPayload :: "verification_summary list \<Rightarrow> json" where
  "verificationPayload vs = JArr (map (\<lambda>v.
     JMap ([(''state'', JStr (vs_state v)), (''checkKind'', JStr (vs_check_kind v)), (''label'', JStr (vs_label v)),
         (''summary'', JStr (vs_summary v)), (''source'', JStr ''mcp'')] @
       optional ''observedAt'' (vs_observed_at v) @ optional ''affectedComponent'' (vs_affected_component v) @
       (if 0 < vs_manifest_revision v then [(''manifestRevision'', JInt (vs_manifest_revision v))] else []))) vs)"

definition checkpoint_fields :: "ipc_request \<Rightarrow> (string \<times> json) list" where
  "checkpoint_fields q =
     (if 0 < ir_manifest_revision q then [(''relatedManifestRevision'', JInt (ir_manifest_revision q))] else []) @
     optional ''basedOnBriefId'' (ir_brief_id q) @
     (if ir_verification q = [] then [] else [(''verification'', verificationPayload (ir_verification q))])"

section \<open>Lifecycle calls\<close>

record lifecycle_result =
  lr_workstream_id :: string
  lr_duplicate :: bool
  lr_intent_revision :: int
  lr_brief :: "coordination_brief option"
  lr_degraded :: bool
  lr_degradation :: string

record lifecycle_plan =
  pl_trigger :: string
  pl_read_paths :: "string list"
  pl_publication :: "lifecycle_publication option"

definition publication :: "ipc_request \<Rightarrow> string \<Rightarrow> string \<Rightarrow> json \<Rightarrow> lifecycle_publication" where
  "publication q key kind payload =
     \<lparr>lp_workspace_id = ir_workspace_id q, lp_method = ir_method q, lp_key = key, lp_source = ''mcp'', lp_kind = kind,
      lp_payload = payload, lp_additional = [], lp_expected = None, lp_increment = False\<rparr>"

definition finish_checkpoint_id :: "ipc_request \<Rightarrow> string" where
  "finish_checkpoint_id q = ''chk_finish_'' @ sha256_hex_prefix 12
     (''overgent.finish-checkpoint.v1'' @ [NUL] @ ir_workspace_id q @ [NUL] @ ir_idempotency_key q)"

text \<open>The \<^verbatim>\<open>switch\<close> of \<^verbatim>\<open>handleLifecycle\<close>: the error it answers with, or what it goes on to do.\<close>

definition plan_lifecycle :: "string \<Rightarrow> ipc_request \<Rightarrow> string + lifecycle_plan" where
  "plan_lifecycle workstream q =
     (let reject = (\<lambda>e ok. case e of Some x \<Rightarrow> Inl x | None \<Rightarrow> ok) in
      if ir_method q = ''begin_work'' \<or> ir_method q = ''update_intent'' then
        reject (validateLifecycleIntent q) (Inr
          (let p = publication q (ir_idempotency_key q) ''workstream.intent_reported'' (intentPayload workstream q) in
           if ir_method q = ''update_intent''
           then \<lparr>pl_trigger = [], pl_read_paths = [], pl_publication = Some (p\<lparr>lp_increment := True, lp_expected := Some (ir_revision q)\<rparr>)\<rparr>
           else \<lparr>pl_trigger = ''begin'', pl_read_paths = ir_anticipated_paths q, pl_publication = Some (p\<lparr>lp_increment := True\<rparr>)\<rparr>))
      else if ir_method q = ''check_coordination'' then
        (let trigger = (if ir_trigger q = [] then ''before_broad_edit'' else ir_trigger q); budget = ir_token_budget q in
         if \<not> validBriefTrigger trigger \<or> budget < 0 \<or> 800 < budget \<or> 0 < budget \<and> budget < 128 \<or> 512 < length (ir_since_cursor q)
         then Inl ''invalid coordination brief request''
         else Inr \<lparr>pl_trigger = trigger, pl_read_paths = [], pl_publication = None\<rparr>)
      else if ir_method q = ''report_checkpoint'' then
        reject (validateCheckpoint q) (Inr \<lparr>pl_trigger = ''checkpoint'', pl_read_paths = [], pl_publication =
          Some (publication q (ir_checkpoint_id q) ''workstream.checkpoint_reported''
            (JMap ([(''checkpointId'', JStr (ir_checkpoint_id q)), (''workstreamId'', JStr workstream), (''summary'', JStr (ir_summary q))] @
               optional_list ''discoveries'' (ir_discoveries q) @ checkpoint_fields q)))\<rparr>)
      else if ir_method q = ''acknowledge_context'' then
        (if \<not> validContractID (ir_brief_id q) \<or> length (ir_considered_item_ids q) < 1 \<or> 64 < length (ir_considered_item_ids q)
         then Inl ''invalid context acknowledgement''
         else if \<not> list_all validContractID (ir_considered_item_ids q) then Inl ''invalid context acknowledgement item''
         else Inr \<lparr>pl_trigger = [], pl_read_paths = [], pl_publication =
           Some (publication q (if ir_idempotency_key q = [] then ir_brief_id q else ir_idempotency_key q) ''context.acknowledged''
             (JMap [(''briefId'', JStr (ir_brief_id q)), (''consideredItemIds'', strings_json (ir_considered_item_ids q))]))\<rparr>)
      else if ir_method q = ''finish_work'' then
        reject (validateIdempotency (ir_idempotency_key q))
          (if length (ir_outcome q) < 1 \<or> 2000 < length (ir_outcome q) \<or> length (ir_summary q) < 1 \<or> 2000 < length (ir_summary q)
               \<or> ir_manifest_revision q < 0 \<or> ir_brief_id q \<noteq> [] \<and> \<not> validContractID (ir_brief_id q)
           then Inl ''finish outcome and summary are required and bounded''
           else reject (validateVerification (ir_verification q)) (Inr \<lparr>pl_trigger = ''finish'', pl_read_paths = [], pl_publication =
             Some ((publication q (ir_idempotency_key q) ''workstream.checkpoint_reported''
               (JMap ([(''checkpointId'', JStr (finish_checkpoint_id q)), (''workstreamId'', JStr workstream), (''summary'', JStr (ir_summary q))] @
                  checkpoint_fields q)))\<lparr>lp_additional :=
                 [(''activity.reported'', JMap [(''kind'', JStr ''completion''), (''summary'', JStr (ir_outcome q))]),
                  (''workstream.status_changed'', JMap [(''workstreamId'', JStr workstream), (''status'', JStr ''done'')])]\<rparr>)\<rparr>))
      else if ir_method q = ''report_event'' then
        reject (validateIdempotency (ir_idempotency_key q))
          (if ir_kind q \<notin> set [''decision'', ''completion'', ''blocker''] \<or> length (ir_summary q) < 1 \<or> 2000 < length (ir_summary q)
           then Inl ''invalid bounded activity event''
           else Inr \<lparr>pl_trigger = [], pl_read_paths = [], pl_publication =
             Some (publication q (ir_idempotency_key q) ''activity.reported''
               (JMap [(''kind'', JStr (ir_kind q)), (''summary'', JStr (ir_summary q))]))\<rparr>)
      else Inr \<lparr>pl_trigger = [], pl_read_paths = [], pl_publication = None\<rparr>)"

text \<open>The workstream a call is attributed to: the caller's session, or the workspace's own.\<close>

definition lifecycle_workstream :: "config_workspace \<Rightarrow> ipc_request \<Rightarrow> string" where
  "lifecycle_workstream w q =
     (if ir_agent_workstream_id q \<noteq> [] \<and> validContractID (ir_agent_workstream_id q)
      then PublishedWorkstreamID (ir_agent_workstream_id q) (cw_project_id w) (cw_id w) else cw_workstream_id w)"

text \<open>The brief at the end of the call; without one the answer says that it is degraded.\<close>

definition fetch_brief :: "host \<Rightarrow> config_workspace \<Rightarrow> string \<Rightarrow> string \<Rightarrow> ipc_request \<Rightarrow> lifecycle_result \<Rightarrow> service
    \<Rightarrow> lifecycle_result \<times> service" where
  "fetch_brief h w workstream trigger q r s =
     (let degraded = r\<lparr>lr_degraded := True, lr_degradation := ''hosted_coordination_unavailable''\<rparr> in
      if trigger = [] then (r, s)
      else case senderForWorkspace (h_new_sender h) w s of
        (None, s1) \<Rightarrow> (degraded, s1)
      | (Some c, s1) \<Rightarrow>
          (case CreateBrief (h_server h) c workstream trigger (ir_since_cursor q)
                 (if ir_token_budget q = 0 then 400 else ir_token_budget q) (sv_wire s1) of
             (Inl e, w') \<Rightarrow> (degraded, s1\<lparr>sv_wire := w'\<rparr>)
           | (Inr brief, w') \<Rightarrow> (r\<lparr>lr_brief := Some brief\<rparr>, s1\<lparr>sv_wire := w'\<rparr>)))"

definition handleLifecycle :: "host \<Rightarrow> ipc_request \<Rightarrow> nat \<Rightarrow> service \<Rightarrow> lifecycle_result response \<times> nat \<times> service" where
  "handleLifecycle h q n s =
     (case workspaceByID (sv_config s) (ir_workspace_id q) of
        None \<Rightarrow> (Inl ''workspace not found'', n, s)
      | Some w \<Rightarrow>
          if cw_workstream_id w = [] then (Inl ''workspace not found'', n, s)
          else let workstream = lifecycle_workstream w q;
                   r0 = \<lparr>lr_workstream_id = workstream, lr_duplicate = False, lr_intent_revision = 0, lr_brief = None,
                         lr_degraded = False, lr_degradation = []\<rparr>
               in case plan_lifecycle workstream q of
                    Inl e \<Rightarrow> (Inl e, n, s)
                  | Inr p \<Rightarrow>
                      (case (case pl_publication p of
                               None \<Rightarrow> Inr (0, False, sv_db s)
                             | Some pub \<Rightarrow> PublishLifecycle pub (wo_now (h_amb h) n) (sv_db s)) of
                         Inl e \<Rightarrow> (Inl (store_text e), n + 1, s)
                       | Inr (revision, duplicate, d1) \<Rightarrow>
                           let (n2, d2) = (if pl_read_paths p = [] then (n + 1, d1)
                                 else publishReadSet (h_amb h) (h_ex h) (h_disk h) w workstream (pl_read_paths p)
                                   ''self_declared'' readPathsPerEvent (n + 1) d1);
                               (r, s3) = fetch_brief h w workstream (pl_trigger p) q
                                 (r0\<lparr>lr_intent_revision := revision, lr_duplicate := duplicate\<rparr>) (s\<lparr>sv_db := d2\<rparr>)
                           in (Inr r, n2, s3)))"

definition handleCollaboration :: "host \<Rightarrow> ipc_request \<Rightarrow> service \<Rightarrow> collaboration_snapshot response \<times> service" where
  "handleCollaboration h q s =
     (case find (\<lambda>w. cw_id w = ir_workspace_id q) (cf_workspaces (sv_config s)) of
        None \<Rightarrow> (Inl ''workspace not found'', s)
      | Some w \<Rightarrow>
          if cw_id w = [] then (Inl ''workspace not found'', s)
          else case senderForWorkspace (h_new_sender h) w s of
            (None, s1) \<Rightarrow> (Inl ''hosted collaboration unavailable'', s1)
          | (Some c, s1) \<Rightarrow>
              (case Collaboration (h_server h) c (cw_project_id w) (sv_wire s1) of
                 (Inl e, w') \<Rightarrow> (Inl ''hosted collaboration unavailable'', s1\<lparr>sv_wire := w'\<rparr>)
               | (Inr snapshot, w') \<Rightarrow> (Inr snapshot, s1\<lparr>sv_wire := w'\<rparr>)))"

section \<open>Hook events\<close>

definition rememberTranscript :: "string \<Rightarrow> string \<Rightarrow> service \<Rightarrow> service" where
  "rememberTranscript workstream path s = s\<lparr>sv_transcripts := (sv_transcripts s)(workstream \<mapsto> path)\<rparr>"

definition transcriptPath :: "string \<Rightarrow> service \<Rightarrow> string" where
  "transcriptPath workstream s = (case sv_transcripts s workstream of None \<Rightarrow> [] | Some p \<Rightarrow> p)"

definition handleSessionDetail :: "host \<Rightarrow> ipc_request \<Rightarrow> service \<Rightarrow> (transcript option) response" where
  "handleSessionDetail h q s =
     (if \<not> validContractID (ir_agent_workstream_id q) then Inl ''invalid session id''
      else let path = transcriptPath (ir_agent_workstream_id q) s
           in if path = [] then Inr None else Inr (h_transcript h path))"

definition message_payload :: "string \<Rightarrow> activity_event \<Rightarrow> nat \<Rightarrow> activity_message \<Rightarrow> json" where
  "message_payload workstream e i m =
     JMap [(''messageId'', JStr (''msg_'' @ sha256_hex_prefix 16
         (workstream @ [NUL] @ nat_dec i @ [NUL] @ am_kind m @ [NUL] @ am_text m))),
       (''workstreamId'', JStr workstream), (''vendor'', JStr (ev_vendor e)), (''sessionAlias'', JStr (ev_session_alias e)),
       (''kind'', JStr (am_kind m)), (''text'', JStr (am_text m))]"

text \<open>The loop over the messages; \<open>i\<close> is the index of the next one, \<open>shared\<close> the number queued.\<close>

fun share_messages :: "ambient \<Rightarrow> config_workspace \<Rightarrow> string \<Rightarrow> activity_event \<Rightarrow> nat \<Rightarrow> transcript_message list \<Rightarrow> nat \<Rightarrow> nat \<Rightarrow> db
    \<Rightarrow> nat \<times> nat \<times> db" where
  "share_messages amb w workstream e i [] shared n d = (shared, n, d)"
| "share_messages amb w workstream e i (candidate # candidates) shared n d =
     (if tm_kind candidate = ''tool'' then share_messages amb w workstream e (i + 1) candidates shared n d
      else case ClassifyMessage \<lparr>am_kind = tm_kind candidate, am_text = tm_text candidate\<rparr> of
        Inl err \<Rightarrow> share_messages amb w workstream e (i + 1) candidates shared n d
      | Inr m \<Rightarrow>
          (case EnqueueEvent (cw_id w) (newID amb n ''evt_'') ''hook'' ''agent.conversation_shared''
                 (message_payload workstream e i m) (wo_now amb n) d of
             Inl err \<Rightarrow> share_messages amb w workstream e (i + 1) candidates shared (n + 1) d
           | Inr d' \<Rightarrow> share_messages amb w workstream e (i + 1) candidates (shared + 1) (n + 1) d'))"

definition shareTranscript :: "ambient \<Rightarrow> config_workspace \<Rightarrow> string \<Rightarrow> activity_event \<Rightarrow> transcript \<Rightarrow> nat \<Rightarrow> db \<Rightarrow> nat \<times> nat \<times> db" where
  "shareTranscript amb w workstream e t n d = share_messages amb w workstream e 0 (tr_messages t) 0 n d"

definition TranscriptAvailable :: "string \<Rightarrow> bool" where
  "TranscriptAvailable vendor \<longleftrightarrow> vendor = ''claude'' \<or> vendor = ''codex''"

definition event_of_request :: "ipc_request \<Rightarrow> string \<Rightarrow> activity_event" where
  "event_of_request q cwd =
     \<lparr>ev_vendor = ir_agent_vendor q, ev_cwd = cwd, ev_workstream_id = ir_agent_workstream_id q,
      ev_session_alias = ir_agent_session_alias q, ev_kind = ir_agent_event q, ev_status = ir_agent_status q,
      ev_action = ir_agent_action q, ev_tool = ir_agent_tool q, ev_agent_type = ir_agent_type q,
      ev_subagent_alias = ir_agent_subagent_alias q, ev_candidate_paths = ir_agent_paths q, ev_candidate_roots = [],
      ev_session_title = [], ev_transcript_path = [], ev_vendor_session_id = []\<rparr>"

text \<open>Where the session's transcript lies, if the vendor writes one.\<close>

definition transcript_path_for :: "ipc_request \<Rightarrow> activity_event \<Rightarrow> string \<Rightarrow> string" where
  "transcript_path_for q e rollout =
     (let p = (if TranscriptAvailable (ev_vendor e) then ir_agent_transcript_path q else [])
      in if p = [] \<and> ev_vendor e = ''codex'' then rollout else p)"

definition title_of :: "string \<Rightarrow> string option" where
  "title_of raw = (case ClassifyCoordinationTitle raw of Inl e \<Rightarrow> None | Inr t \<Rightarrow> Some t)"

definition event_title :: "ipc_request \<Rightarrow> transcript option \<Rightarrow> string option" where
  "event_title q t =
     (case Option.bind t (\<lambda>x. title_of (tr_title x)) of
        Some title \<Rightarrow> Some title
      | None \<Rightarrow> if ir_agent_session_title q = [] then None else title_of (ir_agent_session_title q))"

definition event_branch :: "string \<Rightarrow> transcript option \<Rightarrow> string" where
  "event_branch branch t = (if branch \<noteq> [] then branch else (case t of None \<Rightarrow> [] | Some x \<Rightarrow> tr_branch x))"

definition activity_payload :: "ipc_request \<Rightarrow> activity_event \<Rightarrow> string \<Rightarrow> bool \<Rightarrow> string \<Rightarrow> transcript option \<Rightarrow> json" where
  "activity_payload q e published inferred branch t =
     JMap ([(''workstreamId'', JStr published), (''vendor'', JStr (ev_vendor e)), (''sessionAlias'', JStr (ev_session_alias e)),
         (''kind'', JStr (ev_kind e)), (''status'', JStr (ev_status e)), (''action'', JStr (ev_action e))] @
       optional ''tool'' (ev_tool e) @ optional ''agentType'' (ev_agent_type e) @ optional ''subagentAlias'' (ev_subagent_alias e) @
       [(''readCoverage'', JStr (ReadCoverage (ev_vendor e) inferred))] @
       (if ReadTool (ev_tool e) then [] else optional_list ''paths'' (ev_candidate_paths e)) @
       optional ''branch'' (event_branch branch t) @
       (case event_title q t of None \<Rightarrow> [] | Some title \<Rightarrow> [(''sessionTitle'', JStr title)]))"

datatype agent_event_reply =
    NotAccepted string
  | Accepted nat string

text \<open>Codex has no hook of its own to resolve a session later: its session is recorded here.\<close>

definition record_session :: "host \<Rightarrow> config_workspace \<Rightarrow> activity_event \<Rightarrow> nat \<Rightarrow> service
    \<Rightarrow> (agent_event_reply response \<times> nat \<times> service) + (nat \<times> service)" where
  "record_session h w e n s =
     (if ev_vendor e \<noteq> ''codex'' then Inr (n, s)
      else case canonicalDirectory (h_fs h) (ev_cwd e) of
        None \<Rightarrow> Inl (Inr (NotAccepted []), n, s)
      | Some cwd \<Rightarrow>
          (case RecordAgentSession \<lparr>a_workspace_id = cw_id w, a_vendor = ev_vendor e, a_workstream_id = ev_workstream_id e,
                 a_cwd = cwd, a_status = ev_status e, a_observed_at = wo_now (h_amb h) n\<rparr> (sv_db s) of
             Inl err \<Rightarrow> Inl (Inl (store_text err), n + 1, s)
           | Inr d \<Rightarrow> Inr (n + 1, s\<lparr>sv_db := d\<rparr>)))"

definition observed_reads :: "host \<Rightarrow> config_workspace \<Rightarrow> activity_event \<Rightarrow> string \<Rightarrow> nat \<Rightarrow> db \<Rightarrow> nat \<times> db" where
  "observed_reads h w e published n d =
     (if ReadTool (ev_tool e) \<and> ev_candidate_paths e \<noteq> []
      then publishReadSet (h_amb h) (h_ex h) (h_disk h) w published (ev_candidate_paths e) ''observed'' readPathsPerEvent n d
      else (n, d))"

definition inferred_reads :: "host \<Rightarrow> ipc_request \<Rightarrow> config_workspace \<Rightarrow> activity_event \<Rightarrow> string \<Rightarrow> nat \<Rightarrow> service \<Rightarrow> nat \<times> service" where
  "inferred_reads h q w e published n s =
     (if ev_vendor e = ''codex'' \<and> (ev_kind e = ''Stop'' \<or> ev_kind e = ''SessionEnd'')
      then publishCodexInferredReads (h_amb h) (h_ex h) (h_disk h) (h_fs h) (h_codex_reads h) w
        (ir_agent_vendor_session_id q) (ev_workstream_id e) published n s
      else (n, s))"

text \<open>The part after the event was queued and the observation recorded: session, read sets, transcript.\<close>

definition after_event :: "host \<Rightarrow> ipc_request \<Rightarrow> config_workspace \<Rightarrow> activity_event \<Rightarrow> string \<Rightarrow> transcript option \<Rightarrow> nat \<Rightarrow> service
    \<Rightarrow> agent_event_reply response \<times> nat \<times> service" where
  "after_event h q w e published t n s =
     (case record_session h w e n s of
        Inl answer \<Rightarrow> answer
      | Inr (n1, s1) \<Rightarrow>
          let (n2, d2) = observed_reads h w e published n1 (sv_db s1);
              (n3, s3) = inferred_reads h q w e published n2 (s1\<lparr>sv_db := d2\<rparr>);
              (shared, n4, d4) = shareTranscript (h_amb h) w published e (case t of Some x \<Rightarrow> x | None \<Rightarrow> no_transcript) n3 (sv_db s3)
          in (Inr (Accepted shared (cw_root w)), n4, s3\<lparr>sv_db := d4\<rparr>))"

definition handleAgentEvent :: "host \<Rightarrow> ipc_request \<Rightarrow> nat \<Rightarrow> service \<Rightarrow> agent_event_reply response \<times> nat \<times> service" where
  "handleAgentEvent h q n s =
     (case workspaceForAnyRoot (h_fs h) (sv_config s) (ir_agent_cwd q) (ir_agent_candidate_roots q) of
        None \<Rightarrow> (Inl ''agent session is not inside a registered repository'', n, s)
      | Some (cwd, w) \<Rightarrow>
          (case NormalizePaths (h_fs h) (event_of_request q cwd) (cw_root w) of
             Inl err \<Rightarrow> (Inr (NotAccepted []), n, s)
           | Inr e \<Rightarrow>
               let rollout = (if ev_vendor e = ''codex'' then h_rollout h (ir_agent_vendor_session_id q) else []) in
               if ev_vendor e = ''codex'' \<and> rollout = []
               then (Inr (NotAccepted ''codex background thread''), n, s\<lparr>sv_codex_background := sv_codex_background s + 1\<rparr>)
               else
                 let published = PublishedWorkstreamID (ev_workstream_id e) (cw_project_id w) (cw_id w);
                     inferred = codexInferredReadsUsable (h_codex_located h) (ev_workstream_id e) s;
                     path = transcript_path_for q e rollout;
                     t = (if path = [] then None else h_transcript h path);
                     s1 = (if t = None then s else rememberTranscript published path s);
                     payload = activity_payload q e published inferred (CurrentBranch (h_git h (cw_root w))) t
                 in case EnqueueEvent (cw_id w) (newID (h_amb h) n ''evt_'') ''hook'' ''agent.activity_reported'' payload (wo_now (h_amb h) n) (sv_db s1) of
                      Inl err \<Rightarrow> (Inl (store_text err), n + 1, s1)
                    | Inr d1 \<Rightarrow>
                        (case RecordAgentObservation (cw_id w) (ev_vendor e) (wo_now (h_amb h) (n + 1)) d1 of
                           Inl err \<Rightarrow> (Inl (store_text err), n + 2, s1\<lparr>sv_db := d1\<rparr>)
                         | Inr d2 \<Rightarrow> after_event h q w e published t (n + 2) (s1\<lparr>sv_db := d2\<rparr>))))"

end
