(* ===== verification/App_Registry.thy ===== *)
theory App_Registry
  imports App_Lifecycle
begin

text \<open>
  Which repositories and Projects the profile holds: \<^verbatim>\<open>addWorkspace\<close>, \<^verbatim>\<open>removeProjectWorkspaces\<close> and
  \<^verbatim>\<open>rebindProject\<close> on the running service, \<^verbatim>\<open>Register\<close>, \<^verbatim>\<open>Deregister\<close> and \<^verbatim>\<open>RebindProject\<close> on a stopped
  one, the start of the service, and the dispatch of an IPC call (\<^verbatim>\<open>handle\<close>), all of
  \<^verbatim>\<open>internal/app/app.go\<close>.

  The parameter \<open>rg\<close> says how the machine answers: whether writing the profile succeeds, which
  directories there are to watch, which origins are loopback, how a remote URL is parsed. The lock
  that keeps two services apart is a flag of the calls that take it.
\<close>

record registry =
  rg_save_ok :: "config \<Rightarrow> bool"
  rg_local :: "string \<Rightarrow> bool"
  rg_parse_url :: "string \<Rightarrow> (string \<times> string) option"
  rg_tree :: "string \<Rightarrow> node option"
  rg_add_ok :: "string \<Rightarrow> bool"
  rg_remove_ok :: "string \<Rightarrow> bool"
  rg_is_dir :: "string \<Rightarrow> bool"
  rg_open_ok :: bool
  rg_locked :: bool

definition save_error :: string where "save_error = ''write configuration''"
definition locked_error :: string where "locked_error = ''another instance holds the lock''"

section \<open>Registering a repository\<close>

definition store_workspace :: "backend \<Rightarrow> config_workspace \<Rightarrow> workspace" where
  "store_workspace b w =
     \<lparr>w_id = cw_id w, w_project_id = cw_project_id w, w_workstream_id = cw_workstream_id w, w_member_id = cw_member_id w,
      w_device_id = bk_device_id b, w_session_id = cw_session_id w, w_root = cw_root w, w_baseline = cw_baseline w,
      w_fingerprint = cw_fingerprint w, w_backend_id = bk_id b, w_paused = False, w_revision = 0\<rparr>"

text \<open>The source visits its table of patterns in no fixed order; only the wording of the error depends on it.\<close>

definition invalid_id :: "(string \<times> string \<times> string \<times> nat) list \<Rightarrow> string option" where
  "invalid_id ids = map_option (\<lambda>(label, v, prefix, most). ''invalid '' @ label @ '' ID'')
     (find (\<lambda>(label, v, prefix, most). \<not> matches_id prefix most v) ids)"

definition request_ids :: "ipc_request \<Rightarrow> (string \<times> string \<times> string \<times> nat) list" where
  "request_ids q = [(''Project'', ir_project_id q, ''prj_'', 80), (''workspace'', ir_workspace_id q, ''wsp_'', 123),
     (''workstream'', ir_workstream_id q, ''wrk_'', 80), (''member'', ir_member_id q, ''mem_'', 123), (''session'', ir_session_id q, ''ses_'', 123)]"

text \<open>The workspace a request describes, once git has answered for its directory.\<close>

definition described_workspace :: "host \<Rightarrow> registry \<Rightarrow> ipc_request \<Rightarrow> string + config_workspace" where
  "described_workspace h rg q =
     (if ir_root q = [] \<or> ir_project_id q = [] \<or> ir_workspace_id q = [] \<or> ir_workstream_id q = [] \<or> ir_member_id q = [] \<or> ir_session_id q = []
      then Inl ''development workspace fields are required''
      else if ir_api_base_url q \<noteq> [] \<and> ir_device_id q = [] \<or> ir_api_base_url q = [] \<and> ir_device_id q \<noteq> []
      then Inl ''a backend origin and its device ID are registered together''
      else case invalid_id (request_ids q) of
        Some e \<Rightarrow> Inl e
      | None \<Rightarrow>
          (case rv_eval (h_fs h) (abs_of (h_fs h) (ir_root q)) of
             None \<Rightarrow> Inl ''resolve workspace root symlinks''
           | Some root \<Rightarrow>
               bindE (CaptureBaseline (h_git h root)) (\<lambda>baseline.
               bindE (case Fingerprint (h_git h root) (rg_parse_url rg) (ir_project_id q) of
                   Inl e \<Rightarrow> Inl (''fingerprint workspace repository: '' @ e) | Inr fp \<Rightarrow> Inr fp) (\<lambda>fp.
                 Inr \<lparr>cw_id = ir_workspace_id q, cw_project_id = ir_project_id q, cw_workstream_id = ir_workstream_id q,
                      cw_root = root, cw_baseline = baseline, cw_fingerprint = fp, cw_member_id = ir_member_id q,
                      cw_session_id = ir_session_id q\<rparr>))))"

definition already_registered :: "config_workspace \<Rightarrow> config \<Rightarrow> bool" where
  "already_registered w c \<longleftrightarrow> (\<exists>x \<in> set (cf_workspaces c). cw_id x = cw_id w \<or> cw_root x = cw_root w)"

definition member_enrolled :: "config_workspace \<Rightarrow> config \<Rightarrow> bool" where
  "member_enrolled w c \<longleftrightarrow> (\<exists>x \<in> set (cf_workspaces c). cw_project_id x = cw_project_id w \<and> cw_member_id x = cw_member_id w)"

text \<open>The profile and the backend the repository is registered on.\<close>

definition backend_of_request :: "registry \<Rightarrow> ipc_request \<Rightarrow> config_workspace \<Rightarrow> config \<Rightarrow> string + (config \<times> backend)" where
  "backend_of_request rg q w c =
     (if ir_api_base_url q \<noteq> []
      then bindE (UpsertBackend (rg_local rg) (ir_api_base_url q) (ir_device_id q) c) (\<lambda>(next, b).
        Inr (BindProject (cw_project_id w) (bk_id b) next, b))
      else case BackendForProject (cw_project_id w) c of
        Some b \<Rightarrow> Inr (c, b)
      | None \<Rightarrow> Inl ''this Project has no backend on this profile; supply the backend origin and device ID'')"

definition save_config :: "registry \<Rightarrow> config \<Rightarrow> service \<Rightarrow> string + service" where
  "save_config rg c s = (if rg_save_ok rg c then Inr (s\<lparr>sv_saved := Save c\<rparr>) else Inl save_error)"

definition addWorkspace :: "host \<Rightarrow> registry \<Rightarrow> ipc_request \<Rightarrow> bool \<Rightarrow> int \<Rightarrow> service \<Rightarrow> config_workspace response \<times> service" where
  "addWorkspace h rg q require_member now s =
     (let current = sv_config s in
      case described_workspace h rg q of
        Inl e \<Rightarrow> (Inl e, s)
      | Inr w \<Rightarrow>
          if already_registered w current then (Inl ''workspace already registered'', s)
          else if require_member \<and> \<not> member_enrolled w current
          then (Inl ''development workspace must reuse an enrolled Project member'', s)
          else case backend_of_request rg q w current of
            Inl e \<Rightarrow> (Inl e, s)
          | Inr (bound, b) \<Rightarrow>
              (case NewIgnores (h_git h (cw_root w)) (cw_root w) of
                 Inl e \<Rightarrow> (Inl (''read development workspace ignore rules: '' @ e), s)
               | Inr ig \<Rightarrow>
                   (case Add (rg_add_ok rg) (cw_root w) (rg_tree rg (cw_root w)) (Some ig) (sv_watch s) of
                      (Some e, watch) \<Rightarrow> (Inl (''watch development workspace: '' @ e), s\<lparr>sv_watch := watch\<rparr>)
                    | (None, watch) \<Rightarrow>
                        let s1 = s\<lparr>sv_watch := watch\<rparr>; next = bound\<lparr>cf_workspaces := cf_workspaces current @ [w]\<rparr> in
                        (case save_config rg next s1 of
                           Inl e \<Rightarrow> (Inl e, s1)
                         | Inr s2 \<Rightarrow>
                             (case UpsertWorkspace (store_workspace b w) now (sv_db s2) of
                                Inl e \<Rightarrow> (Inl (store_text e), case save_config rg current s2 of Inr s3 \<Rightarrow> s3 | Inl _ \<Rightarrow> s2)
                              | Inr d \<Rightarrow> (Inr w, s2\<lparr>sv_db := d, sv_config := next\<rparr>))))))"

section \<open>Forgetting and moving a Project\<close>

definition removed_nothing :: "config \<Rightarrow> config \<times> config_workspace list \<Rightarrow> bool" where
  "removed_nothing c r \<longleftrightarrow> snd r = [] \<and> length (cf_projects (fst r)) = length (cf_projects c)"

definition forget_workspace :: "registry \<Rightarrow> config_workspace \<Rightarrow> service \<Rightarrow> service" where
  "forget_workspace rg w s =
     s\<lparr>sv_watch := snd (Remove (rg_remove_ok rg) (cw_root w) (sv_watch s)),
       sv_db := (case DeleteWorkspace (cw_id w) (sv_db s) of Inr d \<Rightarrow> d | Inl e \<Rightarrow> sv_db s)\<rparr>"

definition removeProjectWorkspaces :: "registry \<Rightarrow> string \<Rightarrow> service \<Rightarrow> config_workspace list response \<times> service" where
  "removeProjectWorkspaces rg projectID s =
     (if \<not> matches_id ''prj_'' 80 projectID then (Inl ''invalid Project ID'', s)
      else let (next, cleared) = RemoveProject projectID (sv_config s) in
        if removed_nothing (sv_config s) (next, cleared) then (Inl ''this Project is not registered on this device'', s)
        else case save_config rg next s of
          Inl e \<Rightarrow> (Inl e, s)
        | Inr s1 \<Rightarrow> (Inr cleared, fold (forget_workspace rg) cleared (s1\<lparr>sv_config := next\<rparr>)))"

text \<open>The loop both moves share: it stops at the first error and keeps what it did before.\<close>

fun move_workspaces :: "backend \<Rightarrow> int \<Rightarrow> config_workspace list \<Rightarrow> db \<Rightarrow> store_error option \<times> db" where
  "move_workspaces b now [] d = (None, d)"
| "move_workspaces b now (w # ws) d =
     (case RebindWorkspace (cw_id w) (bk_device_id b) (bk_id b) d of
        Inl e \<Rightarrow> (Some e, d)
      | Inr d1 \<Rightarrow>
          (case UpsertWorkspace (store_workspace b w) now d1 of
             Inl e \<Rightarrow> (Some e, d1)
           | Inr d2 \<Rightarrow> move_workspaces b now ws d2))"

definition rebound :: "registry \<Rightarrow> string \<Rightarrow> string \<Rightarrow> string \<Rightarrow> config \<Rightarrow> string + (config \<times> backend)" where
  "rebound rg projectID api device c =
     bindE (UpsertBackend (rg_local rg) api device c) (\<lambda>(next, b).
     bindE (RebindProject projectID (bk_id b) next) (\<lambda>moved. Inr (moved, b)))"

definition rebindProject :: "registry \<Rightarrow> string \<Rightarrow> string \<Rightarrow> string \<Rightarrow> int \<Rightarrow> service \<Rightarrow> config_workspace list response \<times> service" where
  "rebindProject rg projectID api device now s =
     (if \<not> matches_id ''prj_'' 80 projectID then (Inl ''invalid Project ID'', s)
      else case rebound rg projectID api device (sv_config s) of
        Inl e \<Rightarrow> (Inl e, s)
      | Inr (next, b) \<Rightarrow>
          (case save_config rg next s of
             Inl e \<Rightarrow> (Inl e, s)
           | Inr s1 \<Rightarrow>
               let moved = WorkspacesForProject projectID next;
                   (err, d) = move_workspaces b now moved (sv_db s1);
                   s2 = s1\<lparr>sv_config := next, sv_db := d\<rparr>
               in case err of Some e \<Rightarrow> (Inl (store_text e), s2) | None \<Rightarrow> (Inr moved, s2)))"

section \<open>The stopped service\<close>

text \<open>The state of a stopped service is the profile on disk and the database.\<close>

type_synonym stopped = "config_file \<times> db"

definition RebindProject_stopped :: "registry \<Rightarrow> string \<Rightarrow> string \<Rightarrow> string \<Rightarrow> int \<Rightarrow> stopped \<Rightarrow> (config_workspace list) response \<times> stopped" where
  "RebindProject_stopped rg projectID api device now st =
     (if rg_locked rg then (Inl (''move Project: '' @ locked_error), st)
      else case bindE (Load (rg_local rg) (fst st)) (rebound rg projectID api device) of
        Inl e \<Rightarrow> (Inl e, st)
      | Inr (next, b) \<Rightarrow>
          if \<not> rg_save_ok rg next then (Inl save_error, st)
          else let moved = WorkspacesForProject projectID next in
            if \<not> rg_open_ok rg then (Inl ''Project moved, but its publish state could not be reset'', (Save next, snd st))
            else case move_workspaces b now moved (snd st) of
              (Some e, d) \<Rightarrow> (Inl (''Project moved, but its publish state could not be reset: '' @ store_text e), (Save next, d))
            | (None, d) \<Rightarrow> (Inr moved, (Save next, d)))"

fun delete_workspaces :: "config_workspace list \<Rightarrow> db \<Rightarrow> store_error option \<times> db" where
  "delete_workspaces [] d = (None, d)"
| "delete_workspaces (w # ws) d =
     (case DeleteWorkspace (cw_id w) d of Inl e \<Rightarrow> (Some e, d) | Inr d' \<Rightarrow> delete_workspaces ws d')"

definition Deregister :: "registry \<Rightarrow> string \<Rightarrow> stopped \<Rightarrow> (config_workspace list) response \<times> stopped" where
  "Deregister rg projectID st =
     (if rg_locked rg then (Inl (''disconnect Project: '' @ locked_error), st)
      else case Load (rg_local rg) (fst st) of
        Inl e \<Rightarrow> (Inl e, st)
      | Inr c \<Rightarrow>
          let (next, cleared) = RemoveProject projectID c in
          if removed_nothing c (next, cleared) then (Inl ''this Project is not registered on this device'', st)
          else if \<not> rg_save_ok rg next then (Inl save_error, st)
          else if \<not> rg_open_ok rg then (Inl ''Project disconnected, but its recorded state could not be dropped'', (Save next, snd st))
          else case delete_workspaces cleared (snd st) of
            (Some e, d) \<Rightarrow> (Inl (''Project disconnected, but its recorded state could not be dropped: '' @ store_text e), (Save next, d))
          | (None, d) \<Rightarrow> (Inr cleared, (Save next, d)))"

definition register_ids :: "string \<Rightarrow> config_workspace \<Rightarrow> (string \<times> string \<times> string \<times> nat) list" where
  "register_ids device w = [(''Project'', cw_project_id w, ''prj_'', 80), (''workspace'', cw_id w, ''wsp_'', 123),
     (''workstream'', cw_workstream_id w, ''wrk_'', 80), (''member'', cw_member_id w, ''mem_'', 123), (''device'', device, ''dev_'', 123),
     (''session'', cw_session_id w, ''ses_'', 123)]"

text \<open>The profile after the Project is bound, unless it is bound elsewhere already.\<close>

definition bind_new :: "registry \<Rightarrow> string \<Rightarrow> string \<Rightarrow> string \<Rightarrow> config \<Rightarrow> string + config" where
  "bind_new rg api device projectID c =
     bindE (UpsertBackend (rg_local rg) api device c) (\<lambda>(next, b).
       if (case BackendForProject projectID next of Some existing \<Rightarrow> bk_id existing \<noteq> bk_id b | None \<Rightarrow> False)
       then Inl ''this Project is already registered against a different backend''
       else Inr (BindProject projectID (bk_id b) next))"

definition Register :: "host \<Rightarrow> registry \<Rightarrow> string \<Rightarrow> string \<Rightarrow> config_workspace \<Rightarrow> config_file \<Rightarrow> unit response \<times> config_file" where
  "Register h rg api device w file =
     (if api = [] then (Inl ''hosted API base URL is required'', file)
      else case invalid_id (register_ids device w) of
        Some e \<Rightarrow> (Inl e, file)
      | None \<Rightarrow>
          if rg_locked rg then (Inl (''register workspace: '' @ locked_error), file)
          else case bindE (Load (rg_local rg) file) (bind_new rg api device (cw_project_id w)) of
            Inl e \<Rightarrow> (Inl e, file)
          | Inr c \<Rightarrow>
              (case rv_eval (h_fs h) (abs_of (h_fs h) (cw_root w)) of
                 None \<Rightarrow> (Inl ''resolve workspace root symlinks'', file)
               | Some root \<Rightarrow>
                   let w1 = w\<lparr>cw_root := root\<rparr> in
                   if \<not> rg_is_dir rg root then (Inl ''workspace root is not a directory'', file)
                   else if already_registered w1 c then (Inl ''workspace already registered'', file)
                   else case CaptureBaseline (h_git h root) of
                     Inl e \<Rightarrow> (Inl e, file)
                   | Inr baseline \<Rightarrow>
                       (case Fingerprint (h_git h root) (rg_parse_url rg) (cw_project_id w) of
                          Inl e \<Rightarrow> (Inl (''fingerprint workspace repository: '' @ e), file)
                        | Inr fp \<Rightarrow>
                            let next = c\<lparr>cf_workspaces := cf_workspaces c @ [w1\<lparr>cw_baseline := baseline, cw_fingerprint := fp\<rparr>]\<rparr>
                            in if rg_save_ok rg next then (Inr (), Save next) else (Inl save_error, file))))"

section \<open>Starting the service\<close>

definition no_backend :: backend where
  "no_backend = \<lparr>bk_id = [], bk_api_base_url = [], bk_device_id = [], bk_kind = []\<rparr>"

text \<open>The loop that writes each registered repository; it stops at the first error and keeps what it wrote.\<close>

fun boot_rows :: "config \<Rightarrow> int \<Rightarrow> config_workspace list \<Rightarrow> db \<Rightarrow> store_error option \<times> db" where
  "boot_rows c now [] d = (None, d)"
| "boot_rows c now (w # ws) d =
     (case UpsertWorkspace (store_workspace (case BackendForWorkspace w c of Some b \<Rightarrow> b | None \<Rightarrow> no_backend) w) now d of
        Inl e \<Rightarrow> (Some e, d)
      | Inr d' \<Rightarrow> boot_rows c now ws d')"

definition boot_watch :: "host \<Rightarrow> registry \<Rightarrow> config_workspace \<Rightarrow> watcher \<Rightarrow> watcher" where
  "boot_watch h rg w watch =
     (if rg_tree rg (cw_root w) = None then watch
      else case NewIgnores (h_git h (cw_root w)) (cw_root w) of
        Inl e \<Rightarrow> watch
      | Inr ig \<Rightarrow> snd (Add (rg_add_ok rg) (cw_root w) (rg_tree rg (cw_root w)) (Some ig) watch))"

text \<open>
  \<^verbatim>\<open>Run\<close> up to the first scan, which ends it here; the loops and the socket follow. A start that fails
  leaves what it wrote to the database.
\<close>

definition Run :: "host \<Rightarrow> registry \<Rightarrow> int \<Rightarrow> nat \<Rightarrow> stopped \<Rightarrow> (string \<times> stopped) + (nat \<times> service)" where
  "Run h rg now n st =
     (if rg_locked rg then Inl (locked_error, st)
      else case Load (rg_local rg) (fst st) of
        Inl e \<Rightarrow> Inl (e, st)
      | Inr c \<Rightarrow>
          if \<not> rg_open_ok rg then Inl (''open database'', st)
          else let (boots, d) = Boot (snd st) in
            (case boot_rows c now (cf_workspaces c) d of
               (Some e, d1) \<Rightarrow> Inl (store_text e, (fst st, d1))
             | (None, d1) \<Rightarrow> Inr (scanAll (h_amb h) (h_ex h) (h_disk h) (h_git h) (h_eval h) n
                 \<lparr>sv_config = c, sv_saved = fst st, sv_db = d1, sv_wire = [], sv_senders = Map.empty, sv_sender_state = Map.empty,
                  sv_boot = boots, sv_scans = 0, sv_scan_cycles = 0,
                  sv_watch = fold (boot_watch h rg) (cf_workspaces c) NewWatcher,
                  sv_transcripts = Map.empty, sv_codex_background = 0, sv_codex_read_failed = (\<lambda>_. False), sv_last_error = [],
                  sv_mid_turn = Map.empty\<rparr>)))"

section \<open>Dispatch\<close>

record local_backend =
  lb_status :: json
  lb_ensure :: "string + json"
  lb_stop :: "string option"

datatype reply =
    RJson json
  | RLifecycle lifecycle_result
  | RInjection injection_result
  | RResolution session_resolution
  | RCollaboration collaboration_snapshot
  | RSession "transcript option"
  | RSessions "agent_session list"
  | REvent agent_event_reply
  | RWorkspace config_workspace

definition health :: "int \<Rightarrow> local_backend option \<Rightarrow> int \<Rightarrow> service \<Rightarrow> json \<times> service" where
  "health pid lb now s =
     (let ws = Workspaces (sv_db s); (focused, d') = ActiveFocus now (sv_db s) in
      (JMap ([(''status'', JStr ''ok''), (''bootCount'', JInt (sv_boot s)), (''workspaces'', JInt (int (length ws))),
          (''pausedWorkspaces'', JInt (int (length (filter w_paused ws)))), (''focusedSessions'', JInt (int (length focused))),
          (''pending'', JInt (int (length (Pending (sv_db s))))), (''quarantined'', JInt (int (QuarantinedCount (sv_db s)))),
          (''scans'', JInt (sv_scans s)), (''scanCycles'', JInt (sv_scan_cycles s)),
          (''codexBackgroundThreads'', JInt (sv_codex_background s)), (''lastPublishError'', JStr (publishError s)),
          (''backends'', JArr (credentialStates s)), (''pid'', JInt pid)] @
        (case lb of None \<Rightarrow> [] | Some b \<Rightarrow> [(''backend'', lb_status b)])),
       s\<lparr>sv_db := d'\<rparr>))"

definition handle_pause :: "ipc_request \<Rightarrow> service \<Rightarrow> json response \<times> service" where
  "handle_pause q s =
     (let paused = (ir_method q = ''pause'') in
      if ir_workspace_id q = [] \<and> ir_project_id q \<noteq> []
      then (case SetProjectPaused (ir_project_id q) paused (sv_db s) of
          Inl e \<Rightarrow> (Inl (store_text e), s)
        | Inr (changed, d) \<Rightarrow> (Inr (JMap [(''workspaces'', JInt (int changed)), (''paused'', JBool paused)]), s\<lparr>sv_db := d\<rparr>))
      else (case SetPaused (ir_workspace_id q) paused (sv_db s) of
          Inl e \<Rightarrow> (Inl (store_text e), s)
        | Inr d \<Rightarrow> (Inr (JMap [(''workspaces'', JInt 1), (''paused'', JBool paused)]), s\<lparr>sv_db := d\<rparr>)))"

definition handle_intent :: "host \<Rightarrow> ipc_request \<Rightarrow> nat \<Rightarrow> service \<Rightarrow> json response \<times> nat \<times> service" where
  "handle_intent h q n s =
     (case validateIntent q of
        Some e \<Rightarrow> (Inl e, n, s)
      | None \<Rightarrow>
          let workstream = workspaceWorkstream (sv_config s) (ir_workspace_id q) in
          if workstream = [] then (Inl ''workspace not found'', n, s)
          else case EnqueueEvent (ir_workspace_id q) (newID (h_amb h) n ''evt_'') ''manual'' ''workstream.intent_reported''
                 (intentPayload workstream q) (wo_now (h_amb h) n) (sv_db s) of
            Inl e \<Rightarrow> (Inl (store_text e), n + 1, s)
          | Inr d \<Rightarrow> (Inr JNull, n + 1, s\<lparr>sv_db := d\<rparr>))"

text \<open>\<open>expired\<close> is the fetch deadline of an injection. Every call reads the clock at most three times before its own draws.\<close>

definition answer :: "('a \<Rightarrow> reply) \<Rightarrow> 'a response \<Rightarrow> reply response" where
  "answer f r = (case r of Inl e \<Rightarrow> Inl e | Inr x \<Rightarrow> Inr (f x))"

definition handle :: "host \<Rightarrow> registry \<Rightarrow> local_backend option \<Rightarrow> int \<Rightarrow> bool \<Rightarrow> ipc_request \<Rightarrow> nat \<Rightarrow> service \<Rightarrow> reply response \<times> nat \<times> service" where
  "handle h rg lb pid expired q n s =
     (let m = ir_method q; clock = (\<lambda>i. wo_now (h_amb h) (n + i)); now = wo_now (h_amb h) n in
      if m = ''health'' \<or> m = ''doctor'' then let (j, s') = health pid lb now s in (Inr (RJson j), n + 3, s')
      else if m = ''backend_status'' then
        (case lb of None \<Rightarrow> (Inl ''this profile has no local backend'', n, s) | Some b \<Rightarrow> (Inr (RJson (lb_status b)), n, s))
      else if m = ''backend_ensure'' then
        (case lb of None \<Rightarrow> (Inl ''this profile has no local backend'', n, s) | Some b \<Rightarrow> (answer RJson (lb_ensure b), n, s))
      else if m = ''backend_stop'' then
        (case lb of None \<Rightarrow> (Inl ''this profile has no local backend'', n, s)
         | Some b \<Rightarrow> (case lb_stop b of Some e \<Rightarrow> (Inl e, n, s) | None \<Rightarrow> (Inr (RJson (JMap [(''running'', JBool False)])), n, s)))
      else if m = ''pause'' \<or> m = ''resume'' then let (r, s') = handle_pause q s in (answer RJson r, n, s')
      else if m = ''focus'' \<or> m = ''unfocus'' \<or> m = ''focus_state'' then
        let (r, d) = handleFocus q now (sv_db s) in (answer RJson r, n + 3, s\<lparr>sv_db := d\<rparr>)
      else if m = ''unfocus_all'' then
        let (cleared, d) = ClearAllFocus (sv_db s) in (Inr (RJson (JMap [(''cleared'', JInt (int cleared))])), n, s\<lparr>sv_db := d\<rparr>)
      else if m = ''intent'' then let (r, n', s') = handle_intent h q n s in (answer RJson r, n', s')
      else if m \<in> set [''begin_work'', ''update_intent'', ''check_coordination'', ''report_checkpoint'', ''acknowledge_context'',
          ''finish_work'', ''report_event''] then
        let (r, n', s') = handleLifecycle h q n s in (answer RLifecycle r, n', s')
      else if m = ''resolve_agent_session'' then
        (Inr (RResolution (handleAgentSessionResolution (h_fs h) (h_codex_threads h) now q s)), n + 3, s)
      else if m = ''get_resolutions'' then let (r, s') = handleCollaboration h q s in (answer RCollaboration r, n, s')
      else if m = ''session_detail'' then (answer RSession (handleSessionDetail h q s), n, s)
      else if m = ''project_activity'' then
        (case RecentAgentSessions (ir_workspace_id q) (now - 30 * minute_ns) (sv_db s) of
           Inl e \<Rightarrow> (Inl (store_text e), n + 3, s) | Inr xs \<Rightarrow> (Inr (RSessions xs), n + 3, s))
      else if m = ''agent_event'' then let (r, n', s') = handleAgentEvent h q n s in (answer REvent r, n', s')
      else if m = ''agent_injection'' then
        let (r, s') = handleAgentInjection (h_new_sender h) (h_server h) (h_fs h) clock expired q s in (Inr (RInjection r), n + 3, s')
      else if m = ''scan'' then
        let (n', s') = scanAll (h_amb h) (h_ex h) (h_disk h) (h_git h) (h_eval h) n s in (Inr (RJson JNull), n', s')
      else if m = ''add_development_workspace'' then let (r, s') = addWorkspace h rg q True now s in (answer RWorkspace r, n + 3, s')
      else if m = ''add_project_workspace'' then let (r, s') = addWorkspace h rg q False now s in (answer RWorkspace r, n + 3, s')
      else if m = ''rebind_project_backend'' then
        let (r, s') = rebindProject rg (ir_project_id q) (ir_api_base_url q) (ir_device_id q) now s
        in (answer (\<lambda>moved. RJson (JMap [(''projectId'', JStr (ir_project_id q)), (''workspaces'', JInt (int (length moved)))])) r, n + 3, s')
      else if m = ''remove_project_workspaces'' then
        let (r, s') = removeProjectWorkspaces rg (ir_project_id q) s
        in (answer (\<lambda>cleared. RJson (JMap [(''projectId'', JStr (ir_project_id q)), (''workspaces'', JInt (int (length cleared))),
             (''roots'', strings_json (map cw_root cleared))])) r, n, s')
      else (Inl ''unsupported method'', n, s))"

end
