(* ===== verification/App_Effects.thy ===== *)
theory App_Effects
  imports App_Registry Activity_Safety Store_Machine
begin

text \<open>
  What the calls of the service do to the database, stated once for any relation between databases
  that the store's operations respect (locales \<open>queue_effects\<close> and \<open>store_effects\<close>), and used
  twice: for the events a hook may cause, and for the invariant of the store.
\<close>

section \<open>Relations the store respects\<close>

text \<open>Two databases with the same workspaces, queue, manifests, cursors and idempotency keys.\<close>

definition same_core :: "db \<Rightarrow> db \<Rightarrow> bool" where
  "same_core d d' \<longleftrightarrow> workspaces d' = workspaces d \<and> event_queue d' = event_queue d \<and> manifests d' = manifests d
     \<and> cursors d' = cursors d \<and> idempotency_keys d' = idempotency_keys d"

lemma core_fingerprints: "ChangedFingerprints ws observed at d = Inr (changed, d') \<Longrightarrow> same_core d d'"
  by (auto simp: ChangedFingerprints_def same_core_def split: if_splits prod.splits)

lemma core_reads: "ChangedReadSet ws stream entries d = Inr (changed, d') \<Longrightarrow> same_core d d'"
  by (auto simp: ChangedReadSet_def same_core_def split: if_splits prod.splits)

lemma core_observation: "RecordAgentObservation ws vendor at d = Inr d' \<Longrightarrow> same_core d d'"
  by (auto simp: RecordAgentObservation_def same_core_def split: if_splits)

lemma core_session: "RecordAgentSession a d = Inr d' \<Longrightarrow> same_core d d'"
  by (auto simp: RecordAgentSession_def same_core_def split: if_splits)

text \<open>What a read set and its files may name: safe paths, and no signature the wire gate denies.\<close>

definition clean_read :: "read_entry \<Rightarrow> bool" where
  "clean_read x \<longleftrightarrow> SafeRepositoryPath (r_path x) \<and> Fingerprintable (r_path x)"

definition clean_file :: "string \<times> contract_file \<Rightarrow> bool" where
  "clean_file pf \<longleftrightarrow> SafeRepositoryPath (fi_path (snd pf)) \<and> fi_path (snd pf) = fst pf
     \<and> (\<forall>y \<in> set (fi_symbols (snd pf)). \<not> ProhibitedContractSignature (sy_signature y))"

lemma fingerprint_gated:
  assumes "fingerprint ex disk root path = Some f"
  shows "fi_path f = path" and "y \<in> set (fi_symbols f) \<Longrightarrow> \<not> ProhibitedContractSignature (sy_signature y)"
proof -
  obtain source where "Extract ex path source (Some ProhibitedContractSignature) = Some f"
    using assms by (auto simp: fingerprint_def Let_def split: if_splits option.splits)
  from Extract_gated [OF this] show "fi_path f = path"
    and "y \<in> set (fi_symbols f) \<Longrightarrow> \<not> ProhibitedContractSignature (sy_signature y)" by (auto simp: passes_def)
qed

lemma collect_clean:
  assumes "collect_reads ex disk w d at fidelity limit candidates entries seeds = (entries', seeds')"
    and "\<forall>x \<in> set entries. clean_read x" and "\<forall>pf \<in> set seeds. clean_file pf"
  shows "(\<forall>x \<in> set entries'. clean_read x) \<and> (\<forall>pf \<in> set seeds'. clean_file pf)"
  using assms
proof (induction ex disk w d at fidelity limit candidates entries seeds rule: collect_reads.induct)
  case (1 ex disk w d at fidelity limit entries seeds)
  then show ?case by simp
next
  case (2 ex disk w d at fidelity limit candidate candidates entries seeds)
  show ?case
  proof (cases "repositoryRelative (cw_root w) candidate")
    case None
    with 2 show ?thesis by simp
  next
    case (Some path)
    show ?thesis
    proof (cases "Fingerprintable path \<and> \<not> limit \<le> length entries")
      case False
      with Some 2 show ?thesis by (auto split: if_splits)
    next
      case True
      have safe: "SafeRepositoryPath path"
        using Some by (auto simp: repositoryRelative_def Let_def split: if_splits option.splits)
      let ?file = "fingerprint ex disk (cw_root w) path"
      let ?hash = "case ?file of Some f \<Rightarrow> fi_hash f
        | None \<Rightarrow> (case FingerprintHash (cw_id w) path d of Some h \<Rightarrow> h | None \<Rightarrow> [])"
      let ?seeds = "case ?file of Some f \<Rightarrow> put_file path f seeds | None \<Rightarrow> seeds"
      have run: "collect_reads ex disk w d at fidelity limit candidates
          (if ?hash = [] then entries else entries @ [\<lparr>r_path = path, r_hash = ?hash, r_observed_at = at, r_fidelity = fidelity\<rparr>]) ?seeds
        = (entries', seeds')"
        using 2(4) Some True by (simp add: Let_def)
      have entries: "\<forall>x \<in> set (if ?hash = [] then entries
          else entries @ [\<lparr>r_path = path, r_hash = ?hash, r_observed_at = at, r_fidelity = fidelity\<rparr>]). clean_read x"
        using 2(5) True safe by (simp add: clean_read_def)
      have seeds: "\<forall>pf \<in> set ?seeds. clean_file pf"
        using 2(6) safe fingerprint_gated by (auto simp: put_file_def clean_file_def split: option.splits)
      show ?thesis
        by (rule 2(3) [OF Some _ _ refl refl refl run entries seeds]) (use True in simp_all)
    qed
  qed
qed

lemma clean_read_fidelity [simp]: "clean_read (x\<lparr>r_fidelity := y\<rparr>) = clean_read x"
  by (simp add: clean_read_def)

lemma changed_reads_clean:
  "\<forall>x \<in> set entries. clean_read x \<Longrightarrow> \<forall>x \<in> set changed. clean_read x \<Longrightarrow>
    \<forall>x \<in> set (fst (changed_reads ws stream entries seen changed rows)). clean_read x"
proof (induction ws stream entries seen changed rows rule: changed_reads.induct)
  case (1 ws stream seen changed rows)
  then show ?case by simp
next
  case (2 ws stream entry entries seen changed rows)
  show ?case
  proof (cases "r_path entry = [] \<or> r_hash entry = [] \<or> r_path entry \<in> seen")
    case True
    with 2 show ?thesis by simp
  next
    case False
    show ?thesis
      unfolding changed_reads.simps Let_def if_not_P [OF False]
      by (rule 2(2) [OF False refl refl refl refl]) (use 2(3,4) in simp_all)
  qed
qed

lemma ChangedReadSet_clean:
  "ChangedReadSet ws stream entries d = Inr (changed, d') \<Longrightarrow> \<forall>x \<in> set entries. clean_read x \<Longrightarrow> \<forall>x \<in> set changed. clean_read x"
  using changed_reads_clean [of entries "[]" ws stream "{}" "session_read_sets d"]
  by (auto simp: ChangedReadSet_def split: if_splits prod.splits)

locale queue_effects =
  fixes R :: "db \<Rightarrow> db \<Rightarrow> bool" and fine :: "string \<Rightarrow> json \<Rightarrow> bool"
  assumes keep: "R d d"
    and chain: "R d d' \<Longrightarrow> R d' d'' \<Longrightarrow> R d d''"
    and queued: "EnqueueEvent ws eid source kind payload now d = Inr d' \<Longrightarrow> fine kind payload \<Longrightarrow> R d d'"
    and aside: "same_core d d' \<Longrightarrow> R d d'"
    and fine_files: "\<forall>pf \<in> set files. clean_file pf \<Longrightarrow> fine ''workspace.contract_fingerprints_reported'' (files_payload w files paths)"
    and fine_reads: "\<forall>x \<in> set window. clean_read x \<Longrightarrow> fine ''session.read_set_reported'' (reads_payload w session window)"
    and fine_message: "ClassifyMessage m0 = Inr m \<Longrightarrow> fine ''agent.conversation_shared'' (message_payload stream e i m)"
    and fine_activity: "NormalizePaths fs e0 root = Inr e \<Longrightarrow>
      fine ''agent.activity_reported'' (activity_payload q e published inferred branch t)"
begin

lemma windows_effect:
  "(\<And>w. set w \<subseteq> set changed \<Longrightarrow> fine kind (payload w)) \<Longrightarrow>
    R d (snd (enqueue_windows amb ws source kind k payload changed n d))"
proof (induction amb ws source kind k payload changed n d rule: enqueue_windows.induct)
  case (1 amb ws source kind k payload changed n d)
  show ?case
  proof (cases "changed = []")
    case True
    then show ?thesis by (subst enqueue_windows.simps) (simp add: keep)
  next
    case False
    show ?thesis
    proof (cases "EnqueueEvent ws (newID amb n ''evt_'') source kind (payload (take (Suc k) changed)) (wo_now amb n) d")
      case (Inl e)
      with False show ?thesis by (subst enqueue_windows.simps) (simp add: keep)
    next
      case (Inr d')
      have "R d d'" by (rule queued [OF Inr 1(2) [OF set_take_subset]])
      moreover have "R d' (snd (enqueue_windows amb ws source kind k payload (drop (Suc k) changed) (n + 1) d'))"
        using set_drop_subset [of "Suc k" changed] by (intro "1.IH" [OF False Inr 1(2)]) blast
      ultimately show ?thesis using False Inr by (subst enqueue_windows.simps) (simp add: chain [of d d'])
    qed
  qed
qed

lemma files_effect:
  assumes "\<And>paths. fine ''workspace.contract_fingerprints_reported'' (files_payload w files paths)"
  shows "R d (snd (publishFingerprintFiles amb w files n d))"
proof (cases "files = []")
  case True
  then show ?thesis by (simp add: publishFingerprintFiles_def keep)
next
  case False
  show ?thesis
  proof (cases "ChangedFingerprints (cw_id w) (map (\<lambda>pf. (fst pf, fi_hash (snd pf))) files) (wo_now amb n) d")
    case (Inl e)
    with False show ?thesis by (simp add: publishFingerprintFiles_def keep)
  next
    case (Inr r)
    obtain changed d' where r: "r = (changed, d')" by (cases r)
    have "R d d'" by (rule aside [OF core_fingerprints [OF Inr [unfolded r]]])
    from chain [OF this windows_effect [OF assms]] False Inr r show ?thesis
      by (simp add: publishFingerprintFiles_def)
  qed
qed

lemma read_set_effect: "R d (snd (publishReadSet amb ex disk w session candidates fidelity limit n d))"
proof (cases "session = []")
  case True
  then show ?thesis by (simp add: publishReadSet_def keep)
next
  case False
  obtain entries seeds where c: "collect_reads ex disk w d (rfc3339nano (wo_now amb n)) fidelity limit candidates [] [] = (entries, seeds)"
    by (metis surj_pair)
  have held: "\<forall>x \<in> set entries. clean_read x" "\<forall>pf \<in> set seeds. clean_file pf" using collect_clean [OF c] by simp_all
  obtain n1 d1 where f: "publishFingerprintFiles amb w seeds (n + 1) d = (n1, d1)" by (metis surj_pair)
  have first: "R d d1" using files_effect [OF fine_files [OF held(2)], where d = d and amb = amb and w = w and n = "n + 1"] f by simp
  show ?thesis
  proof (cases "ChangedReadSet (cw_id w) session entries d1")
    case (Inl e)
    with False c f first show ?thesis by (simp add: publishReadSet_def)
  next
    case (Inr r)
    obtain changed d2 where r: "r = (changed, d2)" by (cases r)
    have R2: "R d d2" by (rule chain [OF first aside [OF core_reads [OF Inr [unfolded r]]]])
    have "\<forall>x \<in> set changed. clean_read x" by (rule ChangedReadSet_clean [OF Inr [unfolded r] held(1)])
    then have "fine ''session.read_set_reported'' (reads_payload w session window)" if "set window \<subseteq> set changed" for window
      using that by (intro fine_reads) blast
    from chain [OF R2 windows_effect [OF this]] False c f Inr r show ?thesis by (simp add: publishReadSet_def)
  qed
qed

lemma read_set_moves:
  "publishReadSet amb ex disk w session candidates fidelity limit n d = (n', d') \<Longrightarrow> R d d'"
  using read_set_effect [of d amb ex disk w session candidates fidelity limit n] by simp

lemma inferred_effect:
  "R (sv_db s) (sv_db (snd (publishCodexInferredReads amb ex disk fs codex w vendor_session session published n s)))"
  by (auto simp: publishCodexInferredReads_def recordCodexReadRefresh_def Let_def keep
      dest: read_set_moves split: option.splits prod.splits)

lemma share_effect: "R d (snd (snd (share_messages amb w stream e i candidates shared n d)))"
proof (induction amb w stream e i candidates shared n d rule: share_messages.induct)
  case (1 amb w workstream e i shared n d)
  then show ?case by (simp add: keep)
next
  case (2 amb w workstream e i candidate candidates shared n d)
  show ?case
  proof (cases "tm_kind candidate = ''tool''")
    case True
    with 2(1) show ?thesis by simp
  next
    case False
    show ?thesis
    proof (cases "ClassifyMessage \<lparr>am_kind = tm_kind candidate, am_text = tm_text candidate\<rparr>")
      case (Inl err)
      with False 2(2) [OF False Inl] show ?thesis by simp
    next
      case (Inr m)
      show ?thesis
      proof (cases "EnqueueEvent (cw_id w) (newID amb n ''evt_'') ''hook'' ''agent.conversation_shared''
                 (message_payload workstream e i m) (wo_now amb n) d")
        case (Inl err)
        with False Inr 2(3) [OF False Inr Inl] show ?thesis by simp
      next
        case (Inr d')
        have "R d d'" by (rule queued [OF Inr fine_message [OF \<open>ClassifyMessage _ = Inr m\<close>]])
        from chain [OF this 2(4) [OF False \<open>ClassifyMessage _ = Inr m\<close> Inr]] False Inr \<open>ClassifyMessage _ = Inr m\<close>
        show ?thesis by simp
      qed
    qed
  qed
qed

lemma record_session_effect:
  "record_session h w e n s = Inl (r, n', s') \<Longrightarrow> R (sv_db s) (sv_db s')"
  "record_session h w e n s = Inr (n1, s1) \<Longrightarrow> R (sv_db s) (sv_db s1)"
  by (auto simp: record_session_def keep dest: core_session [THEN aside] split: if_splits option.splits sum.splits)

lemma event_reads_effect:
  "observed_reads h w e published n d = (n', d') \<Longrightarrow> R d d'"
  "inferred_reads h q w e published n s = (n', s') \<Longrightarrow> R (sv_db s) (sv_db s')"
  using inferred_effect [of s "h_amb h" "h_ex h" "h_disk h" "h_fs h" "h_codex_reads h" w "ir_agent_vendor_session_id q"
      "ev_workstream_id e" published n]
  by (auto simp: observed_reads_def inferred_reads_def keep dest: read_set_moves split: if_splits)

lemma shareTranscript_effect: "shareTranscript amb w stream e t n d = (shared, n', d') \<Longrightarrow> R d d'"
  using share_effect [of d amb w stream e 0 "tr_messages t" 0 n] by (simp add: shareTranscript_def)

lemma after_event_effect: "after_event h q w e published t n s = (r, n', s') \<Longrightarrow> R (sv_db s) (sv_db s')"
  by (auto simp: after_event_def Let_def split: sum.splits prod.splits
      dest!: record_session_effect event_reads_effect shareTranscript_effect) (meson chain)+

lemma event_effect: "handleAgentEvent h q n s = (r, n', s') \<Longrightarrow> R (sv_db s) (sv_db s')"
  by (auto simp: handleAgentEvent_def Let_def rememberTranscript_def keep split: option.splits sum.splits prod.splits if_splits
      dest!: queued core_observation [THEN aside] after_event_effect intro: fine_activity) (meson chain fine_activity)+

end

end
