(* ===== verification/App_Injection.thy ===== *)
theory App_Injection
  imports App_Sessions App_Flush
begin

text \<open>
  What a session is told: an injection stays within its budget, hands out every item it records as
  delivered and nothing that was delivered before, and takes nothing from a session in focus. Also,
  which repository a directory resolves to.
\<close>

section \<open>The budget\<close>

lemma select_budget:
  "used \<le> maxInjectionChars \<Longrightarrow> used + int (length (concat (map injectionLine (select_from used items)))) \<le> maxInjectionChars"
proof (induction items arbitrary: used)
  case (Cons i items)
  let ?l = "int (length (injectionLine i))" and ?r = "int (length (injectionLine (compact_reference i)))"
  show ?case
    using Cons.prems Cons.IH [of "used + ?l"] Cons.IH [of "used + ?r"] by (auto simp: Let_def)
qed simp

lemma length_concat_filter: "length (concat (map f (filter P xs))) \<le> length (concat (map f xs))"
  by (induction xs) auto

lemma render_selected: "int (length (renderInjection (filter P (selectInjectionItems items)))) \<le> maxInjectionChars"
proof -
  let ?sel = "selectInjectionItems items"
  have "int (length injection_header) \<le> maxInjectionChars" by (simp add: injection_header_def maxInjectionChars_def)
  from select_budget [OF this, of items]
  have "int (length injection_header) + int (length (concat (map injectionLine ?sel))) \<le> maxInjectionChars"
    by (simp add: selectInjectionItems_def)
  moreover have "length (concat (map injectionLine (filter P ?sel))) \<le> length (concat (map injectionLine ?sel))"
    by (rule length_concat_filter)
  ultimately show ?thesis by (simp add: renderInjection_def maxInjectionChars_def)
qed

lemma item_key_reference [simp]: "item_key (compact_reference i) = item_key i"
  by (simp add: item_key_def compact_reference_def)

lemma select_keys: "\<exists>n. map item_key (select_from used items) = take n (map item_key items)"
proof (induction used items rule: select_from.induct)
  case (2 used i items)
  have keep: "\<exists>n. item_key i # map item_key rest = take n (map item_key (i # items))"
    if "\<exists>n. map item_key rest = take n (map item_key items)" for rest
    using that by (metis list.simps(9) take_Suc_Cons)
  show ?case
    using 2 keep [of "select_from (used + int (length (injectionLine i))) items"]
      keep [of "select_from (used + int (length (injectionLine (compact_reference i)))) items"]
    by (auto simp: Let_def intro: exI [of _ 0])
qed simp

lemma selected_subset: "item_key ` set (selectInjectionItems items) \<subseteq> item_key ` set items"
proof -
  obtain n where "map item_key (selectInjectionItems items) = take n (map item_key items)"
    using select_keys unfolding selectInjectionItems_def by blast
  then have "set (map item_key (selectInjectionItems items)) \<subseteq> set (map item_key items)" by (metis set_take_subset)
  then show ?thesis by simp
qed

lemma renderInjection_Nil [simp]: "renderInjection items = [] \<longleftrightarrow> items = []"
  by (simp add: renderInjection_def injection_header_def)

section \<open>Delivering\<close>

text \<open>
  An injection \<open>r\<close> for a session hands out exactly the items \<open>new\<close>, which the session did not have
  before and has now.
\<close>

definition hands_out :: "string \<Rightarrow> injection_item set \<Rightarrow> injection_result \<Rightarrow> db \<Rightarrow> db \<Rightarrow> bool" where
  "hands_out session new r d d' \<longleftrightarrow>
     delivered d' = delivered d \<union> Pair session ` new \<and> Pair session ` new \<inter> delivered d = {}
     \<and> set (ar_item_ids r) = ii_id ` new \<and> (ar_context r = [] \<longleftrightarrow> new = {})
     \<and> int (length (ar_context r)) \<le> maxInjectionChars"

lemma hands_out_nothing: "delivered d' = delivered d \<Longrightarrow> hands_out session {} no_injection d d'"
  by (simp add: hands_out_def no_injection_def maxInjectionChars_def)

lemma undelivered_spec:
  assumes "UndeliveredInjectionItems session items d = Inr u"
  shows "u = filter (\<lambda>i. (session, i) \<notin> delivered d) items"
  using assms undelivered_items_spec [of session "injection_deliveries d" items "[]" u]
  by (simp add: UndeliveredInjectionItems_def delivered_def split: if_splits)

lemma waiting_subset:
  "item_key ` set (waiting_items midTurn u items) \<subseteq> set u"
  "set (waiting_items midTurn u items) \<subseteq> {i \<in> set items. midTurn \<longrightarrow> bi_advisory_action i = ''coordination_required''}"
  unfolding waiting_items_def set_filter by blast+

lemma claimed_spec:
  assumes u: "UndeliveredInjectionItems session keys d = Inr undelivered"
    and c: "ClaimInjectionDeliveries session (map item_key selected) now d = Inr (claimed, d1)"
    and sub: "item_key ` set selected \<subseteq> set undelivered"
  shows "set claimed = item_key ` set selected" and "delivered d1 = delivered d \<union> Pair session ` (item_key ` set selected)"
    and "Pair session ` (item_key ` set selected) \<inter> delivered d = {}" and "claimed = [] \<longleftrightarrow> selected = []"
    and "filter (\<lambda>i. item_key i \<in> set claimed) selected = selected"
proof -
  let ?new = "item_key ` set selected"
  have fresh: "\<forall>k \<in> ?new. (session, k) \<notin> delivered d" using sub unfolding undelivered_spec [OF u] set_filter by blast
  then show claimed: "set claimed = ?new" using claim_spec(2) [OF c] unfolding list.set_map by blast
  show "delivered d1 = delivered d \<union> Pair session ` ?new" using claim_spec(3) [OF c] unfolding list.set_map .
  show "Pair session ` ?new \<inter> delivered d = {}" using fresh by blast
  show "claimed = [] \<longleftrightarrow> selected = []" using claimed by (metis image_is_empty set_empty)
  show "filter (\<lambda>i. item_key i \<in> set claimed) selected = selected" unfolding claimed by (simp add: filter_id_conv)
qed

lemma deliver_items_spec:
  assumes "deliver_items session midTurn expired now items d = (r, d')"
  shows "\<exists>new. hands_out session new r d d'
    \<and> new \<subseteq> item_key ` {i \<in> set items. midTurn \<longrightarrow> bi_advisory_action i = ''coordination_required''}"
proof (cases "UndeliveredInjectionItems session (map item_key items) d")
  case (Inl e)
  then show ?thesis using assms hands_out_nothing [of d d] by (auto simp: deliver_items_def)
next
  case u: (Inr undelivered)
  let ?selected = "selectInjectionItems (waiting_items midTurn undelivered items)"
  let ?new = "item_key ` set ?selected"
  show ?thesis
  proof (cases "undelivered = [] \<or> expired \<or> (\<exists>e. ClaimInjectionDeliveries session (map item_key ?selected) now d = Inl e)")
    case True
    then have "r = no_injection \<and> d' = d"
      using assms unfolding deliver_items_def u Let_def by (auto split: if_splits)
    then show ?thesis using hands_out_nothing [of d d] by blast
  next
    case False
    then obtain claimed d1 where c: "ClaimInjectionDeliveries session (map item_key ?selected) now d = Inr (claimed, d1)"
      by (cases "ClaimInjectionDeliveries session (map item_key ?selected) now d") auto
    have sub: "?new \<subseteq> item_key ` set (waiting_items midTurn undelivered items)" by (rule selected_subset)
    note spec = claimed_spec [OF u c subset_trans [OF sub waiting_subset(1)]]
    have d': "d' = d1" and r: "r = (if ?selected = [] then no_injection
        else \<lparr>ar_context = renderInjection ?selected, ar_item_ids = map bi_id ?selected\<rparr>)"
      using assms False unfolding deliver_items_def u Let_def by (simp_all add: c spec(4,5) split: if_splits)
    have "ii_id ` ?new = set (map bi_id ?selected)" by (simp add: item_key_def image_image)
    moreover have "int (length (renderInjection ?selected)) \<le> maxInjectionChars"
      using render_selected [of "\<lambda>_. True" "waiting_items midTurn undelivered items"] by simp
    ultimately have "hands_out session ?new r d d1"
      unfolding hands_out_def r using spec(2,3) by (simp add: no_injection_def maxInjectionChars_def)
    moreover have "?new \<subseteq> item_key ` {i \<in> set items. midTurn \<longrightarrow> bi_advisory_action i = ''coordination_required''}"
      using sub image_mono [OF waiting_subset(2)] by (rule subset_trans)
    ultimately show ?thesis using d' by blast
  qed
qed

lemma senderForWorkspace_state: "senderForWorkspace f w s = (res, s1) \<Longrightarrow> only_senders s s1"
  by (auto simp: senderForWorkspace_def senderFor_def only_senders_def split: option.splits if_splits sum.splits)

text \<open>An injection either ends before anything is claimed or delivers the items of a brief to a session that is not in focus.\<close>

definition session_in :: "ipc_request \<Rightarrow> config_workspace \<Rightarrow> string" where
  "session_in q w = PublishedWorkstreamID (ir_agent_workstream_id q) (cw_project_id w) (cw_id w)"

text \<open>The backend of the repository answered the request for this session's brief with these items.\<close>

definition briefed :: "sender_factory option \<Rightarrow> server \<Rightarrow> string \<Rightarrow> config_workspace \<Rightarrow> brief_item list \<Rightarrow> service \<Rightarrow> bool" where
  "briefed new_sender srv session w items s \<longleftrightarrow> (\<exists>c brief w'. fst (senderForWorkspace new_sender w s) = Some c
     \<and> CreateBrief srv c session ''refresh'' [] injectionBudget (sv_wire s) = (Inr brief, w') \<and> br_items brief = items)"

lemma briefed_mid_turn [simp]:
  "briefed new_sender srv session w items (s\<lparr>sv_mid_turn := m\<rparr>) = briefed new_sender srv session w items s"
proof -
  have "fst (senderForWorkspace new_sender w (s\<lparr>sv_mid_turn := m\<rparr>)) = fst (senderForWorkspace new_sender w s)"
    by (simp add: senderForWorkspace_def senderFor_def split: option.splits sum.splits)
  then show ?thesis by (simp add: briefed_def)
qed

lemma claimMidTurnFetch_state:
  "claimMidTurnFetch ws now s = (go, s1) \<Longrightarrow> sv_db s1 = sv_db s \<and> sv_config s1 = sv_config s \<and> sv_wire s1 = sv_wire s
    \<and> briefed new_sender srv session w items s1 = briefed new_sender srv session w items s
    \<and> (go \<longrightarrow> (\<forall>t. sv_mid_turn s ws = Some t \<longrightarrow> midTurnWindow \<le> now - t))"
  by (auto simp: claimMidTurnFetch_def Let_def split: option.splits if_splits)

lemma inject_session_cases:
  assumes call: "inject_session new_sender srv fs clock expired q s = (r, s')"
  shows "(r = no_injection \<and> sv_db s' = sv_db s)
    \<or> (\<exists>p w items. workspaceForAnyRoot fs (sv_config s) (ir_agent_cwd q) (ir_agent_candidate_roots q) = Some (p, w)
        \<and> briefed new_sender srv (session_in q w) w items s
        \<and> \<not> snd (FocusedUntil (session_in q w) (clock 1) (sv_db s))
        \<and> deliver_items (session_in q w) (ir_agent_event q = ''PostToolUse'') expired (clock 2) items (sv_db s) = (r, sv_db s'))"
proof (cases "workspaceForAnyRoot fs (sv_config s) (ir_agent_cwd q) (ir_agent_candidate_roots q)")
  case None
  with call show ?thesis by (simp add: inject_session_def split: if_splits)
next
  case (Some pw)
  obtain p w where pw: "pw = (p, w)" by fastforce
  obtain res s1 where sender: "senderForWorkspace new_sender w s = (res, s1)" by fastforce
  have s1: "sv_db s1 = sv_db s" "sv_wire s1 = sv_wire s"
    using senderForWorkspace_state [OF sender] by (simp_all add: only_senders_def)
  note unfold = inject_session_def Some pw session_in_def sender
  show ?thesis
  proof (cases res)
    case None
    then show ?thesis using call s1 by (auto simp: unfold Let_def split: if_splits)
  next
    case c: (Some c)
    obtain b w' where brief: "CreateBrief srv c (session_in q w) ''refresh'' [] injectionBudget (sv_wire s1) = (b, w')" by fastforce
    show ?thesis
    proof (cases b)
      case (Inl e)
      then show ?thesis using call c brief s1 by (auto simp: unfold Let_def split: if_splits)
    next
      case (Inr br)
      obtain r1 d1 where deliver: "deliver_items (session_in q w) (ir_agent_event q = ''PostToolUse'') expired (clock 2) (br_items br) (sv_db s) = (r1, d1)"
        by fastforce
      have "(r = no_injection \<and> sv_db s' = sv_db s) \<or> (\<not> snd (FocusedUntil (session_in q w) (clock 1) (sv_db s)) \<and> r = r1 \<and> sv_db s' = d1)"
        using call c brief Inr deliver s1 by (auto simp: unfold Let_def split: if_splits)
      moreover have "briefed new_sender srv (session_in q w) w (br_items br) s"
        using c brief Inr s1 by (auto simp: briefed_def sender)
      ultimately show ?thesis using Some pw deliver by auto
    qed
  qed
qed

lemma injection_cases:
  assumes call: "handleAgentInjection new_sender srv fs clock expired q s = (r, s')"
  shows "(r = no_injection \<and> sv_db s' = sv_db s)
    \<or> (\<exists>p w items. workspaceForAnyRoot fs (sv_config s) (ir_agent_cwd q) (ir_agent_candidate_roots q) = Some (p, w)
        \<and> briefed new_sender srv (session_in q w) w items s
        \<and> \<not> snd (FocusedUntil (session_in q w) (clock 1) (sv_db s))
        \<and> (ir_agent_event q = ''PostToolUse'' \<longrightarrow> (\<forall>t. sv_mid_turn s (ir_agent_workstream_id q) = Some t \<longrightarrow> midTurnWindow \<le> clock 0 - t))
        \<and> deliver_items (session_in q w) (ir_agent_event q = ''PostToolUse'') expired (clock 2) items (sv_db s) = (r, sv_db s'))"
proof -
  obtain go s1 where claim: "claimMidTurnFetch (ir_agent_workstream_id q) (clock 0) s = (go, s1)" by fastforce
  note s1 = claimMidTurnFetch_state [OF claim]
  consider "r = no_injection" "sv_db s' = sv_db s"
    | "ir_agent_event q = ''PostToolUse''" "go" "inject_session new_sender srv fs clock expired q s1 = (r, s')"
    | "ir_agent_event q \<noteq> ''PostToolUse''" "inject_session new_sender srv fs clock expired q s = (r, s')"
    using call s1 by (cases go) (auto simp: handleAgentInjection_def Let_def claim split: if_splits)
  then show ?thesis
  proof cases
    case 2
    from inject_session_cases [OF 2(3)] s1 2(2) show ?thesis by auto
  next
    case 3
    from inject_session_cases [OF 3(2)] 3(1) show ?thesis by auto
  qed simp
qed

text \<open>C19. An injection into a turn tells a session at most 3200 bytes. The items it names are exactly the
  ones it records as delivered to that session, none of which the session had been given before,
  and it records none without naming it; all of them are items of the brief the backend of the
  repository answered with for this session. A session in focus is told nothing and nothing is taken
  from what waits for it; in the middle of a turn only items that require coordination are taken,
  and at most once every 20 seconds.\<close>

theorem injection_delivers_what_it_claims:
  assumes call: "handleAgentInjection new_sender srv fs clock expired q s = (r, s')"
  shows "\<exists>session new. hands_out session new r (sv_db s) (sv_db s')
    \<and> (new \<noteq> {} \<longrightarrow> (\<exists>p w items. workspaceForAnyRoot fs (sv_config s) (ir_agent_cwd q) (ir_agent_candidate_roots q) = Some (p, w)
        \<and> session = session_in q w \<and> \<not> snd (FocusedUntil session (clock 1) (sv_db s))
        \<and> briefed new_sender srv session w items s \<and> new \<subseteq> item_key ` set items
        \<and> (ir_agent_event q = ''PostToolUse'' \<longrightarrow>
             (\<forall>t. sv_mid_turn s (ir_agent_workstream_id q) = Some t \<longrightarrow> 20 * second_ns \<le> clock 0 - t)
           \<and> new \<subseteq> item_key ` {i \<in> set items. bi_advisory_action i = ''coordination_required''})))"
proof -
  from injection_cases [OF call] consider "r = no_injection" "sv_db s' = sv_db s"
    | p w items where "workspaceForAnyRoot fs (sv_config s) (ir_agent_cwd q) (ir_agent_candidate_roots q) = Some (p, w)"
        "briefed new_sender srv (session_in q w) w items s"
        "\<not> snd (FocusedUntil (session_in q w) (clock 1) (sv_db s))"
        "ir_agent_event q = ''PostToolUse'' \<longrightarrow> (\<forall>t. sv_mid_turn s (ir_agent_workstream_id q) = Some t \<longrightarrow> midTurnWindow \<le> clock 0 - t)"
        "deliver_items (session_in q w) (ir_agent_event q = ''PostToolUse'') expired (clock 2) items (sv_db s) = (r, sv_db s')"
    by blast
  then show ?thesis
  proof cases
    case 1
    then show ?thesis using hands_out_nothing [of "sv_db s'" "sv_db s"] by auto
  next
    case (2 p w items)
    from deliver_items_spec [OF 2(5)] obtain new where new: "hands_out (session_in q w) new r (sv_db s) (sv_db s')"
      "new \<subseteq> item_key ` {i \<in> set items. ir_agent_event q = ''PostToolUse'' \<longrightarrow> bi_advisory_action i = ''coordination_required''}" by blast
    have "new \<subseteq> item_key ` set items" using new(2) by blast
    with new 2(1-4) show ?thesis by (intro exI [of _ "session_in q w"] exI [of _ new]) (auto simp: midTurnWindow_def)
  qed
qed

definition blank_request :: ipc_request where
  "blank_request = \<lparr>ir_method = [], ir_workspace_id = [], ir_project_id = [], ir_workstream_id = [], ir_member_id = [],
     ir_session_id = [], ir_root = [], ir_api_base_url = [], ir_device_id = [], ir_title = [], ir_intended_outcome = [],
     ir_approach_summary = [], ir_components = [], ir_contracts = [], ir_waiting_on = None, ir_anticipated_paths = [],
     ir_plan_item_ids = [], ir_idempotency_key = [], ir_trigger = [], ir_since_cursor = [], ir_checkpoint_id = [],
     ir_brief_id = [], ir_kind = [], ir_summary = [], ir_outcome = [], ir_revision = 0, ir_manifest_revision = 0,
     ir_token_budget = 0, ir_discoveries = [], ir_considered_item_ids = [], ir_verification = [], ir_agent_vendor = [],
     ir_agent_cwd = [], ir_agent_workstream_id = [], ir_agent_session_alias = [], ir_agent_event = [], ir_agent_status = [],
     ir_agent_action = [], ir_agent_tool = [], ir_agent_type = [], ir_agent_subagent_alias = [], ir_agent_paths = [],
     ir_agent_candidate_roots = [], ir_agent_session_title = [], ir_agent_transcript_path = [], ir_agent_vendor_session_id = [],
     ir_since_revision = 0, ir_focus_seconds = 0\<rparr>"

definition sample_resolver :: resolver where
  "sample_resolver = \<lparr>rv_wd = ''/'', rv_eval = Some\<rparr>"

definition sample_hook :: ipc_request where
  "sample_hook = blank_request\<lparr>ir_agent_vendor := ''claude'', ir_agent_event := ''SessionStart'', ir_agent_cwd := ''/repo'',
     ir_agent_workstream_id := ''wrk_agent_1''\<rparr>"

lemma sample_resolves: "workspaceForAnyRoot sample_resolver sample_config ''/repo'' [] = Some (''/repo'', hd (cf_workspaces sample_config))"
  by code_simp

theorem injection_delivers_what_it_claims_witness:
  "\<exists>r s'. handleAgentInjection (Some sample_factory) accepting sample_resolver (\<lambda>_. 0) False sample_hook
      (sample_service\<lparr>sv_db := sample_db\<lparr>session_focus := [\<lparr>fo_session_key = session_in sample_hook (hd (cf_workspaces sample_config)),
         fo_until = 1, fo_created_at = 0\<rparr>]\<rparr>\<rparr>) = (r, s')
    \<and> ar_context r = [] \<and> delivered (sv_db s') = {}"
proof -
  let ?session = "session_in sample_hook (hd (cf_workspaces sample_config))"
  let ?d = "sample_db\<lparr>session_focus := [\<lparr>fo_session_key = ?session, fo_until = 1, fo_created_at = 0\<rparr>]\<rparr>"
  let ?s = "sample_service\<lparr>sv_db := ?d\<rparr>"
  obtain r s' where call: "handleAgentInjection (Some sample_factory) accepting sample_resolver (\<lambda>_. 0) False sample_hook ?s = (r, s')"
    by fastforce
  have found: "workspaceForAnyRoot sample_resolver (sv_config ?s) (ir_agent_cwd sample_hook) (ir_agent_candidate_roots sample_hook) =
      Some (''/repo'', hd (cf_workspaces sample_config))"
    using sample_resolves by (simp add: sample_service_def sample_hook_def blank_request_def)
  have "?session \<noteq> []" by (simp add: session_in_def PublishedWorkstreamID_def)
  then have focused: "snd (FocusedUntil ?session 0 (sv_db ?s))"
    by (simp add: FocusedUntil_def t_get_def of_unix_milli_def millisecond_ns_def)
  from injection_delivers_what_it_claims [OF call] found focused obtain session
    where "hands_out session {} r ?d (sv_db s')" by fastforce
  then show ?thesis using call by (auto simp: hands_out_def delivered_def sample_db_def empty_db_def)
qed

section \<open>The repository of a directory\<close>

definition deepest :: "string \<Rightarrow> config_workspace set \<Rightarrow> config_workspace \<Rightarrow> bool" where
  "deepest p ws w \<longleftrightarrow> w \<in> ws \<and> under (cw_root w) p
     \<and> (\<forall>k \<in> ws. under (cw_root k) p \<longrightarrow> length (cw_root k) \<le> length (cw_root w))"

lemma better_root_fold:
  assumes "\<forall>w \<in> set ws. cw_root w \<noteq> []"
  shows "case fold (better_root p) ws None of
      None \<Rightarrow> \<forall>w \<in> set ws. \<not> under (cw_root w) p
    | Some w \<Rightarrow> deepest p (set ws) w"
  using assms
proof (induction ws rule: rev_induct)
  case (snoc w ws)
  let ?sel = "fold (better_root p) ws None"
  have step: "fold (better_root p) (ws @ [w]) None = better_root p w ?sel" by simp
  show ?case
  proof (cases ?sel)
    case None
    then have none: "\<forall>k \<in> set ws. \<not> under (cw_root k) p" using snoc by simp
    show ?thesis unfolding step None using none by (simp add: better_root_def rel_inside_None deepest_def)
  next
    case (Some k)
    then have k: "deepest p (set ws) k" using snoc by simp
    then have "cw_root k \<noteq> []" using snoc.prems unfolding deepest_def by simp
    with k show ?thesis
      unfolding step Some deepest_def by (simp add: better_root_def rel_inside_None) (meson le_trans less_imp_le not_le)
  qed
qed simp

text \<open>A working directory is attributed to the registered repository whose root contains it and is
  deepest, so a repository inside another one is never taken for the outer one, and it is
  attributed to none exactly when no registered root contains it.\<close>

theorem directory_resolves_to_deepest_root:
  assumes "canonicalDirectory fs cwd = Some p" and "\<forall>w \<in> set (cf_workspaces c). cw_root w \<noteq> []"
  shows "(workspaceForCWD fs c cwd = None \<longleftrightarrow> (\<forall>w \<in> set (cf_workspaces c). \<not> under (cw_root w) p))
    \<and> (\<forall>w. workspaceForCWD fs c cwd = Some w \<longrightarrow> w \<in> set (cf_workspaces c) \<and> under (cw_root w) p
        \<and> (\<forall>k \<in> set (cf_workspaces c). under (cw_root k) p \<longrightarrow> length (cw_root k) \<le> length (cw_root w)))"
proof (cases "fold (better_root p) (cf_workspaces c) None")
  case None
  then show ?thesis using better_root_fold [OF assms(2), of p] assms(1) by (simp add: workspaceForCWD_def)
next
  case (Some w)
  then have "deepest p (set (cf_workspaces c)) w" using better_root_fold [OF assms(2), of p] by simp
  moreover from this have "workspaceForCWD fs c cwd = Some w"
    using Some assms unfolding deepest_def by (simp add: workspaceForCWD_def)
  ultimately show ?thesis unfolding deepest_def by auto
qed

theorem directory_resolves_to_deepest_root_witness:
  "workspaceForCWD sample_resolver sample_config ''/repo/src'' \<noteq> None \<and> workspaceForCWD sample_resolver sample_config ''/repository'' = None"
proof -
  have p: "canonicalDirectory sample_resolver ''/repo/src'' = Some ''/repo/src''"
    "canonicalDirectory sample_resolver ''/repository'' = Some ''/repository''" by code_simp+
  have roots: "\<forall>w \<in> set (cf_workspaces sample_config). cw_root w \<noteq> []" by (simp add: sample_config_def)
  show ?thesis
    using directory_resolves_to_deepest_root [OF p(1) roots] directory_resolves_to_deepest_root [OF p(2) roots]
    by (simp add: sample_config_def under_def has_prefix_def)
qed

end
