(* ===== verification/App_Calls.thy ===== *)
theory App_Calls
  imports App_Effects App_Injection
begin

text \<open>
  The effect of every call and loop of the service that leaves the profile as it is: what it does to the
  database is a composition of the store's operations (locale \<open>store_effects\<close>), and the profile and its
  file do not change (\<open>same_profile\<close>).
\<close>

definition profile_of :: "service \<Rightarrow> config \<times> config_file" where
  "profile_of s = (sv_config s, sv_saved s)"

abbreviation same_profile :: "service \<Rightarrow> service \<Rightarrow> bool" where
  "same_profile s s' \<equiv> profile_of s' = profile_of s"

lemma profile_of_simps [simp]:
  "profile_of (s\<lparr>sv_db := d\<rparr>) = profile_of s" "profile_of (s\<lparr>sv_wire := w\<rparr>) = profile_of s"
  "profile_of (s\<lparr>sv_last_error := e\<rparr>) = profile_of s" "profile_of (s\<lparr>sv_scans := k\<rparr>) = profile_of s"
  "profile_of (s\<lparr>sv_scan_cycles := k\<rparr>) = profile_of s" "profile_of (s\<lparr>sv_codex_background := k\<rparr>) = profile_of s"
  "profile_of (s\<lparr>sv_transcripts := m\<rparr>) = profile_of s" "profile_of (s\<lparr>sv_codex_read_failed := f\<rparr>) = profile_of s"
  "profile_of (s\<lparr>sv_mid_turn := m'\<rparr>) = profile_of s" "profile_of (s\<lparr>sv_senders := x\<rparr>) = profile_of s"
  "profile_of (s\<lparr>sv_sender_state := y\<rparr>) = profile_of s"
  by (simp_all add: profile_of_def)

lemma sender_effect:
  "senderForWorkspace f w s = (res, s1) \<Longrightarrow> sv_db s1 = sv_db s \<and> same_profile s s1"
  by (auto simp: senderForWorkspace_def senderFor_def split: option.splits if_splits sum.splits)

section \<open>What only touches the side tables\<close>

lemma core_focus: "handleFocus q now d = (r, d') \<Longrightarrow> same_core d d'"
  by (auto simp: handleFocus_def Let_def SetFocus_def ClearFocus_def same_core_def split: if_splits sum.splits prod.splits)

lemma core_claim: "ClaimInjectionDeliveries key items at d = Inr (claimed, d') \<Longrightarrow> same_core d d'"
  by (auto simp: ClaimInjectionDeliveries_def same_core_def split: if_splits prod.splits)

lemma core_deliver: "deliver_items session mid expired at items d = (r, d') \<Longrightarrow> same_core d d'"
  by (auto simp: deliver_items_def Let_def same_core_def dest!: core_claim split: if_splits sum.splits prod.splits)

lemma core_injection: "handleAgentInjection f srv fs clock expired q s = (r, s') \<Longrightarrow> same_core (sv_db s) (sv_db s')"
  by (drule injection_cases) (auto simp: same_core_def dest!: core_deliver)

section \<open>What leaves the profile alone\<close>

lemma noted_same [simp]:
  "profile_of (recordPublishError e s) = profile_of s" "profile_of (recordPublishReason x s) = profile_of s"
  "profile_of (clearPublishError s) = profile_of s" "sv_db (recordPublishError e s) = sv_db s"
  "sv_db (recordPublishReason x s) = sv_db s" "sv_db (clearPublishError s) = sv_db s"
  by (simp_all add: recordPublishError_def recordPublishReason_def clearPublishError_def Let_def)

lemma sender_id_effect: "senderForWorkspaceID f ws s = (res, s1) \<Longrightarrow> sv_db s1 = sv_db s \<and> same_profile s s1"
  by (auto simp: senderForWorkspaceID_def dest!: sender_effect split: option.splits)

lemma inferred_profile: "inferred_reads h q w e published n s = (n', s') \<Longrightarrow> same_profile s s'"
  by (auto simp: inferred_reads_def publishCodexInferredReads_def recordCodexReadRefresh_def Let_def
      split: if_splits option.splits prod.splits)

lemma record_profile: "record_session h w e n s = Inl (r, n', s') \<Longrightarrow> same_profile s s'"
  "record_session h w e n s = Inr (n1, s1) \<Longrightarrow> same_profile s s1"
  by (auto simp: record_session_def split: if_splits option.splits sum.splits)

lemma after_event_profile: "after_event h q w e published t n s = (r, n', s') \<Longrightarrow> same_profile s s'"
  by (auto simp: after_event_def Let_def dest!: record_profile inferred_profile
      split: sum.splits prod.splits)

lemma event_profile: "handleAgentEvent h q n s = (r, n', s') \<Longrightarrow> same_profile s s'"
  by (auto simp: handleAgentEvent_def Let_def rememberTranscript_def dest!: after_event_profile
      split: option.splits sum.splits if_splits)

lemma injection_profile: "handleAgentInjection f srv fs clock expired q s = (r, s') \<Longrightarrow> same_profile s s'"
  by (auto simp: handleAgentInjection_def inject_session_def claimMidTurnFetch_def Let_def dest!: sender_effect
      split: if_splits option.splits prod.splits sum.splits)

lemma collaboration_effect: "handleCollaboration h q s = (r, s') \<Longrightarrow> sv_db s' = sv_db s \<and> same_profile s s'"
  by (auto simp: handleCollaboration_def dest!: sender_effect split: if_splits option.splits sum.splits prod.splits)

lemma health_effect: "health pid lb now s = (j, s') \<Longrightarrow> same_core (sv_db s) (sv_db s') \<and> same_profile s s'"
  by (auto simp: health_def Let_def ActiveFocus_def same_core_def)

lemma core_clear: "ClearAllFocus d = (k, d') \<Longrightarrow> same_core d d'"
  by (auto simp: ClearAllFocus_def same_core_def)

text \<open>The calls that change what the profile holds.\<close>

definition registry_methods :: "string set" where
  "registry_methods = {''add_development_workspace'', ''add_project_workspace'', ''rebind_project_backend'', ''remove_project_workspaces''}"

section \<open>Compositions of the store's operations\<close>

locale store_effects = queue_effects R "\<lambda>_ _. True" for R :: "db \<Rightarrow> db \<Rightarrow> bool" +
  assumes published: "PublishManifest p now d = Inr (revision, d') \<Longrightarrow> R d d'"
    and reported: "PublishLifecycle lq now d = Inr (revision, duplicate, d') \<Longrightarrow> R d d'"
    and paused: "SetPaused ws p' d = Inr d' \<Longrightarrow> R d d'"
    and project_paused: "SetProjectPaused pr p' d = Inr (k, d') \<Longrightarrow> R d d'"
    and acked: "Ack eid now d = Inr d' \<Longrightarrow> R d d'"
    and quarantined: "R d (Quarantine eid now d)"
begin

lemma contracts_effect: "R d (snd (publishContractFingerprints amb ex disk w es n d))"
  unfolding publishContractFingerprints_def Let_def by (rule files_effect) (rule TrueI)

lemma publish_scan_effect: "publish_scan amb ex disk w m h n s = (n', s') \<Longrightarrow> R (sv_db s) (sv_db s') \<and> same_profile s s'"
proof -
  assume run: "publish_scan amb ex disk w m h n s = (n', s')"
  let ?p = "\<lparr>mp_workspace_id = cw_id w, mp_manifest_id = newID amb n ''mft_'', mp_baseline = gm_baseline m,
    mp_head = gm_head m, mp_hash = h, mp_event_id = newID amb (n + 1) ''evt_'', mp_entries = map entry_json (gm_entries m)\<rparr>"
  show ?thesis
  proof (cases "PublishManifest ?p (wo_now amb n) (sv_db s)")
    case (Inl e)
    with run show ?thesis by (simp add: publish_scan_def keep)
  next
    case (Inr rd)
    obtain revision d1 where rd: "rd = (revision, d1)" by (cases rd)
    obtain n2 d2 where fp: "publishContractFingerprints amb ex disk w (gm_entries m) (n + 2) d1 = (n2, d2)" by (metis surj_pair)
    have "R (sv_db s) d2"
      using chain [OF published [OF Inr [unfolded rd]] contracts_effect [of d1 amb ex disk w "gm_entries m" "n + 2"]] fp by simp
    with run Inr rd fp show ?thesis by (auto simp: publish_scan_def)
  qed
qed

lemma scan_effect: "scan_workspace amb ex disk git eval w (n, s) = (n', s') \<Longrightarrow> R (sv_db s) (sv_db s') \<and> same_profile s s'"
  by (auto simp: scan_workspace_def keep dest: publish_scan_effect split: sum.splits prod.splits if_splits store_error.splits)

lemma scans_effect:
  "fold (scan_workspace amb ex disk git eval) ws (n, s) = (n', s') \<Longrightarrow> R (sv_db s) (sv_db s') \<and> same_profile s s'"
proof (induction ws arbitrary: n s)
  case Nil
  then show ?case by (simp add: keep)
next
  case (Cons w ws)
  obtain n1 s1 where one: "scan_workspace amb ex disk git eval w (n, s) = (n1, s1)" by (metis surj_pair)
  from scan_effect [OF one] Cons.IH [of n1 s1] Cons.prems one chain show ?case by auto
qed

lemma scanAll_effect: "scanAll amb ex disk git eval n s = (n', s') \<Longrightarrow> R (sv_db s) (sv_db s') \<and> same_profile s s'"
  by (auto simp: scanAll_def Let_def dest!: scans_effect split: prod.splits)

lemma brief_effect: "fetch_brief h w stream trigger q r s = (r', s') \<Longrightarrow> sv_db s' = sv_db s \<and> same_profile s s'"
  by (auto simp: fetch_brief_def Let_def dest!: sender_effect split: if_splits option.splits sum.splits prod.splits)

lemma lifecycle_effect: "handleLifecycle h q n s = (r, n', s') \<Longrightarrow> R (sv_db s) (sv_db s') \<and> same_profile s s'"
  by (auto simp: handleLifecycle_def Let_def keep dest!: reported read_set_moves brief_effect
      split: if_splits option.splits sum.splits prod.splits intro: chain)

lemma intent_effect: "handle_intent h q n s = (r, n', s') \<Longrightarrow> R (sv_db s) (sv_db s') \<and> same_profile s s'"
  by (auto simp: handle_intent_def Let_def keep dest!: queued split: if_splits option.splits sum.splits)

lemma pause_effect: "handle_pause q s = (r, s') \<Longrightarrow> R (sv_db s) (sv_db s') \<and> same_profile s s'"
  by (auto simp: handle_pause_def Let_def keep dest!: paused project_paused split: if_splits sum.splits prod.splits)

lemma retry_effect:
  "retryIndividually send clock ws window s = (err, s') \<Longrightarrow> R (sv_db s) (sv_db s') \<and> same_profile s s'"
proof (induction window arbitrary: s)
  case Nil
  then show ?case by (simp add: keep)
next
  case (Cons q window)
  show ?case
    using Cons.prems
    by (auto simp: Let_def keep dest!: Cons.IH acked split: sum.splits prod.splits option.splits if_splits
        intro: chain [OF quarantined]) (meson chain)+
qed

lemma ack_window_effect: "ack_window clock window d = (err, d') \<Longrightarrow> R d d'"
proof (induction window arbitrary: d)
  case Nil
  then show ?case by (simp add: keep)
next
  case (Cons q window)
  then show ?case by (auto simp: keep dest!: acked split: sum.splits) (meson chain)
qed

lemma drain_effect:
  "drain send clock ws events quarantined s = (out, s') \<Longrightarrow> R (sv_db s) (sv_db s') \<and> same_profile s s'"
proof (induction send clock ws events quarantined s rule: drain.induct)
  case (1 send clock ws events quarantined s)
  show ?case
  proof (cases "events = []")
    case True
    with 1(3) show ?thesis by (subst (asm) drain.simps) (simp add: keep)
  next
    case False
    show ?thesis
    proof (cases "Batch (take 100 events)")
      case (Inl e)
      with False 1(3) show ?thesis by (subst (asm) drain.simps) (auto simp: keep)
    next
      case (Inr batch)
      obtain err w' where sent: "send ws batch (sv_wire s) = (err, w')" by fastforce
      obtain err1 s1 where retry: "retryIndividually send clock ws (take 100 events) (s\<lparr>sv_wire := w'\<rparr>) = (err1, s1)" by fastforce
      obtain err2 d where ack: "ack_window clock (take 100 events) (sv_db s) = (err2, d)" by fastforce
      show ?thesis
      proof (cases err)
        case None
        show ?thesis
        proof (cases err2)
          case (Some e)
          with None False Inr sent ack 1(3) ack_window_effect [OF ack] show ?thesis by (subst (asm) drain.simps) auto
        next
          case None2: None
          have "drain send clock ws (drop 100 events) quarantined (s\<lparr>sv_wire := w', sv_db := d\<rparr>) = (out, s')"
            using None None2 False Inr sent ack 1(3) by (subst (asm) drain.simps) simp
          from 1(1) [OF False refl refl Inr refl sent [symmetric] refl None _ None2 this] ack
          show ?thesis using ack_window_effect [OF ack] chain by auto
        qed
      next
        case (Some e)
        show ?thesis
        proof (cases "permanentRejection e \<and> err1 = None")
          case True
          have "drain send clock ws (drop 100 events) True s1 = (out, s')"
            using True Some False Inr sent retry 1(3) by (subst (asm) drain.simps) simp
          from 1(2) [OF False refl refl Inr refl sent [symmetric] refl Some _ retry [symmetric] _ this] True
          show ?thesis using retry_effect [OF retry] chain by auto
        next
          case stop: False
          with Some False Inr sent retry 1(3) retry_effect [OF retry] show ?thesis
            by (subst (asm) drain.simps) (auto simp: keep Let_def split: if_splits option.splits)
        qed
      qed
    qed
  qed
qed

lemma flush_groups_effect:
  "flush_groups f send_of clock backendOf groups order failed hq s = (out, s') \<Longrightarrow> R (sv_db s) (sv_db s') \<and> same_profile s s'"
proof (induction f send_of clock backendOf groups order failed hq s rule: flush_groups.induct)
  case (1 f send_of clock backendOf groups failed hq s)
  then show ?case by (simp add: keep)
next
  case (2 f send_of clock backendOf groups ws order failed healthy quarantined s)
  show ?case
  proof (cases "backendOf ws \<in> failed")
    case True
    with 2(1,5) show ?thesis by simp
  next
    case False
    obtain res s1 where sender: "senderForWorkspaceID f ws s = (res, s1)" by fastforce
    note s1 = sender_id_effect [OF sender]
    show ?thesis
    proof (cases res)
      case None
      with 2(2) [OF False sender [symmetric] None] 2(5) False sender s1 show ?thesis by simp
    next
      case (Some c)
      obtain o2 s2 where run: "drain (send_of c) clock ws (groups ws) quarantined s1 = (o2, s2)" by fastforce
      note s2 = drain_effect [OF run]
      show ?thesis
      proof (cases o2)
        case (Drained q)
        with 2(3) [OF False sender [symmetric] Some run [symmetric] Drained] 2(5) False sender Some run s1 s2 chain show ?thesis by auto
      next
        case (BackendFailed q)
        with 2(4) [OF False sender [symmetric] Some run [symmetric] BackendFailed] 2(5) False sender Some run s1 s2 chain show ?thesis by auto
      next
        case Abort
        with 2(5) False sender Some run s1 s2 show ?thesis by simp
      qed
    qed
  qed
qed

lemma flush_effect: "flush f srv clock s = (ok, s') \<Longrightarrow> R (sv_db s) (sv_db s') \<and> same_profile s s'"
  by (auto simp: flush_def Let_def keep dest!: flush_groups_effect split: if_splits option.splits prod.splits)

lemma heartbeats_effect: "sv_db (sendHeartbeats f srv s) = sv_db s \<and> same_profile s (sendHeartbeats f srv s)"
proof -
  have "sv_db (fold g ws s) = sv_db s \<and> same_profile s (fold g ws s)"
    if "\<And>w s. sv_db (g w s) = sv_db s \<and> same_profile s (g w s)" for g :: "workspace \<Rightarrow> service \<Rightarrow> service" and ws s
    using that by (induction ws arbitrary: s) simp_all
  then show ?thesis unfolding sendHeartbeats_def
    by (rule) (auto dest!: sender_id_effect split: option.splits prod.splits)
qed

lemma event_call: "handleAgentEvent h q n s = (r, n', s') \<Longrightarrow> R (sv_db s) (sv_db s') \<and> same_profile s s'"
  using event_effect event_profile by blast

lemma injection_call: "handleAgentInjection f srv fs clock expired q s = (r, s') \<Longrightarrow> R (sv_db s) (sv_db s') \<and> same_profile s s'"
  using aside [OF core_injection] injection_profile by blast

lemma handle_effect:
  assumes "handle h rg lb pid expired q n s = (r, n', s')" and "ir_method q \<notin> registry_methods"
  shows "R (sv_db s) (sv_db s') \<and> same_profile s s'"
  using assms
  by (auto simp: handle_def Let_def registry_methods_def keep
      dest!: health_effect core_focus core_clear collaboration_effect pause_effect intent_effect lifecycle_effect scanAll_effect
        event_call injection_call
      intro: aside split: if_splits option.splits prod.splits sum.splits)

end

end
