(* ===== verification/App_Machine.thy ===== *)
theory App_Machine
  imports App_Calls App_Hooks
begin

text \<open>
  The service as a state machine: it is stopped, with its profile and its database on disk, or running, and
  any call, pass of the publish loop, heartbeat, crash and restart is a step. The invariant ties the
  profile to the database: every registered repository has its row, under its own root, and the database
  is the one the store's invariant describes.
\<close>

section \<open>What a call keeps of the database\<close>

definition rows_of :: "db \<Rightarrow> (string \<times> string) set" where
  "rows_of d = (\<lambda>r. (w_id r, w_root r)) ` set (workspaces d)"

definition used_ids :: "db \<Rightarrow> string set" where
  "used_ids d = e_workspace_id ` set (event_queue d) \<union> m_workspace_id ` set (manifests d) \<union> c_workspace_id ` set (cursors d)"

definition keeps_rows :: "db \<Rightarrow> db \<Rightarrow> bool" where
  "keeps_rows d d' \<longleftrightarrow> (store_ok d \<longrightarrow> store_ok d') \<and> rows_of d' = rows_of d \<and> used_ids d' \<subseteq> used_ids d \<union> fst ` rows_of d"

lemma fst_rows_of: "fst ` rows_of d = w_id ` set (workspaces d)"
  by (force simp: rows_of_def)

lemma store_ok_core: "same_core d d' \<Longrightarrow> store_ok d' = store_ok d"
  by (simp add: same_core_def store_ok_def queue_ok_def)

lemma image_t_update: "(\<And>x. key (f x) = key x) \<Longrightarrow> key ` set (t_update P f rows) = key ` set rows"
  using map_key_update [of key f P rows] by (simp del: set_t_update flip: set_map)

lemma rows_of_update:
  assumes "workspaces d' = t_update P f (workspaces d)" and "\<And>r. w_id (f r) = w_id r \<and> w_root (f r) = w_root r"
  shows "rows_of d' = rows_of d"
  unfolding rows_of_def assms(1) by (rule image_t_update) (simp add: assms(2))

lemma known_row: "find_workspace ws d = Some w \<Longrightarrow> ws \<in> fst ` rows_of d"
  by (auto simp: fst_rows_of find_workspace_def dest: t_get_SomeD)

lemma produced_ids:
  assumes "appends ws rows d d'"
  shows "e_workspace_id ` set (event_queue d') \<subseteq> e_workspace_id ` set (event_queue d) \<union> fst ` rows_of d"
  using assms known_row by (elim appendsE) (auto simp: list_all_iff)

lemma keeps_rowsI:
  assumes "store_ok d \<Longrightarrow> store_ok d'" and "rows_of d' = rows_of d"
    and "e_workspace_id ` set (event_queue d') \<subseteq> e_workspace_id ` set (event_queue d) \<union> fst ` rows_of d"
    and "m_workspace_id ` set (manifests d') \<subseteq> m_workspace_id ` set (manifests d) \<union> fst ` rows_of d"
    and "c_workspace_id ` set (cursors d') \<subseteq> c_workspace_id ` set (cursors d) \<union> fst ` rows_of d"
  shows "keeps_rows d d'"
  unfolding keeps_rows_def used_ids_def using assms(1,2) by (intro conjI impI Un_least assms(3-5) [THEN order_trans]) auto

lemma keeps_enqueue:
  assumes "EnqueueEvent ws eid source kind payload now d = Inr d'"
  shows "keeps_rows d d'"
proof -
  obtain rows where app: "appends ws rows d d'" using EnqueueEvent_appends [OF assms] by blast
  obtain k where ws: "workspaces d' = t_update (\<lambda>r. w_id r = ws) (\<lambda>r. r\<lparr>w_sequence := k\<rparr>) (workspaces d)"
    and same: "manifests d' = manifests d" "cursors d' = cursors d"
    using assms by (auto simp: EnqueueEvent_def insert_event_Inr update_workspace_def split: option.splits)
  have "rows_of d' = rows_of d" by (rule rows_of_update [OF ws]) simp
  with same produced_ids [OF app] store_ok_enqueue [OF _ assms] show ?thesis by (auto simp: keeps_rows_def used_ids_def)
qed

lemma keeps_manifest:
  assumes "PublishManifest p now d = Inr (revision, d')"
  shows "keeps_rows d d'"
proof -
  obtain rows where app: "appends (mp_workspace_id p) rows d d'" using PublishManifest_appends [OF assms] by blast
  from assms show ?thesis
  proof (cases rule: PublishManifest_call)
    case (1 w d1 d2)
    have d2: "workspaces d2 = workspaces d" "manifests d2 = manifests d1" "cursors d2 = cursors d"
      using insert_events_Inr [OF 1(6)] 1(4) by simp_all
    have ws: "workspaces d' = t_update (\<lambda>r. w_id r = mp_workspace_id p) (\<lambda>r. r\<lparr>w_revision := revision,
        w_sequence := w_sequence w + int (length (manifest_events p (w_workstream_id w) revision))\<rparr>) (workspaces d)"
      and same: "manifests d' = manifests d1" "cursors d' = cursors d"
      using 1(7) d2 by (simp_all add: update_workspace_def)
    have "rows_of d' = rows_of d" by (rule rows_of_update [OF ws]) simp
    moreover have "m_workspace_id ` set (manifests d1) = insert (mp_workspace_id p) (m_workspace_id ` set (manifests d))"
      unfolding 1(4) by (simp add: image_t_update del: set_t_update)
    then have "m_workspace_id ` set (manifests d') \<subseteq> m_workspace_id ` set (manifests d) \<union> fst ` rows_of d"
      using known_row [OF 1(1)] unfolding same by simp
    ultimately show ?thesis
      using same(2) produced_ids [OF app] store_ok_manifest [OF _ assms] by (intro keeps_rowsI) simp_all
  qed
qed

lemma keeps_lifecycle:
  assumes "PublishLifecycle p now d = Inr (revision, duplicate, d')"
  shows "keeps_rows d d'"
proof -
  consider "d' = d" | "publish_lifecycle_new p now d = Inr (revision, duplicate, d')"
    using assms by (auto simp: PublishLifecycle_def split: if_splits option.splits)
  then show ?thesis
  proof cases
    case 2
    obtain rows where app: "appends (lp_workspace_id p) rows d d'" using publish_lifecycle_new_appends [OF 2] by blast
    from 2 show ?thesis
    proof (cases rule: publish_lifecycle_new_call)
      case (1 w d1)
      have "workspaces d1 = workspaces d" "manifests d1 = manifests d" "cursors d1 = cursors d"
        using insert_events_Inr [OF 1(4)] by simp_all
      moreover have "rows_of d' = rows_of d"
        by (rule rows_of_update [where P = "\<lambda>r. w_id r = lp_workspace_id p" and f = "\<lambda>r. r\<lparr>w_sequence := w_sequence w +
            int (length (lifecycle_events p)), w_intent_revision := revision\<rparr>"])
          (use 1(6) calculation in \<open>simp_all add: update_workspace_def\<close>)
      ultimately have "rows_of d' = rows_of d" "manifests d' = manifests d" "cursors d' = cursors d"
        using 1(6) by (simp_all add: update_workspace_def rows_of_def)
      with produced_ids [OF app] store_ok_lifecycle [OF _ assms] show ?thesis
        by (auto simp: keeps_rows_def used_ids_def)
    qed
  qed (simp add: keeps_rows_def)
qed

lemma keeps_pause:
  assumes "SetPaused ws p d = Inr d'"
  shows "keeps_rows d d'"
proof -
  have d': "d' = d\<lparr>workspaces := t_update (\<lambda>r. w_id r = ws) (\<lambda>r. r\<lparr>w_paused := p\<rparr>) (workspaces d)\<rparr>"
    using assms by (simp add: SetPaused_def update_workspace_def split: if_splits)
  have "rows_of d' = rows_of d"
    by (rule rows_of_update [where P = "\<lambda>r. w_id r = ws" and f = "\<lambda>r. r\<lparr>w_paused := p\<rparr>"]) (simp_all add: d')
  then show ?thesis using store_ok_pause [OF _ assms] by (auto simp: keeps_rows_def used_ids_def d')
qed

lemma keeps_pause_project:
  assumes "SetProjectPaused project p d = Inr (k, d')"
  shows "keeps_rows d d'"
proof -
  have d': "d' = d\<lparr>workspaces := t_update (\<lambda>r. w_project_id r = project) (\<lambda>r. r\<lparr>w_paused := p\<rparr>) (workspaces d)\<rparr>"
    using assms by (simp add: SetProjectPaused_def split: if_splits)
  have "rows_of d' = rows_of d"
    by (rule rows_of_update [where P = "\<lambda>r. w_project_id r = project" and f = "\<lambda>r. r\<lparr>w_paused := p\<rparr>"]) (simp_all add: d')
  then show ?thesis using store_ok_pause_project [OF _ assms] by (auto simp: keeps_rows_def used_ids_def d')
qed

lemma keeps_quarantine: "keeps_rows d (Quarantine eid now d)"
proof -
  have "e_workspace_id ` set (event_queue (Quarantine eid now d)) = e_workspace_id ` set (event_queue d)"
    unfolding Quarantine_def using image_t_update [of e_workspace_id "\<lambda>x. x\<lparr>e_quarantined_at := Some (unix_sec now)\<rparr>"]
    by (simp del: set_t_update)
  then have "used_ids (Quarantine eid now d) = used_ids d" by (simp add: used_ids_def Quarantine_def)
  then show ?thesis using store_ok_quarantine [of d eid now] by (simp add: keeps_rows_def rows_of_def) (simp add: Quarantine_def)
qed

lemma keeps_ack:
  assumes "Ack eid now d = Inr d'"
  shows "keeps_rows d d'"
proof -
  obtain r where r: "r \<in> set (event_queue d)" and d': "d' = d\<lparr>event_queue := t_update (\<lambda>x. e_id x = eid) (\<lambda>x. x\<lparr>e_acked_at := Some (unix_sec now)\<rparr>) (event_queue d),
      cursors := t_upsert c_workspace_id merge_cursor \<lparr>c_workspace_id = e_workspace_id r, c_last_acked_sequence = e_sequence r\<rparr> (cursors d)\<rparr>"
    using assms by (auto simp: Ack_def split: option.splits dest: t_get_SomeD)
  have "c_workspace_id ` set (cursors d') \<subseteq> c_workspace_id ` set (cursors d) \<union> {e_workspace_id r}"
    using cur_tab.keys_upsert unfolding d' by auto
  moreover have "e_workspace_id ` set (event_queue d') = e_workspace_id ` set (event_queue d)"
    unfolding d' using image_t_update [of e_workspace_id "\<lambda>x. x\<lparr>e_acked_at := Some (unix_sec now)\<rparr>"] by (simp del: set_t_update)
  ultimately have "used_ids d' \<subseteq> used_ids d" using r by (auto simp: used_ids_def d')
  then show ?thesis using store_ok_ack [OF _ assms] by (auto simp: keeps_rows_def d' rows_of_def)
qed

interpretation kept: store_effects keeps_rows
proof
  show "keeps_rows d d" for d by (simp add: keeps_rows_def)
  show "keeps_rows d d''" if "keeps_rows d d'" "keeps_rows d' d''" for d d' d'' using that by (auto simp: keeps_rows_def)
  show "keeps_rows d d'" if "same_core d d'" for d d'
    using that store_ok_core [OF that] by (auto simp: keeps_rows_def same_core_def rows_of_def used_ids_def)
qed (simp_all add: keeps_enqueue keeps_manifest keeps_lifecycle keeps_pause keeps_pause_project keeps_ack keeps_quarantine)

section \<open>Enrolling, moving and forgetting\<close>

lemma rows_enrolled:
  "(\<lambda>r. (w_id r, w_root r)) ` set (enrolled w rows) =
     insert (w_id w, w_root w) {x \<in> (\<lambda>r. (w_id r, w_root r)) ` set rows. fst x \<noteq> w_id w \<and> snd x \<noteq> w_root w}" (is "?new = ?old")
proof
  show "?new \<subseteq> ?old"
  proof
    fix x
    assume "x \<in> ?new"
    then obtain r where r: "r \<in> set (enrolled w rows)" "x = (w_id r, w_root r)" by auto
    with enrolled_row [OF r(1)] show "x \<in> ?old" by (cases "w_id r = w_id w") auto
  qed
  have "w_id w \<in> w_id ` set (enrolled w rows)"
    unfolding enrolled_def using wsp_tab.keys_upsert by (metis insertI1 new_workspace_row_sel(1))
  then obtain r where r: "r \<in> set (enrolled w rows)" "w_id r = w_id w" by auto
  have own: "(w_id w, w_root w) \<in> ?new" using enrolled_row(1) [OF r] r by (auto intro!: rev_image_eqI [OF r(1)])
  have "(w_id u, w_root u) \<in> ?new" if "u \<in> set rows" "w_id u \<noteq> w_id w" "w_root u \<noteq> w_root w" for u
    using that by (intro rev_image_eqI [of u]) (auto simp: enrolled_def t_upsert_def image_iff)
  then show "?old \<subseteq> ?new" using own by auto
qed

lemma upsert_ids:
  assumes "UpsertWorkspace w now d = Inr d'"
  shows "rows_of d' = insert (w_id w, w_root w) {x \<in> rows_of d. fst x \<noteq> w_id w \<and> snd x \<noteq> w_root w}"
    and "used_ids d' \<subseteq> insert (w_id w) (used_ids d)"
proof -
  obtain d3 row where up: "UpsertWorkspace w now d = enqueue_registration w now row d3"
    and d3: "workspaces d3 = enrolled w (workspaces d)" "event_queue d3 = event_queue d" "manifests d3 = manifests d"
     "cursors d3 = cursors d"
    using UpsertWorkspace_unfold by blast
  have rows3: "rows_of d3 = insert (w_id w, w_root w) {x \<in> rows_of d. fst x \<noteq> w_id w \<and> snd x \<noteq> w_root w}"
    unfolding rows_of_def d3(1) by (rule rows_enrolled)
  consider "d' = d3"
    | seq row' where "d' = update_workspace (w_id w) (\<lambda>r. r\<lparr>w_registration_enqueued := True, w_sequence := seq\<rparr>)
          (d3\<lparr>event_queue := event_queue d3 @ [row']\<rparr>)" "e_workspace_id row' = w_id w"
    using assms [unfolded up enqueue_registration_Inr Let_def] by (auto split: if_splits)
  then have "rows_of d' = rows_of d3 \<and> used_ids d' \<subseteq> insert (w_id w) (used_ids d3)"
  proof cases
    case (2 seq row')
    have "rows_of d' = rows_of d3"
      by (rule rows_of_update [where P = "\<lambda>r. w_id r = w_id w" and f = "\<lambda>r. r\<lparr>w_registration_enqueued := True, w_sequence := seq\<rparr>"])
        (simp_all add: 2(1) update_workspace_def)
    with 2 show ?thesis by (auto simp: used_ids_def)
  qed auto
  then show "rows_of d' = insert (w_id w, w_root w) {x \<in> rows_of d. fst x \<noteq> w_id w \<and> snd x \<noteq> w_root w}"
    and "used_ids d' \<subseteq> insert (w_id w) (used_ids d)" using rows3 d3(2-4) by (auto simp: used_ids_def)
qed

lemma rebind_ids:
  assumes "RebindWorkspace ws device backend d = Inr d'"
  shows "rows_of d' = rows_of d" and "used_ids d' \<subseteq> used_ids d"
proof -
  have d': "d' = d\<lparr>workspaces := t_update (\<lambda>r. w_id r = ws)
        (\<lambda>r. r\<lparr>w_device_id := device, w_backend_id := backend, w_registration_enqueued := False\<rparr>) (workspaces d),
      event_queue := t_delete (\<lambda>e. e_workspace_id e = ws) (event_queue d), cursors := t_delete (\<lambda>c. c_workspace_id c = ws) (cursors d)\<rparr>"
    using assms by (simp add: RebindWorkspace_def Let_def update_workspace_def split: if_splits)
  show "rows_of d' = rows_of d"
    by (rule rows_of_update [where P = "\<lambda>r. w_id r = ws"
        and f = "\<lambda>r. r\<lparr>w_device_id := device, w_backend_id := backend, w_registration_enqueued := False\<rparr>"]) (simp_all add: d')
  show "used_ids d' \<subseteq> used_ids d" by (auto simp: used_ids_def d')
qed

lemma delete_ids:
  assumes "DeleteWorkspace ws d = Inr d'"
  shows "rows_of d' = {x \<in> rows_of d. fst x \<noteq> ws}" and "used_ids d' \<subseteq> used_ids d"
  using assms by (auto simp: DeleteWorkspace_def rows_of_def used_ids_def split: if_splits)

section \<open>The profile and the database\<close>

text \<open>A registered repository has its row under its root, or its id was never used.\<close>

definition placed :: "db \<Rightarrow> config_workspace \<Rightarrow> bool" where
  "placed d w \<longleftrightarrow> (cw_id w, cw_root w) \<in> rows_of d \<or> cw_id w \<notin> fst ` rows_of d \<union> used_ids d"

definition profile_ok :: "config \<Rightarrow> db \<Rightarrow> bool" where
  "profile_ok c d \<longleftrightarrow> config_ok c \<and> distinct (map cw_id (cf_workspaces c)) \<and> distinct (map cw_root (cf_workspaces c))
     \<and> (\<forall>w \<in> set (cf_workspaces c). placed d w)"

lemma profile_okD:
  assumes "profile_ok c d" and "w \<in> set (cf_workspaces c)"
  shows "placed d w" and "x \<in> set (cf_workspaces c) \<Longrightarrow> cw_id x = cw_id w \<or> cw_root x = cw_root w \<Longrightarrow> x = w"
  using assms by (auto simp: profile_ok_def distinct_map dest: inj_onD)

lemma placed_keeps: "keeps_rows d d' \<Longrightarrow> placed d w \<Longrightarrow> placed d' w"
  by (auto simp: keeps_rows_def placed_def)

lemma profile_keeps: "keeps_rows d d' \<Longrightarrow> profile_ok c d \<Longrightarrow> profile_ok c d'"
  using placed_keeps by (auto simp: profile_ok_def)

lemma placed_known: "placed d w \<Longrightarrow> known_or_new (cw_id w) d"
  unfolding placed_def known_or_new_def used_ids_def fst_rows_of by (auto simp: rows_of_def)

lemma store_workspace_sel [simp]: "w_id (store_workspace b w) = cw_id w" "w_root (store_workspace b w) = cw_root w"
  by (simp_all add: store_workspace_def)

lemma enroll_placed:
  assumes "UpsertWorkspace (store_workspace b w) now d = Inr d'"
  shows "(cw_id w, cw_root w) \<in> rows_of d'" and "placed d x \<Longrightarrow> cw_id x \<noteq> cw_id w \<Longrightarrow> cw_root x \<noteq> cw_root w \<Longrightarrow> placed d' x"
  using upsert_ids [OF assms] by (auto simp: placed_def)

lemma enroll_profile:
  assumes "UpsertWorkspace (store_workspace b w) now d = Inr d'" and "profile_ok c d" and "w \<in> set (cf_workspaces c)"
  shows "profile_ok c d'"
proof -
  have "placed d' x" if "x \<in> set (cf_workspaces c)" for x
    using enroll_placed [OF assms(1)] profile_okD [OF assms(2) that] profile_okD(2) [OF assms(2,3) that] assms(3)
    by (cases "x = w") (auto simp: placed_def [of d' w])
  with assms(2) show ?thesis by (simp add: profile_ok_def)
qed

lemma forget_profile:
  assumes "DeleteWorkspace ws d = Inr d'" and "profile_ok c d" and "ws \<notin> cw_id ` set (cf_workspaces c)"
  shows "profile_ok c d'"
  using assms(2,3) delete_ids [OF assms(1)] by (force simp: profile_ok_def placed_def)

section \<open>The registry's operations\<close>

text \<open>The file is one the service has written, or there is none yet.\<close>

definition file_ok :: "config_file \<Rightarrow> db \<Rightarrow> bool" where
  "file_ok f d \<longleftrightarrow> f = Absent \<or> (\<exists>c. f = Save c \<and> profile_ok c d)"

lemma Save_profile: "Save c = Save c' \<Longrightarrow> profile_ok c d = profile_ok c' d"
  by (simp add: Save_def profile_ok_def config_ok_def)

lemma file_ok_Save [simp]: "file_ok (Save c) d = profile_ok c d"
proof
  assume "file_ok (Save c) d"
  then obtain c' where "Save c = Save c'" "profile_ok c' d" by (auto simp: file_ok_def Save_def)
  then show "profile_ok c d" using Save_profile [of c c' d] by simp
qed (auto simp: file_ok_def)

lemma file_keeps: "keeps_rows d d' \<Longrightarrow> file_ok f d \<Longrightarrow> file_ok f d'"
  using profile_keeps by (auto simp: file_ok_def)

lemma file_load:
  assumes "file_ok f d" and "Load loopback f = Inr c"
  shows "profile_ok c d" and "profile_ok c d' \<Longrightarrow> file_ok f d'"
proof -
  have "profile_ok c d \<and> (profile_ok c d' \<longrightarrow> file_ok f d')"
  proof (cases "f = Absent")
    case True
    with assms(2) show ?thesis by (auto simp: Load_def profile_ok_def config_ok_def file_ok_def)
  next
    case False
    with assms(1) obtain c1 where c1: "f = Save c1" "profile_ok c1 d" by (auto simp: file_ok_def)
    have "Save c = Save c1" using assms(2) by (auto simp: c1(1) Load_def Save_def Version_def)
    from Save_profile [OF this] c1 show ?thesis by simp
  qed
  then show "profile_ok c d" and "profile_ok c d' \<Longrightarrow> file_ok f d'" by auto
qed

definition service_ok :: "service \<Rightarrow> bool" where
  "service_ok s \<longleftrightarrow> store_ok (sv_db s) \<and> profile_ok (sv_config s) (sv_db s) \<and> file_ok (sv_saved s) (sv_db s)"

lemma service_keeps: "keeps_rows (sv_db s) (sv_db s') \<Longrightarrow> same_profile s s' \<Longrightarrow> service_ok s \<Longrightarrow> service_ok s'"
  using profile_keeps file_keeps by (auto simp: service_ok_def profile_of_def keeps_rows_def)

lemma profile_append:
  assumes "profile_ok c d" and "placed d w" and "\<not> already_registered w c"
    and "cf_workspaces c' = cf_workspaces c @ [w]" and "config_ok c'"
  shows "profile_ok c' d"
  using assms by (auto simp: profile_ok_def already_registered_def)

lemma enroll_store_ok:
  "store_ok d \<Longrightarrow> placed d w \<Longrightarrow> UpsertWorkspace (store_workspace b w) now d = Inr d' \<Longrightarrow> store_ok d'"
  by (rule store_ok_upsert) (simp_all add: placed_known)

lemma moved_config:
  assumes "UpsertBackend loopback api device c = Inr (c1, b)"
  shows "cf_workspaces c1 = cf_workspaces c" and "cf_projects c1 = cf_projects c" and "bk_id b \<in> bk_id ` set (cf_backends c1)" and "bk_id b \<noteq> []"
proof -
  show "cf_workspaces c1 = cf_workspaces c" "cf_projects c1 = cf_projects c"
    using assms by (auto simp: UpsertBackend_def Let_def split: if_splits option.splits)
  show "bk_id b \<noteq> []" using assms by (auto simp: UpsertBackend_def Let_def newBackend_def BackendID_def split: if_splits option.splits)
  have replaced: "b' \<in> set (replace_first (\<lambda>x. bk_id x = bk_id b') (\<lambda>x. b') bs)" if "\<exists>x \<in> set bs. bk_id x = bk_id b'" for b' bs
    using that by (induction bs) auto
  have "b \<in> set (cf_backends c1)"
  proof (cases "find (\<lambda>x. bk_id x = bk_id (newBackend loopback (canonicalOrigin api) device)) (cf_backends c)")
    case None
    with assms show ?thesis by (auto simp: UpsertBackend_def Let_def split: if_splits)
  next
    case (Some x)
    then have "\<exists>x \<in> set (cf_backends c). bk_id x = bk_id (newBackend loopback (canonicalOrigin api) device)"
      by (auto simp: find_Some_iff intro: nth_mem)
    from replaced [OF this] Some assms show ?thesis by (auto simp: UpsertBackend_def Let_def split: if_splits)
  qed
  then show "bk_id b \<in> bk_id ` set (cf_backends c1)" by simp
qed

lemma backend_of_request_ok:
  assumes "backend_of_request rg q w c = Inr (c', b)" and "config_ok c" and "cw_project_id w \<noteq> []"
  shows "cf_workspaces c' = cf_workspaces c \<and> config_ok c' \<and> cw_project_id w \<in> cp_id ` set (cf_projects c')"
proof (cases "ir_api_base_url q = []")
  case True
  with assms(1) have "c' = c" "bound_to (cw_project_id w) c \<noteq> None"
    by (auto simp: backend_of_request_def BackendForProject_def bound_to_def split: option.splits)
  with assms(2) bound_to_dom show ?thesis by auto
next
  case False
  with assms(1) obtain c1 where up: "UpsertBackend (rg_local rg) (ir_api_base_url q) (ir_device_id q) c = Inr (c1, b)"
    and c': "c' = BindProject (cw_project_id w) (bk_id b) c1"
    by (auto simp: backend_of_request_def)
  have "bound_to (cw_project_id w) c' \<noteq> None" using moved_config(4) [OF up] assms(3) by (simp add: c' bound_to_BindProject)
  moreover have "cf_workspaces c' = cf_workspaces c1" by (simp add: c' BindProject_def)
  ultimately show ?thesis
    using BindProject_ok [OF UpsertBackend_ok [OF assms(2) up] moved_config(3) [OF up]] moved_config(1) [OF up] bound_to_dom c' by auto
qed

text \<open>The ids of the database.\<close>

definition ids_of :: "db \<Rightarrow> string set" where
  "ids_of d = fst ` rows_of d \<union> used_ids d"

lemma described_ids: "described_workspace h rg q = Inr w \<Longrightarrow> cw_id w = ir_workspace_id q \<and> cw_project_id w \<noteq> []"
  by (auto simp: described_workspace_def split: if_splits option.splits sum.splits)

lemma add_ok:
  assumes call: "addWorkspace h rg q req now s = (r, s')" and ok: "service_ok s"
    and fresh: "ir_workspace_id q \<in> cw_id ` set (cf_workspaces (sv_config s)) \<or> ir_workspace_id q \<notin> ids_of (sv_db s)"
  shows "service_ok s'"
proof (cases "described_workspace h rg q")
  case (Inl e)
  with call ok show ?thesis by (simp add: addWorkspace_def)
next
  case (Inr w)
  note w = described_ids [OF Inr]
  let ?c = "sv_config s"
  show ?thesis
  proof (cases "already_registered w ?c \<or> req \<and> \<not> member_enrolled w ?c")
    case True
    with call ok Inr show ?thesis by (auto simp: addWorkspace_def Let_def split: if_splits)
  next
    case new: False
    show ?thesis
    proof (cases "backend_of_request rg q w ?c")
      case (Inl e)
      with call ok Inr new show ?thesis by (auto simp: addWorkspace_def Let_def)
    next
      case bound: (Inr cb)
      obtain c1 b where cb: "cb = (c1, b)" by fastforce
      let ?next = "c1\<lparr>cf_workspaces := cf_workspaces ?c @ [w]\<rparr>"
      have parts: "store_ok (sv_db s)" "profile_ok ?c (sv_db s)" "file_ok (sv_saved s) (sv_db s)" using ok by (simp_all add: service_ok_def)
      then have cfg: "config_ok ?c" by (simp add: profile_ok_def)
      note c1 = backend_of_request_ok [OF bound [unfolded cb] cfg] 
      have "cw_id w \<notin> ids_of (sv_db s)" using fresh new w by (auto simp: already_registered_def)
      then have placed: "placed (sv_db s) w" by (simp add: placed_def ids_of_def)
      have "config_ok ?next" using c1 cfg w by (auto simp: config_ok_def)
      then have extended: "profile_ok ?next (sv_db s)" using profile_append [OF parts(2) placed] new by simp
      have enrolled: "store_ok d \<and> profile_ok ?next d" if "UpsertWorkspace (store_workspace b w) now (sv_db s) = Inr d" for d
        using enroll_store_ok [OF parts(1) placed that] enroll_profile [OF that extended] by simp
      show ?thesis
        using call Inr new bound cb parts extended enrolled
        by (auto simp: addWorkspace_def Let_def save_config_def service_ok_def split: if_splits sum.splits option.splits prod.splits)
    qed
  qed
qed

text \<open>Forgetting a Project.\<close>

lemma remove_config:
  assumes "RemoveProject p c = (c', cleared)" and "profile_ok c d"
  shows "profile_ok c' d" and "w \<in> set cleared \<Longrightarrow> cw_id w \<notin> cw_id ` set (cf_workspaces c')"
proof -
  have "config_ok c'" using RemoveProject_ok [of c p] assms by (simp add: profile_ok_def)
  then show "profile_ok c' d" using assms by (auto simp: RemoveProject_def profile_ok_def distinct_map_filter split: if_splits)
  show "cw_id w \<notin> cw_id ` set (cf_workspaces c')" if mem: "w \<in> set cleared"
  proof
    assume "cw_id w \<in> cw_id ` set (cf_workspaces c')"
    then obtain x where "x \<in> set (cf_workspaces c)" "cw_id x = cw_id w" "cw_project_id x \<noteq> p" "w \<in> set (cf_workspaces c)" "cw_project_id w = p"
      using assms(1) mem by (auto simp: RemoveProject_def split: if_splits)
    with profile_okD(2) [OF assms(2), of w x] show False by auto
  qed
qed

lemma forget_ok:
  assumes "\<forall>w \<in> set cleared. cw_id w \<notin> cw_id ` set (cf_workspaces (sv_config s))" and "sv_saved s = Save (sv_config s)" and "service_ok s"
  shows "service_ok (fold (forget_workspace rg) cleared s)"
  using assms
proof (induction cleared arbitrary: s)
  case (Cons w cleared)
  let ?s = "forget_workspace rg w s"
  have same: "sv_config ?s = sv_config s" "sv_saved ?s = sv_saved s" by (simp_all add: forget_workspace_def)
  have "service_ok ?s"
    using Cons.prems store_ok_delete forget_profile
    by (auto simp: service_ok_def forget_workspace_def split: sum.splits)
  then show ?case using Cons.IH [of ?s] Cons.prems same by simp
qed simp

lemma remove_ok:
  assumes "removeProjectWorkspaces rg p s = (r, s')" and "service_ok s"
  shows "service_ok s'"
proof -
  obtain c' cleared where c': "RemoveProject p (sv_config s) = (c', cleared)" by fastforce
  have ok: "profile_ok c' (sv_db s)" "\<forall>w \<in> set cleared. cw_id w \<notin> cw_id ` set (cf_workspaces c')"
    using remove_config [OF c'] assms(2) by (auto simp: service_ok_def)
  have "service_ok (fold (forget_workspace rg) cleared (s\<lparr>sv_saved := Save c', sv_config := c'\<rparr>))"
    using ok assms(2) by (intro forget_ok) (auto simp: service_ok_def)
  with assms c' show ?thesis
    by (auto simp: removeProjectWorkspaces_def Let_def save_config_def split: if_splits)
qed

text \<open>Moving a Project; the running and the stopped service share the loop.\<close>

lemma rebound_ok:
  assumes "rebound rg p api device c = Inr (c', b)" and "profile_ok c d"
  shows "profile_ok c' d" and "cf_workspaces c' = cf_workspaces c"
proof -
  obtain c1 where up: "UpsertBackend (rg_local rg) api device c = Inr (c1, b)" and re: "RebindProject p (bk_id b) c1 = Inr c'"
    using assms(1) by (auto simp: rebound_def)
  have "config_ok c'" by (rule RebindProject_ok [OF UpsertBackend_ok [OF _ up] re]) (use assms(2) in \<open>simp add: profile_ok_def\<close>)
  moreover show ws: "cf_workspaces c' = cf_workspaces c"
    using re moved_config(1) [OF up] by (auto simp: RebindProject_def split: if_splits option.splits)
  ultimately show "profile_ok c' d" using assms(2) by (simp add: profile_ok_def)
qed

lemma move_ok:
  assumes "move_workspaces b now ws d = (err, d')" and "set ws \<subseteq> set (cf_workspaces c)" and "profile_ok c d" and "store_ok d"
  shows "profile_ok c d' \<and> store_ok d'"
  using assms
proof (induction ws arbitrary: d)
  case (Cons w ws)
  show ?case
  proof (cases "RebindWorkspace (cw_id w) (bk_device_id b) (bk_id b) d")
    case (Inl e)
    with Cons.prems show ?thesis by simp
  next
    case (Inr d1)
    have w: "w \<in> set (cf_workspaces c)" using Cons.prems(2) by simp
    have "placed d1 x" if "placed d x" for x using that rebind_ids [OF Inr] by (auto simp: placed_def)
    with Cons.prems(3) have p1: "profile_ok c d1" by (simp add: profile_ok_def)
    have s1: "store_ok d1" by (rule store_ok_rebind [OF Cons.prems(4) Inr])
    show ?thesis
    proof (cases "UpsertWorkspace (store_workspace b w) now d1")
      case Inl2: (Inl e)
      with Cons.prems(1) Inr p1 s1 show ?thesis by simp
    next
      case Inr2: (Inr d2)
      have "profile_ok c d2" by (rule enroll_profile [OF Inr2 p1 w])
      moreover have "store_ok d2" by (rule enroll_store_ok [OF s1 profile_okD(1) [OF p1 w] Inr2])
      ultimately show ?thesis using Cons.IH [of d2] Cons.prems(1,2) Inr Inr2 by simp
    qed
  qed
qed simp

lemma workspaces_for_project: "set (WorkspacesForProject p c) \<subseteq> set (cf_workspaces c)"
  by (auto simp: WorkspacesForProject_def)

lemma rebind_ok:
  assumes "rebindProject rg p api device now s = (r, s')" and "service_ok s"
  shows "service_ok s'"
proof -
  consider "s' = s"
    | c b d e where "rebound rg p api device (sv_config s) = Inr (c, b)" "move_workspaces b now (WorkspacesForProject p c) (sv_db s) = (e, d)"
      "sv_config s' = c" "sv_saved s' = Save c" "sv_db s' = d"
    using assms(1) by (auto simp: rebindProject_def Let_def save_config_def split: if_splits sum.splits prod.splits option.splits)
  then show ?thesis
  proof cases
    case (2 c b d e)
    have "profile_ok c (sv_db s)" using rebound_ok(1) [OF 2(1)] assms(2) by (simp add: service_ok_def)
    from move_ok [OF 2(2) workspaces_for_project this] assms(2) 2(3-5) show ?thesis by (simp add: service_ok_def)
  qed (use assms(2) in simp)
qed

section \<open>The stopped service\<close>

definition stopped_ok :: "stopped \<Rightarrow> bool" where
  "stopped_ok st \<longleftrightarrow> store_ok (snd st) \<and> file_ok (fst st) (snd st)"

lemma rebind_stopped_ok:
  assumes call: "RebindProject_stopped rg p api device now st = (r, st')" and ok: "stopped_ok st"
  shows "stopped_ok st'"
proof (cases "bindE (Load (rg_local rg) (fst st)) (rebound rg p api device)")
  case (Inl e)
  with call ok show ?thesis by (simp add: RebindProject_stopped_def split: if_splits)
next
  case (Inr cb)
  obtain c b where cb: "cb = (c, b)" by fastforce
  obtain c0 where c0: "Load (rg_local rg) (fst st) = Inr c0" "rebound rg p api device c0 = Inr (c, b)"
    using Inr cb by auto
  obtain e d where move: "move_workspaces b now (WorkspacesForProject p c) (snd st) = (e, d)" by fastforce
  have c: "profile_ok c (snd st)" using ok file_load(1) [OF _ c0(1)] rebound_ok(1) [OF c0(2)] by (auto simp: stopped_ok_def)
  note moved = move_ok [OF move workspaces_for_project c]
  have "st' = st \<or> st' = (Save c, snd st) \<or> st' = (Save c, d)"
    using call Inr cb move by (simp add: RebindProject_stopped_def Let_def split: if_splits option.splits)
  with moved c ok show ?thesis by (auto simp: stopped_ok_def)
qed

lemma delete_workspaces_ok:
  assumes "delete_workspaces ws d = (e, d')" and "\<forall>w \<in> set ws. cw_id w \<notin> cw_id ` set (cf_workspaces c)" and "profile_ok c d" and "store_ok d"
  shows "profile_ok c d' \<and> store_ok d'"
  using assms
proof (induction ws arbitrary: d)
  case (Cons w ws)
  then show ?case
    using forget_profile store_ok_delete by (auto split: sum.splits)
qed simp

lemma deregister_ok:
  assumes call: "Deregister rg p st = (r, st')" and ok: "stopped_ok st"
  shows "stopped_ok st'"
proof (cases "Load (rg_local rg) (fst st)")
  case (Inl e)
  with call ok show ?thesis by (simp add: Deregister_def split: if_splits)
next
  case (Inr c0)
  obtain c cleared where c: "RemoveProject p c0 = (c, cleared)" by fastforce
  obtain e d where del: "delete_workspaces cleared (snd st) = (e, d)" by fastforce
  have c0: "profile_ok c0 (snd st)" using ok file_load(1) [OF _ Inr] by (simp add: stopped_ok_def)
  note removed = delete_workspaces_ok [OF del _ remove_config(1) [OF c c0]]
  have "st' = st \<or> st' = (Save c, snd st) \<or> st' = (Save c, d)"
    using call Inr c del by (simp add: Deregister_def split: if_splits option.splits)
  with removed remove_config [OF c c0] ok show ?thesis by (auto simp: stopped_ok_def)
qed

lemma bind_new_ok:
  assumes "bind_new rg api device p c = Inr c'" and "config_ok c" and "p \<noteq> []"
  shows "cf_workspaces c' = cf_workspaces c \<and> config_ok c' \<and> p \<in> cp_id ` set (cf_projects c')"
proof -
  obtain c1 b where up: "UpsertBackend (rg_local rg) api device c = Inr (c1, b)" and c': "c' = BindProject p (bk_id b) c1"
    using assms(1) by (auto simp: bind_new_def split: if_splits)
  have "bound_to p c' \<noteq> None" using moved_config(4) [OF up] assms(3) by (simp add: c' bound_to_BindProject)
  moreover have "cf_workspaces c' = cf_workspaces c1" by (simp add: c' BindProject_def)
  ultimately show ?thesis
    using BindProject_ok [OF UpsertBackend_ok [OF assms(2) up] moved_config(3) [OF up]] moved_config(1) [OF up] bound_to_dom c' by auto
qed

lemma project_id_nonempty: "invalid_id (register_ids device w) = None \<Longrightarrow> cw_project_id w \<noteq> []"
  by (auto simp: invalid_id_def register_ids_def matches_id_def split: if_splits)

lemma register_cases:
  assumes call: "Register h rg api device w f = (r, f')"
    and loaded: "bindE (Load (rg_local rg) f) (bind_new rg api device (cw_project_id w)) = Inr c"
  shows "f' = f \<or> (\<exists>root b fp. invalid_id (register_ids device w) = None \<and> \<not> already_registered (w\<lparr>cw_root := root\<rparr>) c
      \<and> f' = Save (c\<lparr>cf_workspaces := cf_workspaces c @ [w\<lparr>cw_root := root, cw_baseline := b, cw_fingerprint := fp\<rparr>]\<rparr>))"
proof (cases "api = [] \<or> invalid_id (register_ids device w) \<noteq> None \<or> rg_locked rg \<or> rv_eval (h_fs h) (abs_of (h_fs h) (cw_root w)) = None")
  case True
  with call loaded have "f' = f" by (auto simp: Register_def split: option.splits if_splits)
  then show ?thesis ..
next
  case False
  then obtain root where root: "rv_eval (h_fs h) (abs_of (h_fs h) (cw_root w)) = Some root" by auto
  show ?thesis
  proof (cases "\<not> rg_is_dir rg root \<or> already_registered (w\<lparr>cw_root := root\<rparr>) c")
    case True
    with False root call loaded have "f' = f" by (auto simp: Register_def Let_def split: if_splits)
    then show ?thesis ..
  next
    case new: False
    show ?thesis
    proof (cases "CaptureBaseline (h_git h root)"; cases "Fingerprint (h_git h root) (rg_parse_url rg) (cw_project_id w)")
      fix b fp
      assume git: "CaptureBaseline (h_git h root) = Inr b" "Fingerprint (h_git h root) (rg_parse_url rg) (cw_project_id w) = Inr fp"
      have "f' = f \<or> f' = Save (c\<lparr>cf_workspaces := cf_workspaces c @ [w\<lparr>cw_root := root, cw_baseline := b, cw_fingerprint := fp\<rparr>]\<rparr>)"
        using call loaded False new root git by (auto simp: Register_def Let_def split: if_splits)
      moreover have "invalid_id (register_ids device w) = None" "\<not> already_registered (w\<lparr>cw_root := root\<rparr>) c"
        using False new by simp_all
      ultimately show ?thesis by (elim disjE) (rule disjI1, assumption, intro disjI2 exI conjI)
    qed (insert call loaded False new root, auto simp: Register_def Let_def)
  qed
qed

lemma register_ok:
  assumes call: "Register h rg api device w f = (r, f')" and ok: "stopped_ok (f, d)" and fresh: "cw_id w \<notin> ids_of d"
  shows "stopped_ok (f', d)"
proof (cases "bindE (Load (rg_local rg) f) (bind_new rg api device (cw_project_id w))")
  case (Inl e)
  with call ok show ?thesis by (simp add: Register_def split: if_splits option.splits)
next
  case (Inr c)
  obtain c0 where c0: "Load (rg_local rg) f = Inr c0" "bind_new rg api device (cw_project_id w) c0 = Inr c" using Inr by auto
  have prof: "profile_ok c0 d" using ok file_load(1) [OF _ c0(1)] by (simp add: stopped_ok_def)
  from register_cases [OF call Inr] show ?thesis
  proof (elim disjE exE conjE)
    fix root b fp
    let ?w = "w\<lparr>cw_root := root, cw_baseline := b, cw_fingerprint := fp\<rparr>"
    let ?c = "c\<lparr>cf_workspaces := cf_workspaces c @ [?w]\<rparr>"
    assume new: "invalid_id (register_ids device w) = None" "\<not> already_registered (w\<lparr>cw_root := root\<rparr>) c" "f' = Save ?c"
    have c: "cf_workspaces c = cf_workspaces c0 \<and> config_ok c \<and> cw_project_id w \<in> cp_id ` set (cf_projects c)"
      by (rule bind_new_ok [OF c0(2) _ project_id_nonempty [OF new(1)]]) (use prof in \<open>simp add: profile_ok_def\<close>)
    have "profile_ok ?c d"
    proof (rule profile_append)
      show "profile_ok c d" using prof c by (simp add: profile_ok_def)
      show "placed d ?w" using fresh by (simp add: placed_def ids_of_def)
      show "\<not> already_registered ?w c" using new(2) by (simp add: already_registered_def)
      show "config_ok ?c" using c config_okD(4) [of c] by (auto simp: config_ok_def)
    qed simp
    with new(3) ok show ?thesis by (simp add: stopped_ok_def)
  qed (use ok in simp)
qed

lemma boot_rows_ok:
  assumes "boot_rows c now ws d = (e, d')" and "set ws \<subseteq> set (cf_workspaces c)" and "profile_ok c d" and "store_ok d"
  shows "profile_ok c d' \<and> store_ok d'"
  using assms
proof (induction ws arbitrary: d)
  case (Cons w ws)
  let ?b = "case BackendForWorkspace w c of Some b \<Rightarrow> b | None \<Rightarrow> no_backend"
  show ?case
  proof (cases "UpsertWorkspace (store_workspace ?b w) now d")
    case (Inl e)
    with Cons.prems show ?thesis by simp
  next
    case (Inr d1)
    have w: "w \<in> set (cf_workspaces c)" using Cons.prems(2) by simp
    have "profile_ok c d1" by (rule enroll_profile [OF Inr Cons.prems(3) w])
    moreover have "store_ok d1" by (rule enroll_store_ok [OF Cons.prems(4) profile_okD(1) [OF Cons.prems(3) w] Inr])
    ultimately show ?thesis using Cons.IH [of d1] Cons.prems(1,2) Inr by simp
  qed
qed simp

lemma boot_keeps: "Boot d = (k, d') \<Longrightarrow> keeps_rows d d'"
  by (rule kept.aside) (auto simp: Boot_def Let_def same_core_def)

lemma run_ok:
  assumes "stopped_ok st"
  shows "Run h rg now n st = Inl (e, st') \<Longrightarrow> stopped_ok st'" and "Run h rg now n st = Inr (n', s) \<Longrightarrow> service_ok s"
proof -
  obtain k d where boot: "Boot (snd st) = (k, d)" by fastforce
  note kept = boot_keeps [OF boot]
  have booted: "profile_ok c d1 \<and> store_ok d1 \<and> file_ok (fst st) d1"
    if "Load (rg_local rg) (fst st) = Inr c" "boot_rows c now (cf_workspaces c) d = (e1, d1)" for c e1 d1
  proof -
    have st: "store_ok (snd st)" "file_ok (fst st) (snd st)" using assms by (simp_all add: stopped_ok_def)
    have "profile_ok c d" "store_ok d" using profile_keeps [OF kept file_load(1) [OF st(2) that(1)]] st(1) kept by (simp_all add: keeps_rows_def)
    then have "profile_ok c d1 \<and> store_ok d1" by (intro boot_rows_ok [OF that(2) order_refl])
    then show ?thesis using file_load(2) [OF st(2) that(1)] by simp
  qed
  show "stopped_ok st'" if "Run h rg now n st = Inl (e, st')"
    using that boot booted assms by (auto simp: Run_def stopped_ok_def split: if_splits sum.splits prod.splits option.splits)
  show "service_ok s" if run: "Run h rg now n st = Inr (n', s)"
  proof -
    obtain c where c: "Load (rg_local rg) (fst st) = Inr c" using run by (auto simp: Run_def split: if_splits sum.splits)
    obtain e1 d1 where rows: "boot_rows c now (cf_workspaces c) d = (e1, d1)" by fastforce
    have "\<exists>s0. e1 = None \<and> scanAll (h_amb h) (h_ex h) (h_disk h) (h_git h) (h_eval h) n s0 = (n', s)
        \<and> sv_config s0 = c \<and> sv_saved s0 = fst st \<and> sv_db s0 = d1"
      using run boot c rows by (auto simp: Run_def intro!: exI split: if_splits option.splits)
    then obtain s0 where "e1 = None" "scanAll (h_amb h) (h_ex h) (h_disk h) (h_git h) (h_eval h) n s0 = (n', s)"
      "sv_config s0 = c" "sv_saved s0 = fst st" "sv_db s0 = d1" by blast
    with booted [OF c rows] have "service_ok s0" by (simp add: service_ok_def)
    with kept.scanAll_effect [OF \<open>scanAll _ _ _ _ _ n s0 = (n', s)\<close>] service_keeps [of s0 s] show ?thesis by simp
  qed
qed

section \<open>The machine\<close>

datatype app = Running service | Stopped stopped

text \<open>
  The id of a new registration is drawn at random (\<^verbatim>\<open>opaqueID\<close> of \<^verbatim>\<open>internal/onboarding/onboarding.go\<close>), so the
  database has not seen it, unless the profile holds it already and the call is a repetition.
\<close>

definition drawn_id :: "ipc_request \<Rightarrow> service \<Rightarrow> bool" where
  "drawn_id q s \<longleftrightarrow> ir_workspace_id q \<in> cw_id ` set (cf_workspaces (sv_config s)) \<or> ir_workspace_id q \<notin> ids_of (sv_db s)"

inductive app_step :: "app \<Rightarrow> app \<Rightarrow> bool" where
  call: "handle h rg lb pid expired q n s = (r, n', s') \<Longrightarrow>
    ir_method q \<in> {''add_development_workspace'', ''add_project_workspace''} \<Longrightarrow> drawn_id q s \<Longrightarrow> app_step (Running s) (Running s')"
| other_call: "handle h rg lb pid expired q n s = (r, n', s') \<Longrightarrow>
    ir_method q \<notin> {''add_development_workspace'', ''add_project_workspace''} \<Longrightarrow> app_step (Running s) (Running s')"
| publish: "flush new_sender srv clock s = (healthy, s') \<Longrightarrow> app_step (Running s) (Running s')"
| heartbeat: "app_step (Running s) (Running (sendHeartbeats new_sender srv s))"
| scan: "scanAll amb ex disk git eval n s = (n', s') \<Longrightarrow> app_step (Running s) (Running s')"
| halt: "app_step (Running s) (Stopped (sv_saved s, sv_db s))"
| start: "Run h rg now n st = Inr (n', s) \<Longrightarrow> app_step (Stopped st) (Running s)"
| start_fails: "Run h rg now n st = Inl (e, st') \<Longrightarrow> app_step (Stopped st) (Stopped st')"
| register: "Register h rg api device w f = (r, f') \<Longrightarrow> cw_id w \<notin> ids_of d \<Longrightarrow> app_step (Stopped (f, d)) (Stopped (f', d))"
| deregister: "Deregister rg p st = (r, st') \<Longrightarrow> app_step (Stopped st) (Stopped st')"
| move: "RebindProject_stopped rg p api device now st = (r, st') \<Longrightarrow> app_step (Stopped st) (Stopped st')"

definition app_ok :: "app \<Rightarrow> bool" where
  "app_ok a = (case a of Running s \<Rightarrow> service_ok s | Stopped st \<Rightarrow> stopped_ok st)"

lemma registry_call_ok:
  assumes "handle h rg lb pid expired q n s = (r, n', s')" and "service_ok s"
    and "ir_method q \<in> {''add_development_workspace'', ''add_project_workspace''} \<Longrightarrow> drawn_id q s"
  shows "service_ok s'"
proof (cases "ir_method q \<in> registry_methods")
  case False
  from kept.handle_effect [OF assms(1) this] service_keeps assms(2) show ?thesis by blast
next
  case True
  then have "(\<exists>req x. ir_method q \<in> {''add_development_workspace'', ''add_project_workspace''}
        \<and> addWorkspace h rg q req (wo_now (h_amb h) n) s = (x, s'))
    \<or> (\<exists>x. rebindProject rg (ir_project_id q) (ir_api_base_url q) (ir_device_id q) (wo_now (h_amb h) n) s = (x, s'))
    \<or> (\<exists>x. removeProjectWorkspaces rg (ir_project_id q) s = (x, s'))"
    using assms(1) by (auto simp: registry_methods_def handle_def Let_def split: prod.splits)
  then consider req x where "ir_method q \<in> {''add_development_workspace'', ''add_project_workspace''}"
        "addWorkspace h rg q req (wo_now (h_amb h) n) s = (x, s')"
    | "\<exists>x. rebindProject rg (ir_project_id q) (ir_api_base_url q) (ir_device_id q) (wo_now (h_amb h) n) s = (x, s')"
    | "\<exists>x. removeProjectWorkspaces rg (ir_project_id q) s = (x, s')"
    by blast
  then show ?thesis
  proof cases
    case (1 req x)
    from add_ok [OF 1(2) assms(2)] assms(3) [OF 1(1)] show ?thesis by (simp add: drawn_id_def)
  next
    case 2
    with rebind_ok assms(2) show ?thesis by blast
  next
    case 3
    with remove_ok assms(2) show ?thesis by blast
  qed
qed

lemma app_step_ok: "app_step a a' \<Longrightarrow> app_ok a \<Longrightarrow> app_ok a'"
proof (induction rule: app_step.induct)
  case (halt s)
  then show ?case by (simp add: app_ok_def service_ok_def stopped_ok_def)
next
  case (publish new_sender srv clock s healthy s')
  then show ?case using kept.flush_effect [OF publish(1)] service_keeps [of s s'] by (simp add: app_ok_def)
next
  case (heartbeat s new_sender srv)
  then show ?case using kept.heartbeats_effect [where s = s and f = new_sender and srv = srv] service_keeps [of s "sendHeartbeats new_sender srv s"] kept.keep by (simp add: app_ok_def)
next
  case (scan amb ex disk git eval n s n' s')
  then show ?case using kept.scanAll_effect [OF scan(1)] service_keeps [of s s'] by (simp add: app_ok_def)
qed (auto simp: app_ok_def intro: registry_call_ok run_ok register_ok deregister_ok rebind_stopped_ok)

lemma app_ok_initial: "app_ok (Stopped (Absent, empty_db))"
  by (simp add: app_ok_def stopped_ok_def store_ok_empty file_ok_def)

section \<open>Properties\<close>


definition sample_registry :: registry where
  "sample_registry = \<lparr>rg_save_ok = (\<lambda>_. True), rg_local = (\<lambda>_. False), rg_parse_url = (\<lambda>_. None), rg_tree = (\<lambda>_. None), rg_add_ok = (\<lambda>_. True),
     rg_remove_ok = (\<lambda>_. True), rg_is_dir = (\<lambda>_. True), rg_open_ok = True, rg_locked = False\<rparr>"


end
