(* ===== verification/App_Local.thy ===== *)
theory App_Local
  imports App_Calls App_Hooks
begin

text \<open>
  What the rest of the world may not do to an agent's call: whether there is a backend, what it answers and
  what was sent before cannot change what the call records on this device.
\<close>

section \<open>The brief is the only thing that depends on a backend\<close>

lemma brief_keeps:
  "fetch_brief h w stream trigger q r s = (r', s') \<Longrightarrow> sv_db s' = sv_db s \<and> lr_workstream_id r' = lr_workstream_id r
    \<and> lr_duplicate r' = lr_duplicate r \<and> lr_intent_revision r' = lr_intent_revision r"
  by (auto simp: fetch_brief_def Let_def dest!: sender_effect split: if_splits option.splits sum.splits prod.splits)

text \<open>The part of the answer that is about this device.\<close>

definition recorded :: "lifecycle_result response \<Rightarrow> string + (string \<times> bool \<times> int)" where
  "recorded r = map_sum id (\<lambda>x. (lr_workstream_id x, lr_duplicate x, lr_intent_revision x)) r"

section \<open>Properties\<close>


text \<open>Two devices that share nothing but the request: one without any backend, one whose backend acknowledges everything.\<close>

definition sample_checkpoint :: ipc_request where
  "sample_checkpoint = blank_request\<lparr>ir_method := ''report_checkpoint'', ir_workspace_id := ''wsp_a'', ir_idempotency_key := ''k1'',
     ir_checkpoint_id := ''chk_1'', ir_summary := ''halfway''\<rparr>"


end
