(* ===== verification/Hook_Command.thy ===== *)
theory Hook_Command
  imports Go_Path
begin

text \<open>
  The managed hook command (\<^verbatim>\<open>internal/hookconfig/command.go\<close> and the command functions of
  \<^verbatim>\<open>hooks.go\<close>): one string that a vendor hands to a shell, generated in the quoting form of the
  platform and the vendor, and parsed back to the executable and the profile it names.

  Not under \<^verbatim>\<open>src/\<close> and so parameters: the platform of the running program and its
  \<^verbatim>\<open>filepath.Abs\<close>, which asks the operating system for the working directory.
\<close>

section \<open>Package strings\<close>

definition trim_prefix :: "string \<Rightarrow> string \<Rightarrow> string" where
  "trim_prefix s p = (if has_prefix s p then drop (length p) s else s)"

fun str_index :: "string \<Rightarrow> string \<Rightarrow> nat option" where
  "str_index [] p = (if p = [] then Some 0 else None)"
| "str_index (c # cs) p = (if has_prefix (c # cs) p then Some 0 else map_option Suc (str_index cs p))"

text \<open>\<^verbatim>\<open>strings.ReplaceAll\<close> for a text to replace that is not empty.\<close>

function replace_all :: "string \<Rightarrow> string \<Rightarrow> string \<Rightarrow> string" where
  "replace_all s old new =
     (case s of [] \<Rightarrow> []
      | c # cs \<Rightarrow> if old \<noteq> [] \<and> has_prefix s old then new @ replace_all (drop (length old) s) old new
                 else c # replace_all cs old new)"
  by pat_completeness auto
termination
  by (relation "measure (\<lambda>(s, old, new). length s)") auto

declare replace_all.simps [simp del]

text \<open>\<^verbatim>\<open>strings.EqualFold\<close> on ASCII letters.\<close>

definition equal_fold :: "string \<Rightarrow> string \<Rightarrow> bool" where
  "equal_fold a b \<longleftrightarrow> to_lower a = to_lower b"

definition SQ :: char where "SQ = CHR 0x27"
definition DQ :: char where "DQ = CHR 0x22"
definition BS :: char where "BS = CHR 0x5C"

lemmas quote_chars = SQ_def DQ_def BS_def

section \<open>The command forms\<close>

datatype commandStyle = POSIX | PowerShell | Cmd

definition styleFor :: "string \<Rightarrow> string \<Rightarrow> commandStyle" where
  "styleFor goos vendor =
     (if goos \<noteq> ''windows'' then POSIX else if vendor = ''codex'' then Cmd else PowerShell)"

definition vendorMarker :: string where "vendorMarker = '' agent-hook --vendor ''"

definition configRootArgument :: string where "configRootArgument = ''--config-root''"

definition joinCommand :: "commandStyle \<Rightarrow> string list \<Rightarrow> string" where
  "joinCommand style parts = (let line = join '' '' parts in if style = PowerShell then ''& '' @ line else line)"

definition trailingBackslashes :: "string \<Rightarrow> nat" where
  "trailingBackslashes v = length (takeWhile (\<lambda>c. c = BS) (rev v))"

definition quoteArgument :: "commandStyle \<Rightarrow> string \<Rightarrow> string" where
  "quoteArgument style v =
     (case style of
        Cmd \<Rightarrow> [DQ] @ v @ replicate (trailingBackslashes v) BS @ [DQ]
      | PowerShell \<Rightarrow> [SQ] @ replace_all v [SQ] [SQ, SQ] @ [SQ]
      | POSIX \<Rightarrow> [SQ] @ replace_all v [SQ] [SQ, BS, SQ, SQ] @ [SQ])"

definition validateArgument :: "commandStyle \<Rightarrow> string \<Rightarrow> string option" where
  "validateArgument style v =
     (if v = [] \<or> contains_any v [CR, LF, NUL]
      then Some ''hook command argument is empty or contains a control character''
      else if str_contains v vendorMarker then Some ''hook command path contains the managed-command delimiter''
      else if style = Cmd \<and> CHR ''%'' \<in> set v then Some ''Codex Windows hook paths containing % are unsupported''
      else if style = Cmd \<and> DQ \<in> set v then Some ''Codex Windows hook paths containing a quote are unsupported''
      else None)"

section \<open>Parsing\<close>

definition unquoteArgument :: "char \<Rightarrow> string \<Rightarrow> string option" where
  "unquoteArgument quote v =
     (if length v < 2 \<or> hd v \<noteq> quote \<or> last v \<noteq> quote then None
      else let inner = butlast (tl v) in
        if quote = DQ then
          (let trailing = trailingBackslashes inner in
           if trailing mod 2 \<noteq> 0 then None
           else Some (take (length inner - trailing) inner @ replicate (trailing div 2) BS))
        else if str_contains inner [SQ, BS, SQ, SQ] then Some (replace_all inner [SQ, BS, SQ, SQ] [SQ])
        else Some (replace_all inner [SQ, SQ] [SQ]))"

definition parsePrefix :: "string \<Rightarrow> (string \<times> string) option" where
  "parsePrefix text0 =
     (let p = trim_prefix text0 ''& '' in
      if length p < 2 then None
      else let quote = hd p in
        if quote \<noteq> SQ \<and> quote \<noteq> DQ then None
        else if last p \<noteq> quote then None
        else let marker = [quote] @ '' '' @ configRootArgument @ '' '' @ [quote] in
          case str_index p marker of
            None \<Rightarrow> map_option (\<lambda>executable. (executable, [])) (unquoteArgument quote p)
          | Some at \<Rightarrow>
              (case unquoteArgument quote (take (at + 1) p) of
                 None \<Rightarrow> None
               | Some executable \<Rightarrow>
                   (case unquoteArgument quote (drop (at + length marker - 1) p) of
                      None \<Rightarrow> None
                    | Some configRoot \<Rightarrow> if configRoot = [] then None else Some (executable, configRoot))))"

section \<open>Paths of either platform\<close>

definition ascii_letter :: "char \<Rightarrow> bool" where
  "ascii_letter c \<longleftrightarrow> 65 \<le> byte c \<and> byte c \<le> 90 \<or> 97 \<le> byte c \<and> byte c \<le> 122"

definition windowsAbsolute :: "string \<Rightarrow> bool" where
  "windowsAbsolute v \<longleftrightarrow>
     (if 3 \<le> length v \<and> ascii_letter (v ! 0) \<and> v ! 1 = CHR '':'' \<and> (v ! 2 = BS \<or> v ! 2 = CHR ''/'') then True
      else let normalized = replace_all v [BS] ''/'' in
        if \<not> has_prefix normalized ''//'' then False
        else let parts = split_on (CHR ''/'') (trim_prefix normalized ''//'') in
          2 \<le> length parts \<and> parts ! 0 \<noteq> [] \<and> parts ! 1 \<noteq> [])"

definition isAbsolutePath :: "string \<Rightarrow> bool" where
  "isAbsolutePath v \<longleftrightarrow> has_prefix v ''/'' \<or> windowsAbsolute v"

definition pathIsAbs :: "string \<Rightarrow> string \<Rightarrow> bool" where
  "pathIsAbs v goos \<longleftrightarrow> (if goos = ''windows'' then windowsAbsolute v else has_prefix v ''/'')"

definition cleanPortablePath :: "string \<Rightarrow> string" where
  "cleanPortablePath v =
     (if \<not> windowsAbsolute v then clean v
      else replace_all (clean (replace_all v [BS] ''/'')) ''/'' [BS])"

definition sameProfile :: "string \<Rightarrow> string \<Rightarrow> bool" where
  "sameProfile l r \<longleftrightarrow>
     (if windowsAbsolute l \<or> windowsAbsolute r
      then windowsAbsolute l \<and> windowsAbsolute r \<and> equal_fold (cleanPortablePath l) (cleanPortablePath r)
      else cleanPortablePath l = cleanPortablePath r)"

section \<open>Commands\<close>

definition supportedVendor :: "string \<Rightarrow> bool" where
  "supportedVendor vendor \<longleftrightarrow> vendor \<in> {''codex'', ''claude'', ''cursor''}"

text \<open>
  The platform: \<^verbatim>\<open>runtime.GOOS\<close>, and \<^verbatim>\<open>filepath.Abs\<close> there.
\<close>

record hook_host =
  hh_os :: string
  hh_abs :: "string \<Rightarrow> string + string"

definition resolve_arguments ::
  "hook_host \<Rightarrow> string \<Rightarrow> string \<Rightarrow> string \<Rightarrow> string + (string \<times> string)" where
  "resolve_arguments h goos executable configRoot =
     (if goos = hh_os h then
        bindE (hh_abs h executable) (\<lambda>e. bindE (hh_abs h configRoot) (\<lambda>r. Inr (e, r)))
      else if \<not> pathIsAbs executable goos \<or> \<not> pathIsAbs configRoot goos
      then Inl ''hook executable and config root must be absolute''
      else Inr (executable, configRoot))"

definition commandForOS ::
  "hook_host \<Rightarrow> string \<Rightarrow> string \<Rightarrow> string \<Rightarrow> string \<Rightarrow> string + string" where
  "commandForOS h goos executable configRoot vendor =
     (if \<not> supportedVendor vendor then Inl ''unsupported activity-hook vendor''
      else bindE (resolve_arguments h goos executable configRoot) (\<lambda>(e, r).
        let style = styleFor goos vendor in
        case validateArgument style e of Some err \<Rightarrow> Inl err
        | None \<Rightarrow>
          (case validateArgument style r of Some err \<Rightarrow> Inl err
           | None \<Rightarrow> Inr (joinCommand style [quoteArgument style e, configRootArgument, quoteArgument style r,
                                      ''agent-hook'', ''--vendor'', vendor]))))"

definition portableCommandForOS :: "string \<Rightarrow> string \<Rightarrow> string + string" where
  "portableCommandForOS goos vendor =
     (if \<not> supportedVendor vendor then Inl ''unsupported activity-hook vendor''
      else let style = styleFor goos vendor in
        Inr (joinCommand style [quoteArgument style ''overgent'', ''agent-hook'', ''--vendor'', vendor]))"

definition managed :: "string \<Rightarrow> bool" where
  "managed command \<longleftrightarrow> str_contains command vendorMarker"

definition commandVendor :: "string \<Rightarrow> string" where
  "commandVendor command =
     (if has_suffix command (vendorMarker @ ''codex'') then ''codex''
      else if has_suffix command (vendorMarker @ ''claude'') then ''claude'' else [])"

definition managedForVendor :: "string \<Rightarrow> string \<Rightarrow> bool" where
  "managedForVendor command vendor \<longleftrightarrow>
     (if commandVendor command \<noteq> vendor \<or> contains_any command [CR, LF, NUL] then False
      else case parsePrefix (trim_suffix command (vendorMarker @ vendor)) of
             None \<Rightarrow> False
           | Some (executable, configRoot) \<Rightarrow>
               executable = ''overgent'' \<and> configRoot = [] \<or> isAbsolutePath executable \<and> isAbsolutePath configRoot)"

definition ParseManagedCommand :: "string \<Rightarrow> (string \<times> string) option" where
  "ParseManagedCommand command =
     (if contains_any command [CR, LF, NUL] then None
      else case str_index command vendorMarker of
        None \<Rightarrow> None
      | Some index \<Rightarrow>
          (case parsePrefix (take index command) of
             None \<Rightarrow> None
           | Some (executable, configRoot) \<Rightarrow>
               if configRoot = [] then (if executable \<noteq> ''overgent'' then None else Some (''overgent'', []))
               else if \<not> isAbsolutePath executable \<or> \<not> isAbsolutePath configRoot then None
               else Some (executable, cleanPortablePath configRoot)))"

definition ParseManagedPrefix :: "string \<Rightarrow> (string \<times> string) option" where
  "ParseManagedPrefix text0 =
     (if contains_any text0 [CR, LF, NUL] then None
      else case parsePrefix text0 of
        None \<Rightarrow> None
      | Some (executable, configRoot) \<Rightarrow>
          if configRoot = [] then (if executable = ''overgent'' then Some (executable, []) else None)
          else if \<not> isAbsolutePath executable \<or> \<not> isAbsolutePath configRoot then None
          else Some (executable, cleanPortablePath configRoot))"

section \<open>Searching and replacing\<close>

lemma str_contains_iff: "p \<noteq> [] \<Longrightarrow> str_contains s p \<longleftrightarrow> (\<exists>i. has_prefix (drop i s) p)"
proof (induction s)
  case Nil
  then show ?case by (simp add: has_prefix_def)
next
  case (Cons c cs)
  show ?case
  proof
    assume "str_contains (c # cs) p"
    then consider "has_prefix (c # cs) p" | "str_contains cs p" by auto
    then show "\<exists>i. has_prefix (drop i (c # cs)) p"
    proof cases
      case 1
      then show ?thesis by (intro exI [of _ 0]) simp
    next
      case 2
      with Cons obtain i where "has_prefix (drop i cs) p" by auto
      then show ?thesis by (intro exI [of _ "Suc i"]) simp
    qed
  next
    assume "\<exists>i. has_prefix (drop i (c # cs)) p"
    then obtain i where i: "has_prefix (drop i (c # cs)) p" ..
    show "str_contains (c # cs) p"
    proof (cases i)
      case 0
      with i show ?thesis by simp
    next
      case (Suc j)
      with i Cons show ?thesis by auto
    qed
  qed
qed

lemma str_index_first:
  "has_prefix (drop n s) p \<Longrightarrow> (\<And>i. i < n \<Longrightarrow> \<not> has_prefix (drop i s) p) \<Longrightarrow> n \<le> length s \<Longrightarrow> str_index s p = Some n"
proof (induction s arbitrary: n)
  case Nil
  then show ?case by (simp add: has_prefix_def)
next
  case (Cons c cs)
  show ?case
  proof (cases n)
    case 0
    with Cons.prems show ?thesis by simp
  next
    case (Suc m)
    have "\<not> has_prefix (c # cs) p" using Cons.prems(2) [of 0] Suc by simp
    moreover have "str_index cs p = Some m"
    proof (rule Cons.IH)
      show "has_prefix (drop m cs) p" "m \<le> length cs" using Cons.prems Suc by simp_all
      show "\<not> has_prefix (drop i cs) p" if "i < m" for i
        using Cons.prems(2) [of "Suc i"] that Suc by simp
    qed
    ultimately show ?thesis using Suc by simp
  qed
qed

text \<open>A text occurs first where it is written, unless it also occurs before its last byte is read.\<close>

lemma str_index_append:
  assumes "\<not> str_contains (pre @ butlast p) p" and "p \<noteq> []"
  shows "str_index (pre @ p @ post) p = Some (length pre)"
proof (rule str_index_first)
  show "has_prefix (drop (length pre) (pre @ p @ post)) p" by simp
  show "length pre \<le> length (pre @ p @ post)" by simp
  show "\<not> has_prefix (drop i (pre @ p @ post)) p" if i: "i < length pre" for i
  proof
    assume "has_prefix (drop i (pre @ p @ post)) p"
    then have p: "take (length p) (drop i (pre @ p @ post)) = p" by (simp add: has_prefix_def)
    have "take (length p) (drop i (pre @ butlast p)) = take (length p) (drop i (pre @ p @ post))"
    proof -
      have "take (i + length p) (pre @ butlast p) = take (i + length p) (pre @ p @ post)"
        using i by (simp add: butlast_conv_take take_append)
      then show ?thesis by (metis take_drop add.commute)
    qed
    with p have "has_prefix (drop i (pre @ butlast p)) p" by (simp add: has_prefix_def)
    with assms str_contains_iff [of p "pre @ butlast p"] show False by blast
  qed
qed


section \<open>Pieces between quotes\<close>

text \<open>
  A text without the quote occurs in one of the pieces that the quotes cut its host into; a piece
  with a quote on both sides is not the first or the last one.
\<close>

lemma split_on_at: "split_on q (a @ q # b) = split_on q a @ split_on q b"
proof (induction a)
  case (Cons c a)
  show ?case
  proof (cases "c = q")
    case False
    obtain y ys where "split_on q a = y # ys" by (cases "split_on q a") simp_all
    with Cons False show ?thesis by simp
  qed (use Cons in simp)
qed simp

lemma has_prefix_quoteless:
  assumes "q \<notin> set p" shows "has_prefix s p \<longleftrightarrow> has_prefix (hd (split_on q s)) p"
  using assms
proof (induction s arbitrary: p)
  case (Cons c s)
  obtain y ys where s: "split_on q s = y # ys" by (cases "split_on q s") simp_all
  show ?case
  proof (cases p)
    case Nil
    then show ?thesis by (simp add: has_prefix_def)
  next
    case (Cons d p')
    have "has_prefix s p' \<longleftrightarrow> has_prefix y p'"
      using Cons.IH [of p'] \<open>q \<notin> set p\<close> Cons s by simp
    then show ?thesis
      using Cons s \<open>q \<notin> set p\<close> by (auto simp: has_prefix_def)
  qed
qed simp

lemma str_contains_quoteless:
  assumes "q \<notin> set p" and "p \<noteq> []"
  shows "str_contains s p \<longleftrightarrow> (\<exists>x \<in> set (split_on q s). str_contains x p)"
proof (induction s)
  case (Cons c s)
  obtain y ys where s: "split_on q s = y # ys" by (cases "split_on q s") simp_all
  have head: "has_prefix (c # s) p \<longleftrightarrow> has_prefix (hd (split_on q (c # s))) p"
    by (rule has_prefix_quoteless [OF assms(1)])
  show ?case
  proof (cases "c = q")
    case True
    with head have "\<not> has_prefix (c # s) p" using assms by (simp add: has_prefix_def)
    with True Cons assms show ?thesis by simp
  next
    case False
    with head s Cons show ?thesis by auto
  qed
qed (use assms in simp)

lemma quoted_piece:
  assumes "str_contains s (q # w @ [q])" and w: "q \<notin> set w"
  shows "w \<in> set (butlast (tl (split_on q s)))"
  using assms(1)
proof (induction s)
  case (Cons c s)
  obtain y ys where s: "split_on q s = y # ys" by (cases "split_on q s") simp_all
  show ?case
  proof (cases "c = q")
    case False
    with Cons.prems have "str_contains s (q # w @ [q])" by (auto simp: has_prefix_def)
    with Cons.IH s False show ?thesis by simp
  next
    case True
    from Cons.prems consider "has_prefix (c # s) (q # w @ [q])" | "str_contains s (q # w @ [q])" by auto
    then show ?thesis
    proof cases
      case 1
      then obtain r where "s = w @ q # r" by (auto simp: has_prefix_iff)
      then have "split_on q s = w # split_on q r" using split_on_snoc_sep [OF w] by simp
      with True show ?thesis by simp
    next
      case 2
      then have "w \<in> set (butlast ys)" using Cons.IH s by simp
      with True s show ?thesis by (cases ys) simp_all
    qed
  qed
qed simp

section \<open>Quoting\<close>

lemma replace_all_Nil [simp]: "replace_all [] old new = []"
  by (subst replace_all.simps) simp

lemma replace_all_skip: "hd old \<noteq> c \<Longrightarrow> replace_all (c # cs) old new = c # replace_all cs old new"
  by (subst replace_all.simps) (cases old, auto simp: has_prefix_def)

lemma replace_all_hit: "old \<noteq> [] \<Longrightarrow> replace_all (old @ cs) old new = new @ replace_all cs old new"
proof -
  assume "old \<noteq> []"
  then obtain d ds where "old = d # ds" by (cases old) simp_all
  moreover have "has_prefix ((d # ds) @ cs) (d # ds)" by (rule has_prefix_append)
  ultimately show ?thesis by (subst replace_all.simps) simp
qed

lemma replace_quote:
  "replace_all (c # cs) [q] new = (if c = q then new @ replace_all cs [q] new else c # replace_all cs [q] new)"
  using replace_all_hit [of "[q]" cs new] replace_all_skip [of "[q]" c cs new] by auto

text \<open>Replacing back what was written for each quote gives the text.\<close>

lemma replace_back:
  "replace_all (replace_all v [q] (q # new)) (q # new) [q] = v"
proof (induction v)
  case (Cons c v)
  show ?case
  proof (cases "c = q")
    case True
    have "replace_all ((q # new) @ replace_all v [q] (q # new)) (q # new) [q] = q # v"
      using Cons by (subst replace_all_hit) simp_all
    with True show ?thesis by (simp add: replace_quote)
  next
    case False
    with Cons show ?thesis by (simp add: replace_quote replace_all_skip)
  qed
qed simp

lemma replace_nothing: "q \<notin> set v \<Longrightarrow> replace_all v (q # old) new = v"
  by (induction v) (auto simp: replace_all_skip)

lemma replace_quote_absent: "q \<notin> set v \<Longrightarrow> replace_all v [q] new = v"
  by (rule replace_nothing)

text \<open>The POSIX escape of a quote appears in every quoted text that has one.\<close>

lemma replace_contains:
  "q \<in> set v \<Longrightarrow> str_contains (replace_all v [q] (q # new)) (q # new)"
proof (induction v)
  case (Cons c v)
  show ?case
  proof (cases "c = q")
    case True
    have "has_prefix ((q # new) @ replace_all v [q] (q # new)) (q # new)" by (rule has_prefix_append)
    with True show ?thesis by (simp add: replace_quote)
  next
    case False
    with Cons show ?thesis by (simp add: replace_quote)
  qed
qed simp

lemma posix_unquote: "unquoteArgument SQ (quoteArgument POSIX v) = Some v"
proof (cases "SQ \<in> set v")
  case True
  then have "str_contains (replace_all v [SQ] [SQ, BS, SQ, SQ]) [SQ, BS, SQ, SQ]" by (rule replace_contains)
  then show ?thesis
    using replace_back [of v SQ "[BS, SQ, SQ]"]
    by (simp add: unquoteArgument_def quoteArgument_def Let_def butlast_append) (simp add: quote_chars)
next
  case False
  have "\<not> str_contains v [SQ, BS, SQ, SQ]"
  proof
    assume "str_contains v [SQ, BS, SQ, SQ]"
    then obtain i where "has_prefix (drop i v) [SQ, BS, SQ, SQ]" using str_contains_iff [of "[SQ, BS, SQ, SQ]" v] by auto
    then obtain t where "drop i v = SQ # t" by (auto simp: has_prefix_iff)
    with False show False by (metis in_set_dropD list.set_intros(1))
  qed
  with False show ?thesis
    by (simp add: unquoteArgument_def quoteArgument_def Let_def butlast_append replace_nothing) (simp add: quote_chars)
qed

text \<open>
  Two quotes in a row: where does \<open>'\''\<close> appear in a text in which every quote was doubled?
\<close>

lemma doubled_prefix:
  "has_prefix (replace_all v [SQ] [SQ, SQ]) (BS # SQ # SQ # p) \<Longrightarrow> has_prefix v [BS, SQ]"
proof (cases v)
  case (Cons c v')
  assume pre: "has_prefix (replace_all v [SQ] [SQ, SQ]) (BS # SQ # SQ # p)"
  have c: "c = BS" using pre Cons by (auto simp: replace_quote has_prefix_def quote_chars split: if_splits)
  with pre Cons have "has_prefix (replace_all v' [SQ] [SQ, SQ]) (SQ # SQ # p)"
    by (simp add: replace_quote has_prefix_def quote_chars)
  then obtain v'' where "v' = SQ # v''"
    by (cases v') (auto simp: replace_quote has_prefix_def split: if_splits)
  with c Cons show ?thesis by (simp add: has_prefix_def)
qed (simp add: has_prefix_def)

lemma doubled_contains:
  "str_contains (replace_all v [SQ] [SQ, SQ]) [SQ, BS, SQ, SQ] \<Longrightarrow> str_contains v [SQ, BS, SQ]"
proof (induction v)
  case (Cons c v)
  let ?r = "replace_all v [SQ] [SQ, SQ]"
  show ?case
  proof (cases "c = SQ")
    case False
    with Cons.prems have "str_contains ?r [SQ, BS, SQ, SQ]" by (auto simp: replace_quote has_prefix_def)
    with Cons.IH show ?thesis by simp
  next
    case True
    with Cons.prems have "str_contains (SQ # SQ # ?r) [SQ, BS, SQ, SQ]" by (simp add: replace_quote)
    then consider "has_prefix ?r [BS, SQ, SQ]" | "str_contains ?r [SQ, BS, SQ, SQ]"
      by (auto simp: has_prefix_def quote_chars)
    then show ?thesis
    proof cases
      case 1
      then have "has_prefix v [BS, SQ]" using doubled_prefix [of v "[]"] by simp
      with True show ?thesis by (simp add: has_prefix_def)
    next
      case 2
      with Cons.IH show ?thesis by simp
    qed
  qed
qed simp

lemma powershell_unquote:
  assumes "\<not> str_contains v [SQ, BS, SQ]"
  shows "unquoteArgument SQ (quoteArgument PowerShell v) = Some v"
proof -
  have "\<not> str_contains (replace_all v [SQ] [SQ, SQ]) [SQ, BS, SQ, SQ]"
    using assms doubled_contains by blast
  then show ?thesis
    using replace_back [of v SQ "[SQ]"]
    by (simp add: unquoteArgument_def quoteArgument_def Let_def butlast_append) (simp add: quote_chars)
qed

lemma trailing_append: "trailingBackslashes (v @ replicate n BS) = trailingBackslashes v + n"
  by (simp add: trailingBackslashes_def takeWhile_append)

lemma cmd_unquote: "unquoteArgument DQ (quoteArgument Cmd v) = Some v"
proof -
  let ?n = "trailingBackslashes v"
  have "trailingBackslashes (v @ replicate ?n BS) = 2 * ?n" by (simp add: trailing_append)
  moreover have "take (length v - ?n) v @ replicate ?n BS = v"
  proof -
    have "takeWhile (\<lambda>c. c = BS) (rev v) = replicate ?n BS"
      unfolding trailingBackslashes_def by (rule replicate_eqI) (auto dest: set_takeWhileD)
    moreover have "rev v = takeWhile (\<lambda>c. c = BS) (rev v) @ dropWhile (\<lambda>c. c = BS) (rev v)" by simp
    ultimately have "rev v = replicate ?n BS @ dropWhile (\<lambda>c. c = BS) (rev v)" by simp
    then have "v = rev (dropWhile (\<lambda>c. c = BS) (rev v)) @ replicate ?n BS"
      by (metis rev_append rev_replicate rev_rev_ident)
    then show ?thesis by (metis append_eq_conv_conj length_append length_replicate add_diff_cancel_right')
  qed
  ultimately show ?thesis
    by (simp add: unquoteArgument_def quoteArgument_def Let_def butlast_append flip: append_assoc)
qed

section \<open>The round trip\<close>

definition style_quote :: "commandStyle \<Rightarrow> char" where
  "style_quote style = (if style = Cmd then DQ else SQ)"

text \<open>The text between the quotes.\<close>

definition quoted_body :: "commandStyle \<Rightarrow> string \<Rightarrow> string" where
  "quoted_body style v =
     (case style of Cmd \<Rightarrow> v @ replicate (trailingBackslashes v) BS
      | PowerShell \<Rightarrow> replace_all v [SQ] [SQ, SQ]
      | POSIX \<Rightarrow> replace_all v [SQ] [SQ, BS, SQ, SQ])"

lemma quoteArgument_body: "quoteArgument style v = style_quote style # quoted_body style v @ [style_quote style]"
  by (cases style) (simp_all add: quoteArgument_def style_quote_def quoted_body_def)

text \<open>
  The values that a form can carry: every one, but for a PowerShell value that holds a backslash
  between two quotes, which the parser reads as a POSIX escape.
\<close>

definition style_safe :: "commandStyle \<Rightarrow> string \<Rightarrow> bool" where
  "style_safe style v \<longleftrightarrow>
     (style = PowerShell \<longrightarrow> \<not> str_contains v [SQ, BS, SQ]) \<and> (style = Cmd \<longrightarrow> DQ \<notin> set v)"

lemma unquote_quote: "style_safe style v \<Longrightarrow> unquoteArgument (style_quote style) (quoteArgument style v) = Some v"
  by (cases style) (simp_all add: style_safe_def style_quote_def posix_unquote powershell_unquote cmd_unquote)

lemma split_on_replace:
  "split_on q (replace_all v [q] (q # new @ [q])) = concat (map (\<lambda>x. [x]) [hd (split_on q v)])
     @ concat (map (\<lambda>x. split_on q new @ [x]) (tl (split_on q v)))"
proof (induction v)
  case (Cons c v)
  obtain y ys where v: "split_on q v = y # ys" by (cases "split_on q v") simp_all
  show ?case
  proof (cases "c = q")
    case True
    have "split_on q (new @ q # replace_all v [q] (q # new @ [q]))
      = split_on q new @ split_on q (replace_all v [q] (q # new @ [q]))" by (rule split_on_at)
    with True Cons v show ?thesis by (simp add: replace_quote)
  next
    case False
    with Cons v show ?thesis by (simp add: replace_quote)
  qed
qed simp

lemma replaced_piece:
  assumes "x \<in> set (split_on q (replace_all v [q] (q # new @ [q])))"
  shows "x \<in> set (split_on q v) \<or> x \<in> set (split_on q new)"
proof -
  obtain y ys where v: "split_on q v = y # ys" by (cases "split_on q v") simp_all
  from assms show ?thesis unfolding split_on_replace v by auto
qed

lemma body_pieces:
  assumes "style_safe style v" and x: "x \<in> set (split_on (style_quote style) (quoted_body style v))"
  shows "x \<in> set (split_on (style_quote style) v) \<or> x \<in> {[], [BS], v @ replicate (trailingBackslashes v) BS}"
proof (cases style)
  case Cmd
  let ?b = "v @ replicate (trailingBackslashes v) BS"
  have "DQ \<notin> set ?b" using assms(1) Cmd by (simp add: style_safe_def quote_chars)
  with x Cmd have "x = ?b" by (simp add: style_quote_def quoted_body_def split_on_single)
  then show ?thesis by simp
next
  case PowerShell
  then have "x \<in> set (split_on SQ (replace_all v [SQ] (SQ # [] @ [SQ])))"
    using x by (simp add: style_quote_def quoted_body_def)
  from replaced_piece [OF this] PowerShell show ?thesis by (auto simp: style_quote_def)
next
  case POSIX
  then have "x \<in> set (split_on SQ (replace_all v [SQ] (SQ # [BS, SQ] @ [SQ])))"
    using x by (simp add: style_quote_def quoted_body_def)
  moreover have "split_on SQ [BS, SQ] = [[BS], []]" by (simp add: quote_chars)
  ultimately show ?thesis using replaced_piece [of x SQ v "[BS, SQ]"] POSIX by (auto simp: style_quote_def)
qed

definition option_text :: string where "option_text = '' '' @ configRootArgument @ '' ''"

lemma option_text_code: "option_text = '' --config-root ''"
  by (simp add: option_text_def configRootArgument_def)

definition command_head :: "commandStyle \<Rightarrow> string \<Rightarrow> string \<Rightarrow> string" where
  "command_head style e r =
     (if style = PowerShell then ''& '' else []) @ quoteArgument style e @ option_text @ quoteArgument style r"

lemma joinCommand_head:
  "joinCommand style [quoteArgument style e, configRootArgument, quoteArgument style r, ''agent-hook'', ''--vendor'', vendor]
     = command_head style e r @ vendorMarker @ vendor"
  by (simp add: joinCommand_def command_head_def option_text_def vendorMarker_def Let_def)

lemma parsePrefix_head:
  assumes safe: "style_safe style e" "style_safe style r" and r: "r \<noteq> []"
    and e: "option_text \<notin> set (split_on (style_quote style) e)" "hd e \<noteq> CHR '' ''"
  shows "parsePrefix (command_head style e r) = Some (e, r)"
proof -
  let ?q = "style_quote style"
  let ?M = "?q # option_text @ [?q]"
  let ?p = "(?q # quoted_body style e) @ ?M @ (quoted_body style r @ [?q])"
  have q: "?q \<noteq> CHR ''&''" "?q \<notin> set option_text" "?q = SQ \<or> ?q = DQ" and o: "option_text \<noteq> []" "option_text \<noteq> [BS]"
    by (cases style; simp add: style_quote_def quote_chars option_text_code)+
  have p: "trim_prefix (command_head style e r) ''& '' = ?p"
    using q(1) by (cases style) (auto simp: trim_prefix_def command_head_def quoteArgument_body has_prefix_def)
  have "option_text \<notin> set (split_on ?q (quoted_body style e))"
  proof
    assume "option_text \<in> set (split_on ?q (quoted_body style e))"
    with body_pieces [OF safe(1)] e o have ov: "option_text = e @ replicate (trailingBackslashes e) BS" by auto
    show False
    proof (cases e)
      case Nil
      with ov o show False by (simp add: trailingBackslashes_def)
    next
      case (Cons c e')
      with ov e(2) show False by (simp add: option_text_code)
    qed
  qed
  moreover have "butlast (tl (split_on ?q ((?q # quoted_body style e) @ ?q # option_text)))
      = split_on ?q (quoted_body style e)"
    using split_on_at [of ?q "?q # quoted_body style e" option_text] split_on_single [OF q(2)]
    by (simp add: butlast_append)
  ultimately have "\<not> str_contains ((?q # quoted_body style e) @ butlast ?M) ?M"
    using quoted_piece [OF _ q(2), of "(?q # quoted_body style e) @ ?q # option_text"] by auto
  then have at: "str_index ?p ?M = Some (length (quoted_body style e) + 1)"
    using str_index_append [of "?q # quoted_body style e" ?M "quoted_body style r @ [?q]"] by simp
  have left: "take (length (quoted_body style e) + 1 + 1) ?p = quoteArgument style e"
    by (simp add: quoteArgument_body)
  have right: "drop (length (quoted_body style e) + 1 + length ?M - 1) ?p = quoteArgument style r"
    by (simp add: quoteArgument_body)
  have marker: "[?q] @ '' '' @ configRootArgument @ '' '' @ [?q] = ?M" by (simp add: option_text_def)
  have ends: "hd ?p = ?q" "last ?p = ?q" "\<not> length ?p < 2" by simp_all
  show ?thesis
    unfolding parsePrefix_def Let_def p ends(1) marker at
    using ends q(3) unquote_quote [OF safe(1)] unquote_quote [OF safe(2)] r by (simp only: option.case left right) simp
qed

text \<open>The delimiter is in no piece of the head, so the parser finds the one that was written.\<close>

lemma marker_chars: "SQ \<notin> set vendorMarker" "DQ \<notin> set vendorMarker" "BS \<notin> set vendorMarker" "vendorMarker \<noteq> []"
  by (simp_all add: vendorMarker_def quote_chars)

lemma marker_in_backslashes: "str_contains (v @ replicate n BS) vendorMarker \<Longrightarrow> str_contains v vendorMarker"
proof (induction n)
  case (Suc n)
  have "split_on BS (v @ replicate (Suc n) BS) = split_on BS (v @ replicate n BS) @ [[]]"
    using split_on_at [of BS "v @ replicate n BS" "[]"] by (simp add: replicate_append_same)
  with Suc marker_chars show ?case
    by (simp add: str_contains_quoteless [of BS vendorMarker])
qed simp

lemma body_has_no_marker:
  assumes safe: "style_safe style v" and v: "\<not> str_contains v vendorMarker"
    and x: "x \<in> set (split_on (style_quote style) (quoted_body style v))"
  shows "\<not> str_contains x vendorMarker"
proof -
  have q: "style_quote style \<notin> set vendorMarker" using marker_chars by (simp add: style_quote_def)
  from body_pieces [OF safe x] consider "x \<in> set (split_on (style_quote style) v)" | "x \<in> {[], [BS]}"
    | "x = v @ replicate (trailingBackslashes v) BS" by blast
  then show ?thesis
  proof cases
    case 1
    with v show ?thesis using str_contains_quoteless [OF q marker_chars(4), of v] by blast
  next
    case 2
    then show ?thesis by (auto simp: vendorMarker_def has_prefix_def)
  next
    case 3
    with v marker_in_backslashes show ?thesis by blast
  qed
qed

lemma no_marker_in_text:
  "\<not> str_contains ''& '' vendorMarker" "\<not> str_contains [] vendorMarker"
  "\<not> str_contains option_text vendorMarker" "\<not> str_contains (butlast vendorMarker) vendorMarker"
  by code_simp+

lemma quote_not_in_text:
  "style_quote style \<notin> set ''& ''" "style_quote style \<notin> set option_text"
  "style_quote style \<notin> set vendorMarker" "style_quote style \<notin> set (butlast vendorMarker)"
  by (simp_all add: style_quote_def quote_chars option_text_code vendorMarker_def)

lemma head_pieces:
  assumes "q \<notin> set amp" and "q \<notin> set w" and "q \<notin> set m"
  shows "split_on q ((amp @ (q # a @ [q]) @ w @ (q # b @ [q])) @ m)
    = [amp] @ split_on q a @ [w] @ split_on q b @ [m]"
proof -
  have "(amp @ (q # a @ [q]) @ w @ (q # b @ [q])) @ m = amp @ q # (a @ q # (w @ q # (b @ q # m)))" by simp
  then show ?thesis
    using split_on_single [OF assms(1)] split_on_single [OF assms(2)] split_on_single [OF assms(3)]
    by (simp only: split_on_at)
qed

lemma head_has_no_marker:
  assumes safe: "style_safe style e" "style_safe style r"
    and no: "\<not> str_contains e vendorMarker" "\<not> str_contains r vendorMarker"
  shows "\<not> str_contains (command_head style e r @ butlast vendorMarker) vendorMarker"
proof -
  let ?q = "style_quote style"
  obtain amp where amp: "amp = ''& '' \<or> amp = []"
    and head: "command_head style e r = amp @ quoteArgument style e @ option_text @ quoteArgument style r"
    by (cases "style = PowerShell") (simp_all add: command_head_def)
  have plain: "?q \<notin> set amp" using amp quote_not_in_text(1) by auto
  have none: "\<not> str_contains amp vendorMarker" using amp no_marker_in_text(1,2) by blast
  have pieces: "split_on ?q (command_head style e r @ butlast vendorMarker)
      = [amp] @ split_on ?q (quoted_body style e) @ [option_text] @ split_on ?q (quoted_body style r) @ [butlast vendorMarker]"
    unfolding head quoteArgument_body by (rule head_pieces [OF plain quote_not_in_text(2,4)])
  show ?thesis
  proof
    assume "str_contains (command_head style e r @ butlast vendorMarker) vendorMarker"
    then obtain x where x: "x \<in> set (split_on ?q (command_head style e r @ butlast vendorMarker))"
      and cx: "str_contains x vendorMarker"
      using str_contains_quoteless [OF quote_not_in_text(3) marker_chars(4)] by blast
    from x consider "x = amp" | "x \<in> set (split_on ?q (quoted_body style e))" | "x = option_text"
      | "x \<in> set (split_on ?q (quoted_body style r))" | "x = butlast vendorMarker"
      unfolding pieces set_append by (elim UnE) (simp_all only: list.set empty_iff insert_iff simp_thms)
    then show False
      by cases (use cx none no_marker_in_text body_has_no_marker [OF safe(1) no(1)]
          body_has_no_marker [OF safe(2) no(2)] in blast)+
  qed
qed

lemma set_replace: "set (replace_all v [q] new) \<subseteq> set v \<union> set new"
  by (induction v) (auto simp: replace_quote)

lemma set_body: "set (quoted_body style v) \<subseteq> set v \<union> {SQ, BS}"
proof (cases style)
  case Cmd
  then show ?thesis by (auto simp: quoted_body_def)
next
  case PowerShell
  with set_replace [of v SQ "[SQ, SQ]"] show ?thesis by (auto simp: quoted_body_def)
next
  case POSIX
  with set_replace [of v SQ "[SQ, BS, SQ, SQ]"] show ?thesis by (auto simp: quoted_body_def)
qed

lemma set_head: "set (command_head style e r) \<subseteq> set e \<union> set r \<union> {SQ, DQ, BS} \<union> set ''& '' \<union> set option_text"
  using set_body [of style e] set_body [of style r]
  by (auto simp: command_head_def quoteArgument_body style_quote_def split: if_splits)

lemma valid_head:
  assumes "\<not> contains_any e [CR, LF, NUL]" "\<not> contains_any r [CR, LF, NUL]" and vendor: "supportedVendor vendor"
  shows "\<not> contains_any (command_head style e r @ vendorMarker @ vendor) [CR, LF, NUL]"
proof -
  have "set vendor \<union> set vendorMarker \<union> {SQ, DQ, BS} \<union> set ''& '' \<union> set option_text
      \<subseteq> - {CR, LF, NUL}"
    using vendor by (auto simp: supportedVendor_def vendorMarker_def quote_chars option_text_code control_chars)
  with set_head [of style e r] assms(1,2) show ?thesis by (auto simp: contains_any_def)
qed

text \<open>
  A Windows path may hold a backslash between two quotes, and its PowerShell form is then read as
  a POSIX one.
\<close>

lemma powershell_ambiguous:
  "let v = ''C:'' @ [BS] @ ''it'' @ [SQ, BS, SQ] @ ''x'' in
     windowsAbsolute v \<and> unquoteArgument SQ (quoteArgument PowerShell v) \<noteq> Some v"
  by code_simp

text \<open>Absolute paths do not start with a space.\<close>

lemma windows_head: "windowsAbsolute v \<Longrightarrow> v \<noteq> [] \<and> hd v \<noteq> CHR '' ''"
proof -
  assume w: "windowsAbsolute v"
  show ?thesis
  proof (cases v)
    case Nil
    with w show ?thesis by (simp add: windowsAbsolute_def has_prefix_def)
  next
    case (Cons c v')
    have "\<not> ascii_letter (CHR '' '')" by (simp add: ascii_letter_def byte_def)
    moreover have "\<not> has_prefix (replace_all (CHR '' '' # v') [BS] ''/'') ''//''"
      by (simp add: replace_quote has_prefix_def quote_chars)
    ultimately have "c \<noteq> CHR '' ''" using w Cons by (auto simp: windowsAbsolute_def Let_def split: if_splits)
    with Cons show ?thesis by simp
  qed
qed

lemma absolute_head: "isAbsolutePath v \<Longrightarrow> v \<noteq> [] \<and> hd v \<noteq> CHR '' ''"
  using windows_head [of v] by (cases v) (auto simp: isAbsolutePath_def has_prefix_def)

lemma pathIsAbs_absolute: "pathIsAbs v goos \<Longrightarrow> isAbsolutePath v"
  by (auto simp: pathIsAbs_def isAbsolutePath_def split: if_splits)

lemma commandForOS_Inr:
  assumes "commandForOS h goos executable configRoot vendor = Inr c"
  shows "supportedVendor vendor \<and> (\<exists>e r. resolve_arguments h goos executable configRoot = Inr (e, r)
    \<and> validateArgument (styleFor goos vendor) e = None \<and> validateArgument (styleFor goos vendor) r = None
    \<and> c = command_head (styleFor goos vendor) e r @ vendorMarker @ vendor)"
proof -
  have vendor: "supportedVendor vendor" using assms by (simp add: commandForOS_def split: if_splits)
  obtain e r where res: "resolve_arguments h goos executable configRoot = Inr (e, r)"
    using assms vendor by (cases "resolve_arguments h goos executable configRoot") (auto simp: commandForOS_def)
  let ?s = "styleFor goos vendor"
  have "Inr c = (case validateArgument ?s e of Some err \<Rightarrow> Inl err
      | None \<Rightarrow> (case validateArgument ?s r of Some err \<Rightarrow> Inl err
                | None \<Rightarrow> Inr (command_head ?s e r @ vendorMarker @ vendor)))"
    using assms vendor res unfolding commandForOS_def Let_def joinCommand_head by simp
  then have "validateArgument ?s e = None \<and> validateArgument ?s r = None \<and> c = command_head ?s e r @ vendorMarker @ vendor"
    by (auto split: option.splits)
  with vendor res show ?thesis by blast
qed

lemma has_suffix_append: "length t \<le> length s \<Longrightarrow> has_suffix (p @ s) t \<longleftrightarrow> has_suffix s t"
  by (simp add: has_suffix_def)

lemma command_vendor_suffix:
  assumes "supportedVendor vendor"
  shows "commandVendor (p @ vendorMarker @ vendor) = (if vendor = ''cursor'' then [] else vendor)"
proof -
  have codex: "has_suffix (p @ vendorMarker @ vendor) (vendorMarker @ ''codex'')
      \<longleftrightarrow> has_suffix (vendorMarker @ vendor) (vendorMarker @ ''codex'')"
    using assms by (intro has_suffix_append) (auto simp: supportedVendor_def)
  have claude: "has_suffix (p @ vendorMarker @ vendor) (vendorMarker @ ''claude'')
      \<longleftrightarrow> has_suffix (vendorMarker @ vendor) (vendorMarker @ ''claude'')" if "vendor \<noteq> ''codex''"
    using assms that by (intro has_suffix_append) (auto simp: supportedVendor_def)
  have facts: "has_suffix (vendorMarker @ ''codex'') (vendorMarker @ ''codex'')"
    "\<not> has_suffix (vendorMarker @ ''claude'') (vendorMarker @ ''codex'')"
    "\<not> has_suffix (vendorMarker @ ''cursor'') (vendorMarker @ ''codex'')"
    "has_suffix (vendorMarker @ ''claude'') (vendorMarker @ ''claude'')"
    "\<not> has_suffix (vendorMarker @ ''cursor'') (vendorMarker @ ''claude'')" by code_simp+
  from assms consider "vendor = ''codex''" | "vendor = ''claude''" | "vendor = ''cursor''"
    by (auto simp: supportedVendor_def)
  then show ?thesis
  proof cases
    case 1
    with codex facts show ?thesis by (simp only: commandVendor_def if_True) simp
  next
    case 2
    have "vendor \<noteq> ''codex''" "vendor \<noteq> ''cursor''" using 2 by simp_all
    with 2 codex claude [OF \<open>vendor \<noteq> ''codex''\<close>] facts show ?thesis
      by (simp only: commandVendor_def if_True if_False)
  next
    case 3
    have "vendor \<noteq> ''codex''" using 3 by simp
    with 3 codex claude [OF this] facts show ?thesis by (simp only: commandVendor_def if_True if_False) simp
  qed
qed

lemma resolved_absolute:
  assumes "resolve_arguments h goos executable configRoot = Inr (e, r)"
    and abs: "\<And>p q. hh_abs h p = Inr q \<Longrightarrow> pathIsAbs q (hh_os h)"
  shows "isAbsolutePath e \<and> isAbsolutePath r"
  using assms unfolding resolve_arguments_def
  by (auto simp: bindE_def split: if_splits sum.splits intro: pathIsAbs_absolute)


definition sample_hook_host :: hook_host where
  "sample_hook_host = \<lparr>hh_os = ''linux'', hh_abs = (\<lambda>p. Inr (if is_abs p then clean p else join_path ''/work'' p))\<rparr>"

lemma sample_hook_abs: "hh_abs sample_hook_host p = Inr q \<Longrightarrow> pathIsAbs q (hh_os sample_hook_host)"
  by (auto simp: sample_hook_host_def pathIsAbs_def has_prefix_def clean_def join_path_def Let_def is_abs_def)


end
