(* ===== verification/Hook_Config.thy ===== *)
theory Hook_Config
  imports Hook_Command "HOL-Library.AList"
begin

text \<open>
  The settings files of Claude Code and Codex (\<^verbatim>\<open>internal/hookconfig/hooks.go\<close>): the managed hooks
  are installed, inspected, rebound and removed, and the coordination tools allowed, in a document
  that belongs to the member.

  A file is the JSON value it holds and its length. A \<^verbatim>\<open>map[string]json.RawMessage\<close> is an
  association list with distinct keys, \<open>None\<close> the nil map that \<^verbatim>\<open>json.Unmarshal\<close> makes of
  \<^verbatim>\<open>null\<close>; assigning to a nil map is a panic, an error value here. The iteration order of a map is
  the order of its list. Field names are matched as \<^verbatim>\<open>encoding/json\<close> does, without regard to the
  case of ASCII letters. Parameters: the length of an encoded document, and the results of the
  file operations that replace the file.
\<close>

section \<open>JSON documents\<close>

datatype raw = RNull | RBool bool | RNum string | RStr string | RArr "raw list" | RObj "(string \<times> raw) list"

type_synonym members = "(string \<times> raw) list"
type_synonym gomap = "members option"

definition of_members :: "(string \<times> raw) list \<Rightarrow> members" where
  "of_members ms = fold (\<lambda>(k, v). AList.update k v) ms []"

definition lookup :: "gomap \<Rightarrow> string \<Rightarrow> raw option" where
  "lookup m k = (case m of None \<Rightarrow> None | Some fs \<Rightarrow> map_of fs k)"

definition assign :: "gomap \<Rightarrow> string \<Rightarrow> raw \<Rightarrow> string + gomap" where
  "assign m k v =
     (case m of None \<Rightarrow> Inl ''panic: assignment to entry in nil map'' | Some fs \<Rightarrow> Inr (Some (AList.update k v fs)))"

definition remove_key :: "string \<Rightarrow> gomap \<Rightarrow> gomap" where
  "remove_key k m = map_option (AList.delete k) m"

definition map_size :: "gomap \<Rightarrow> nat" where
  "map_size m = (case m of None \<Rightarrow> 0 | Some fs \<Rightarrow> length fs)"

definition encode_map :: "gomap \<Rightarrow> raw" where
  "encode_map m = (case m of None \<Rightarrow> RNull | Some fs \<Rightarrow> RObj (sort_key fst fs))"

definition unmarshal_map :: "raw \<Rightarrow> string + gomap" where
  "unmarshal_map v =
     (case v of RNull \<Rightarrow> Inr None | RObj ms \<Rightarrow> Inr (Some (of_members ms)) | _ \<Rightarrow> Inl ''json: cannot unmarshal'')"

text \<open>\<^verbatim>\<open>strconv.ParseInt\<close> of a JSON number, as for a field of type \<^verbatim>\<open>int\<close>.\<close>

definition digits_value :: "string \<Rightarrow> int" where
  "digits_value ds = foldl (\<lambda>n c. 10 * n + (int (byte c) - 48)) 0 ds"

definition int_literal :: "string \<Rightarrow> int option" where
  "int_literal s =
     (let neg = has_prefix s ''-''; ds = if neg then tl s else s;
          n = if neg then - digits_value ds else digits_value ds in
      if ds = [] \<or> \<not> list_all (\<lambda>c. 48 \<le> byte c \<and> byte c \<le> 57) ds then None
      else if n < - (2 ^ 63) \<or> 2 ^ 63 \<le> n then None else Some n)"

fun mapE :: "('a \<Rightarrow> 'e + 'b) \<Rightarrow> 'a list \<Rightarrow> 'e + 'b list" where
  "mapE f [] = Inr []"
| "mapE f (x # xs) = bindE (f x) (\<lambda>y. bindE (mapE f xs) (\<lambda>ys. Inr (y # ys)))"

definition decode_error :: string where "decode_error = ''json: cannot unmarshal''"

definition decode_string :: "raw \<Rightarrow> string \<Rightarrow> string + string" where
  "decode_string v old = (case v of RStr s \<Rightarrow> Inr s | RNull \<Rightarrow> Inr old | _ \<Rightarrow> Inl decode_error)"

definition decode_bool :: "raw \<Rightarrow> bool \<Rightarrow> string + bool" where
  "decode_bool v old = (case v of RBool b \<Rightarrow> Inr b | RNull \<Rightarrow> Inr old | _ \<Rightarrow> Inl decode_error)"

definition decode_int :: "raw \<Rightarrow> int \<Rightarrow> string + int" where
  "decode_int v old =
     (case v of RNum s \<Rightarrow> (case int_literal s of None \<Rightarrow> Inl decode_error | Some n \<Rightarrow> Inr n)
      | RNull \<Rightarrow> Inr old | _ \<Rightarrow> Inl decode_error)"

section \<open>Groups and handlers\<close>

record handler =
  h_type :: string
  h_command :: string
  h_async :: bool
  h_timeout :: int
  h_shell :: string

text \<open>A nil slice of handlers is \<open>None\<close>.\<close>

record group =
  g_matcher :: string
  g_hooks :: "handler list option"

definition handlers :: "group \<Rightarrow> handler list" where
  "handlers g = (case g_hooks g of None \<Rightarrow> [] | Some hs \<Rightarrow> hs)"

definition zero_handler :: handler where
  "zero_handler = \<lparr>h_type = [], h_command = [], h_async = False, h_timeout = 0, h_shell = []\<rparr>"

definition decode_handler_field :: "string \<times> raw \<Rightarrow> handler \<Rightarrow> string + handler" where
  "decode_handler_field kv h =
     (let (k, v) = kv in
      if equal_fold k ''type'' then bindE (decode_string v (h_type h)) (\<lambda>s. Inr (h\<lparr>h_type := s\<rparr>))
      else if equal_fold k ''command'' then bindE (decode_string v (h_command h)) (\<lambda>s. Inr (h\<lparr>h_command := s\<rparr>))
      else if equal_fold k ''async'' then bindE (decode_bool v (h_async h)) (\<lambda>b. Inr (h\<lparr>h_async := b\<rparr>))
      else if equal_fold k ''timeout'' then bindE (decode_int v (h_timeout h)) (\<lambda>n. Inr (h\<lparr>h_timeout := n\<rparr>))
      else if equal_fold k ''shell'' then bindE (decode_string v (h_shell h)) (\<lambda>s. Inr (h\<lparr>h_shell := s\<rparr>))
      else Inr h)"

definition decode_handler :: "raw \<Rightarrow> string + handler" where
  "decode_handler v =
     (case v of RNull \<Rightarrow> Inr zero_handler | RObj ms \<Rightarrow> foldE decode_handler_field ms zero_handler
      | _ \<Rightarrow> Inl decode_error)"

definition decode_group_field :: "string \<times> raw \<Rightarrow> group \<Rightarrow> string + group" where
  "decode_group_field kv g =
     (let (k, v) = kv in
      if equal_fold k ''matcher'' then bindE (decode_string v (g_matcher g)) (\<lambda>s. Inr (g\<lparr>g_matcher := s\<rparr>))
      else if equal_fold k ''hooks'' then
        (case v of RNull \<Rightarrow> Inr (g\<lparr>g_hooks := None\<rparr>)
         | RArr xs \<Rightarrow> bindE (mapE decode_handler xs) (\<lambda>hs. Inr (g\<lparr>g_hooks := Some hs\<rparr>))
         | _ \<Rightarrow> Inl decode_error)
      else Inr g)"

definition decode_group :: "raw \<Rightarrow> string + group" where
  "decode_group v =
     (let zero = \<lparr>g_matcher = [], g_hooks = None\<rparr> in
      case v of RNull \<Rightarrow> Inr zero | RObj ms \<Rightarrow> foldE decode_group_field ms zero | _ \<Rightarrow> Inl decode_error)"

definition groupsFor :: "raw option \<Rightarrow> string + group list" where
  "groupsFor v =
     (case v of None \<Rightarrow> Inr []
      | Some r \<Rightarrow> (case r of RNull \<Rightarrow> Inr [] | RArr xs \<Rightarrow> mapE decode_group xs | _ \<Rightarrow> Inl decode_error))"

definition encode_handler :: "handler \<Rightarrow> raw" where
  "encode_handler h = RObj
     ([(''type'', RStr (h_type h)), (''command'', RStr (h_command h))]
      @ (if h_async h then [(''async'', RBool True)] else [])
      @ (if h_timeout h \<noteq> 0 then [(''timeout'', RNum (int_dec (h_timeout h)))] else [])
      @ (if h_shell h \<noteq> [] then [(''shell'', RStr (h_shell h))] else []))"

definition encode_group :: "group \<Rightarrow> raw" where
  "encode_group g = RObj
     ((if g_matcher g \<noteq> [] then [(''matcher'', RStr (g_matcher g))] else [])
      @ [(''hooks'', case g_hooks g of None \<Rightarrow> RNull | Some hs \<Rightarrow> RArr (map encode_handler hs))])"

definition encode_groups :: "group list \<Rightarrow> raw" where
  "encode_groups gs = RArr (map encode_group gs)"

section \<open>The expected hooks\<close>

definition claudeEvents :: "string list" where
  "claudeEvents = [''SessionStart'', ''UserPromptSubmit'', ''PreToolUse'', ''PermissionRequest'',
     ''PostToolUse'', ''PostToolUseFailure'', ''SubagentStart'', ''SubagentStop'', ''Stop'', ''SessionEnd'']"

definition codexEvents :: "string list" where
  "codexEvents = [''SessionStart'', ''UserPromptSubmit'', ''PreToolUse'', ''PermissionRequest'',
     ''PostToolUse'', ''SubagentStart'', ''SubagentStop'', ''Stop'', ''SessionEnd'']"

definition codexSessionEndTimeout :: int where "codexSessionEndTimeout = 3"

definition configuredEvents :: "string \<Rightarrow> string list" where
  "configuredEvents command = (if has_suffix command ''--vendor codex'' then codexEvents else claudeEvents)"

definition expected_handler :: "string \<Rightarrow> string \<Rightarrow> string \<Rightarrow> handler" where
  "expected_handler os event command =
     (let injectionBoundary = event \<in> {''SessionStart'', ''UserPromptSubmit''} in
      \<lparr>h_type = ''command'', h_command = command,
       h_async = (event \<noteq> ''SessionEnd'' \<and> \<not> injectionBoundary),
       h_timeout = (if event = ''SessionEnd'' \<and> commandVendor command = ''codex'' then codexSessionEndTimeout
                    else if injectionBoundary then 2 else 5),
       h_shell = (if os = ''windows'' \<and> commandVendor command = ''claude'' then ''powershell'' else [])\<rparr>)"

definition expected :: "string \<Rightarrow> string \<Rightarrow> string \<Rightarrow> group" where
  "expected os event command =
     \<lparr>g_matcher = (if event \<in> {''PreToolUse'', ''PermissionRequest'', ''PostToolUse'', ''PostToolUseFailure''}
                   then ''*'' else []),
      g_hooks = Some [expected_handler os event command]\<rparr>"

section \<open>Reading and writing\<close>

datatype settings = Missing | Unreadable string | Malformed int | Contents int raw

definition read_settings :: "settings \<Rightarrow> string + (gomap \<times> gomap)" where
  "read_settings f =
     (let parsed = (\<lambda>n doc.
        if n > 2 ^ 20 then Inl ''hook settings exceed 1 MiB''
        else bindE (case doc of None \<Rightarrow> Inl ''parse hook settings'' | Some v \<Rightarrow>
                      (case unmarshal_map v of Inl e \<Rightarrow> Inl (''parse hook settings: '' @ e) | Inr m \<Rightarrow> Inr m))
          (\<lambda>document. case lookup document ''hooks'' of
             None \<Rightarrow> Inr (document, Some [])
           | Some raw \<Rightarrow> (case unmarshal_map raw of Inl e \<Rightarrow> Inl ''hooks must be a JSON object''
                          | Inr hooks \<Rightarrow> Inr (document, hooks)))) in
      case f of Missing \<Rightarrow> parsed (2 :: int) (Some (RObj []))
      | Unreadable e \<Rightarrow> Inl (''read hook settings: '' @ e)
      | Malformed n \<Rightarrow> parsed n None
      | Contents n v \<Rightarrow> parsed n (Some v))"

text \<open>
  The file system at the directory of the file: each field is the error of that step, and
  \<open>ws_length\<close> the length of an encoded document.
\<close>

record write_steps =
  ws_length :: "raw \<Rightarrow> int"
  ws_mkdir :: "string option"
  ws_temporary :: "string option"
  ws_fill :: "string option"
  ws_replace :: "string option"

definition write_settings :: "write_steps \<Rightarrow> gomap \<Rightarrow> gomap \<Rightarrow> string + settings" where
  "write_settings w document hooks =
     bindE (if map_size hooks = 0 then Inr (remove_key ''hooks'' document)
            else assign document ''hooks'' (encode_map hooks)) (\<lambda>document'.
       case ws_mkdir w of Some e \<Rightarrow> Inl (''create hook settings directory: '' @ e)
       | None \<Rightarrow> (case ws_temporary w of Some e \<Rightarrow> Inl (''create temporary hook settings: '' @ e)
         | None \<Rightarrow> (case ws_fill w of Some e \<Rightarrow> Inl (''write hook settings: '' @ e)
           | None \<Rightarrow> (case ws_replace w of Some e \<Rightarrow> Inl (''activate hook settings: '' @ e)
             | None \<Rightarrow> Inr (Contents (ws_length w (encode_map document')) (encode_map document'))))))"

section \<open>Operations\<close>

datatype BindingState = BindingNotConfigured | BindingCurrent | BindingPartial | BindingOtherProfile

record Inspection =
  in_state :: BindingState
  in_existing :: string

text \<open>The handlers that belong to the product.\<close>

definition own :: "handler \<Rightarrow> bool" where
  "own h \<longleftrightarrow> managed (h_command h)"

definition event_groups :: "string \<Rightarrow> gomap \<Rightarrow> string + group list" where
  "event_groups event hooks =
     (case groupsFor (lookup hooks event) of
        Inl e \<Rightarrow> Inl (''decode '' @ event @ '' hooks: '' @ e) | Inr gs \<Rightarrow> Inr gs)"

text \<open>Groups without a managed handler are kept; a managed handler of another command is an error.\<close>

fun check_own :: "string \<Rightarrow> string \<Rightarrow> handler list \<Rightarrow> string + bool" where
  "check_own err command [] = Inr False"
| "check_own err command (h # hs) =
     (if own h \<and> h_command h \<noteq> command then Inl err
      else bindE (check_own err command hs) (\<lambda>b. Inr (own h \<or> b)))"

fun drop_managed :: "string \<Rightarrow> string \<Rightarrow> group list \<Rightarrow> string + group list" where
  "drop_managed err command [] = Inr []"
| "drop_managed err command (g # gs) =
     bindE (check_own err command (handlers g)) (\<lambda>remove.
       bindE (drop_managed err command gs) (\<lambda>kept. Inr (if remove then kept else g # kept)))"

definition store_groups :: "string \<Rightarrow> group list \<Rightarrow> gomap \<Rightarrow> string + gomap" where
  "store_groups event gs hooks =
     (if gs = [] then Inr (remove_key event hooks) else assign hooks event (encode_groups gs))"

text \<open>The search for the first managed handler of an event, which is repaired in place.\<close>

datatype 'a finding = Absent | Intact | Repaired 'a

primrec map_finding :: "('a \<Rightarrow> 'b) \<Rightarrow> 'a finding \<Rightarrow> 'b finding" where
  "map_finding f Absent = Absent"
| "map_finding f Intact = Intact"
| "map_finding f (Repaired x) = Repaired (f x)"

definition install_drift :: string where
  "install_drift = ''managed Overgent activity hook drifted; refusing to overwrite it''"

fun repair_handlers :: "handler \<Rightarrow> string \<Rightarrow> handler list \<Rightarrow> string + handler list finding" where
  "repair_handlers wanted command [] = Inr Absent"
| "repair_handlers wanted command (h # hs) =
     (if own h then
        if h_command h \<noteq> command then Inl install_drift
        else Inr (if h = wanted then Intact else Repaired (wanted # hs))
      else bindE (repair_handlers wanted command hs) (\<lambda>r. Inr (map_finding ((#) h) r)))"

fun repair_groups :: "handler \<Rightarrow> string \<Rightarrow> group list \<Rightarrow> string + group list finding" where
  "repair_groups wanted command [] = Inr Absent"
| "repair_groups wanted command (g # gs) =
     bindE (repair_handlers wanted command (handlers g)) (\<lambda>r.
       case r of
         Absent \<Rightarrow> bindE (repair_groups wanted command gs) (\<lambda>r'. Inr (map_finding ((#) g) r'))
       | Intact \<Rightarrow> Inr Intact
       | Repaired hs \<Rightarrow> Inr (Repaired (g\<lparr>g_hooks := Some hs\<rparr> # gs)))"

definition install_event :: "string \<Rightarrow> string \<Rightarrow> string \<Rightarrow> gomap \<Rightarrow> string + gomap" where
  "install_event os command event hooks =
     bindE (event_groups event hooks) (\<lambda>gs.
       bindE (repair_groups (expected_handler os event command) command gs) (\<lambda>r.
         case r of
           Intact \<Rightarrow> Inr hooks
         | Repaired gs' \<Rightarrow> assign hooks event (encode_groups gs')
         | Absent \<Rightarrow> assign hooks event (encode_groups (gs @ [expected os event command]))))"

definition codex_cleanup :: "string \<Rightarrow> gomap \<Rightarrow> string + gomap" where
  "codex_cleanup command hooks =
     (if has_suffix command ''--vendor codex'' then
        bindE (event_groups ''PostToolUseFailure'' hooks) (\<lambda>gs.
          bindE (drop_managed install_drift command gs) (\<lambda>kept. store_groups ''PostToolUseFailure'' kept hooks))
      else Inr hooks)"

definition Install :: "string \<Rightarrow> write_steps \<Rightarrow> settings \<Rightarrow> string \<Rightarrow> string + settings" where
  "Install os w f command =
     bindE (read_settings f) (\<lambda>(document, hooks).
       bindE (codex_cleanup command hooks) (\<lambda>hooks1.
         bindE (foldE (install_event os command) (configuredEvents command) hooks1) (\<lambda>hooks2.
           write_settings w document hooks2)))"

text \<open>\<open>sn\<close> collects the commands and the complete events that an inspection has seen.\<close>

record seen =
  sn_commands :: "string list"
  sn_present :: "string list"

definition inspect_handler :: "string \<Rightarrow> string \<Rightarrow> string \<Rightarrow> handler \<Rightarrow> seen \<Rightarrow> string + seen" where
  "inspect_handler os vendor event h sn =
     (if own h then
        if \<not> managedForVendor (h_command h) vendor then Inl ''managed Overgent activity hook drifted''
        else Inr (sn\<lparr>sn_commands := List.insert (h_command h) (sn_commands sn),
                     sn_present := (if h = expected_handler os event (h_command h)
                                    then List.insert event (sn_present sn) else sn_present sn)\<rparr>)
      else Inr sn)"

definition inspect_event :: "string \<Rightarrow> string \<Rightarrow> gomap \<Rightarrow> string \<Rightarrow> seen \<Rightarrow> string + seen" where
  "inspect_event os vendor hooks event sn =
     bindE (event_groups event hooks) (\<lambda>gs.
       foldE (inspect_handler os vendor event) (concat (map handlers gs)) sn)"

definition inspect_hooks :: "string \<Rightarrow> gomap \<Rightarrow> string \<Rightarrow> string + Inspection" where
  "inspect_hooks os hooks command =
     (let vendor = commandVendor command in
      if vendor = [] then Inl ''invalid expected Overgent activity hook command''
      else bindE (foldE (inspect_event os vendor hooks) (configuredEvents command) \<lparr>sn_commands = [], sn_present = []\<rparr>) (\<lambda>sn.
        case sn_commands sn of
          [] \<Rightarrow> Inr \<lparr>in_state = BindingNotConfigured, in_existing = []\<rparr>
        | existing # others \<Rightarrow>
            if others \<noteq> [] then Inl ''conflicting managed Overgent activity hooks''
            else if existing \<noteq> command then Inr \<lparr>in_state = BindingOtherProfile, in_existing = existing\<rparr>
            else if length (sn_present sn) \<noteq> length (configuredEvents command)
            then Inr \<lparr>in_state = BindingPartial, in_existing = existing\<rparr>
            else Inr \<lparr>in_state = BindingCurrent, in_existing = existing\<rparr>))"

definition Inspect :: "string \<Rightarrow> settings \<Rightarrow> string \<Rightarrow> string + Inspection" where
  "Inspect os f command = bindE (read_settings f) (\<lambda>(document, hooks). inspect_hooks os hooks command)"

definition Status :: "string \<Rightarrow> settings \<Rightarrow> string \<Rightarrow> bool" where
  "Status os f command = (case Inspect os f command of Inr i \<Rightarrow> in_state i = BindingCurrent | Inl e \<Rightarrow> False)"

text \<open>Rebinding strips the vendor's managed handlers from every event and installs afresh.\<close>

fun strip_handlers :: "string \<Rightarrow> handler list \<Rightarrow> string + handler list" where
  "strip_handlers vendor [] = Inr []"
| "strip_handlers vendor (h # hs) =
     (if own h \<and> \<not> managedForVendor (h_command h) vendor
      then Inl ''managed Overgent activity hook drifted; refusing rebind''
      else bindE (strip_handlers vendor hs) (\<lambda>kept. Inr (if own h then kept else h # kept)))"

fun strip_groups :: "string \<Rightarrow> group list \<Rightarrow> string + group list" where
  "strip_groups vendor [] = Inr []"
| "strip_groups vendor (g # gs) =
     bindE (strip_handlers vendor (handlers g)) (\<lambda>hs.
       bindE (strip_groups vendor gs) (\<lambda>kept. Inr (if hs \<noteq> [] then g\<lparr>g_hooks := Some hs\<rparr> # kept else kept)))"

definition strip_event :: "string \<Rightarrow> string \<Rightarrow> gomap \<Rightarrow> string + gomap" where
  "strip_event vendor event hooks =
     bindE (event_groups event hooks) (\<lambda>gs. bindE (strip_groups vendor gs) (\<lambda>kept. store_groups event kept hooks))"

definition bind_event :: "string \<Rightarrow> string \<Rightarrow> string \<Rightarrow> gomap \<Rightarrow> string + gomap" where
  "bind_event os command event hooks =
     bindE (event_groups event hooks) (\<lambda>gs. assign hooks event (encode_groups (gs @ [expected os event command])))"

definition keys_of :: "gomap \<Rightarrow> string list" where
  "keys_of m = (case m of None \<Rightarrow> [] | Some fs \<Rightarrow> map fst fs)"

definition Rebind :: "string \<Rightarrow> write_steps \<Rightarrow> settings \<Rightarrow> string \<Rightarrow> string + settings" where
  "Rebind os w f command =
     bindE (read_settings f) (\<lambda>(document, hooks).
       let vendor = commandVendor command in
       if vendor = [] then Inl ''invalid Overgent activity hook command''
       else bindE (Inspect os f command) (\<lambda>inspection.
         if in_state inspection \<notin> {BindingCurrent, BindingPartial, BindingOtherProfile, BindingNotConfigured}
         then Inl ''unsupported Overgent activity hook binding''
         else bindE (foldE (strip_event vendor) (keys_of hooks) hooks) (\<lambda>hooks1.
           bindE (foldE (bind_event os command) (configuredEvents command) hooks1) (\<lambda>hooks2.
             write_settings w document hooks2))))"

definition remove_event :: "string \<Rightarrow> string \<Rightarrow> gomap \<Rightarrow> string + gomap" where
  "remove_event command event hooks =
     bindE (event_groups event hooks) (\<lambda>gs.
       bindE (drop_managed ''managed Overgent activity hook drifted; refusing removal'' command gs) (\<lambda>kept.
         store_groups event kept hooks))"

definition Remove :: "write_steps \<Rightarrow> settings \<Rightarrow> string \<Rightarrow> string + settings" where
  "Remove w f command =
     bindE (read_settings f) (\<lambda>(document, hooks).
       bindE (foldE (remove_event command) (configuredEvents command) hooks) (\<lambda>hooks1.
         write_settings w document hooks1))"

section \<open>Pre-approved tools\<close>

definition decode_strings :: "raw \<Rightarrow> string + string list" where
  "decode_strings v =
     (case v of RNull \<Rightarrow> Inr [] | RArr xs \<Rightarrow> mapE (\<lambda>x. decode_string x []) xs | _ \<Rightarrow> Inl decode_error)"

definition allowList :: "gomap \<Rightarrow> string + (string list \<times> gomap)" where
  "allowList document =
     bindE (case lookup document ''permissions'' of
              None \<Rightarrow> Inr (Some [])
            | Some raw \<Rightarrow> (case unmarshal_map raw of Inl e \<Rightarrow> Inl ''permissions must be a JSON object''
                           | Inr m \<Rightarrow> Inr m)) (\<lambda>permissions.
       bindE (case lookup permissions ''allow'' of
                None \<Rightarrow> Inr []
              | Some raw \<Rightarrow> (case decode_strings raw of Inl e \<Rightarrow> Inl ''permissions.allow must be an array of strings''
                             | Inr allow \<Rightarrow> Inr allow)) (\<lambda>allow.
         Inr (allow, permissions)))"

definition setAllowList :: "gomap \<Rightarrow> gomap \<Rightarrow> string list \<Rightarrow> string + gomap" where
  "setAllowList document permissions allow =
     bindE (if allow = [] then Inr (remove_key ''allow'' permissions)
            else assign permissions ''allow'' (RArr (map RStr allow))) (\<lambda>permissions'.
       if map_size permissions' = 0 then Inr (remove_key ''permissions'' document)
       else assign document ''permissions'' (encode_map permissions'))"

definition add_tools :: "string list \<Rightarrow> string list \<Rightarrow> string list" where
  "add_tools tools allow = fold (\<lambda>t allow. if t \<in> set allow then allow else allow @ [t]) tools allow"

definition AllowTools :: "write_steps \<Rightarrow> settings \<Rightarrow> string list \<Rightarrow> string + settings" where
  "AllowTools w f tools =
     bindE (read_settings f) (\<lambda>(document, hooks).
       bindE (allowList document) (\<lambda>(allow, permissions).
         bindE (setAllowList document permissions (add_tools tools allow)) (\<lambda>document'.
           write_settings w document' hooks)))"

definition DisallowTools :: "write_steps \<Rightarrow> settings \<Rightarrow> string list \<Rightarrow> string + settings" where
  "DisallowTools w f tools =
     (if f = Missing then Inr Missing
      else bindE (read_settings f) (\<lambda>(document, hooks).
        bindE (allowList document) (\<lambda>(allow, permissions).
          bindE (setAllowList document permissions (filter (\<lambda>entry. entry \<notin> set tools) allow)) (\<lambda>document'.
            write_settings w document' hooks))))"

definition OvergentMCPTools :: "string list" where
  "OvergentMCPTools = [''mcp__overgent__acknowledge_context'', ''mcp__overgent__begin_work'',
     ''mcp__overgent__check_coordination'', ''mcp__overgent__finish_work'', ''mcp__overgent__get_resolutions'',
     ''mcp__overgent__report_checkpoint'', ''mcp__overgent__report_event'', ''mcp__overgent__update_intent'']"

section \<open>Abandoned bindings\<close>

text \<open>
  The file system as these predicates see it: whether a path is a directory, the permission bits
  of a path that exists, and the parsed \<^verbatim>\<open>config.json\<close> of a directory, if it can be read and parsed.
\<close>

record profile_files =
  pf_host :: hook_host
  pf_directory :: "string \<Rightarrow> bool"
  pf_mode :: "string \<Rightarrow> nat option"
  pf_config :: "string \<Rightarrow> raw option"

definition legacyProfileNames :: "string list" where "legacyProfileNames = [''Stickguy'']"

definition cleanProfile :: "hook_host \<Rightarrow> string \<Rightarrow> string" where
  "cleanProfile h v =
     (if v = [] \<or> v = ''portable'' then []
      else if windowsAbsolute v then cleanPortablePath v
      else case hh_abs h v of Inr a \<Rightarrow> clean a | Inl e \<Rightarrow> clean v)"

definition extension :: "string \<Rightarrow> string" where
  "extension p =
     (let b = last (split_on (CHR ''/'') p) in
      if CHR ''.'' \<notin> set b then [] else CHR ''.'' # last (split_on (CHR ''.'') b))"

definition executableExists :: "profile_files \<Rightarrow> string \<Rightarrow> bool" where
  "executableExists pf p =
     (case pf_mode pf p of None \<Rightarrow> False
      | Some mode \<Rightarrow>
          \<not> pf_directory pf p \<and>
          (if hh_os (pf_host pf) = ''windows''
           then to_lower (extension p) \<in> {''.exe'', ''.cmd'', ''.bat'', ''.com''}
           else mode mod 2 = 1 \<or> mode div 8 mod 2 = 1 \<or> mode div 64 mod 2 = 1))"

record stored_identity =
  si_device :: string
  si_backends :: "string list"

definition decode_backend :: "raw \<Rightarrow> string + string" where
  "decode_backend v =
     (case v of RNull \<Rightarrow> Inr []
      | RObj ms \<Rightarrow> foldE (\<lambda>(k, x) d. if equal_fold k ''deviceId'' then decode_string x d else Inr d) ms []
      | _ \<Rightarrow> Inl decode_error)"

definition decode_identity_field :: "string \<times> raw \<Rightarrow> stored_identity \<Rightarrow> string + stored_identity" where
  "decode_identity_field kv si =
     (let (k, v) = kv in
      if equal_fold k ''deviceId'' then bindE (decode_string v (si_device si)) (\<lambda>d. Inr (si\<lparr>si_device := d\<rparr>))
      else if equal_fold k ''backends'' then
        (case v of RNull \<Rightarrow> Inr (si\<lparr>si_backends := []\<rparr>)
         | RArr xs \<Rightarrow> bindE (mapE decode_backend xs) (\<lambda>bs. Inr (si\<lparr>si_backends := bs\<rparr>))
         | _ \<Rightarrow> Inl decode_error)
      else Inr si)"

definition profileHasDevice :: "profile_files \<Rightarrow> string \<Rightarrow> bool" where
  "profileHasDevice pf root =
     (let zero = \<lparr>si_device = [], si_backends = []\<rparr> in
      case pf_config pf (join_path root ''config.json'') of
        None \<Rightarrow> False
      | Some v \<Rightarrow>
          (case (case v of RNull \<Rightarrow> Inr zero | RObj ms \<Rightarrow> foldE decode_identity_field ms zero | _ \<Rightarrow> Inl decode_error) of
             Inl e \<Rightarrow> False
           | Inr si \<Rightarrow> si_device si \<noteq> [] \<or> (\<exists>d \<in> set (si_backends si). d \<noteq> [])))"

definition Abandoned :: "profile_files \<Rightarrow> string \<Rightarrow> string \<Rightarrow> string \<Rightarrow> bool" where
  "Abandoned pf currentConfigRoot previousProfile previousExecutable \<longleftrightarrow>
     (let current = cleanProfile (pf_host pf) currentConfigRoot; previous = cleanProfile (pf_host pf) previousProfile in
      if previous = [] then True
      else if sameProfile previous current then True
      else if \<not> pf_directory pf previous then True
      else if base previous \<in> set legacyProfileNames then True
      else if \<not> profileHasDevice pf previous then True
      else previousExecutable \<noteq> [] \<and> previousExecutable \<noteq> ''overgent'' \<and> \<not> executableExists pf previousExecutable)"

section \<open>Documents\<close>

definition good_map :: "gomap \<Rightarrow> bool" where
  "good_map m \<longleftrightarrow> (case m of None \<Rightarrow> True | Some fs \<Rightarrow> distinct (map fst fs))"

lemma good_simps [simp]: "good_map None" "good_map (Some []) "
  by (simp_all add: good_map_def)

lemma lookup_simps [simp]: "lookup None k = None" "lookup (Some fs) k = map_of fs k"
  by (simp_all add: lookup_def)

lemma of_members_fold: "map_of (fold (\<lambda>(k, v). AList.update k v) ms fs) = map_of fs ++ map_of (rev ms)
  \<and> (distinct (map fst fs) \<longrightarrow> distinct (map fst (fold (\<lambda>(k, v). AList.update k v) ms fs)))"
proof (induction ms arbitrary: fs)
  case (Cons m ms)
  obtain k v where "m = (k, v)" by (cases m)
  with Cons [of "AList.update k v fs"] show ?case
    by (auto simp: update_conv' distinct_update map_add_def fun_eq_iff split: option.splits)
qed simp

lemma good_of_members [simp]: "good_map (Some (of_members ms))"
  using of_members_fold [of ms "[]"] by (simp add: good_map_def of_members_def)

lemma map_of_sort_key: "distinct (map fst fs) \<Longrightarrow> map_of (sort_key fst fs) = map_of fs"
  by (rule map_of_inject_set [THEN iffD2])
    (auto simp: distinct_map distinct_sort)

lemma distinct_sort_key: "distinct (map fst fs) \<Longrightarrow> distinct (map fst (sort_key fst fs))"
  by (simp add: distinct_map distinct_sort)

text \<open>A written map is read back with the same entries.\<close>

lemma unmarshal_encode:
  assumes "good_map (Some fs)"
  shows "\<exists>fs'. unmarshal_map (encode_map (Some fs)) = Inr (Some fs') \<and> map_of fs' = map_of fs"
proof -
  let ?ms = "sort_key fst fs"
  have d: "distinct (map fst ?ms)" using assms distinct_sort_key by (simp add: good_map_def)
  have "map_of (of_members ?ms) = map_of (rev ?ms)"
    using of_members_fold [of ?ms "[]"] by (simp add: of_members_def)
  also have "\<dots> = map_of ?ms" using d by (intro map_of_inject_set [THEN iffD2]) (simp_all add: rev_map [symmetric])
  also have "\<dots> = map_of fs" using assms by (intro map_of_sort_key) (simp add: good_map_def)
  finally show ?thesis by (simp add: unmarshal_map_def encode_map_def)
qed

lemma unmarshal_good: "unmarshal_map v = Inr m \<Longrightarrow> good_map m"
  by (auto simp: unmarshal_map_def split: raw.splits)

lemma assign_simps:
  assumes "assign m k v = Inr m'"
  shows "lookup m' = (lookup m)(k \<mapsto> v)" "good_map m \<Longrightarrow> good_map m'" "\<exists>fs. m' = Some fs \<and> fs \<noteq> []"
proof -
  obtain fs where fs: "m = Some fs" "m' = Some (AList.update k v fs)"
    using assms by (cases m) (auto simp: assign_def)
  show "lookup m' = (lookup m)(k \<mapsto> v)" using fs by (simp add: fun_eq_iff update_conv')
  show "good_map m \<Longrightarrow> good_map m'" using fs by (simp add: good_map_def distinct_update)
  have "AList.update k v fs \<noteq> []" by (cases fs) (auto simp: update_nonempty)
  with fs show "\<exists>fs. m' = Some fs \<and> fs \<noteq> []" by blast
qed

lemma remove_key_simps [simp]:
  "lookup (remove_key k m) = (lookup m)(k := None)" "good_map m \<Longrightarrow> good_map (remove_key k m)"
proof -
  show "lookup (remove_key k m) = (lookup m)(k := None)"
    by (cases m) (auto simp: remove_key_def fun_eq_iff delete_conv')
  show "good_map m \<Longrightarrow> good_map (remove_key k m)"
    by (cases m) (auto simp: remove_key_def good_map_def distinct_delete)
qed

section \<open>Decoding what was encoded\<close>

lemma digits_value_snoc: "digits_value (ds @ [c]) = 10 * digits_value ds + (int (byte c) - 48)"
  by (simp add: digits_value_def)

lemma byte_digit: "d < 10 \<Longrightarrow> byte (digit_char d) = 48 + d"
  by (simp add: byte_def digit_char_def)

lemma nat_dec_digits:
  "nat_dec n \<noteq> [] \<and> list_all (\<lambda>c. 48 \<le> byte c \<and> byte c \<le> 57) (nat_dec n) \<and> digits_value (nat_dec n) = int n"
proof (induction n rule: nat_dec.induct)
  case (1 n)
  show ?case
  proof (cases "n < 10")
    case True
    then show ?thesis by (subst (1 2 3) nat_dec.simps) (simp add: byte_digit digits_value_def)
  next
    case False
    have "n mod 10 < 10" by simp
    with False 1 have "digits_value (nat_dec (n div 10) @ [digit_char (n mod 10)]) = int n"
      by (simp add: digits_value_snoc byte_digit) presburger
    with False 1 \<open>n mod 10 < 10\<close> show ?thesis
      by (subst (1 2 3) nat_dec.simps) (simp add: byte_digit)
  qed
qed

lemma int_literal_dec: "- (2 ^ 63) \<le> t \<Longrightarrow> t < 2 ^ 63 \<Longrightarrow> int_literal (int_dec t) = Some t"
proof -
  assume t: "- (2 ^ 63) \<le> t" "t < 2 ^ 63"
  show ?thesis
  proof (cases "t < 0")
    case True
    with t nat_dec_digits [of "nat (- t)"] show ?thesis
      by (simp add: int_literal_def int_dec_def has_prefix_def Let_def)
  next
    case False
    obtain c cs where c: "nat_dec (nat t) = c # cs" "48 \<le> byte c"
      using nat_dec_digits [of "nat t"] by (cases "nat_dec (nat t)") auto
    then have "c \<noteq> CHR ''-''" by (auto simp: byte_def)
    with c have "\<not> has_prefix (nat_dec (nat t)) ''-''" by (simp add: has_prefix_def)
    with False t nat_dec_digits [of "nat t"] show ?thesis
      by (simp add: int_literal_def int_dec_def Let_def)
  qed
qed

definition handler_ok :: "handler \<Rightarrow> bool" where
  "handler_ok h \<longleftrightarrow> - (2 ^ 63) \<le> h_timeout h \<and> h_timeout h < 2 ^ 63"

definition groups_ok :: "group list \<Rightarrow> bool" where
  "groups_ok gs \<longleftrightarrow> (\<forall>g \<in> set gs. \<forall>h \<in> set (handlers g). handler_ok h)"

lemma fold_key_facts:
  "equal_fold ''type'' ''type''" "\<not> equal_fold ''command'' ''type''" "\<not> equal_fold ''async'' ''type''"
  "\<not> equal_fold ''timeout'' ''type''" "\<not> equal_fold ''shell'' ''type''" "equal_fold ''command'' ''command''"
  "\<not> equal_fold ''async'' ''command''" "\<not> equal_fold ''timeout'' ''command''" "\<not> equal_fold ''shell'' ''command''"
  "equal_fold ''async'' ''async''" "\<not> equal_fold ''timeout'' ''async''" "\<not> equal_fold ''shell'' ''async''"
  "equal_fold ''timeout'' ''timeout''" "\<not> equal_fold ''shell'' ''timeout''" "equal_fold ''shell'' ''shell''"
  "equal_fold ''matcher'' ''matcher''" "\<not> equal_fold ''hooks'' ''matcher''" "equal_fold ''hooks'' ''hooks''"
  by code_simp+

lemma decode_encode_handler: "handler_ok h \<Longrightarrow> decode_handler (encode_handler h) = Inr h"
  by (cases h) (simp add: decode_handler_def encode_handler_def decode_handler_field_def fold_key_facts decode_string_def
    decode_bool_def decode_int_def zero_handler_def handler_ok_def int_literal_dec foldE_append)

lemma mapE_encode: "(\<And>x. x \<in> set xs \<Longrightarrow> f (g x) = Inr x) \<Longrightarrow> mapE f (map g xs) = Inr xs"
  by (induction xs) simp_all

lemma decode_encode_group: "\<forall>h \<in> set (handlers g). handler_ok h \<Longrightarrow> decode_group (encode_group g) = Inr g"
proof -
  assume ok: "\<forall>h \<in> set (handlers g). handler_ok h"
  show ?thesis
  proof (cases "g_hooks g")
    case None
    then show ?thesis
      by (cases g) (simp add: decode_group_def encode_group_def decode_group_field_def fold_key_facts decode_string_def)
  next
    case (Some hs)
    then have "mapE decode_handler (map encode_handler hs) = Inr hs"
      using ok by (intro mapE_encode decode_encode_handler) (simp add: handlers_def)
    with Some show ?thesis
      by (cases g) (simp add: decode_group_def encode_group_def decode_group_field_def fold_key_facts decode_string_def)
  qed
qed

lemma groups_round_trip: "groups_ok gs \<Longrightarrow> groupsFor (Some (encode_groups gs)) = Inr gs"
  unfolding groupsFor_def encode_groups_def groups_ok_def
  by (simp add: mapE_encode decode_encode_group)

lemma int_literal_range: "int_literal s = Some n \<Longrightarrow> - (2 ^ 63) \<le> n \<and> n < 2 ^ 63"
  by (auto simp: int_literal_def Let_def split: if_splits)

lemma decode_int_ok: "decode_int v old = Inr n \<Longrightarrow> - (2 ^ 63) \<le> old \<and> old < 2 ^ 63 \<Longrightarrow> - (2 ^ 63) \<le> n \<and> n < 2 ^ 63"
  using int_literal_range by (cases v) (auto simp: decode_int_def split: option.splits)

lemma decode_handler_field_timeout:
  assumes "decode_handler_field (k, v) h = Inr h'"
  shows "h_timeout h' = h_timeout h \<or> decode_int v (h_timeout h) = Inr (h_timeout h')"
proof -
  have keep: "h_timeout x = h_timeout h" if "bindE m (\<lambda>y. Inr (f y)) = Inr x" "\<And>y. h_timeout (f y) = h_timeout h" for m f x
    using that by auto
  consider "equal_fold k ''type''" | "\<not> equal_fold k ''type''" "equal_fold k ''command''"
    | "\<not> equal_fold k ''type''" "\<not> equal_fold k ''command''" "equal_fold k ''async''"
    | "\<not> equal_fold k ''type''" "\<not> equal_fold k ''command''" "\<not> equal_fold k ''async''" "equal_fold k ''timeout''"
    | "\<not> equal_fold k ''type''" "\<not> equal_fold k ''command''" "\<not> equal_fold k ''async''" "\<not> equal_fold k ''timeout''" "equal_fold k ''shell''"
    | "\<not> equal_fold k ''type''" "\<not> equal_fold k ''command''" "\<not> equal_fold k ''async''" "\<not> equal_fold k ''timeout''" "\<not> equal_fold k ''shell''"
    by blast
  then show ?thesis
  proof cases
    case 4
    with assms have "bindE (decode_int v (h_timeout h)) (\<lambda>n. Inr (h\<lparr>h_timeout := n\<rparr>)) = Inr h'"
      by (simp only: decode_handler_field_def Let_def prod.case if_True if_False)
    then show ?thesis by (cases "decode_int v (h_timeout h)") auto
  qed (use assms keep in \<open>simp only: decode_handler_field_def Let_def prod.case if_True if_False, force\<close>)+
qed

lemma decode_handler_field_ok: "handler_ok h \<Longrightarrow> decode_handler_field kv h = Inr h' \<Longrightarrow> handler_ok h'"
  using decode_handler_field_timeout [of "fst kv" "snd kv" h h'] decode_int_ok [of "snd kv" "h_timeout h" "h_timeout h'"]
  by (auto simp: handler_ok_def)

lemma decode_handler_ok: "decode_handler v = Inr h \<Longrightarrow> handler_ok h"
proof (cases v)
  case (RObj ms)
  assume "decode_handler v = Inr h"
  then have "foldE decode_handler_field ms zero_handler = Inr h" using RObj by (simp add: decode_handler_def)
  then show ?thesis
    by (rule foldE_invariant [where P = handler_ok]) (simp_all add: decode_handler_field_ok, simp add: handler_ok_def zero_handler_def)
qed (auto simp: decode_handler_def handler_ok_def zero_handler_def)

lemma mapE_all: "mapE f xs = Inr ys \<Longrightarrow> (\<And>x y. f x = Inr y \<Longrightarrow> P y) \<Longrightarrow> \<forall>y \<in> set ys. P y"
  by (induction xs arbitrary: ys) auto

definition group_ok :: "group \<Rightarrow> bool" where
  "group_ok g \<longleftrightarrow> (\<forall>h \<in> set (handlers g). handler_ok h)"

lemma decode_group_field_ok: "group_ok g \<Longrightarrow> decode_group_field kv g = Inr g' \<Longrightarrow> group_ok g'"
proof -
  assume g: "group_ok g" and d: "decode_group_field kv g = Inr g'"
  obtain k v where kv: "kv = (k, v)" by (cases kv)
  show ?thesis
  proof (cases "g_hooks g' = g_hooks g")
    case True
    with g show ?thesis by (simp add: group_ok_def handlers_def)
  next
    case False
    with d kv have "g_hooks g' = None \<or> (\<exists>xs hs. mapE decode_handler xs = Inr hs \<and> g_hooks g' = Some hs)"
      by (cases v) (auto simp: decode_group_field_def split: if_splits)
    then show ?thesis
    proof
      assume "\<exists>xs hs. mapE decode_handler xs = Inr hs \<and> g_hooks g' = Some hs"
      then obtain xs hs where "mapE decode_handler xs = Inr hs" "g_hooks g' = Some hs" by blast
      with mapE_all [of decode_handler xs hs handler_ok] decode_handler_ok show ?thesis
        by (simp add: group_ok_def handlers_def)
    qed (simp add: group_ok_def handlers_def)
  qed
qed

lemma decode_group_ok: "decode_group v = Inr g \<Longrightarrow> group_ok g"
proof (cases v)
  case (RObj ms)
  assume "decode_group v = Inr g"
  then have "foldE decode_group_field ms \<lparr>g_matcher = [], g_hooks = None\<rparr> = Inr g" using RObj by (simp add: decode_group_def)
  then show ?thesis
    by (rule foldE_invariant [where P = group_ok]) (simp_all add: decode_group_field_ok, simp add: group_ok_def handlers_def)
qed (auto simp: decode_group_def group_ok_def handlers_def)

lemma mapE_group_ok: "mapE decode_group xs = Inr gs \<Longrightarrow> groups_ok gs"
proof -
  assume "mapE decode_group xs = Inr gs"
  then have "\<forall>g \<in> set gs. group_ok g" by (rule mapE_all) (rule decode_group_ok)
  then show ?thesis by (simp add: groups_ok_def group_ok_def)
qed

lemma event_groups_ok: "event_groups event hooks = Inr gs \<Longrightarrow> groups_ok gs"
proof -
  have empty: "groups_ok []" by (simp add: groups_ok_def)
  assume "event_groups event hooks = Inr gs"
  then have gs: "groupsFor (lookup hooks event) = Inr gs" by (simp add: event_groups_def split: sum.splits)
  show ?thesis
  proof (cases "lookup hooks event")
    case None
    with gs empty show ?thesis by (simp add: groupsFor_def)
  next
    case (Some v)
    with gs empty mapE_group_ok show ?thesis by (cases v) (auto simp: groupsFor_def)
  qed
qed

lemma expected_ok: "group_ok (expected os event command)" "handler_ok (expected_handler os event command)"
  by (simp_all add: group_ok_def handlers_def expected_def handler_ok_def expected_handler_def Let_def codexSessionEndTimeout_def)

text \<open>What an event holds depends on its entry alone.\<close>

lemma event_groups_cong: "lookup m e = lookup m' e \<Longrightarrow> event_groups e m = event_groups e m'"
  by (simp add: event_groups_def)

lemma event_groups_assign:
  assumes "assign m event (encode_groups gs) = Inr m'" and "groups_ok gs"
  shows "event_groups event m' = Inr gs" "e \<noteq> event \<Longrightarrow> event_groups e m' = event_groups e m"
  using assms groups_round_trip by (simp_all add: event_groups_def assign_simps(1))

lemma event_groups_store:
  assumes "store_groups event gs m = Inr m'" and "groups_ok gs"
  shows "event_groups event m' = Inr gs" "e \<noteq> event \<Longrightarrow> event_groups e m' = event_groups e m" "good_map m \<Longrightarrow> good_map m'"
proof -
  consider "gs = []" "m' = remove_key event m" | "gs \<noteq> []" "assign m event (encode_groups gs) = Inr m'"
    using assms(1) by (auto simp: store_groups_def split: if_splits)
  then show "event_groups event m' = Inr gs" "e \<noteq> event \<Longrightarrow> event_groups e m' = event_groups e m" "good_map m \<Longrightarrow> good_map m'"
    by (cases; use event_groups_assign [OF _ assms(2)] assign_simps(2) in \<open>force simp: event_groups_def groupsFor_def\<close>)+
qed

section \<open>Installing into one event\<close>

definition install_groups :: "string \<Rightarrow> string \<Rightarrow> string \<Rightarrow> group list \<Rightarrow> string + group list" where
  "install_groups os command event gs =
     bindE (repair_groups (expected_handler os event command) command gs) (\<lambda>r.
       Inr (case r of Absent \<Rightarrow> gs @ [expected os event command] | Intact \<Rightarrow> gs | Repaired gs' \<Rightarrow> gs'))"

definition all_handlers :: "group list \<Rightarrow> handler list" where
  "all_handlers gs = concat (map handlers gs)"

definition foreign :: "group \<Rightarrow> bool" where
  "foreign g \<longleftrightarrow> (\<forall>h \<in> set (handlers g). \<not> own h)"

lemma all_handlers_simps [simp]:
  "all_handlers [] = []" "all_handlers (g # gs) = handlers g @ all_handlers gs"
  "all_handlers (gs @ gs') = all_handlers gs @ all_handlers gs'"
  by (simp_all add: all_handlers_def)

lemma handlers_update [simp]: "handlers (g\<lparr>g_hooks := Some hs\<rparr>) = hs"
  by (simp add: handlers_def)

lemma handlers_expected [simp]: "handlers (expected os event command) = [expected_handler os event command]"
  by (simp add: handlers_def expected_def)

lemma own_expected: "managed command \<Longrightarrow> own (expected_handler os event command)"
  by (simp add: own_def expected_handler_def Let_def)

lemma command_expected [simp]: "h_command (expected_handler os event command) = command"
  by (simp add: expected_handler_def Let_def)

lemma repair_handlers_cases:
  assumes "repair_handlers w command hs = Inr r"
  shows "(r = Absent \<and> (\<forall>h \<in> set hs. \<not> own h)) \<or> (r = Intact \<and> w \<in> set hs \<and> own w)
    \<or> (\<exists>pre h post. r = Repaired (pre @ w # post) \<and> hs = pre @ h # post \<and> own h \<and> (\<forall>h \<in> set pre. \<not> own h))"
  using assms
proof (induction hs arbitrary: r)
  case (Cons h hs)
  show ?case
  proof (cases "own h")
    case True
    with Cons.prems have "r = Intact \<and> h = w \<or> r = Repaired (w # hs)" by (auto split: if_splits)
    with True show ?thesis by (metis append_Nil empty_iff list.set(1) list.set_intros(1))
  next
    case False
    with Cons.prems obtain r' where r': "repair_handlers w command hs = Inr r'" "r = map_finding ((#) h) r'" by auto
    from Cons.IH [OF r'(1)] consider "r' = Absent" "\<forall>h \<in> set hs. \<not> own h" | "r' = Intact" "w \<in> set hs" "own w"
      | pre h' post where "r' = Repaired (pre @ w # post)" "hs = pre @ h' # post" "own h'" "\<forall>h \<in> set pre. \<not> own h"
      by blast
    then show ?thesis
    proof cases
      case (3 pre h' post)
      with False r' have "r = Repaired ((h # pre) @ w # post)" "h # hs = (h # pre) @ h' # post" "\<forall>x \<in> set (h # pre). \<not> own x"
        by simp_all
      with 3 show ?thesis by blast
    qed (use False r' in auto)
  qed
qed auto

lemma repair_groups_cases:
  assumes "repair_groups w command gs = Inr r" and w: "own w"
  shows "(r = Absent \<and> (\<forall>g \<in> set gs. foreign g)) \<or> (r = Intact \<and> w \<in> set (all_handlers gs))
    \<or> (\<exists>pre g g' post. r = Repaired (pre @ g' # post) \<and> gs = pre @ g # post \<and> \<not> foreign g \<and> \<not> foreign g'
        \<and> w \<in> set (handlers g') \<and> set (handlers g') \<subseteq> insert w (set (handlers g)))"
  using assms(1)
proof (induction gs arbitrary: r)
  case (Cons g gs)
  then obtain r0 where r0: "repair_handlers w command (handlers g) = Inr r0"
    and r: "(case r0 of Absent \<Rightarrow> bindE (repair_groups w command gs) (\<lambda>r'. Inr (map_finding ((#) g) r'))
       | Intact \<Rightarrow> Inr Intact | Repaired hs \<Rightarrow> Inr (Repaired (g\<lparr>g_hooks := Some hs\<rparr> # gs))) = Inr r"
    by auto
  from repair_handlers_cases [OF r0] consider "r0 = Absent" "foreign g" | "r0 = Intact" "w \<in> set (handlers g)"
    | pre h post where "r0 = Repaired (pre @ w # post)" "handlers g = pre @ h # post" "own h"
    by (auto simp: foreign_def)
  then show ?case
  proof cases
    case 1
    with r obtain r' where r': "repair_groups w command gs = Inr r'" "r = map_finding ((#) g) r'" by auto
    from Cons.IH [OF r'(1)] consider "r' = Absent" "\<forall>g \<in> set gs. foreign g" | "r' = Intact" "w \<in> set (all_handlers gs)"
      | pre x x' post where "r' = Repaired (pre @ x' # post)" "gs = pre @ x # post" "\<not> foreign x" "\<not> foreign x'"
        "w \<in> set (handlers x')" "set (handlers x') \<subseteq> insert w (set (handlers x))"
      by blast
    then show ?thesis
    proof cases
      case (3 pre x x' post)
      with r' have "r = Repaired ((g # pre) @ x' # post)" "g # gs = (g # pre) @ x # post" by simp_all
      with 3 show ?thesis by blast
    qed (use 1 r' in auto)
  next
    case 2
    with r show ?thesis by simp
  next
    case (3 pre h post)
    let ?g' = "g\<lparr>g_hooks := Some (pre @ w # post)\<rparr>"
    have "r = Repaired ([] @ ?g' # gs)" "g # gs = [] @ g # gs" using r 3 by simp_all
    moreover have "\<not> foreign g" "\<not> foreign ?g'" using 3 w by (simp_all add: foreign_def)
    moreover have "w \<in> set (handlers ?g')" "set (handlers ?g') \<subseteq> insert w (set (handlers g))" using 3 by auto
    ultimately show ?thesis by blast
  qed
qed simp

lemma install_groups_facts:
  assumes i: "install_groups os command event gs = Inr gs'" and m: "managed command"
  shows "filter foreign gs' = filter foreign gs"
    and "expected_handler os event command \<in> set (all_handlers gs')"
    and "set (all_handlers gs') \<subseteq> insert (expected_handler os event command) (set (all_handlers gs))"
proof -
  let ?w = "expected_handler os event command"
  have w: "own ?w" by (rule own_expected [OF m])
  obtain r where r: "repair_groups ?w command gs = Inr r"
    and gs': "gs' = (case r of Absent \<Rightarrow> gs @ [expected os event command] | Intact \<Rightarrow> gs | Repaired x \<Rightarrow> x)"
    using i by (auto simp: install_groups_def)
  have fe: "\<not> foreign (expected os event command)" using w by (simp add: foreign_def)
  have "filter foreign gs' = filter foreign gs \<and> ?w \<in> set (all_handlers gs')
    \<and> set (all_handlers gs') \<subseteq> insert ?w (set (all_handlers gs))"
    using repair_groups_cases [OF r w]
  proof (elim disjE exE conjE)
    assume "r = Absent"
    with gs' fe show ?thesis by auto
  next
    assume "r = Intact" "?w \<in> set (all_handlers gs)"
    with gs' show ?thesis by auto
  next
    fix pre g g' post
    assume "r = Repaired (pre @ g' # post)" "gs = pre @ g # post" "\<not> foreign g" "\<not> foreign g'"
      "?w \<in> set (handlers g')" "set (handlers g') \<subseteq> insert ?w (set (handlers g))"
    with gs' show ?thesis by auto
  qed
  then show "filter foreign gs' = filter foreign gs" "?w \<in> set (all_handlers gs')"
    "set (all_handlers gs') \<subseteq> insert ?w (set (all_handlers gs))" by blast+
qed

lemma groups_ok_all: "groups_ok gs \<longleftrightarrow> (\<forall>h \<in> set (all_handlers gs). handler_ok h)"
  by (auto simp: groups_ok_def all_handlers_def)

lemma install_groups_ok:
  assumes "install_groups os command event gs = Inr gs'" and "managed command" and "groups_ok gs"
  shows "groups_ok gs'"
  using install_groups_facts(3) [OF assms(1,2)] assms(3) expected_ok(2) unfolding groups_ok_all by auto

lemma repair_handlers_total:
  "\<forall>h \<in> set hs. own h \<longrightarrow> h_command h = command \<Longrightarrow> \<exists>r. repair_handlers w command hs = Inr r"
  by (induction hs) auto

lemma repair_groups_total:
  "\<forall>h \<in> set (all_handlers gs). own h \<longrightarrow> h_command h = command \<Longrightarrow> \<exists>r. repair_groups w command gs = Inr r"
proof (induction gs)
  case (Cons g gs)
  from Cons.prems obtain r where "repair_handlers w command (handlers g) = Inr r"
    using repair_handlers_total [of "handlers g" command w] by auto
  moreover obtain r' where "repair_groups w command gs = Inr r'" using Cons by auto
  ultimately show ?case by (cases r) auto
qed simp

text \<open>An event step in terms of the groups it reads and leaves.\<close>

lemma install_event_groups:
  assumes i: "install_event os command event m = Inr m'" and c: "managed command"
  shows "\<exists>gs gs'. event_groups event m = Inr gs \<and> install_groups os command event gs = Inr gs'
    \<and> event_groups event m' = Inr gs'" "e \<noteq> event \<Longrightarrow> event_groups e m' = event_groups e m"
    "good_map m \<Longrightarrow> good_map m'"
proof -
  obtain gs r where gs: "event_groups event m = Inr gs"
    and r: "repair_groups (expected_handler os event command) command gs = Inr r"
    and m': "(case r of Intact \<Rightarrow> Inr m | Repaired x \<Rightarrow> assign m event (encode_groups x)
         | Absent \<Rightarrow> assign m event (encode_groups (gs @ [expected os event command]))) = Inr m'"
    using i by (auto simp: install_event_def)
  let ?gs' = "case r of Absent \<Rightarrow> gs @ [expected os event command] | Intact \<Rightarrow> gs | Repaired x \<Rightarrow> x"
  have ig: "install_groups os command event gs = Inr ?gs'" using r by (simp add: install_groups_def)
  have ok: "groups_ok ?gs'" by (rule install_groups_ok [OF ig c event_groups_ok [OF gs]])
  have step: "m' = m \<and> ?gs' = gs \<or> assign m event (encode_groups ?gs') = Inr m'"
    using m' by (cases r) simp_all
  then show "e \<noteq> event \<Longrightarrow> event_groups e m' = event_groups e m" "good_map m \<Longrightarrow> good_map m'"
    using event_groups_assign(2) [OF _ ok] assign_simps(2) by blast+
  from step have "event_groups event m' = Inr ?gs'" using gs event_groups_assign(1) [OF _ ok] by auto
  with gs ig show "\<exists>gs gs'. event_groups event m = Inr gs \<and> install_groups os command event gs = Inr gs'
    \<and> event_groups event m' = Inr gs'" by blast
qed

lemma install_event_total:
  assumes "event_groups event (Some fs) = Inr gs" and "\<forall>h \<in> set (all_handlers gs). own h \<longrightarrow> h_command h = command"
  shows "\<exists>fs'. install_event os command event (Some fs) = Inr (Some fs')"
proof -
  obtain r where "repair_groups (expected_handler os event command) command gs = Inr r"
    using repair_groups_total [OF assms(2)] by blast
  with assms(1) show ?thesis by (cases r) (simp_all add: install_event_def assign_def)
qed

lemma install_events_groups:
  assumes "foldE (install_event os command) es m = Inr m'" and "managed command" and "distinct es"
  shows "(\<forall>e \<in> set es. \<exists>gs gs'. event_groups e m = Inr gs \<and> install_groups os command e gs = Inr gs'
      \<and> event_groups e m' = Inr gs') \<and> (\<forall>e. e \<notin> set es \<longrightarrow> event_groups e m' = event_groups e m)
    \<and> (good_map m \<longrightarrow> good_map m')"
  using assms
proof (induction es arbitrary: m)
  case (Cons e es)
  obtain m1 where m1: "install_event os command e m = Inr m1" and rest: "foldE (install_event os command) es m1 = Inr m'"
    using Cons.prems(1) by auto
  note step = install_event_groups [OF m1 Cons.prems(2)]
  have ih: "(\<forall>x \<in> set es. \<exists>gs gs'. event_groups x m1 = Inr gs \<and> install_groups os command x gs = Inr gs'
      \<and> event_groups x m' = Inr gs') \<and> (\<forall>x. x \<notin> set es \<longrightarrow> event_groups x m' = event_groups x m1)
    \<and> (good_map m1 \<longrightarrow> good_map m')"
    using Cons.IH [OF rest Cons.prems(2)] Cons.prems(3) by simp
  have e: "e \<notin> set es" using Cons.prems(3) by simp
  have "\<exists>gs gs'. event_groups x m = Inr gs \<and> install_groups os command x gs = Inr gs' \<and> event_groups x m' = Inr gs'"
    if x: "x \<in> set (e # es)" for x
  proof (cases "x = e")
    case True
    have "event_groups e m' = event_groups e m1" using ih e by blast
    with step(1) True show ?thesis by metis
  next
    case False
    then have "x \<in> set es" using x by simp
    with ih step(2) [OF False] show ?thesis by metis
  qed
  moreover have "event_groups x m' = event_groups x m" if "x \<notin> set (e # es)" for x
    using ih step(2) [of x] that by simp
  ultimately show ?case using ih step(3) by blast
qed simp

lemma install_events_total:
  assumes "\<forall>e \<in> set es. \<exists>gs. event_groups e (Some fs) = Inr gs \<and> (\<forall>h \<in> set (all_handlers gs). own h \<longrightarrow> h_command h = command)"
    and "managed command" and "distinct es"
  shows "\<exists>fs'. foldE (install_event os command) es (Some fs) = Inr (Some fs')"
  using assms
proof (induction es arbitrary: fs)
  case (Cons e es)
  then obtain gs where "event_groups e (Some fs) = Inr gs" "\<forall>h \<in> set (all_handlers gs). own h \<longrightarrow> h_command h = command"
    by auto
  from install_event_total [OF this] obtain fs1 where fs1: "install_event os command e (Some fs) = Inr (Some fs1)" by blast
  have "\<forall>x \<in> set es. \<exists>gs. event_groups x (Some fs1) = Inr gs \<and> (\<forall>h \<in> set (all_handlers gs). own h \<longrightarrow> h_command h = command)"
  proof
    fix x assume x: "x \<in> set es"
    then have "x \<noteq> e" using Cons.prems(3) by auto
    then have "event_groups x (Some fs1) = event_groups x (Some fs)"
      by (rule install_event_groups(2) [OF fs1 Cons.prems(2)])
    with Cons.prems(1) x show "\<exists>gs. event_groups x (Some fs1) = Inr gs \<and> (\<forall>h \<in> set (all_handlers gs). own h \<longrightarrow> h_command h = command)"
      by simp
  qed
  from Cons.IH [OF this Cons.prems(2)] Cons.prems(3) fs1 show ?case by auto
qed simp

lemma distinct_events: "distinct (configuredEvents command)"
  by (simp add: configuredEvents_def claudeEvents_def codexEvents_def)

section \<open>Reading what was written\<close>

lemma read_good: "read_settings f = Inr (document, hooks) \<Longrightarrow> good_map document \<and> good_map hooks"
proof -
  assume r: "read_settings f = Inr (document, hooks)"
  have "\<exists>v. unmarshal_map v = Inr document" 
    using r by (auto simp: read_settings_def Let_def split: settings.splits sum.splits option.splits if_splits)
  moreover have "hooks = Some [] \<or> (\<exists>v. unmarshal_map v = Inr hooks)"
    using r by (auto simp: read_settings_def Let_def split: settings.splits sum.splits option.splits if_splits)
  ultimately show ?thesis using unmarshal_good good_simps by blast
qed

lemma write_read:
  assumes w: "write_settings w document hooks = Inr f'" and good: "good_map document" "good_map hooks"
    and small: "\<And>v. ws_length w v \<le> 2 ^ 20"
  shows "\<exists>document' hooks'. read_settings f' = Inr (document', hooks') \<and> lookup hooks' = lookup hooks
    \<and> (\<forall>k. k \<noteq> ''hooks'' \<longrightarrow> lookup document' k = lookup document k)"
proof -
  obtain d where d: "(if map_size hooks = 0 then Inr (remove_key ''hooks'' document)
      else assign document ''hooks'' (encode_map hooks)) = Inr d"
    and f': "f' = Contents (ws_length w (encode_map d)) (encode_map d)"
    using w by (auto simp: write_settings_def split: option.splits)
  have gd: "good_map d" using d good assign_simps(2) by (cases "map_size hooks = 0") auto
  have keys: "\<forall>k. k \<noteq> ''hooks'' \<longrightarrow> lookup d k = lookup document k"
    using d assign_simps(1) by (cases "map_size hooks = 0") auto
  obtain d' where d': "unmarshal_map (encode_map d) = Inr d'" "lookup d' = lookup d"
  proof (cases d)
    case None
    then have "unmarshal_map (encode_map d) = Inr None" by (simp add: encode_map_def unmarshal_map_def)
    with None show ?thesis using that by blast
  next
    case (Some fs)
    with unmarshal_encode [of fs] gd obtain fs' where "unmarshal_map (encode_map d) = Inr (Some fs')" "map_of fs' = map_of fs"
      by auto
    with Some show ?thesis using that [of "Some fs'"] by (simp add: fun_eq_iff)
  qed
  have small': "\<not> 2 ^ 20 < ws_length w (encode_map d)" using small [of "encode_map d"] by linarith
  obtain hooks' where "(case lookup d' ''hooks'' of None \<Rightarrow> Inr (d', Some [])
      | Some raw \<Rightarrow> (case unmarshal_map raw of Inl e \<Rightarrow> Inl ''hooks must be a JSON object'' | Inr h \<Rightarrow> Inr (d', h)))
    = Inr (d', hooks')" "lookup hooks' = lookup hooks"
  proof (cases "map_size hooks = 0")
    case True
    then have "lookup hooks = (\<lambda>k. None)" by (cases hooks) (simp_all add: map_size_def fun_eq_iff)
    moreover have "lookup d' ''hooks'' = None" using True d d'(2) by auto
    ultimately show ?thesis using that [of "Some []"] by (simp add: fun_eq_iff)
  next
    case False
    then obtain fs where fs: "hooks = Some fs" by (cases hooks) (simp_all add: map_size_def)
    then obtain fs' where "unmarshal_map (encode_map hooks) = Inr (Some fs')" "map_of fs' = map_of fs"
      using unmarshal_encode [of fs] good by auto
    moreover have "lookup d' ''hooks'' = Some (encode_map hooks)" using False d d'(2) assign_simps(1) by simp
    ultimately show ?thesis using that [of "Some fs'"] fs by (simp add: fun_eq_iff)
  qed
  then have "read_settings f' = Inr (d', hooks')"
    using small' d'(1) by (simp add: read_settings_def f' Let_def)
  with keys d'(2) \<open>lookup hooks' = lookup hooks\<close> show ?thesis by auto
qed

lemma write_total:
  assumes "ws_mkdir w = None" "ws_temporary w = None" "ws_fill w = None" "ws_replace w = None"
  shows "\<exists>f'. write_settings w (Some d) hooks = Inr f'"
  using assms by (simp add: write_settings_def assign_def)

section \<open>Dropping managed groups\<close>

lemma check_own_value: "check_own err command hs = Inr b \<Longrightarrow> b = (\<exists>h \<in> set hs. own h) \<and> (\<forall>h \<in> set hs. own h \<longrightarrow> h_command h = command)"
  by (induction hs arbitrary: b) (auto split: if_splits)

lemma drop_managed_value: "drop_managed err command gs = Inr kept \<Longrightarrow> kept = filter foreign gs"
proof (induction gs arbitrary: kept)
  case (Cons g gs)
  then obtain b k where "check_own err command (handlers g) = Inr b" "drop_managed err command gs = Inr k"
    "kept = (if b then k else g # k)" by auto
  moreover from this(1) have "b = (\<not> foreign g)" using check_own_value by (auto simp: foreign_def)
  ultimately show ?case using Cons.IH [of k] by auto
qed simp

lemma groups_ok_filter: "groups_ok gs \<Longrightarrow> groups_ok (filter P gs)"
  by (auto simp: groups_ok_def)

lemma drop_step:
  assumes "event_groups event m = Inr gs" and "drop_managed err command gs = Inr kept"
    and "store_groups event kept m = Inr m'"
  shows "event_groups event m' = Inr (filter foreign gs)" "e \<noteq> event \<Longrightarrow> event_groups e m' = event_groups e m"
    "good_map m \<Longrightarrow> good_map m'"
  using event_groups_store [OF assms(3)] groups_ok_filter [OF event_groups_ok [OF assms(1)], of foreign]
    drop_managed_value [OF assms(2)] by simp_all

lemma store_Some: "store_groups event gs (Some fs) = Inr m' \<Longrightarrow> \<exists>fs'. m' = Some fs'"
  by (auto simp: store_groups_def assign_def remove_key_def split: if_splits)

lemma codex_cleanup_cases:
  assumes "codex_cleanup command m = Inr m1"
  obtains "m1 = m" | gs kept where "has_suffix command ''--vendor codex''" "event_groups ''PostToolUseFailure'' m = Inr gs"
    "drop_managed install_drift command gs = Inr kept" "store_groups ''PostToolUseFailure'' kept m = Inr m1"
proof (cases "has_suffix command ''--vendor codex''")
  case True
  with assms obtain gs where gs: "event_groups ''PostToolUseFailure'' m = Inr gs"
    by (cases "event_groups ''PostToolUseFailure'' m") (simp_all add: codex_cleanup_def)
  with assms True obtain kept where kept: "drop_managed install_drift command gs = Inr kept"
    by (cases "drop_managed install_drift command gs") (simp_all add: codex_cleanup_def)
  with assms True gs show thesis using that(2) by (simp add: codex_cleanup_def)
next
  case False
  with assms show thesis using that(1) by (simp add: codex_cleanup_def)
qed

lemma failure_not_codex: "''PostToolUseFailure'' \<notin> set codexEvents"
  by code_simp

lemma codex_cleanup_groups:
  assumes "codex_cleanup command m = Inr m1"
  shows "event_groups e m = Inr gs \<Longrightarrow> \<exists>gs1. event_groups e m1 = Inr gs1 \<and> filter foreign gs1 = filter foreign gs"
    and "e \<in> set (configuredEvents command) \<Longrightarrow> event_groups e m1 = event_groups e m"
    and "good_map m \<Longrightarrow> good_map m1" and "m = Some fs \<Longrightarrow> \<exists>fs1. m1 = Some fs1"
proof -
  show "\<exists>gs1. event_groups e m1 = Inr gs1 \<and> filter foreign gs1 = filter foreign gs" if gs: "event_groups e m = Inr gs"
    using assms
  proof (cases rule: codex_cleanup_cases)
    case (2 xs kept)
    note step = drop_step [OF 2(2-4)]
    show ?thesis
    proof (cases "e = ''PostToolUseFailure''")
      case True
      then have "gs = xs" using gs 2(2) by simp
      with True step(1) show ?thesis by (simp only:) simp
    next
      case False
      with step(2) [OF False] gs show ?thesis by simp
    qed
  qed (use gs in simp)
  show "event_groups e m1 = event_groups e m" if e: "e \<in> set (configuredEvents command)"
    using assms
  proof (cases rule: codex_cleanup_cases)
    case (2 xs kept)
    then have "e \<noteq> ''PostToolUseFailure''" using e failure_not_codex by (metis configuredEvents_def)
    then show ?thesis by (rule drop_step(2) [OF 2(2-4)])
  qed simp
  show "good_map m1" if "good_map m"
    using assms
  proof (cases rule: codex_cleanup_cases)
    case (2 xs kept)
    show ?thesis by (rule drop_step(3) [OF 2(2-4) that])
  qed (use that in simp)
  show "\<exists>fs1. m1 = Some fs1" if "m = Some fs"
    using assms
  proof (cases rule: codex_cleanup_cases)
    case (2 xs kept)
    show ?thesis by (rule store_Some) (use 2(4) that in simp)
  qed (use that in simp)
qed

section \<open>Inspection\<close>

definition own_commands :: "handler list \<Rightarrow> string set" where
  "own_commands hs = h_command ` {h \<in> set hs. own h}"

definition complete :: "string \<Rightarrow> string \<Rightarrow> handler list \<Rightarrow> bool" where
  "complete os event hs \<longleftrightarrow> (\<exists>h \<in> set hs. own h \<and> h = expected_handler os event (h_command h))"

lemma inspect_handlers_value:
  assumes "foldE (inspect_handler os vendor event) hs sn = Inr sn'"
  shows "set (sn_commands sn') = set (sn_commands sn) \<union> own_commands hs
    \<and> set (sn_present sn') = set (sn_present sn) \<union> (if complete os event hs then {event} else {})
    \<and> (distinct (sn_commands sn) \<longrightarrow> distinct (sn_commands sn')) \<and> (distinct (sn_present sn) \<longrightarrow> distinct (sn_present sn'))"
  using assms
proof (induction hs arbitrary: sn)
  case Nil
  then show ?case by (simp add: own_commands_def complete_def)
next
  case (Cons h hs)
  then obtain sn1 where h: "inspect_handler os vendor event h sn = Inr sn1"
    and rest: "foldE (inspect_handler os vendor event) hs sn1 = Inr sn'" by auto
  note ih = Cons.IH [OF rest]
  show ?case
  proof (cases "own h")
    case True
    with h have sn1: "sn1 = sn\<lparr>sn_commands := List.insert (h_command h) (sn_commands sn),
        sn_present := (if h = expected_handler os event (h_command h) then List.insert event (sn_present sn) else sn_present sn)\<rparr>"
      by (simp add: inspect_handler_def split: if_splits)
    have c: "own_commands (h # hs) = insert (h_command h) (own_commands hs)"
      using True by (auto simp: own_commands_def)
    have p: "complete os event (h # hs) \<longleftrightarrow> h = expected_handler os event (h_command h) \<or> complete os event hs"
      using True by (auto simp: complete_def)
    show ?thesis
      using ih unfolding sn1 c p by (cases "h = expected_handler os event (h_command h)") auto
  next
    case False
    with h have "sn1 = sn" by (simp add: inspect_handler_def)
    moreover have "own_commands (h # hs) = own_commands hs" "complete os event (h # hs) = complete os event hs"
      using False by (auto simp: own_commands_def complete_def)
    ultimately show ?thesis using ih by simp
  qed
qed

lemma inspect_handlers_total:
  "\<forall>h \<in> set hs. own h \<longrightarrow> managedForVendor (h_command h) vendor \<Longrightarrow> \<exists>sn'. foldE (inspect_handler os vendor event) hs sn = Inr sn'"
  by (induction hs arbitrary: sn) (auto simp: inspect_handler_def)

definition handlers_at :: "gomap \<Rightarrow> string \<Rightarrow> handler list" where
  "handlers_at hooks event = all_handlers (the_Inr (event_groups event hooks))"

lemma inspect_event_eq:
  "event_groups event hooks = Inr gs \<Longrightarrow> inspect_event os vendor hooks event sn
     = foldE (inspect_handler os vendor event) (handlers_at hooks event) sn"
  by (simp add: inspect_event_def handlers_at_def all_handlers_def)

lemma inspect_events_value:
  assumes "foldE (inspect_event os vendor hooks) es sn = Inr sn'"
  shows "set (sn_commands sn') = set (sn_commands sn) \<union> (\<Union>e \<in> set es. own_commands (handlers_at hooks e))
    \<and> set (sn_present sn') = set (sn_present sn) \<union> {e \<in> set es. complete os e (handlers_at hooks e)}
    \<and> (distinct (sn_commands sn) \<longrightarrow> distinct (sn_commands sn')) \<and> (distinct (sn_present sn) \<longrightarrow> distinct (sn_present sn'))
    \<and> (\<forall>e \<in> set es. \<exists>gs. event_groups e hooks = Inr gs)"
  using assms
proof (induction es arbitrary: sn)
  case (Cons x es)
  then obtain sn1 where ev: "inspect_event os vendor hooks x sn = Inr sn1"
    and rest: "foldE (inspect_event os vendor hooks) es sn1 = Inr sn'" by auto
  from ev obtain gs where gs: "event_groups x hooks = Inr gs" by (auto simp: inspect_event_def)
  with ev have sn1: "foldE (inspect_handler os vendor x) (handlers_at hooks x) sn = Inr sn1" by (simp add: inspect_event_eq)
  from Cons.IH [OF rest] inspect_handlers_value [OF sn1] gs show ?case by (auto split: if_splits)
qed simp

lemma inspect_events_total:
  assumes "\<forall>e \<in> set es. (\<exists>gs. event_groups e hooks = Inr gs)
    \<and> (\<forall>h \<in> set (handlers_at hooks e). own h \<longrightarrow> managedForVendor (h_command h) vendor)"
  shows "\<exists>sn'. foldE (inspect_event os vendor hooks) es sn = Inr sn'"
  using assms
proof (induction es arbitrary: sn)
  case (Cons x es)
  then obtain sn1 where "inspect_event os vendor hooks x sn = Inr sn1"
    using inspect_event_eq inspect_handlers_total [of "handlers_at hooks x" vendor os x sn] by fastforce
  with Cons show ?case by auto
qed simp

lemma inspect_hooks_value:
  assumes "inspect_hooks os hooks command = Inr i"
  shows "commandVendor command \<noteq> [] \<and> (\<exists>sn. foldE (inspect_event os (commandVendor command) hooks) (configuredEvents command)
      \<lparr>sn_commands = [], sn_present = []\<rparr> = Inr sn
    \<and> (in_state i \<noteq> BindingOtherProfile \<longrightarrow> set (sn_commands sn) \<subseteq> {command}))"
proof -
  have v: "commandVendor command \<noteq> []" using assms by (auto simp: inspect_hooks_def Let_def)
  with assms obtain sn where sn: "foldE (inspect_event os (commandVendor command) hooks) (configuredEvents command)
      \<lparr>sn_commands = [], sn_present = []\<rparr> = Inr sn"
    by (cases "foldE (inspect_event os (commandVendor command) hooks) (configuredEvents command)
      \<lparr>sn_commands = [], sn_present = []\<rparr>") (simp_all add: inspect_hooks_def Let_def)
  have "in_state i \<noteq> BindingOtherProfile \<longrightarrow> set (sn_commands sn) \<subseteq> {command}"
  proof (cases "sn_commands sn")
    case (Cons existing others)
    with assms v sn have "others = []" by (simp add: inspect_hooks_def split: if_splits)
    with assms v sn Cons show ?thesis by (cases "existing = command") (auto simp: inspect_hooks_def)
  qed simp
  with v sn show ?thesis by blast
qed

text \<open>Before a binding of this profile is completed, every managed handler is its own.\<close>

lemma inspected_own:
  assumes "inspect_hooks os hooks command = Inr i" and "in_state i \<noteq> BindingOtherProfile"
    and e: "e \<in> set (configuredEvents command)"
  shows "\<exists>gs. event_groups e hooks = Inr gs \<and> (\<forall>h \<in> set (all_handlers gs). own h \<longrightarrow> h_command h = command)"
proof -
  obtain sn where sn: "foldE (inspect_event os (commandVendor command) hooks) (configuredEvents command)
      \<lparr>sn_commands = [], sn_present = []\<rparr> = Inr sn" and one: "set (sn_commands sn) \<subseteq> {command}"
    using inspect_hooks_value [OF assms(1)] assms(2) by blast
  note v = inspect_events_value [OF sn]
  from v e obtain gs where gs: "event_groups e hooks = Inr gs" by blast
  have "own_commands (handlers_at hooks e) \<subseteq> {command}" using v e one by auto
  with gs show ?thesis by (auto simp: own_commands_def handlers_at_def)
qed

text \<open>When every event holds its expected handler and no other managed one, the binding is current.\<close>

lemma inspect_current:
  assumes vendor: "commandVendor command \<noteq> []" "managedForVendor command (commandVendor command)" and m: "managed command"
    and events: "\<And>e. e \<in> set (configuredEvents command) \<Longrightarrow> \<exists>gs. event_groups e hooks = Inr gs
      \<and> expected_handler os e command \<in> set (all_handlers gs)
      \<and> (\<forall>h \<in> set (all_handlers gs). own h \<longrightarrow> h_command h = command)"
  shows "inspect_hooks os hooks command = Inr \<lparr>in_state = BindingCurrent, in_existing = command\<rparr>"
proof -
  let ?es = "configuredEvents command"
  have at: "expected_handler os e command \<in> set (handlers_at hooks e) \<and> (\<exists>gs. event_groups e hooks = Inr gs)
      \<and> (\<forall>h \<in> set (handlers_at hooks e). own h \<longrightarrow> h_command h = command)" if "e \<in> set ?es" for e
    using events [OF that] by (auto simp: handlers_at_def)
  have "\<exists>sn. foldE (inspect_event os (commandVendor command) hooks) ?es \<lparr>sn_commands = [], sn_present = []\<rparr> = Inr sn"
    by (rule inspect_events_total) (use at vendor in force)
  then obtain sn where sn: "foldE (inspect_event os (commandVendor command) hooks) ?es \<lparr>sn_commands = [], sn_present = []\<rparr> = Inr sn" ..
  note v = inspect_events_value [OF sn]
  have own: "own (expected_handler os e command)" for e by (rule own_expected [OF m])
  have each: "own_commands (handlers_at hooks e) = {command} \<and> complete os e (handlers_at hooks e)" if "e \<in> set ?es" for e
  proof
    show "own_commands (handlers_at hooks e) = {command}"
      using at [OF that] own [of e] by (force simp: own_commands_def)
    show "complete os e (handlers_at hooks e)"
      using at [OF that] own [of e] unfolding complete_def by (metis command_expected)
  qed
  have "?es \<noteq> []" by (simp add: configuredEvents_def claudeEvents_def codexEvents_def)
  then have "(\<Union>e \<in> set ?es. own_commands (handlers_at hooks e)) = {command}" using each by (cases ?es) auto
  then have "set (sn_commands sn) = {command}" "distinct (sn_commands sn)" using v by simp_all
  then have commands: "sn_commands sn = [command]"
    by (metis distinct.simps(2) insert_not_empty list.set(1) list.set(2) list.set_cases neq_Nil_conv singleton_iff insert_iff)
  have "set (sn_present sn) = set ?es" "distinct (sn_present sn)" using v each by auto
  then have "length (sn_present sn) = length ?es" using distinct_events by (metis distinct_card)
  with sn commands vendor(1) show ?thesis by (simp add: inspect_hooks_def)
qed

section \<open>A settings file\<close>

definition sample_command :: string where
  "sample_command = [SQ] @ ''overgent'' @ [SQ] @ '' agent-hook --vendor claude''"

definition sample_hooks :: members where
  "sample_hooks = [(''Stop'', RArr [RObj [(''hooks'',
     RArr [RObj [(''type'', RStr ''command''), (''command'', RStr ''say done'')]])]])]"

definition sample_document :: members where
  "sample_document = [(''model'', RStr ''opus''), (''permissions'', RObj [(''allow'', RArr [RStr ''Bash(ls)''])]),
     (''hooks'', RObj sample_hooks)]"

definition sample_settings :: settings where "sample_settings = Contents 200 (RObj sample_document)"

definition sample_write :: write_steps where
  "sample_write = \<lparr>ws_length = (\<lambda>v. 1000), ws_mkdir = None, ws_temporary = None, ws_fill = None, ws_replace = None\<rparr>"

definition sample_groups :: "group list" where
  "sample_groups = [\<lparr>g_matcher = [], g_hooks = Some [\<lparr>h_type = ''command'', h_command = ''say done'',
     h_async = False, h_timeout = 0, h_shell = []\<rparr>]\<rparr>]"

lemma sample_facts:
  "read_settings sample_settings = Inr (Some sample_document, Some sample_hooks)"
  "managed sample_command" "commandVendor sample_command \<noteq> []"
  "managedForVendor sample_command (commandVendor sample_command)"
  "event_groups ''Stop'' (Some sample_hooks) = Inr sample_groups" "filter foreign sample_groups = sample_groups"
  "''Stop'' \<in> set (configuredEvents sample_command)"
  "allowList (Some sample_document) = Inr ([''Bash(ls)''], Some [(''allow'', RArr [RStr ''Bash(ls)''])])"
  by code_simp+

lemma sample_disk: "ws_length sample_write v \<le> 2 ^ 20"
  by (simp add: sample_write_def)

definition sample_installed :: settings where
  "sample_installed = the_Inr (Install ''linux'' sample_write sample_settings sample_command)"

lemma Inr_the_Inr: "\<not> isl m \<Longrightarrow> m = Inr (the_Inr m)"
  by (cases m) simp_all

lemma sample_install: "Install ''linux'' sample_write sample_settings sample_command = Inr sample_installed"
  unfolding sample_installed_def by (rule Inr_the_Inr) code_simp

section \<open>The settings contract\<close>

lemma install_reads:
  assumes "Install os w f command = Inr f'" and "read_settings f = Inr (document, hooks)"
    and "managed command" and "\<And>v. ws_length w v \<le> 2 ^ 20"
  shows "\<exists>hooks1 hooks2 document' hooks'. codex_cleanup command hooks = Inr hooks1
    \<and> foldE (install_event os command) (configuredEvents command) hooks1 = Inr hooks2
    \<and> read_settings f' = Inr (document', hooks') \<and> lookup hooks' = lookup hooks2
    \<and> (\<forall>k. k \<noteq> ''hooks'' \<longrightarrow> lookup document' k = lookup document k)"
proof -
  obtain hooks1 where h1: "codex_cleanup command hooks = Inr hooks1"
    using assms(1,2) by (cases "codex_cleanup command hooks") (simp_all add: Install_def)
  obtain hooks2 where h2: "foldE (install_event os command) (configuredEvents command) hooks1 = Inr hooks2"
    using assms(1,2) h1
    by (cases "foldE (install_event os command) (configuredEvents command) hooks1") (simp_all add: Install_def)
  have w: "write_settings w document hooks2 = Inr f'" using assms(1,2) h1 h2 by (simp add: Install_def)
  have "good_map hooks2"
    using install_events_groups [OF h2 assms(3) distinct_events] codex_cleanup_groups(3) [OF h1] read_good [OF assms(2)] by blast
  with write_read [OF w] read_good [OF assms(2)] assms(4) h1 h2 show ?thesis by blast
qed



text \<open>
  Installing leaves the member's own configuration alone: every other entry of the document
  is unchanged, and every event keeps its groups that hold no managed handler, in order.
\<close>

theorem install_keeps_foreign:
  assumes installed: "Install os w f command = Inr f'" and read: "read_settings f = Inr (document, hooks)"
    and command: "managed command" and small: "\<And>v. ws_length w v \<le> 2 ^ 20"
  shows "\<exists>document' hooks'. read_settings f' = Inr (document', hooks')
    \<and> (\<forall>k. k \<noteq> ''hooks'' \<longrightarrow> lookup document' k = lookup document k)
    \<and> (\<forall>e gs. event_groups e hooks = Inr gs \<longrightarrow>
         (\<exists>gs'. event_groups e hooks' = Inr gs' \<and> filter foreign gs' = filter foreign gs))"
proof -
  obtain hooks1 hooks2 document' hooks' where c: "codex_cleanup command hooks = Inr hooks1"
    and i: "foldE (install_event os command) (configuredEvents command) hooks1 = Inr hooks2"
    and r: "read_settings f' = Inr (document', hooks')" and l: "lookup hooks' = lookup hooks2"
    and d: "\<forall>k. k \<noteq> ''hooks'' \<longrightarrow> lookup document' k = lookup document k"
    using install_reads [OF installed read command small] by blast
  have "\<exists>gs'. event_groups e hooks' = Inr gs' \<and> filter foreign gs' = filter foreign gs"
    if gs: "event_groups e hooks = Inr gs" for e gs
  proof -
    obtain gs1 where gs1: "event_groups e hooks1 = Inr gs1" "filter foreign gs1 = filter foreign gs"
      using codex_cleanup_groups(1) [OF c gs] by blast
    note events = install_events_groups [OF i command distinct_events]
    have eq: "event_groups e hooks' = event_groups e hooks2" using l by (intro event_groups_cong) simp
    show ?thesis
    proof (cases "e \<in> set (configuredEvents command)")
      case True
      with events gs1(1) obtain gs' where "install_groups os command e gs1 = Inr gs'" "event_groups e hooks2 = Inr gs'"
        by fastforce
      with install_groups_facts(1) [OF this(1) command] gs1(2) eq show ?thesis by simp
    next
      case False
      with events gs1 eq show ?thesis by simp
    qed
  qed
  with r d show ?thesis by blast
qed

theorem install_keeps_foreign_witness:
  "\<exists>document' hooks' gs'. read_settings sample_installed = Inr (document', hooks')
    \<and> lookup document' ''model'' = Some (RStr ''opus'')
    \<and> event_groups ''Stop'' hooks' = Inr gs' \<and> filter foreign gs' = sample_groups"
proof -
  have "lookup (Some sample_document) ''model'' = Some (RStr ''opus'')" by code_simp
  with install_keeps_foreign [OF sample_install sample_facts(1,2) sample_disk] sample_facts(5,6) show ?thesis
    by fastforce
qed

section \<open>Removing and rebinding\<close>

lemma remove_event_groups:
  assumes "remove_event command event m = Inr m'"
  shows "\<exists>gs. event_groups event m = Inr gs \<and> event_groups event m' = Inr (filter foreign gs)"
    "e \<noteq> event \<Longrightarrow> event_groups e m' = event_groups e m" "good_map m \<Longrightarrow> good_map m'"
proof -
  obtain gs kept where x: "event_groups event m = Inr gs"
    "drop_managed ''managed Overgent activity hook drifted; refusing removal'' command gs = Inr kept"
    "store_groups event kept m = Inr m'"
    using assms by (auto simp: remove_event_def)
  show "\<exists>gs. event_groups event m = Inr gs \<and> event_groups event m' = Inr (filter foreign gs)"
    using drop_step(1) [OF x] x(1) by blast
  show "e \<noteq> event \<Longrightarrow> event_groups e m' = event_groups e m" "good_map m \<Longrightarrow> good_map m'"
    using drop_step(2,3) [OF x] by blast+
qed

lemma remove_events_groups:
  assumes "foldE (remove_event command) es m = Inr m'" and "distinct es"
  shows "(\<forall>e \<in> set es. \<exists>gs. event_groups e m = Inr gs \<and> event_groups e m' = Inr (filter foreign gs))
    \<and> (\<forall>e. e \<notin> set es \<longrightarrow> event_groups e m' = event_groups e m) \<and> (good_map m \<longrightarrow> good_map m')"
  using assms
proof (induction es arbitrary: m)
  case (Cons e es)
  then obtain m1 where m1: "remove_event command e m = Inr m1" and rest: "foldE (remove_event command) es m1 = Inr m'" by auto
  note step = remove_event_groups [OF m1]
  have ih: "(\<forall>x \<in> set es. \<exists>gs. event_groups x m1 = Inr gs \<and> event_groups x m' = Inr (filter foreign gs))
    \<and> (\<forall>x. x \<notin> set es \<longrightarrow> event_groups x m' = event_groups x m1) \<and> (good_map m1 \<longrightarrow> good_map m')"
    using Cons.IH [OF rest] Cons.prems(2) by simp
  have e: "e \<notin> set es" using Cons.prems(2) by simp
  have "\<exists>gs. event_groups x m = Inr gs \<and> event_groups x m' = Inr (filter foreign gs)" if x: "x \<in> set (e # es)" for x
  proof (cases "x = e")
    case True
    have "event_groups e m' = event_groups e m1" using ih e by blast
    with step(1) True show ?thesis by metis
  next
    case False
    then have "x \<in> set es" using x by simp
    with ih step(2) [OF False] show ?thesis by metis
  qed
  moreover have "event_groups x m' = event_groups x m" if "x \<notin> set (e # es)" for x
    using ih step(2) [of x] that by simp
  ultimately show ?case using ih step(3) by blast
qed simp

lemma remove_reads:
  assumes "Remove w f command = Inr f'" and "read_settings f = Inr (document, hooks)"
    and "\<And>v. ws_length w v \<le> 2 ^ 20"
  shows "\<exists>document' hooks'. read_settings f' = Inr (document', hooks')
    \<and> (\<forall>k. k \<noteq> ''hooks'' \<longrightarrow> lookup document' k = lookup document k)
    \<and> (\<forall>e \<in> set (configuredEvents command). \<exists>gs. event_groups e hooks = Inr gs \<and> event_groups e hooks' = Inr (filter foreign gs))
    \<and> (\<forall>e. e \<notin> set (configuredEvents command) \<longrightarrow> event_groups e hooks' = event_groups e hooks)"
proof -
  obtain hooks1 where h1: "foldE (remove_event command) (configuredEvents command) hooks = Inr hooks1"
    using assms(1,2) by (cases "foldE (remove_event command) (configuredEvents command) hooks") (simp_all add: Remove_def)
  note events = remove_events_groups [OF h1 distinct_events]
  have w: "write_settings w document hooks1 = Inr f'" using assms(1,2) h1 by (simp add: Remove_def)
  obtain document' hooks' where r: "read_settings f' = Inr (document', hooks')" and l: "lookup hooks' = lookup hooks1"
    and d: "\<forall>k. k \<noteq> ''hooks'' \<longrightarrow> lookup document' k = lookup document k"
    using write_read [OF w _ _ assms(3)] read_good [OF assms(2)] events by blast
  have "event_groups e hooks' = event_groups e hooks1" for e using l by (intro event_groups_cong) simp
  with r d events show ?thesis by auto
qed



lemma strip_handlers_value: "strip_handlers vendor hs = Inr kept \<Longrightarrow> kept = filter (\<lambda>h. \<not> own h) hs"
  by (induction hs arbitrary: kept) (auto split: if_splits)

lemma strip_groups_value: "strip_groups vendor gs = Inr kept \<Longrightarrow> all_handlers kept = filter (\<lambda>h. \<not> own h) (all_handlers gs)"
proof (induction gs arbitrary: kept)
  case (Cons g gs)
  then obtain hs k where "strip_handlers vendor (handlers g) = Inr hs" "strip_groups vendor gs = Inr k"
    "kept = (if hs \<noteq> [] then g\<lparr>g_hooks := Some hs\<rparr> # k else k)" by auto
  with Cons.IH [of k] strip_handlers_value show ?case by auto
qed simp

text \<open>The handlers of an event that a member put there.\<close>

definition members_own :: "gomap \<Rightarrow> string \<Rightarrow> handler list" where
  "members_own hooks event = filter (\<lambda>h. \<not> own h) (handlers_at hooks event)"

lemma strip_event_groups:
  assumes "strip_event vendor event m = Inr m'"
  shows "\<exists>gs kept. event_groups event m = Inr gs \<and> event_groups event m' = Inr kept \<and> all_handlers kept = filter (\<lambda>h. \<not> own h) (all_handlers gs)"
    "e \<noteq> event \<Longrightarrow> event_groups e m' = event_groups e m" "good_map m \<Longrightarrow> good_map m'"
proof -
  obtain gs kept where x: "event_groups event m = Inr gs" "strip_groups vendor gs = Inr kept" "store_groups event kept m = Inr m'"
    using assms by (auto simp: strip_event_def)
  have v: "all_handlers kept = filter (\<lambda>h. \<not> own h) (all_handlers gs)" by (rule strip_groups_value [OF x(2)])
  have "groups_ok kept" using event_groups_ok [OF x(1)] by (simp add: groups_ok_all v)
  note step = event_groups_store [OF x(3) this]
  show "\<exists>gs kept. event_groups event m = Inr gs \<and> event_groups event m' = Inr kept \<and> all_handlers kept = filter (\<lambda>h. \<not> own h) (all_handlers gs)"
    using step(1) x(1) v by blast
  show "e \<noteq> event \<Longrightarrow> event_groups e m' = event_groups e m" "good_map m \<Longrightarrow> good_map m'"
    using step(2,3) by blast+
qed

lemma strip_events_groups:
  assumes "foldE (strip_event vendor) es m = Inr m'"
  shows "(\<forall>e \<in> set es. \<exists>kept. event_groups e m' = Inr kept \<and> (\<forall>h \<in> set (all_handlers kept). \<not> own h))
    \<and> (\<forall>e. members_own m' e = members_own m e) \<and> (\<forall>e. e \<notin> set es \<longrightarrow> event_groups e m' = event_groups e m)
    \<and> (good_map m \<longrightarrow> good_map m')"
  using assms
proof (induction es arbitrary: m)
  case (Cons e es)
  then obtain m1 where m1: "strip_event vendor e m = Inr m1" and rest: "foldE (strip_event vendor) es m1 = Inr m'" by auto
  obtain gs kept where g: "event_groups e m = Inr gs" "event_groups e m1 = Inr kept"
    "all_handlers kept = filter (\<lambda>h. \<not> own h) (all_handlers gs)"
    using strip_event_groups(1) [OF m1] by blast
  note step = strip_event_groups(2,3) [OF m1]
  note ih = Cons.IH [OF rest]
  have "members_own m1 x = members_own m x" for x
    using g step(1) [of x] by (cases "x = e") (simp_all add: members_own_def handlers_at_def)
  moreover have "\<exists>kept. event_groups x m' = Inr kept \<and> (\<forall>h \<in> set (all_handlers kept). \<not> own h)" if "x \<in> set (e # es)" for x
    using ih g step(1) [of x] that by (cases "x \<in> set es") auto
  moreover have "event_groups x m' = event_groups x m" if "x \<notin> set (e # es)" for x
    using ih step(1) [of x] that by simp
  ultimately show ?case using ih step(2) by auto
qed simp

lemma bind_event_groups:
  assumes "bind_event os command event m = Inr m'"
  shows "\<exists>gs. event_groups event m = Inr gs \<and> event_groups event m' = Inr (gs @ [expected os event command])"
    "e \<noteq> event \<Longrightarrow> event_groups e m' = event_groups e m" "good_map m \<Longrightarrow> good_map m'"
proof -
  obtain gs where x: "event_groups event m = Inr gs" "assign m event (encode_groups (gs @ [expected os event command])) = Inr m'"
    using assms by (auto simp: bind_event_def)
  have "groups_ok (gs @ [expected os event command])"
    using event_groups_ok [OF x(1)] expected_ok(2) by (simp add: groups_ok_all)
  note step = event_groups_assign [OF x(2) this]
  show "\<exists>gs. event_groups event m = Inr gs \<and> event_groups event m' = Inr (gs @ [expected os event command])"
    using step(1) x(1) by blast
  show "e \<noteq> event \<Longrightarrow> event_groups e m' = event_groups e m" by (rule step(2))
  show "good_map m \<Longrightarrow> good_map m'" by (rule assign_simps(2) [OF x(2)])
qed

lemma bind_events_groups:
  assumes "foldE (bind_event os command) es m = Inr m'" and "distinct es" and "managed command"
  shows "(\<forall>e \<in> set es. \<exists>gs. event_groups e m = Inr gs \<and> event_groups e m' = Inr (gs @ [expected os e command]))
    \<and> (\<forall>e. members_own m' e = members_own m e) \<and> (good_map m \<longrightarrow> good_map m')
    \<and> (\<forall>e. e \<notin> set es \<longrightarrow> event_groups e m' = event_groups e m)"
  using assms
proof (induction es arbitrary: m)
  case (Cons e es)
  then obtain m1 where m1: "bind_event os command e m = Inr m1" and rest: "foldE (bind_event os command) es m1 = Inr m'" by auto
  obtain gs where g: "event_groups e m = Inr gs" "event_groups e m1 = Inr (gs @ [expected os e command])"
    using bind_event_groups(1) [OF m1] by blast
  note step = bind_event_groups(2,3) [OF m1]
  have ih: "(\<forall>x \<in> set es. \<exists>gs. event_groups x m1 = Inr gs \<and> event_groups x m' = Inr (gs @ [expected os x command]))
    \<and> (\<forall>x. members_own m' x = members_own m1 x) \<and> (good_map m1 \<longrightarrow> good_map m')
    \<and> (\<forall>x. x \<notin> set es \<longrightarrow> event_groups x m' = event_groups x m1)"
    using Cons.IH [OF rest] Cons.prems(2,3) by simp
  have e: "e \<notin> set es" using Cons.prems(2) by simp
  have "members_own m1 x = members_own m x" for x
    using g step(1) [of x] own_expected [OF \<open>managed command\<close>]
    by (cases "x = e") (simp_all add: members_own_def handlers_at_def)
  moreover have "\<exists>gs. event_groups x m = Inr gs \<and> event_groups x m' = Inr (gs @ [expected os x command])"
    if x: "x \<in> set (e # es)" for x
  proof (cases "x = e")
    case True
    with g ih e show ?thesis by simp
  next
    case False
    then have "x \<in> set es" using x by simp
    with ih step(1) [OF False] show ?thesis by metis
  qed
  moreover have "event_groups x m' = event_groups x m" if "x \<notin> set (e # es)" for x
    using ih step(1) [of x] that by simp
  ultimately show ?case using ih step(2) by auto
qed simp

lemma unlisted_empty: "e \<notin> set (keys_of m) \<Longrightarrow> event_groups e m = Inr []"
  by (cases m) (auto simp: keys_of_def event_groups_def groupsFor_def map_of_eq_None_iff [symmetric]
      simp del: map_of_eq_None_iff split: option.splits)



section \<open>Tools\<close>

lemma add_tools_set: "set (add_tools tools allow) = set allow \<union> set tools \<and> (\<exists>more. add_tools tools allow = allow @ more \<and> set more \<subseteq> set tools)"
  unfolding add_tools_def
proof (induction tools arbitrary: allow)
  case (Cons t tools)
  show ?case
  proof (cases "t \<in> set allow")
    case True
    with Cons [of allow] show ?thesis by auto
  next
    case False
    from Cons [of "allow @ [t]"] obtain more where
      "fold (\<lambda>t allow. if t \<in> set allow then allow else allow @ [t]) tools (allow @ [t]) = allow @ [t] @ more" "set more \<subseteq> set tools"
      by auto
    with Cons [of "allow @ [t]"] False show ?thesis by auto
  qed
qed simp

lemma allow_read_back:
  assumes s: "setAllowList document permissions allow = Inr document'" and good: "good_map permissions"
    and p: "lookup d ''permissions'' = lookup document' ''permissions''"
  shows "\<exists>permissions'. allowList d = Inr (allow, permissions')"
proof -
  obtain perms where perms: "(if allow = [] then Inr (remove_key ''allow'' permissions)
      else assign permissions ''allow'' (RArr (map RStr allow))) = Inr perms"
    and d: "(if map_size perms = 0 then Inr (remove_key ''permissions'' document)
       else assign document ''permissions'' (encode_map perms)) = Inr document'"
    using s by (auto simp: setAllowList_def)
  have gp: "good_map perms" using perms good assign_simps(2) by (cases "allow = []") auto
  have strings: "decode_strings (RArr (map RStr allow)) = Inr allow"
    by (simp add: decode_strings_def mapE_encode decode_string_def)
  have entry: "lookup perms ''allow'' = (if allow = [] then None else Some (RArr (map RStr allow)))"
    using perms assign_simps(1) by (cases "allow = []") auto
  show ?thesis
  proof (cases "map_size perms = 0")
    case True
    then have "lookup perms ''allow'' = None" by (cases perms) (simp_all add: map_size_def)
    then have "allow = []" using entry by (simp split: if_splits)
    moreover have "lookup d ''permissions'' = None" using d True p by auto
    ultimately show ?thesis by (simp add: allowList_def)
  next
    case False
    then obtain fs where fs: "perms = Some fs" by (cases perms) (simp_all add: map_size_def)
    obtain fs' where fs': "unmarshal_map (encode_map perms) = Inr (Some fs')" "map_of fs' = map_of fs"
      using unmarshal_encode [of fs] gp fs by auto
    have "lookup d ''permissions'' = Some (encode_map perms)" using d False p assign_simps(1) by simp
    with fs' fs entry strings show ?thesis by (simp add: allowList_def)
  qed
qed

lemma allow_list_good: "allowList document = Inr (allow, permissions) \<Longrightarrow> good_map permissions"
  using unmarshal_good by (auto simp: allowList_def split: option.splits sum.splits)

lemma set_allow_others:
  assumes "setAllowList document permissions allow = Inr document'"
  shows "k \<noteq> ''permissions'' \<Longrightarrow> lookup document' k = lookup document k" "good_map document \<Longrightarrow> good_map document'"
proof -
  obtain perms where "(if map_size perms = 0 then Inr (remove_key ''permissions'' document)
       else assign document ''permissions'' (encode_map perms)) = Inr document'"
    using assms by (auto simp: setAllowList_def)
  then show "k \<noteq> ''permissions'' \<Longrightarrow> lookup document' k = lookup document k" "good_map document \<Longrightarrow> good_map document'"
    using assign_simps(1,2) by (cases "map_size perms = 0"; force)+
qed

lemma written_tools:
  assumes s: "setAllowList document permissions allow = Inr d" and w: "write_settings w d hooks = Inr f'"
    and good: "good_map document" "good_map permissions" "good_map hooks" and small: "\<And>v. ws_length w v \<le> 2 ^ 20"
  shows "\<exists>document' hooks' permissions'. read_settings f' = Inr (document', hooks') \<and> lookup hooks' = lookup hooks
    \<and> allowList document' = Inr (allow, permissions')
    \<and> (\<forall>k. k \<notin> {''hooks'', ''permissions''} \<longrightarrow> lookup document' k = lookup document k)"
proof -
  obtain document' hooks' where r: "read_settings f' = Inr (document', hooks')" "lookup hooks' = lookup hooks"
    and k: "\<forall>k. k \<noteq> ''hooks'' \<longrightarrow> lookup document' k = lookup d k"
    using write_read [OF w set_allow_others(2) [OF s good(1)] good(3) small] by blast
  have "lookup document' ''permissions'' = lookup d ''permissions''" using k by simp
  from allow_read_back [OF s good(2) this] r k set_allow_others(1) [OF s] show ?thesis by auto
qed

lemma allow_tools_written:
  assumes allowed: "AllowTools w f tools = Inr f1" and read: "read_settings f = Inr (document, hooks)"
    and allow: "allowList document = Inr (allow, permissions)" and small: "\<And>v. ws_length w v \<le> 2 ^ 20"
  shows "f1 \<noteq> Missing \<and> (\<exists>document' hooks' permissions'. read_settings f1 = Inr (document', hooks') \<and> lookup hooks' = lookup hooks
    \<and> allowList document' = Inr (add_tools tools allow, permissions')
    \<and> (\<forall>k. k \<notin> {''hooks'', ''permissions''} \<longrightarrow> lookup document' k = lookup document k))"
proof -
  have step: "bindE (setAllowList document permissions (add_tools tools allow)) (\<lambda>d. write_settings w d hooks) = Inr f1"
    using allowed unfolding AllowTools_def read allow bindE_simps prod.case .
  then obtain d where d: "setAllowList document permissions (add_tools tools allow) = Inr d" "write_settings w d hooks = Inr f1"
    unfolding bindE_eq_Inr by (elim exE conjE)
  have "f1 \<noteq> Missing" using d(2) by (auto simp: write_settings_def split: option.splits)
  then show ?thesis
    by (rule conjI [OF _ written_tools [OF d conjunct1 [OF read_good [OF read]] allow_list_good [OF allow]
        conjunct2 [OF read_good [OF read]] small]])
qed

lemma disallow_tools_written:
  assumes withdrawn: "DisallowTools w f tools = Inr f2" and "f \<noteq> Missing" and read: "read_settings f = Inr (document, hooks)"
    and allow: "allowList document = Inr (allow, permissions)" and small: "\<And>v. ws_length w v \<le> 2 ^ 20"
  shows "\<exists>document' hooks' permissions'. read_settings f2 = Inr (document', hooks') \<and> lookup hooks' = lookup hooks
    \<and> allowList document' = Inr (filter (\<lambda>entry. entry \<notin> set tools) allow, permissions')
    \<and> (\<forall>k. k \<notin> {''hooks'', ''permissions''} \<longrightarrow> lookup document' k = lookup document k)"
proof -
  have "bindE (setAllowList document permissions (filter (\<lambda>entry. entry \<notin> set tools) allow)) (\<lambda>d. write_settings w d hooks) = Inr f2"
    using withdrawn unfolding DisallowTools_def if_not_P [OF \<open>f \<noteq> Missing\<close>] read allow bindE_simps prod.case .
  then obtain d where d: "setAllowList document permissions (filter (\<lambda>entry. entry \<notin> set tools) allow) = Inr d"
    "write_settings w d hooks = Inr f2"
    unfolding bindE_eq_Inr by (elim exE conjE)
  show ?thesis
    by (rule written_tools [OF d conjunct1 [OF read_good [OF read]] allow_list_good [OF allow]
        conjunct2 [OF read_good [OF read]] small])
qed



end
