(* ===== verification/Update_Release.thy ===== *)
theory Update_Release
  imports App_Lifecycle Hook_Command "HOL-Library.AList"
begin

text \<open>
  Signed release metadata (\<^verbatim>\<open>Verify\<close>, \<^verbatim>\<open>FetchManifest\<close>, \<^verbatim>\<open>ParsePublicKey\<close> and their helpers of
  \<^verbatim>\<open>internal/update/update.go\<close>).

  Parameters: \<^verbatim>\<open>ed25519.Verify\<close>, the parser of \<^verbatim>\<open>net/url\<close>, whether \<^verbatim>\<open>net\<close> reads a host as a loopback
  address, the parser of JSON text, the HTTP exchange and the readers of \<^verbatim>\<open>archive/zip\<close>, \<^verbatim>\<open>archive/tar\<close> and
  \<^verbatim>\<open>compress/gzip\<close>. Base64 and hexadecimal are defined.
\<close>

section \<open>Base64 and hexadecimal\<close>

definition b64_value :: "char \<Rightarrow> nat option" where
  "b64_value c =
     (let n = byte c in
      if 65 \<le> n \<and> n \<le> 90 then Some (n - 65)
      else if 97 \<le> n \<and> n \<le> 122 then Some (n - 71)
      else if 48 \<le> n \<and> n \<le> 57 then Some (n + 4)
      else if n = 43 then Some 62 else if n = 47 then Some 63 else None)"

definition b64_bytes :: "char list \<Rightarrow> string option" where
  "b64_bytes cs =
     (case map b64_value cs of
        [Some a, Some b] \<Rightarrow> Some [char_of (a * 4 + b div 16)]
      | [Some a, Some b, Some c] \<Rightarrow> Some [char_of (a * 4 + b div 16), char_of (b mod 16 * 16 + c div 4)]
      | [Some a, Some b, Some c, Some d] \<Rightarrow>
          Some [char_of (a * 4 + b div 16), char_of (b mod 16 * 16 + c div 4), char_of (c mod 4 * 64 + d)]
      | _ \<Rightarrow> None)"

fun b64_groups :: "string \<Rightarrow> string option" where
  "b64_groups (a # b # c # d # e # s) =
     (case b64_bytes [a, b, c, d] of None \<Rightarrow> None | Some x \<Rightarrow> map_option (\<lambda>y. x @ y) (b64_groups (e # s)))"
| "b64_groups [a, b, c, d] =
     (if d = CHR ''='' then (if c = CHR ''='' then b64_bytes [a, b] else b64_bytes [a, b, c]) else b64_bytes [a, b, c, d])"
| "b64_groups [] = Some []"
| "b64_groups s = None"

text \<open>\<^verbatim>\<open>base64.StdEncoding.DecodeString\<close>: line ends are skipped.\<close>

definition base64_decode :: "string \<Rightarrow> string option" where
  "base64_decode s = b64_groups (filter (\<lambda>c. c \<noteq> CR \<and> c \<noteq> LF) s)"

definition hex_char :: "char \<Rightarrow> bool" where
  "hex_char c \<longleftrightarrow> (let n = byte c in 48 \<le> n \<and> n \<le> 57 \<or> 97 \<le> n \<and> n \<le> 102 \<or> 65 \<le> n \<and> n \<le> 70)"

definition hex_text :: "string \<Rightarrow> bool" where
  "hex_text s \<longleftrightarrow> even (length s) \<and> list_all hex_char s"

section \<open>The manifest\<close>

definition manifestLimit :: int where "manifestLimit = 1048576"
definition artifactLimit :: int where "artifactLimit = 262144000"

record Asset =
  as_url :: string
  as_sha256 :: string
  as_size :: int

text \<open>The assets are the entries of the map, one per key.\<close>

record Manifest =
  mf_schema :: int
  mf_version :: string
  mf_published :: string
  mf_assets :: "(string \<times> Asset) list"
  mf_signature :: string

record parsed_url =
  pu_scheme :: string
  pu_host :: string
  pu_hostname :: string
  pu_user :: bool
  pu_fragment :: string
  pu_path :: string
  pu_text :: string

record response =
  rp_status :: int
  rp_body :: string
  rp_broken :: "string option"

record zip_entry =
  ze_name :: string
  ze_dir :: bool
  ze_open :: "string + (string \<times> string option)"

record tar_entry =
  te_name :: string
  te_regular :: bool
  te_size :: int
  te_data :: "string \<times> string option"

text \<open>
  A body, and an error that ends it early; \<open>rl_gzip\<close> is the entries of a compressed archive, and an
  error that ends the listing early.
\<close>

record release_host =
  rl_goos :: string
  rl_goarch :: string
  rl_url :: "string \<Rightarrow> parsed_url option"
  rl_loopback :: "string \<Rightarrow> bool"
  rl_ed25519 :: "string \<Rightarrow> string \<Rightarrow> string \<Rightarrow> bool"
  rl_json :: "string \<Rightarrow> json option"
  rl_get :: "string \<Rightarrow> string + response"
  rl_zip :: "string \<Rightarrow> string + zip_entry list"
  rl_gzip :: "string \<Rightarrow> string + (tar_entry list \<times> string option)"

record update_client =
  uc_key :: string
  uc_goos :: string
  uc_goarch :: string

definition ParsePublicKey :: "string \<Rightarrow> string + string" where
  "ParsePublicKey encoded =
     (case base64_decode (trim_space encoded) of
        Some bytes \<Rightarrow> if length bytes = 32 then Inr bytes else Inl ''release update public key is not configured''
      | None \<Rightarrow> Inl ''release update public key is not configured'')"

definition secureURL :: "release_host \<Rightarrow> string \<Rightarrow> string + parsed_url" where
  "secureURL h raw =
     (case rl_url h raw of
        None \<Rightarrow> Inl ''update URL is invalid''
      | Some p \<Rightarrow>
          if pu_host p = [] \<or> pu_user p \<or> pu_fragment p \<noteq> [] then Inl ''update URL is invalid''
          else let loopback = (pu_hostname p = ''localhost'' \<or> rl_loopback h (pu_hostname p)) in
            if pu_scheme p \<noteq> ''https'' \<and> \<not> (pu_scheme p = ''http'' \<and> loopback) then Inl ''update URL requires HTTPS''
            else Inr p)"

definition newURLPath :: "release_host \<Rightarrow> string \<Rightarrow> string" where
  "newURLPath h raw = (case rl_url h raw of None \<Rightarrow> raw | Some p \<Rightarrow> pu_path p)"

definition version_char :: "char \<Rightarrow> bool" where
  "version_char c \<longleftrightarrow> (let n = byte c in
     n = 46 \<or> n = 45 \<or> n = 43 \<or> 48 \<le> n \<and> n \<le> 57 \<or> 65 \<le> n \<and> n \<le> 90 \<or> 97 \<le> n \<and> n \<le> 122)"

definition validVersion :: "string \<Rightarrow> bool" where
  "validVersion v \<longleftrightarrow> 2 \<le> length v \<and> length v \<le> 64 \<and> hd v = CHR ''v'' \<and> list_all version_char (tl v)"

text \<open>The bytes that are signed: everything but the signature, in the fixed order of the fields.\<close>

definition SigningPayload :: "Manifest \<Rightarrow> string" where
  "SigningPayload mf = marshal (JStruct
     [(''schemaVersion'', JInt (mf_schema mf)), (''version'', JStr (mf_version mf)), (''publishedAt'', JStr (mf_published mf)),
      (''assets'', JMap (map (\<lambda>(k, a). (k, JStruct
         [(''url'', JStr (as_url a)), (''sha256'', JStr (as_sha256 a)), (''size'', JInt (as_size a))])) (mf_assets mf)))])"

definition asset_error :: "release_host \<Rightarrow> string \<times> Asset \<Rightarrow> string option" where
  "asset_error h ka =
     (let (key, asset) = ka in
      if key = [] \<or> as_size asset < 1 \<or> artifactLimit < as_size asset \<or> length (as_sha256 asset) \<noteq> 64 then Some ''invalid update asset''
      else if \<not> hex_text (as_sha256 asset) then Some ''invalid update asset checksum''
      else case secureURL h (as_url asset) of Inl e \<Rightarrow> Some (''invalid update asset URL: '' @ e) | Inr _ \<Rightarrow> None)"

definition Verify :: "release_host \<Rightarrow> Manifest \<Rightarrow> string \<Rightarrow> string option" where
  "Verify h mf key =
     (if mf_schema mf \<noteq> 1 \<or> \<not> validVersion (mf_version mf) \<or> mf_assets mf = [] \<or> 12 < length (mf_assets mf)
      then Some ''invalid update metadata''
      else if \<not> valid_rfc3339 (mf_published mf) then Some ''invalid update publish time''
      else case first_error (asset_error h) (mf_assets mf) of Some e \<Rightarrow> Some e
      | None \<Rightarrow>
          (case base64_decode (mf_signature mf) of
             None \<Rightarrow> Some ''update metadata signature is unavailable''
           | Some signature \<Rightarrow>
               if length key \<noteq> 32 then Some ''update metadata signature is unavailable''
               else if \<not> rl_ed25519 h key (SigningPayload mf) signature then Some ''update metadata signature verification failed''
               else None))"

definition dec_asset :: "json \<Rightarrow> string + Asset" where
  "dec_asset j = bindE (strict_object [''url'', ''sha256'', ''size''] j) (\<lambda>m.
     bindE (dec_string ''url'' m) (\<lambda>u. bindE (dec_string ''sha256'' m) (\<lambda>s. bindE (dec_int ''size'' m) (\<lambda>z.
       Inr \<lparr>as_url = u, as_sha256 = s, as_size = z\<rparr>))))"

text \<open>A Go map: a later entry replaces an earlier one with its key, \<^verbatim>\<open>null\<close> empties it.\<close>

definition dec_assets :: "(string \<times> json) list \<Rightarrow> string + (string \<times> Asset) list" where
  "dec_assets m = foldE (\<lambda>(_, v) acc.
     case v of
       JNull \<Rightarrow> Inr []
     | JMap kvs \<Rightarrow> foldE (\<lambda>(k, j) assets. bindE (dec_asset j) (\<lambda>a. Inr (AList.update k a assets))) kvs acc
     | _ \<Rightarrow> Inl ''cannot unmarshal into map'') (filter (\<lambda>kv. to_lower (fst kv) = ''assets'') m) []"

definition dec_manifest :: "json \<Rightarrow> string + Manifest" where
  "dec_manifest j = bindE (strict_object [''schemaVersion'', ''version'', ''publishedAt'', ''assets'', ''signature''] j) (\<lambda>m.
     bindE (dec_int ''schemaVersion'' m) (\<lambda>s. bindE (dec_string ''version'' m) (\<lambda>v. bindE (dec_string ''publishedAt'' m) (\<lambda>p.
     bindE (dec_assets m) (\<lambda>a. bindE (dec_string ''signature'' m) (\<lambda>g.
       Inr \<lparr>mf_schema = s, mf_version = v, mf_published = p, mf_assets = a, mf_signature = g\<rparr>))))))"

text \<open>What is read of a body under a limit: at most so many bytes, and the error that came before them.\<close>

definition limited :: "int \<Rightarrow> string \<Rightarrow> string option \<Rightarrow> string \<times> string option" where
  "limited n body broken = (if int (length body) < n then (body, broken) else (take (nat n) body, None))"

definition FetchManifest :: "release_host \<Rightarrow> update_client \<Rightarrow> string \<Rightarrow> string + Manifest" where
  "FetchManifest h c raw =
     bindE (secureURL h raw) (\<lambda>p.
     bindE (map_sum (\<lambda>e. ''fetch update metadata: '' @ e) id (rl_get h (pu_text p))) (\<lambda>r.
       if rp_status r \<noteq> 200 then Inl (''fetch update metadata: HTTP '' @ int_dec (rp_status r))
       else case limited (manifestLimit + 1) (rp_body r) (rp_broken r) of
         (_, Some e) \<Rightarrow> Inl (''read update metadata: '' @ e)
       | (body, None) \<Rightarrow>
           if manifestLimit < int (length body) then Inl ''update metadata exceeds limit''
           else (case rl_json h body of
               None \<Rightarrow> Inl ''decode update metadata: invalid JSON''
             | Some j \<Rightarrow>
                 bindE (map_sum (\<lambda>e. ''decode update metadata: '' @ e) id (dec_manifest j)) (\<lambda>mf.
                   case Verify h mf (uc_key c) of Some e \<Rightarrow> Inl e | None \<Rightarrow> Inr mf))))"

lemma limited_le: "limited n body broken = (s, None) \<Longrightarrow> 0 \<le> n \<Longrightarrow> int (length s) \<le> n"
  by (auto simp: limited_def split: if_splits)

lemma verified_asset:
  assumes "Verify h mf key = None" and "map_of (mf_assets mf) k = Some a"
  shows "1 \<le> as_size a \<and> as_size a \<le> artifactLimit \<and> (\<exists>p. secureURL h (as_url a) = Inr p)"
proof -
  have "first_error (asset_error h) (mf_assets mf) = None"
    using assms(1) by (auto simp: Verify_def split: if_splits option.splits)
  moreover have "(k, a) \<in> set (mf_assets mf)" using assms(2) by (rule map_of_SomeD)
  moreover have "first_error f xs = None \<Longrightarrow> x \<in> set xs \<Longrightarrow> f x = None" for f :: "string \<times> Asset \<Rightarrow> string option" and x xs
    by (induction xs) (auto split: option.splits)
  ultimately have "asset_error h (k, a) = None" by blast
  then show ?thesis by (auto simp: asset_error_def Let_def split: if_splits sum.splits)
qed

end
