(* ===== verification/Update_Apply.thy ===== *)
theory Update_Apply
  imports Update_Release
begin

text \<open>
  Replacing the running executable and rolling back (\<^verbatim>\<open>Apply\<close>, \<^verbatim>\<open>Rollback\<close> and their helpers of
  \<^verbatim>\<open>internal/update/update.go\<close>).

  The disk maps a path to what is there. Every call of the operating system that can fail is numbered as it
  is made, and the \<open>n\<close>-th one fails with what \<open>fault n\<close> says, without an effect; \<open>random n\<close> is the random part
  of the name that \<^verbatim>\<open>os.CreateTemp\<close> settles on. Both are arbitrary, so a theorem covers every
  failure at every point.
\<close>

section \<open>The operating system\<close>

datatype image = Plain string | Directory | Link

type_synonym disk = "string \<rightharpoonup> image"

record update_state =
  us_disk :: disk
  us_calls :: nat

record update_os =
  uo_fault :: "nat \<Rightarrow> string option"
  uo_random :: "nat \<Rightarrow> string"

type_synonym 'a act = "update_state \<Rightarrow> (string + 'a) \<times> update_state"

definition succeed :: "'a \<Rightarrow> 'a act" where "succeed x = (\<lambda>m. (Inr x, m))"
definition fail :: "string \<Rightarrow> 'a act" where "fail e = (\<lambda>m. (Inl e, m))"

definition followed :: "'a act \<Rightarrow> ('a \<Rightarrow> 'b act) \<Rightarrow> 'b act" where
  "followed a f = (\<lambda>m. case a m of (Inl e, m') \<Rightarrow> (Inl e, m') | (Inr x, m') \<Rightarrow> f x m')"

text \<open>\<^verbatim>\<open>fmt.Errorf\<close> with the error at the end.\<close>

definition wrapped :: "string \<Rightarrow> 'a act \<Rightarrow> 'a act" where
  "wrapped msg a = (\<lambda>m. case a m of (Inl e, m') \<Rightarrow> (Inl (msg @ e), m') | r \<Rightarrow> r)"

definition sys :: "update_os \<Rightarrow> (disk \<Rightarrow> string + ('a \<times> disk)) \<Rightarrow> 'a act" where
  "sys os f = (\<lambda>m.
     let m' = m\<lparr>us_calls := us_calls m + 1\<rparr> in
     case uo_fault os (us_calls m) of Some e \<Rightarrow> (Inl e, m')
     | None \<Rightarrow> (case f (us_disk m) of Inl e \<Rightarrow> (Inl e, m') | Inr (x, d) \<Rightarrow> (Inr x, m'\<lparr>us_disk := d\<rparr>)))"

definition call :: "update_os \<Rightarrow> unit act" where
  "call os = sys os (\<lambda>d. Inr ((), d))"

definition lstat :: "update_os \<Rightarrow> string \<Rightarrow> image option act" where
  "lstat os p = sys os (\<lambda>d. Inr (d p, d))"

definition remove_file :: "update_os \<Rightarrow> string \<Rightarrow> unit act" where
  "remove_file os p = sys os (\<lambda>d. if d p = None then Inl ''no such file or directory'' else Inr ((), d(p := None)))"

definition write_file :: "update_os \<Rightarrow> string \<Rightarrow> string \<Rightarrow> unit act" where
  "write_file os p data = sys os (\<lambda>d. Inr ((), d(p \<mapsto> Plain data)))"

definition read_file :: "update_os \<Rightarrow> string \<Rightarrow> string act" where
  "read_file os p = sys os (\<lambda>d. case d p of Some (Plain data) \<Rightarrow> Inr (data, d) | _ \<Rightarrow> Inl ''no such file or directory'')"

text \<open>\<^verbatim>\<open>os.Rename\<close>: what is at the destination is replaced, unless it is a directory.\<close>

definition move :: "update_os \<Rightarrow> string \<Rightarrow> string \<Rightarrow> unit act" where
  "move os source destination = sys os (\<lambda>d.
     case d source of None \<Rightarrow> Inl ''no such file or directory''
     | Some x \<Rightarrow> if d destination = Some Directory then Inl ''file exists'' else Inr ((), d(source := None, destination \<mapsto> x)))"

definition temp_name :: "string \<Rightarrow> string \<Rightarrow> string \<Rightarrow> string \<Rightarrow> string" where
  "temp_name directory pre r suf = (if has_suffix directory ''/'' then directory else directory @ ''/'') @ pre @ r @ suf"

text \<open>A name that is taken after all the attempts is an error.\<close>

definition create_temp :: "update_os \<Rightarrow> string \<Rightarrow> string \<Rightarrow> string \<Rightarrow> string act" where
  "create_temp os directory pre suf = (\<lambda>m.
     let name = temp_name directory pre (uo_random os (us_calls m)) suf in
     sys os (\<lambda>d. if d name \<noteq> None then Inl ''file exists'' else Inr (name, d(name \<mapsto> Plain []))) m)"

text \<open>A deferred \<^verbatim>\<open>os.Remove\<close>, whose error is ignored.\<close>

definition ignoring :: "unit act \<Rightarrow> unit act" where
  "ignoring a = (\<lambda>m. (Inr (), snd (a m)))"

definition finally_remove :: "update_os \<Rightarrow> string \<Rightarrow> 'a act \<Rightarrow> 'a act" where
  "finally_remove os p a = (\<lambda>m. let (r, m') = a m in (r, snd (remove_file os p m')))"

section \<open>Helpers\<close>

definition requireRegularFile :: "update_os \<Rightarrow> string \<Rightarrow> string \<Rightarrow> unit act" where
  "requireRegularFile os path label =
     (\<lambda>m. case lstat os path m of
        (Inl e, m') \<Rightarrow> (Inl (''inspect '' @ label @ '': '' @ e), m')
      | (Inr None, m') \<Rightarrow> (Inl (''inspect '' @ label @ '': no such file or directory''), m')
      | (Inr (Some (Plain _)), m') \<Rightarrow> (Inr (), m')
      | (Inr (Some _), m') \<Rightarrow> (Inl (label @ '' is not a regular file''), m'))"

definition vacantPath :: "update_os \<Rightarrow> string \<Rightarrow> string \<Rightarrow> string \<Rightarrow> string act" where
  "vacantPath os directory pre suf =
     followed (create_temp os directory pre suf) (\<lambda>name m.
       case call os m of
         (Inl e, m') \<Rightarrow> (Inl e, snd (remove_file os name m'))
       | (Inr _, m') \<Rightarrow> followed (remove_file os name) (\<lambda>_. succeed name) m')"

text \<open>\<^term>\<open>None\<close> is the empty path of no backup.\<close>

definition preserveExisting :: "update_os \<Rightarrow> string \<Rightarrow> string option act" where
  "preserveExisting os path =
     followed (lstat os path) (\<lambda>found.
       if found = None then succeed None
       else followed (requireRegularFile os path ''existing rollback executable'') (\<lambda>_.
         followed (vacantPath os (dir path) ''.overgent-rollback-'' ''.bin'') (\<lambda>backup.
           followed (move os path backup) (\<lambda>_. succeed (Some backup)))))"

definition restoreExisting :: "update_os \<Rightarrow> string option \<Rightarrow> string \<Rightarrow> unit act" where
  "restoreExisting os backup destination =
     (case backup of None \<Rightarrow> succeed () | Some b \<Rightarrow> move os b destination)"

definition removePreserved :: "update_os \<Rightarrow> string option \<Rightarrow> unit act" where
  "removePreserved os path = (case path of None \<Rightarrow> succeed () | Some p \<Rightarrow> ignoring (remove_file os p))"

text \<open>\<^verbatim>\<open>errors.Join\<close>: the errors that are there, one on a line.\<close>

definition join_errors :: "string option list \<Rightarrow> string" where
  "join_errors es = join [LF] (map the (filter (\<lambda>e. e \<noteq> None) es))"

definition error_of :: "string + 'a \<Rightarrow> string option" where
  "error_of r = (case r of Inl e \<Rightarrow> Some e | Inr _ \<Rightarrow> None)"

text \<open>Setting the failed image aside: where it went, and the error of trying.\<close>

definition set_aside :: "update_os \<Rightarrow> string \<Rightarrow> update_state \<Rightarrow> (string option \<times> string option) \<times> update_state" where
  "set_aside os exe m =
     (case lstat os exe m of
        (Inl e, m1) \<Rightarrow> ((None, Some e), m1)
      | (Inr None, m1) \<Rightarrow> ((None, None), m1)
      | (Inr (Some _), m1) \<Rightarrow>
          (case vacantPath os (dir exe) ''.overgent-failed-'' ''.bin'' m1 of
             (Inl e, m2) \<Rightarrow> ((None, Some e), m2)
           | (Inr failed, m2) \<Rightarrow> (let (r, m3) = move os exe failed m2 in ((Some failed, error_of r), m3))))"

definition restoreFailedActivation :: "update_os \<Rightarrow> string \<Rightarrow> string \<Rightarrow> string \<Rightarrow> string option \<Rightarrow> 'a act" where
  "restoreFailedActivation os primary exe previous backup = (\<lambda>m.
     let ((failed, preserve_error), m1) = set_aside os exe m;
         (current, m2) = move os previous exe m1;
         (rollback, m3) = (case current of Inr _ \<Rightarrow> restoreExisting os backup previous m2 | Inl _ \<Rightarrow> (Inr (), m2));
         m4 = (case failed of Some f \<Rightarrow> if preserve_error = None then snd (remove_file os f m3) else m3 | None \<Rightarrow> m3)
     in (Inl (join_errors [Some primary, preserve_error, error_of current, error_of rollback]), m4))"

section \<open>Download and extraction\<close>

text \<open>A URL that \<^verbatim>\<open>secureURL\<close> refuses is a nil pointer here; \<^verbatim>\<open>Verify\<close> has excluded it.\<close>

definition download :: "release_host \<Rightarrow> update_os \<Rightarrow> Asset \<Rightarrow> string \<Rightarrow> unit act" where
  "download h os asset file =
     (case secureURL h (as_url asset) of Inl _ \<Rightarrow> fail ''panic: nil pointer dereference''
      | Inr p \<Rightarrow>
          (case rl_get h (pu_text p) of
             Inl e \<Rightarrow> fail (''download update: '' @ e)
           | Inr r \<Rightarrow>
               if rp_status r \<noteq> 200 then fail (''download update: HTTP '' @ int_dec (rp_status r))
               else let (sent, broken) = limited (as_size asset + 1) (rp_body r) (rp_broken r) in
                 followed (wrapped ''write update archive: '' (write_file os file sent)) (\<lambda>_.
                   case broken of Some e \<Rightarrow> fail (''write update archive: '' @ e)
                   | None \<Rightarrow>
                       if int (length sent) \<noteq> as_size asset
                       then fail (''update asset size mismatch: got '' @ int_dec (int (length sent)) @ '' want '' @ int_dec (as_size asset))
                       else if \<not> equal_fold (sha256_hex sent) (as_sha256 asset)
                       then fail ''update asset checksum verification failed''
                       else succeed ())))"

definition no_executable :: string where
  "no_executable = ''update archive does not contain the Overgent executable''"

text \<open>What an archive holds as the executable.\<close>

definition zip_executable :: "release_host \<Rightarrow> string \<Rightarrow> string + string" where
  "zip_executable h archive =
     (case rl_zip h archive of Inl e \<Rightarrow> Inl (''open update zip: '' @ e)
      | Inr entries \<Rightarrow>
          (case find (\<lambda>f. base (ze_name f) = ''overgent.exe'' \<and> \<not> ze_dir f) entries of
             None \<Rightarrow> Inl no_executable
           | Some f \<Rightarrow>
               (case ze_open f of Inl e \<Rightarrow> Inl e
                | Inr (content, broken) \<Rightarrow>
                    (case limited (artifactLimit + 1) content broken of
                       (_, Some e) \<Rightarrow> Inl e
                     | (written, None) \<Rightarrow>
                         if length written < 1 \<or> artifactLimit < int (length written)
                         then Inl ''update executable exceeds limit'' else Inr written))))"

definition tar_executable :: "release_host \<Rightarrow> string \<Rightarrow> string + string" where
  "tar_executable h archive =
     (case rl_gzip h archive of Inl e \<Rightarrow> Inl (''open update archive: '' @ e)
      | Inr (entries, broken) \<Rightarrow>
          (case find (\<lambda>f. base (te_name f) = ''overgent'' \<and> te_regular f) entries of
             None \<Rightarrow> (case broken of Some e \<Rightarrow> Inl (''read update archive: '' @ e) | None \<Rightarrow> Inl no_executable)
           | Some f \<Rightarrow>
               if te_size f < 1 \<or> artifactLimit < te_size f then Inl ''update executable exceeds limit''
               else (case limited (te_size f) (fst (te_data f)) (snd (te_data f)) of
                       (_, Some e) \<Rightarrow> Inl e | (written, None) \<Rightarrow> Inr written)))"

definition zip_archive :: "release_host \<Rightarrow> string \<Rightarrow> bool" where
  "zip_archive h rawURL \<longleftrightarrow> has_suffix (lower_text (newURLPath h rawURL)) ''.zip''"

definition executable_in :: "release_host \<Rightarrow> string \<Rightarrow> string \<Rightarrow> string + string" where
  "executable_in h rawURL archive = (if zip_archive h rawURL then zip_executable h archive else tar_executable h archive)"

text \<open>A failed extraction removes the file it staged.\<close>

definition extractExecutable :: "release_host \<Rightarrow> update_os \<Rightarrow> string \<Rightarrow> string \<Rightarrow> string \<Rightarrow> string act" where
  "extractExecutable h os archivePath directory rawURL =
     followed (wrapped ''stage update executable: '' (create_temp os directory ''.overgent-update-'' ''.bin'')) (\<lambda>path m.
       case followed (wrapped (if zip_archive h rawURL then ''open update zip: '' else []) (read_file os archivePath)) (\<lambda>archive.
              case executable_in h rawURL archive of Inl e \<Rightarrow> fail e
              | Inr written \<Rightarrow>
                  followed (write_file os path written) (\<lambda>_. wrapped ''sync staged update executable: '' (call os))) m of
         (Inl e, m') \<Rightarrow> (Inl e, snd (remove_file os path m'))
       | (Inr _, m') \<Rightarrow> (Inr path, m'))"

section \<open>Apply and Rollback\<close>

record Result =
  re_version :: string
  re_previous :: string
  re_updated :: bool

text \<open>The two moves of the activation; \<open>backup\<close> is where the rollback image of before went.\<close>

definition replace_executable :: "update_os \<Rightarrow> Manifest \<Rightarrow> string \<Rightarrow> string \<Rightarrow> string option \<Rightarrow> Result act" where
  "replace_executable os mf exe staged backup = (\<lambda>m.
     let previous = exe @ ''.previous'' in
     case move os exe previous m of
       (Inl e, m1) \<Rightarrow>
         (let (r, m2) = restoreExisting os backup previous m1
          in (Inl (join_errors [Some (''preserve current executable: '' @ e), error_of r]), m2))
     | (Inr _, m1) \<Rightarrow>
         (case move os staged exe m1 of
            (Inl e, m2) \<Rightarrow> restoreFailedActivation os (''activate update: '' @ e) exe previous backup m2
          | (Inr _, m2) \<Rightarrow>
              (case call os m2 of
                 (Inl e, m3) \<Rightarrow> restoreFailedActivation os (''sync activated update: '' @ e) exe previous backup m3
               | (Inr _, m3) \<Rightarrow>
                   followed (removePreserved os backup)
                     (\<lambda>_. succeed \<lparr>re_version = mf_version mf, re_previous = previous, re_updated = True\<rparr>) m3)))"

definition activate :: "update_os \<Rightarrow> Manifest \<Rightarrow> string \<Rightarrow> string \<Rightarrow> Result act" where
  "activate os mf exe staged =
     followed (wrapped ''preserve existing rollback executable: '' (preserveExisting os (exe @ ''.previous'')))
       (replace_executable os mf exe staged)"

definition goos_of :: "release_host \<Rightarrow> update_client \<Rightarrow> string" where
  "goos_of h c = (if uc_goos c = [] then rl_goos h else uc_goos c)"

definition goarch_of :: "release_host \<Rightarrow> update_client \<Rightarrow> string" where
  "goarch_of h c = (if uc_goarch c = [] then rl_goarch h else uc_goarch c)"

definition platform_of :: "release_host \<Rightarrow> update_client \<Rightarrow> string" where
  "platform_of h c = goos_of h c @ ''_'' @ goarch_of h c"

definition Apply :: "release_host \<Rightarrow> update_os \<Rightarrow> update_client \<Rightarrow> Manifest \<Rightarrow> string \<Rightarrow> Result act" where
  "Apply h os c mf exe =
     (case Verify h mf (uc_key c) of Some e \<Rightarrow> fail e
      | None \<Rightarrow>
          (case map_of (mf_assets mf) (platform_of h c) of
             None \<Rightarrow> fail (''release '' @ mf_version mf @ '' has no asset for '' @ goos_of h c @ ''/'' @ goarch_of h c)
           | Some asset \<Rightarrow>
               if \<not> is_abs exe then fail ''current executable path must be absolute''
               else followed (requireRegularFile os exe ''current executable'') (\<lambda>_.
                 followed (wrapped ''stage update archive: '' (create_temp os (dir exe) ''.overgent-update-'' ''.archive'')) (\<lambda>archive.
                   finally_remove os archive (
                     followed (download h os asset archive) (\<lambda>_.
                     followed (wrapped ''close update archive: '' (call os)) (\<lambda>_.
                     followed (extractExecutable h os archive (dir exe) (as_url asset)) (\<lambda>staged.
                       finally_remove os staged (
                         followed (wrapped ''secure staged executable: '' (call os)) (\<lambda>_. activate os mf exe staged))))))))))"

text \<open>The failed image is retained when the directory could not be flushed.\<close>

definition restore_previous :: "update_os \<Rightarrow> string \<Rightarrow> string \<Rightarrow> Result act" where
  "restore_previous os exe failed = (\<lambda>m.
     let previous = exe @ ''.previous'' in
     case move os previous exe m of
       (Inl e, m1) \<Rightarrow>
         (let (r, m2) = move os failed exe m1
          in (Inl (join_errors [Some (''restore previous executable: '' @ e), error_of r]), m2))
     | (Inr _, m1) \<Rightarrow>
         followed (wrapped ''sync restored executable: '' (call os)) (\<lambda>_.
         followed (ignoring (remove_file os failed)) (\<lambda>_.
           succeed \<lparr>re_version = [], re_previous = previous, re_updated = True\<rparr>)) m1)"

definition Rollback :: "update_os \<Rightarrow> string \<Rightarrow> Result act" where
  "Rollback os exe =
     (if \<not> is_abs exe then fail ''current executable path must be absolute''
      else
        followed (requireRegularFile os exe ''current executable'') (\<lambda>_.
        followed (wrapped ''no rollback executable is available: '' (requireRegularFile os (exe @ ''.previous'') ''rollback executable'')) (\<lambda>_.
        followed (wrapped ''reserve failed executable path: '' (vacantPath os (dir exe) ''.overgent-failed-'' ''.bin'')) (\<lambda>failed.
        followed (wrapped ''preserve failed update: '' (move os exe failed)) (\<lambda>_. restore_previous os exe failed)))))"

section \<open>What each call does to the disk\<close>

lemmas act_defs = followed_def wrapped_def succeed_def fail_def sys_def Let_def

lemma call_result: "call os m = (r, m') \<Longrightarrow> us_disk m' = us_disk m \<and> us_calls m' = us_calls m + 1
    \<and> (r = Inr () \<or> (\<exists>e. r = Inl e \<and> uo_fault os (us_calls m) = Some e))"
  by (auto simp: call_def act_defs split: option.splits)

lemma lstat_result: "lstat os p m = (r, m') \<Longrightarrow> us_disk m' = us_disk m \<and> us_calls m' = us_calls m + 1
    \<and> (r = Inr (us_disk m p) \<and> uo_fault os (us_calls m) = None \<or> (\<exists>e. r = Inl e \<and> uo_fault os (us_calls m) = Some e))"
  by (auto simp: lstat_def act_defs split: option.splits)

lemma remove_result: "us_calls (snd (remove_file os p m)) = us_calls m + 1
    \<and> (us_disk (snd (remove_file os p m)) = us_disk m \<or> us_disk (snd (remove_file os p m)) = (us_disk m)(p := None))"
  by (auto simp: remove_file_def act_defs split: option.splits)

lemma remove_calm: "uo_fault os (us_calls m) = None \<Longrightarrow> us_disk (snd (remove_file os p m)) = (us_disk m)(p := None)"
  by (auto simp: remove_file_def act_defs)

lemma move_result:
  "move os a b m = (r, m') \<Longrightarrow> us_calls m' = us_calls m + 1 \<and>
     ((\<exists>e. r = Inl e \<and> us_disk m' = us_disk m \<and> (uo_fault os (us_calls m) = Some e \<or> us_disk m a = None \<or> us_disk m b = Some Directory))
    \<or> (\<exists>x. r = Inr () \<and> us_disk m a = Some x \<and> uo_fault os (us_calls m) = None \<and> us_disk m' = (us_disk m)(a := None, b \<mapsto> x)))"
  by (auto simp: move_def act_defs split: option.splits if_splits)

lemma move_calm:
  "uo_fault os (us_calls m) = None \<Longrightarrow> us_disk m a = Some x \<Longrightarrow> us_disk m b \<noteq> Some Directory \<Longrightarrow>
     move os a b m = (Inr (), m\<lparr>us_calls := us_calls m + 1, us_disk := (us_disk m)(a := None, b \<mapsto> x)\<rparr>)"
  by (simp add: move_def act_defs)

lemma create_temp_result:
  "create_temp os directory pre suf m = (r, m') \<Longrightarrow> us_calls m' = us_calls m + 1 \<and>
     ((\<exists>e. r = Inl e \<and> us_disk m' = us_disk m)
    \<or> (\<exists>x. let name = temp_name directory pre x suf in
         r = Inr name \<and> us_disk m name = None \<and> us_disk m' = (us_disk m)(name \<mapsto> Plain [])))"
  by (auto simp: create_temp_def act_defs split: option.splits if_splits)

lemma vacantPath_result:
  assumes "vacantPath os directory pre suf m = (r, m')"
  shows "us_calls m < us_calls m' \<and>
     ((\<exists>x. r = Inr (temp_name directory pre x suf) \<and> us_disk m (temp_name directory pre x suf) = None \<and> us_disk m' = us_disk m)
    \<or> (\<exists>e. r = Inl e \<and> (us_disk m' = us_disk m
        \<or> (\<exists>x. us_disk m (temp_name directory pre x suf) = None \<and> us_disk m' = (us_disk m)(temp_name directory pre x suf \<mapsto> Plain [])))))"
proof -
  obtain r1 m1 where c: "create_temp os directory pre suf m = (r1, m1)" by force
  show ?thesis
  proof (cases r1)
    case (Inl e)
    with assms c create_temp_result [OF c] show ?thesis by (auto simp: vacantPath_def followed_def Let_def)
  next
    case (Inr name)
    with create_temp_result [OF c] obtain x where x: "name = temp_name directory pre x suf" "us_disk m name = None"
      "us_disk m1 = (us_disk m)(name \<mapsto> Plain [])" "us_calls m1 = us_calls m + 1" by (auto simp: Let_def)
    obtain r2 m2 where cl: "call os m1 = (r2, m2)" by force
    note k = call_result [OF cl]
    have same: "(us_disk m)(name := None) = us_disk m" using x(2) by (simp add: fun_upd_idem)
    obtain r3 m3 where rm: "remove_file os name m2 = (r3, m3)" by force
    have d3: "us_calls m3 = us_calls m2 + 1" "us_disk m3 = us_disk m2 \<or> us_disk m3 = (us_disk m2)(name := None)"
      "r3 = Inr () \<longrightarrow> us_disk m3 = (us_disk m2)(name := None)"
      using rm remove_result [of os name m2] by (auto simp: remove_file_def act_defs split: option.splits if_splits)
    show ?thesis
    proof (cases r2)
      case (Inl e)
      with assms c Inr cl rm have "r = Inl e" "m' = m3" by (auto simp: vacantPath_def followed_def)
      with d3(1,2) k x same show ?thesis by auto
    next
      case (Inr u)
      with assms c \<open>r1 = Inr name\<close> cl rm have "r = (case r3 of Inl e \<Rightarrow> Inl e | Inr _ \<Rightarrow> Inr name)" "m' = m3"
        by (auto simp: vacantPath_def act_defs split: sum.splits)
      with d3 k x same show ?thesis by (cases r3) auto
    qed
  qed
qed

end
