(* ===== verification/Update_Safety.thy ===== *)
theory Update_Safety
  imports Update_Apply
begin

text \<open>
  No failure of an update loses the executable that was running.

  \<open>kept\<close> is the invariant of the steps before the activation: what was on the disk is still there, and nothing
  has appeared at the rollback path. The names of temporary files are fresh and end otherwise than the
  rollback path, so work on them keeps it.
\<close>

definition kept :: "string \<Rightarrow> disk \<Rightarrow> disk \<Rightarrow> bool" where
  "kept previous d0 d \<longleftrightarrow> (\<forall>p. d0 p \<noteq> None \<or> p = previous \<longrightarrow> d p = d0 p)"

definition free_name :: "string \<Rightarrow> disk \<Rightarrow> string \<Rightarrow> bool" where
  "free_name previous d0 p \<longleftrightarrow> d0 p = None \<and> p \<noteq> previous"

text \<open>What is kept once the executable has been moved: everything but the two images.\<close>

definition others_kept :: "string \<Rightarrow> string \<Rightarrow> disk \<Rightarrow> disk \<Rightarrow> bool" where
  "others_kept exe previous d0 d \<longleftrightarrow> (\<forall>p. d0 p \<noteq> None \<longrightarrow> p \<noteq> exe \<longrightarrow> p \<noteq> previous \<longrightarrow> d p = d0 p)"

lemma kept_refl [simp]: "kept previous d d"
  by (simp add: kept_def)

lemma kept_upd: "kept previous d0 d \<Longrightarrow> free_name previous d0 q \<Longrightarrow> kept previous d0 (d(q := x))"
  by (auto simp: kept_def free_name_def)

lemma kept_others: "kept previous d0 d \<Longrightarrow> others_kept exe previous d0 d"
  by (auto simp: kept_def others_kept_def)

lemma temp_suffix: "suf \<in> {''.bin'', ''.archive''} \<Longrightarrow> temp_name directory pre x suf \<noteq> exe @ ''.previous''"
proof
  assume s: "suf \<in> {''.bin'', ''.archive''}" and e: "temp_name directory pre x suf = exe @ ''.previous''"
  define q where "q = (if has_suffix directory ''/'' then directory else directory @ ''/'') @ pre @ x"
  have "q @ suf = exe @ ''.previous''" using e by (simp add: q_def temp_name_def)
  then have "rev (q @ suf) = rev (exe @ ''.previous'')" by (rule arg_cong)
  with s show False by auto
qed

lemma temp_free:
  assumes "others_kept exe previous d0 d" and "d exe \<noteq> None" and "previous = exe @ ''.previous''"
    and "suf \<in> {''.bin'', ''.archive''}" and "d (temp_name directory pre x suf) = None"
  shows "free_name previous d0 (temp_name directory pre x suf) \<and> temp_name directory pre x suf \<noteq> exe"
  using assms temp_suffix [OF assms(4), of directory pre x exe] unfolding others_kept_def free_name_def by metis

text \<open>A check of the outcome of an action from a state whose disk satisfies a predicate.\<close>

definition yields :: "'a act \<Rightarrow> update_state \<Rightarrow> (string + 'a \<Rightarrow> update_state \<Rightarrow> bool) \<Rightarrow> bool" where
  "yields a m Q \<longleftrightarrow> (case a m of (r, m') \<Rightarrow> Q r m')"

lemma yieldsI: "(\<And>r m'. a m = (r, m') \<Longrightarrow> Q r m') \<Longrightarrow> yields a m Q"
  by (auto simp: yields_def)

lemma yieldsD: "yields a m Q \<Longrightarrow> a m = (r, m') \<Longrightarrow> Q r m'"
  by (simp add: yields_def)

lemma yields_followed:
  assumes "yields a m R" and "\<And>e m'. R (Inl e) m' \<Longrightarrow> Q (Inl e) m'" and "\<And>x m'. R (Inr x) m' \<Longrightarrow> yields (f x) m' Q"
  shows "yields (followed a f) m Q"
proof -
  obtain r m' where a: "a m = (r, m')" by force
  with assms(1) have R: "R r m'" by (simp add: yields_def)
  show ?thesis
  proof (cases r)
    case (Inl e)
    with a R assms(2) show ?thesis by (auto simp: yields_def followed_def)
  next
    case (Inr x)
    with a R assms(3) show ?thesis by (auto simp: yields_def followed_def)
  qed
qed

lemma yields_wrapped: "yields a m R \<Longrightarrow> (\<And>e m'. R (Inl e) m' \<Longrightarrow> Q (Inl (msg @ e)) m') \<Longrightarrow> (\<And>x m'. R (Inr x) m' \<Longrightarrow> Q (Inr x) m')
    \<Longrightarrow> yields (wrapped msg a) m Q"
  by (auto simp: yields_def wrapped_def split: prod.splits sum.splits)

lemma yields_succeed [simp]: "yields (succeed x) m Q = Q (Inr x) m"
  by (simp add: yields_def succeed_def)

lemma yields_fail [simp]: "yields (fail e) m Q = Q (Inl e) m"
  by (simp add: yields_def fail_def)

lemma yields_finally:
  assumes "yields a m R" and "\<And>r m'. R r m' \<Longrightarrow> Q r (snd (remove_file os p m'))"
  shows "yields (finally_remove os p a) m Q"
  using assms by (auto simp: yields_def finally_remove_def split: prod.splits)

lemma yields_kept_remove:
  "kept previous d0 (us_disk m) \<Longrightarrow> free_name previous d0 p \<Longrightarrow> kept previous d0 (us_disk (snd (remove_file os p m)))"
  using remove_result [of os p m] kept_upd by metis

lemma yields_requireRegular:
  "yields (requireRegularFile os p label) m (\<lambda>r m'. us_disk m' = us_disk m \<and> (r = Inr () \<longrightarrow> (\<exists>x. us_disk m p = Some (Plain x))))"
proof (rule yieldsI)
  fix r m' assume run: "requireRegularFile os p label m = (r, m')"
  obtain r1 m1 where l: "lstat os p m = (r1, m1)" by force
  from run l lstat_result [OF l] show "us_disk m' = us_disk m \<and> (r = Inr () \<longrightarrow> (\<exists>x. us_disk m p = Some (Plain x)))"
    unfolding requireRegularFile_def by (cases r1) (auto split: option.splits image.splits)
qed

section \<open>Before the activation\<close>

lemma write_result: "write_file os p data m = (r, m') \<Longrightarrow>
    us_disk m' = us_disk m \<and> (\<exists>e. r = Inl e) \<or> us_disk m' = (us_disk m)(p \<mapsto> Plain data) \<and> r = Inr ()"
  by (auto simp: write_file_def act_defs split: option.splits)

lemma read_result: "read_file os p m = (r, m') \<Longrightarrow>
    us_disk m' = us_disk m \<and> (\<forall>x. r = Inr x \<longrightarrow> us_disk m p = Some (Plain x))"
  by (auto simp: read_file_def act_defs split: option.splits image.splits)

text \<open>The bytes the release vouches for.\<close>

definition vouched :: "Asset \<Rightarrow> string \<Rightarrow> bool" where
  "vouched asset body \<longleftrightarrow> int (length body) = as_size asset \<and> equal_fold (sha256_hex body) (as_sha256 asset)"

lemma yields_download:
  assumes "kept previous d0 (us_disk m)" and "free_name previous d0 file"
  shows "yields (download h os asset file) m (\<lambda>r m'. kept previous d0 (us_disk m')
    \<and> (r = Inr () \<longrightarrow> (\<exists>body. us_disk m' file = Some (Plain body) \<and> vouched asset body)))"
proof (rule yieldsI)
  fix r m' assume run: "download h os asset file m = (r, m')"
  show "kept previous d0 (us_disk m') \<and> (r = Inr () \<longrightarrow> (\<exists>body. us_disk m' file = Some (Plain body) \<and> vouched asset body))"
  proof (cases "\<exists>p q. secureURL h (as_url asset) = Inr p \<and> rl_get h (pu_text p) = Inr q \<and> rp_status q = 200")
    case False
    with run assms(1) show ?thesis by (auto simp: download_def fail_def split: sum.splits if_splits)
  next
    case True
    then obtain p q where pq: "secureURL h (as_url asset) = Inr p" "rl_get h (pu_text p) = Inr q" "rp_status q = 200" by blast
    obtain sent broken where sb: "limited (as_size asset + 1) (rp_body q) (rp_broken q) = (sent, broken)" by force
    obtain r1 m1 where w: "write_file os file sent m = (r1, m1)" by force
    with write_result [OF w] run pq sb assms show ?thesis
      by (auto simp: download_def act_defs vouched_def kept_upd split: option.splits if_splits)
  qed
qed

lemma yields_extract:
  assumes "kept previous d0 (us_disk m)" and exe: "d0 exe \<noteq> None" and prev: "previous = exe @ ''.previous''"
    and archive: "us_disk m archivePath = Some (Plain body)"
  shows "yields (extractExecutable h os archivePath directory rawURL) m (\<lambda>r m'. kept previous d0 (us_disk m')
    \<and> (\<forall>p. r = Inr p \<longrightarrow> free_name previous d0 p \<and> p \<noteq> exe
        \<and> (\<exists>new. us_disk m' p = Some (Plain new) \<and> executable_in h rawURL body = Inr new)))"
    (is "yields _ _ ?Q")
  unfolding extractExecutable_def
proof (rule yields_followed [where R = "\<lambda>r m'. kept previous d0 (us_disk m') \<and> (\<forall>p. r = Inr p \<longrightarrow> free_name previous d0 p \<and> p \<noteq> exe
      \<and> p \<noteq> archivePath \<and> us_disk m' archivePath = Some (Plain body))"])
  have k: "us_disk m exe \<noteq> None" using assms(1) exe by (auto simp: kept_def)
  show "yields (wrapped ''stage update executable: '' (create_temp os directory ''.overgent-update-'' ''.bin'')) m
     (\<lambda>r m'. kept previous d0 (us_disk m') \<and> (\<forall>p. r = Inr p \<longrightarrow> free_name previous d0 p \<and> p \<noteq> exe
      \<and> p \<noteq> archivePath \<and> us_disk m' archivePath = Some (Plain body)))"
  proof (rule yields_wrapped, rule yieldsI)
    fix r m' assume c: "create_temp os directory ''.overgent-update-'' ''.bin'' m = (r, m')"
    show "kept previous d0 (us_disk m') \<and> (\<forall>p. r = Inr p \<longrightarrow> free_name previous d0 p \<and> p \<noteq> exe
      \<and> p \<noteq> archivePath \<and> us_disk m' archivePath = Some (Plain body))"
    proof (cases r)
      case (Inl e)
      with create_temp_result [OF c] assms(1) show ?thesis by (auto simp: Let_def)
    next
      case (Inr name)
      with create_temp_result [OF c] obtain x where x: "name = temp_name directory ''.overgent-update-'' x ''.bin''"
        "us_disk m name = None" "us_disk m' = (us_disk m)(name \<mapsto> Plain [])" by (auto simp: Let_def)
      have "free_name previous d0 name \<and> name \<noteq> exe"
        using temp_free [OF kept_others [OF assms(1)] k prev, of "''.bin''" directory "''.overgent-update-''" x] x(1,2) by simp
      moreover have "name \<noteq> archivePath" using x(2) archive by auto
      ultimately show ?thesis using Inr x(3) archive assms(1) kept_upd by auto
    qed
  qed auto
next
  fix path and m1 :: update_state
  assume R: "kept previous d0 (us_disk m1) \<and> (\<forall>p. Inr path = (Inr p :: string + string) \<longrightarrow> free_name previous d0 p \<and> p \<noteq> exe
      \<and> p \<noteq> archivePath \<and> us_disk m1 archivePath = Some (Plain body))"
  then have free: "free_name previous d0 path" "path \<noteq> exe" and k1: "kept previous d0 (us_disk m1)"
    and arch: "us_disk m1 archivePath = Some (Plain body)" by auto
  let ?a = "followed (wrapped (if zip_archive h rawURL then ''open update zip: '' else []) (read_file os archivePath)) (\<lambda>archive.
      case executable_in h rawURL archive of Inl e \<Rightarrow> fail e
      | Inr written \<Rightarrow> followed (write_file os path written) (\<lambda>_. wrapped ''sync staged update executable: '' (call os)))"
  let ?R = "\<lambda>r m'. kept previous d0 (us_disk m')
      \<and> (r = Inr () \<longrightarrow> (\<exists>new. us_disk m' path = Some (Plain new) \<and> executable_in h rawURL body = Inr new))"
  have "yields ?a m1 ?R"
  proof (rule yields_followed, rule yields_wrapped, rule yieldsI, erule read_result)
    fix archive and m2 :: update_state
    assume "us_disk m2 = us_disk m1 \<and> (\<forall>x. (Inr archive :: string + string) = Inr x \<longrightarrow> us_disk m1 archivePath = Some (Plain x))"
    then have d2: "us_disk m2 = us_disk m1" and "archive = body" using arch by auto
    then show "yields (case executable_in h rawURL archive of Inl e \<Rightarrow> fail e
      | Inr written \<Rightarrow> followed (write_file os path written) (\<lambda>_. wrapped ''sync staged update executable: '' (call os))) m2 ?R"
    proof (cases "executable_in h rawURL body")
      case (Inr written)
      have "yields (followed (write_file os path written) (\<lambda>_. wrapped ''sync staged update executable: '' (call os))) m2 ?R"
      proof (rule yields_followed, rule yieldsI, erule write_result)
        fix x and m3 :: update_state
        assume "us_disk m3 = us_disk m2 \<and> (\<exists>e. (Inr x :: string + unit) = Inl e)
          \<or> us_disk m3 = (us_disk m2)(path \<mapsto> Plain written) \<and> (Inr x :: string + unit) = Inr ()"
        then have "us_disk m3 = (us_disk m1)(path \<mapsto> Plain written)" using d2 by simp
        then show "yields (wrapped ''sync staged update executable: '' (call os)) m3 ?R"
          using k1 free Inr by (intro yields_wrapped, intro yieldsI) (auto dest!: call_result simp: kept_upd)
      qed (use d2 k1 free kept_upd in auto)
      with Inr \<open>archive = body\<close> show ?thesis by simp
    qed (use k1 d2 \<open>archive = body\<close> in simp)
  qed (use k1 in auto)
  then show "yields (\<lambda>m. case ?a m of (Inl e, m') \<Rightarrow> (Inl e, snd (remove_file os path m')) | (Inr _, m') \<Rightarrow> (Inr path, m')) m1 ?Q"
    using yields_kept_remove free by (auto simp: yields_def split: prod.splits sum.splits)
qed simp

section \<open>The activation\<close>

text \<open>The rollback image of before, set aside under a fresh name.\<close>

definition set_away :: "string \<Rightarrow> string \<Rightarrow> disk \<Rightarrow> string option \<Rightarrow> disk \<Rightarrow> bool" where
  "set_away exe previous d0 backup d \<longleftrightarrow>
     (case backup of None \<Rightarrow> d0 previous = None
      | Some b \<Rightarrow> free_name previous d0 b \<and> b \<noteq> exe \<and> d b = d0 previous \<and> (\<exists>x. d0 previous = Some (Plain x)))"

lemma set_away_upd:
  "set_away exe previous d0 backup d \<Longrightarrow> backup \<noteq> Some q \<Longrightarrow> set_away exe previous d0 backup (d(q := x))"
  by (auto simp: set_away_def split: option.splits)

lemma others_upd: "others_kept exe previous d0 d \<Longrightarrow> free_name previous d0 q \<or> q = exe \<or> q = previous \<Longrightarrow> others_kept exe previous d0 (d(q := x))"
  by (auto simp: others_kept_def free_name_def)

lemma preserve_result:
  assumes "kept previous d0 (us_disk m)" and exe: "d0 exe \<noteq> None" and prev: "previous = exe @ ''.previous''"
    and run: "preserveExisting os previous m = (r, m')"
  shows "(\<exists>e. r = Inl e \<and> kept previous d0 (us_disk m'))
    \<or> (r = Inr None \<and> us_disk m' = us_disk m \<and> d0 previous = None)
    \<or> (\<exists>b x. r = Inr (Some b) \<and> us_disk m b = None \<and> free_name previous d0 b \<and> b \<noteq> exe \<and> d0 previous = Some (Plain x)
         \<and> us_disk m' = (us_disk m)(previous := None, b \<mapsto> Plain x))"
proof -
  have dprev: "us_disk m previous = d0 previous" and dexe: "us_disk m exe \<noteq> None" using assms(1) exe by (auto simp: kept_def)
  note oth = kept_others [OF assms(1), of exe]
  obtain r1 m1 where l: "lstat os previous m = (r1, m1)" by force
  show ?thesis
  proof (cases "\<exists>y. r1 = Inr (Some y)")
    case False
    with run l lstat_result [OF l] assms(1) dprev show ?thesis
      by (cases r1) (auto simp: preserveExisting_def act_defs)
  next
    case True
    then have d1: "us_disk m1 = us_disk m" using lstat_result [OF l] by auto
    obtain r2 m2 where q: "requireRegularFile os previous ''existing rollback executable'' m1 = (r2, m2)" by force
    then have d2: "us_disk m2 = us_disk m" "r2 = Inr () \<longrightarrow> (\<exists>x. us_disk m previous = Some (Plain x))"
      using yields_requireRegular [of os previous "''existing rollback executable''" m1] d1 by (auto simp: yields_def)
    obtain r3 m3 where v: "vacantPath os (dir previous) ''.overgent-rollback-'' ''.bin'' m2 = (r3, m3)" by force
    note vr = vacantPath_result [OF v]
    show ?thesis
    proof (cases "r2 = Inr () \<and> (\<exists>n. r3 = Inr n)")
      case False
      have "kept previous d0 (us_disk m3)" if "\<exists>e. r3 = Inl e"
      proof -
        from vr that d2(1) consider "us_disk m3 = us_disk m"
          | x where "us_disk m (temp_name (dir previous) ''.overgent-rollback-'' x ''.bin'') = None"
            "us_disk m3 = (us_disk m)(temp_name (dir previous) ''.overgent-rollback-'' x ''.bin'' \<mapsto> Plain [])" by auto
        then show ?thesis
        proof cases
          case (2 x)
          with temp_free [OF oth dexe prev, of "''.bin''" "dir previous" "''.overgent-rollback-''" x] assms(1) show ?thesis
            by (simp add: kept_upd)
        qed (use assms(1) in simp)
      qed
      with False run True l q v d2(1) assms(1) show ?thesis
        by (cases r2; cases r3) (auto simp: preserveExisting_def act_defs)
    next
      case True
      then obtain b where b: "r3 = Inr b" by blast
      with vr d2(1) obtain y where y: "b = temp_name (dir previous) ''.overgent-rollback-'' y ''.bin''" "us_disk m b = None" "us_disk m3 = us_disk m"
        by auto
      have free: "free_name previous d0 b" "b \<noteq> exe"
        using temp_free [OF oth dexe prev, of "''.bin''" "dir previous" "''.overgent-rollback-''" y] y by auto
      obtain r4 m4 where mv: "move os previous b m3 = (r4, m4)" by force
      from True d2 obtain x where x: "us_disk m previous = Some (Plain x)" by blast
      have "r = (case r4 of Inl e \<Rightarrow> Inl e | Inr _ \<Rightarrow> Inr (Some b))" "m' = m4"
        using run \<open>\<exists>y. r1 = Inr (Some y)\<close> l q v b True mv by (auto simp: preserveExisting_def act_defs split: sum.splits)
      with move_result [OF mv] y(2,3) x free dprev assms(1) show ?thesis by (cases r4) auto
    qed
  qed
qed

lemma restoreExisting_result:
  assumes "restoreExisting os backup previous m = (r, m')" and "set_away exe previous d0 backup (us_disk m)"
    and "others_kept exe previous d0 (us_disk m)"
  shows "us_disk m' exe = us_disk m exe \<or> exe = previous"
    and "others_kept exe previous d0 (us_disk m')"
    and "uo_fault os (us_calls m) = None \<Longrightarrow> us_disk m previous = None \<Longrightarrow> us_disk m' previous = d0 previous"
proof -
  have all: "(us_disk m' exe = us_disk m exe \<or> exe = previous) \<and> others_kept exe previous d0 (us_disk m') \<and>
    (uo_fault os (us_calls m) = None \<longrightarrow> us_disk m previous = None \<longrightarrow> us_disk m' previous = d0 previous)"
  proof (cases backup)
    case None
    with assms show ?thesis by (auto simp: restoreExisting_def succeed_def set_away_def)
  next
    case (Some b)
    then obtain x where b: "free_name previous d0 b" "b \<noteq> exe" "us_disk m b = Some (Plain x)" "d0 previous = Some (Plain x)"
      using assms(2) by (auto simp: set_away_def)
    have mv: "move os b previous m = (r, m')" using assms(1) Some by (simp add: restoreExisting_def)
    show ?thesis using move_result [OF mv] b assms(3) by (auto intro!: others_upd)
  qed
  then show "us_disk m' exe = us_disk m exe \<or> exe = previous" "others_kept exe previous d0 (us_disk m')"
    "uo_fault os (us_calls m) = None \<Longrightarrow> us_disk m previous = None \<Longrightarrow> us_disk m' previous = d0 previous" by blast+
qed

text \<open>The state of a failed activation: the rollback path holds the image that was running.\<close>

definition moved :: "string \<Rightarrow> string \<Rightarrow> disk \<Rightarrow> string option \<Rightarrow> string \<Rightarrow> disk \<Rightarrow> bool" where
  "moved exe previous d0 backup old d \<longleftrightarrow>
     others_kept exe previous d0 d \<and> set_away exe previous d0 backup d \<and> d previous = Some (Plain old) \<and> d exe \<noteq> Some Directory"

lemma moved_new:
  assumes "moved exe previous d0 backup old d" and "d n = None" and "free_name previous d0 n"
  shows "moved exe previous d0 backup old (d(n \<mapsto> Plain x))"
proof -
  have "backup \<noteq> Some n" using assms by (auto simp: moved_def set_away_def)
  with assms show ?thesis by (auto simp: moved_def set_away_upd others_upd free_name_def)
qed

lemma set_aside_result:
  assumes mv: "moved exe previous d0 backup old (us_disk m)" and prev: "previous = exe @ ''.previous''"
    and run: "set_aside os exe m = ((failed, err), m')"
  shows "moved exe previous d0 backup old (us_disk m') \<and> us_calls m \<le> us_calls m' \<and>
     (\<forall>f. failed = Some f \<longrightarrow> free_name previous d0 f \<and> f \<noteq> exe \<and> f \<noteq> previous \<and> backup \<noteq> Some f)"
proof -
  note oth = mv [unfolded moved_def, THEN conjunct1]
  obtain r1 m1 where l: "lstat os exe m = (r1, m1)" by force
  note lr = lstat_result [OF l]
  show ?thesis
  proof (cases "\<exists>y. r1 = Inr (Some y)")
    case False
    with run l lr mv show ?thesis by (cases r1) (auto simp: set_aside_def split: option.splits)
  next
    case True
    then obtain y where y1: "r1 = Inr (Some y)" by blast
    with lr have "us_disk m exe = Some y" by (auto dest: sym)
    with y1 have y: "r1 = Inr (Some y)" "us_disk m exe = Some y" by auto
    then have dexe: "us_disk m exe \<noteq> None" by simp
    note free = temp_free [OF oth dexe prev, of "''.bin''" "dir exe" "''.overgent-failed-''"]
    obtain r2 m2 where v: "vacantPath os (dir exe) ''.overgent-failed-'' ''.bin'' m1 = (r2, m2)" by force
    note vr = vacantPath_result [OF v]
    show ?thesis
    proof (cases r2)
      case (Inl e)
      from vr Inl lr consider "us_disk m2 = us_disk m"
        | x where "us_disk m (temp_name (dir exe) ''.overgent-failed-'' x ''.bin'') = None"
          "us_disk m2 = (us_disk m)(temp_name (dir exe) ''.overgent-failed-'' x ''.bin'' \<mapsto> Plain [])" by auto
      then have "moved exe previous d0 backup old (us_disk m2)"
      proof cases
        case (2 x)
        with free [of x] moved_new [OF mv 2(1)] show ?thesis by simp
      qed (use mv in simp)
      with run l y(1) v Inl vr lr show ?thesis by (auto simp: set_aside_def)
    next
      case (Inr f)
      with vr lr obtain x where f: "f = temp_name (dir exe) ''.overgent-failed-'' x ''.bin''" "us_disk m f = None" "us_disk m2 = us_disk m"
        by auto
      with free [of x] have fr: "free_name previous d0 f" "f \<noteq> exe" by auto
      have ne: "f \<noteq> previous" "backup \<noteq> Some f" using f(2) mv by (auto simp: moved_def set_away_def)
      obtain r3 m3 where m3: "move os exe f m2 = (r3, m3)" by force
      have out: "failed = Some f" "m' = m3" using run l y(1) v Inr m3 by (auto simp: set_aside_def Let_def)
      have "exe \<noteq> previous" using prev by simp
      moreover have "backup \<noteq> Some exe" using mv by (auto simp: moved_def set_away_def)
      ultimately have "moved exe previous d0 backup old ((us_disk m)(exe := None, f \<mapsto> y))"
        using mv fr ne by (auto simp: moved_def intro!: others_upd set_away_upd)
      then have "moved exe previous d0 backup old (us_disk m3)" using move_result [OF m3] f(3) mv y(2) by auto
      with out fr ne vr lr move_result [OF m3] show ?thesis by auto
    qed
  qed
qed

definition calm :: "update_os \<Rightarrow> update_state \<Rightarrow> bool" where
  "calm os m \<longleftrightarrow> (\<forall>i \<ge> us_calls m. uo_fault os i = None)"

text \<open>Undoing: the old image is at one of the two paths, and if the undoing itself does not fail, all is as before.\<close>

definition undone :: "update_os \<Rightarrow> update_state \<Rightarrow> string \<Rightarrow> string \<Rightarrow> disk \<Rightarrow> string \<Rightarrow> disk \<Rightarrow> bool" where
  "undone os m exe previous d0 old d \<longleftrightarrow>
     (d exe = Some (Plain old) \<or> d previous = Some (Plain old)) \<and> others_kept exe previous d0 d \<and> (calm os m \<longrightarrow> kept previous d0 d)"

lemma keptI:
  "others_kept exe previous d0 d \<Longrightarrow> d previous = d0 previous \<Longrightarrow> d exe = d0 exe \<Longrightarrow> kept previous d0 d"
  by (auto simp: kept_def others_kept_def)

lemma restore_result:
  assumes mv: "moved exe previous d0 backup old (us_disk m)" and prev: "previous = exe @ ''.previous''"
    and old: "d0 exe = Some (Plain old)"
    and run: "restoreFailedActivation os primary exe previous backup m = (r, m')"
  shows "(\<exists>e. r = Inl e) \<and> undone os m exe previous d0 old (us_disk m')"
proof -
  obtain failed err m1 where s: "set_aside os exe m = ((failed, err), m1)" by (metis surj_pair)
  note mv1 = set_aside_result [OF mv prev s]
  obtain cur m2 where c: "move os previous exe m1 = (cur, m2)" by force
  note cr = move_result [OF c]
  define rb where "rb = (case cur of Inr _ \<Rightarrow> restoreExisting os backup previous m2 | Inl _ \<Rightarrow> (Inr (), m2))"
  obtain rr m3 where rb3: "rb = (rr, m3)" by force
  have ne: "exe \<noteq> previous" using prev by simp
  let ?ok = "\<lambda>d. (d exe = Some (Plain old) \<or> d previous = Some (Plain old)) \<and> others_kept exe previous d0 d"
  have undo: "?ok (us_disk m3) \<and> (calm os m \<longrightarrow> kept previous d0 (us_disk m3))"
  proof (cases cur)
    case (Inl e)
    then have same: "us_disk m3 = us_disk m1" and "uo_fault os (us_calls m1) = Some e"
      using rb3 cr mv1 by (auto simp: rb_def moved_def)
    then have "\<not> calm os m" using mv1 by (auto simp: calm_def)
    with same mv1 show ?thesis by (auto simp: moved_def)
  next
    case (Inr u)
    then have d2: "us_disk m2 = (us_disk m1)(previous := None, exe \<mapsto> Plain old)" and calls: "us_calls m2 = us_calls m1 + 1"
      using cr mv1 by (auto simp: moved_def)
    have re: "restoreExisting os backup previous m2 = (rr, m3)" using rb3 Inr by (simp add: rb_def)
    have sa: "set_away exe previous d0 backup (us_disk m2)" and ok: "others_kept exe previous d0 (us_disk m2)"
    proof -
      have "backup \<noteq> Some previous" "backup \<noteq> Some exe" using mv1 by (auto simp: moved_def set_away_def free_name_def)
      then show "set_away exe previous d0 backup (us_disk m2)" "others_kept exe previous d0 (us_disk m2)"
        using mv1 unfolding d2 by (auto simp: moved_def intro!: set_away_upd others_upd)
    qed
    note res = restoreExisting_result [OF re sa ok]
    have exe3: "us_disk m3 exe = Some (Plain old)" using res(1) ne d2 by simp
    have "kept previous d0 (us_disk m3)" if "calm os m"
    proof -
      have "us_calls m \<le> us_calls m2" using mv1 calls by linarith
      then have "uo_fault os (us_calls m2) = None" using that by (simp add: calm_def)
      then have "us_disk m3 previous = d0 previous" using res(3) d2 ne by simp
      with res(2) exe3 old show ?thesis by (intro keptI [of exe]) auto
    qed
    with exe3 res(2) show ?thesis by simp
  qed
  define m4 where "m4 = (case failed of Some f \<Rightarrow> if err = None then snd (remove_file os f m3) else m3 | None \<Rightarrow> m3)"
  have "r = Inl (join_errors [Some primary, err, error_of cur, error_of rr]) \<and> m' = m4"
    using run s c rb3 unfolding rb_def m4_def by (simp add: restoreFailedActivation_def Let_def)
  moreover have "us_disk m4 = us_disk m3 \<or> (\<exists>f. us_disk m4 = (us_disk m3)(f := None) \<and> free_name previous d0 f \<and> f \<noteq> exe \<and> f \<noteq> previous)"
    using mv1 remove_result [of os _ m3] unfolding m4_def by (auto split: option.splits)
  ultimately show ?thesis using undo by (auto simp: undone_def kept_upd others_upd)
qed

text \<open>One call at most fails.\<close>

definition lone :: "update_os \<Rightarrow> bool" where
  "lone os \<longleftrightarrow> (\<forall>i j. uo_fault os i \<noteq> None \<longrightarrow> uo_fault os j \<noteq> None \<longrightarrow> i = j)"

lemma lone_calm: "lone os \<Longrightarrow> uo_fault os (us_calls m) = Some e \<Longrightarrow> us_calls m' = us_calls m + 1 \<Longrightarrow> calm os m'"
  unfolding lone_def calm_def by (metis not_Some_eq add.commute less_eq_Suc_le less_irrefl plus_1_eq_Suc)

text \<open>What \<^verbatim>\<open>Apply\<close> leaves behind; \<open>good\<close> is what is known of the new image.\<close>

definition settled :: "update_os \<Rightarrow> string \<Rightarrow> string \<Rightarrow> disk \<Rightarrow> string \<Rightarrow> (string \<Rightarrow> bool) \<Rightarrow> string + Result \<Rightarrow> disk \<Rightarrow> bool" where
  "settled os exe previous d0 old good r d \<longleftrightarrow> others_kept exe previous d0 d \<and>
     (case r of
        Inr _ \<Rightarrow> d previous = Some (Plain old) \<and> (\<exists>new. good new \<and> d exe = Some (Plain new))
      | Inl _ \<Rightarrow> (d exe = Some (Plain old) \<or> d previous = Some (Plain old)) \<and> (lone os \<longrightarrow> kept previous d0 d))"

lemma settled_kept:
  "kept previous d0 d \<Longrightarrow> d0 exe = Some (Plain old) \<Longrightarrow> settled os exe previous d0 old good (Inl e) d"
  by (auto simp: settled_def kept_others) (auto simp: kept_def)

lemma settled_undone: "undone os m exe previous d0 old d \<Longrightarrow> lone os \<longrightarrow> calm os m \<Longrightarrow> settled os exe previous d0 old good (Inl e) d"
  by (auto simp: settled_def undone_def)

lemma settled_remove:
  "settled os exe previous d0 old good r (us_disk m) \<Longrightarrow> free_name previous d0 q \<Longrightarrow> q \<noteq> exe
     \<Longrightarrow> settled os exe previous d0 old good r (us_disk (snd (remove_file os q m)))"
  using remove_result [of os q m]
  by (cases r) (auto simp: settled_def others_upd kept_upd free_name_def)

lemma replace_result:
  assumes mexe: "us_disk m exe = Some (Plain old)" and mprev: "us_disk m previous = None" and st: "us_disk m staged = Some (Plain new)"
    and oth: "others_kept exe previous d0 (us_disk m)" and away: "set_away exe previous d0 backup (us_disk m)"
    and prev: "previous = exe @ ''.previous''" and old: "d0 exe = Some (Plain old)"
    and staged: "free_name previous d0 staged" "staged \<noteq> exe" "backup \<noteq> Some staged" and good: "good new"
    and activate_run: "replace_executable os mf exe staged backup m = (r, m')"
  shows "settled os exe previous d0 old good r (us_disk m')"
proof -
  have ne: "exe \<noteq> previous" "staged \<noteq> previous" using prev staged by (auto simp: free_name_def)
  have bne: "backup \<noteq> Some exe" "backup \<noteq> Some previous" using away by (auto simp: set_away_def free_name_def)
  note run = activate_run [unfolded replace_executable_def Let_def, folded prev]
  obtain r1 m1 where m1: "move os exe previous m = (r1, m1)" by force
  note k1 = move_result [OF m1]
  show ?thesis
  proof (cases r1)
    case (Inl e)
    then have d1: "us_disk m1 = us_disk m" "us_calls m1 = us_calls m + 1" "\<exists>e. uo_fault os (us_calls m) = Some e"
      using k1 mexe mprev by auto
    obtain rr m2 where re: "restoreExisting os backup previous m1 = (rr, m2)" by force
    have out: "r = Inl (join_errors [Some (''preserve current executable: '' @ e), error_of rr])" "m' = m2"
      using run m1 Inl re by auto
    note res = restoreExisting_result [OF re, of exe d0] 
    have a: "set_away exe previous d0 backup (us_disk m1)" "others_kept exe previous d0 (us_disk m1)" using away oth d1 by auto
    have "us_disk m2 exe = Some (Plain old)" using res(1) [OF a] ne d1 mexe by simp
    moreover have "kept previous d0 (us_disk m2)" if "lone os"
    proof -
      have "uo_fault os (us_calls m1) = None" using lone_calm [OF that _ d1(2)] d1(3) by (auto simp: calm_def)
      then have "us_disk m2 previous = d0 previous" using res(3) [OF a] d1 mprev by simp
      with res(2) [OF a] calculation old show ?thesis by (intro keptI [of exe]) auto
    qed
    ultimately show ?thesis using out res(2) [OF a] by (simp add: settled_def)
  next
    case (Inr u)
    then have d1: "us_disk m1 = (us_disk m)(exe := None, previous \<mapsto> Plain old)" using k1 mexe by auto
    have mv1: "moved exe previous d0 backup old (us_disk m1)"
      using oth away ne bne unfolding d1 by (auto simp: moved_def intro!: others_upd set_away_upd)
    obtain r2 m2 where m2: "move os staged exe m1 = (r2, m2)" by force
    note k2 = move_result [OF m2]
    show ?thesis
    proof (cases r2)
      case (Inl e)
      then have d2: "us_disk m2 = us_disk m1" "us_calls m2 = us_calls m1 + 1" "\<exists>e. uo_fault os (us_calls m1) = Some e"
        using k2 d1 st ne staged by auto
      have re: "restoreFailedActivation os (''activate update: '' @ e) exe previous backup m2 = (r, m')"
        using run m1 \<open>r1 = Inr u\<close> m2 Inl by simp
      have "moved exe previous d0 backup old (us_disk m2)" using mv1 d2 by simp
      from restore_result [OF this prev old re] settled_undone lone_calm d2 show ?thesis by metis
    next
      case (Inr u2)
      then have d2: "us_disk m2 = (us_disk m1)(staged := None, exe \<mapsto> Plain new)" using k2 d1 st ne staged by auto
      have mv2: "moved exe previous d0 backup old (us_disk m2)"
        using mv1 ne bne staged unfolding d2 by (auto simp: moved_def intro!: others_upd set_away_upd)
      obtain r3 m3 where m3: "call os m2 = (r3, m3)" by force
      note k3 = call_result [OF m3]
      show ?thesis
      proof (cases r3)
        case (Inl e)
        have re: "restoreFailedActivation os (''sync activated update: '' @ e) exe previous backup m3 = (r, m')"
          using run m1 \<open>r1 = Inr u\<close> m2 \<open>r2 = Inr u2\<close> m3 Inl by simp
        have "moved exe previous d0 backup old (us_disk m3)" using mv2 k3 by simp
        from restore_result [OF this prev old re] settled_undone lone_calm k3 Inl show ?thesis by (metis sum.distinct(1))
      next
        case (Inr u3)
        then have out: "r = Inr \<lparr>re_version = mf_version mf, re_previous = previous, re_updated = True\<rparr>" "m' = snd (removePreserved os backup m3)"
          using run m1 \<open>r1 = Inr u\<close> m2 \<open>r2 = Inr u2\<close> m3
          by (auto simp: followed_def succeed_def removePreserved_def ignoring_def split: option.splits)
        have "settled os exe previous d0 old good r (us_disk m3)"
          using mv2 k3 d2 good ne out by (auto simp: settled_def moved_def)
        then show ?thesis
          using out away settled_remove by (auto simp: removePreserved_def succeed_def ignoring_def set_away_def split: option.splits)
      qed
    qed
  qed
qed

section \<open>Apply\<close>

definition preserved :: "string \<Rightarrow> string \<Rightarrow> disk \<Rightarrow> string \<Rightarrow> string \<Rightarrow> string \<Rightarrow> string + string option \<Rightarrow> disk \<Rightarrow> bool" where
  "preserved exe previous d0 old staged new r d \<longleftrightarrow>
     (case r of Inl _ \<Rightarrow> kept previous d0 d
      | Inr backup \<Rightarrow> d exe = Some (Plain old) \<and> d previous = None \<and> d staged = Some (Plain new)
          \<and> others_kept exe previous d0 d \<and> set_away exe previous d0 backup d \<and> backup \<noteq> Some staged)"

lemma yields_preserve:
  assumes k: "kept previous d0 (us_disk m)" and st: "us_disk m staged = Some (Plain new)"
    and prev: "previous = exe @ ''.previous''" and old: "d0 exe = Some (Plain old)"
    and staged: "free_name previous d0 staged" "staged \<noteq> exe"
  shows "yields (preserveExisting os previous) m (\<lambda>r m'. preserved exe previous d0 old staged new r (us_disk m'))"
proof (rule yieldsI)
  fix r m' assume run: "preserveExisting os previous m = (r, m')"
  have d: "us_disk m exe = Some (Plain old)" "us_disk m previous = d0 previous" "exe \<noteq> previous" "staged \<noteq> previous"
    using k old prev staged by (auto simp: kept_def free_name_def)
  from preserve_result [OF k _ prev run] old consider e where "r = Inl e" "kept previous d0 (us_disk m')"
    | "r = Inr None" "us_disk m' = us_disk m" "d0 previous = None"
    | b x where "r = Inr (Some b)" "us_disk m b = None" "free_name previous d0 b" "b \<noteq> exe" "d0 previous = Some (Plain x)"
        "us_disk m' = (us_disk m)(previous := None, b \<mapsto> Plain x)" by force
  then show "preserved exe previous d0 old staged new r (us_disk m')"
  proof cases
    case 2
    with d st kept_others [OF k] show ?thesis by (simp add: set_away_def preserved_def)
  next
    case 3
    then have "b \<noteq> staged" "b \<noteq> previous" using st by (auto simp: free_name_def)
    with 3 d st staged kept_others [OF k, of exe] show ?thesis
      by (auto simp: set_away_def preserved_def intro!: others_upd)
  qed (simp add: preserved_def)
qed

lemma yields_activate:
  assumes k: "kept previous d0 (us_disk m)" and st: "us_disk m staged = Some (Plain new)"
    and prev: "previous = exe @ ''.previous''" and old: "d0 exe = Some (Plain old)"
    and staged: "free_name previous d0 staged" "staged \<noteq> exe" and good: "good new"
  shows "yields (activate os mf exe staged) m (\<lambda>r m'. settled os exe previous d0 old good r (us_disk m'))"
  unfolding activate_def prev [symmetric]
proof (rule yields_followed, rule yields_wrapped, rule yields_preserve [OF k st prev old staged])
  fix backup and m1 :: update_state
  assume p: "preserved exe previous d0 old staged new (Inr backup) (us_disk m1)"
  show "yields (replace_executable os mf exe staged backup) m1 (\<lambda>r m'. settled os exe previous d0 old good r (us_disk m'))"
  proof (rule yieldsI)
    fix r m' assume "replace_executable os mf exe staged backup m1 = (r, m')"
    with p show "settled os exe previous d0 old good r (us_disk m')"
      by (intro replace_result [OF _ _ _ _ _ prev old staged]) (auto simp: preserved_def good)
  qed
qed (simp_all add: preserved_def settled_kept old)

text \<open>The release that vouches for an image: signed metadata, and an archive of its size and checksum that holds it.\<close>

definition from_release :: "release_host \<Rightarrow> update_client \<Rightarrow> Manifest \<Rightarrow> string \<Rightarrow> bool" where
  "from_release h c mf new \<longleftrightarrow> Verify h mf (uc_key c) = None \<and>
     (\<exists>asset archive. map_of (mf_assets mf) (platform_of h c) = Some asset \<and> vouched asset archive
        \<and> executable_in h (as_url asset) archive = Inr new)"

lemma yields_call: "yields (wrapped msg (call os)) m (\<lambda>r m'. us_disk m' = us_disk m)"
  by (auto simp: yields_def wrapped_def dest: call_result split: prod.splits sum.splits)

lemma yields_create:
  "yields (wrapped msg (create_temp os directory pre suf)) m (\<lambda>r m'. case r of Inl _ \<Rightarrow> us_disk m' = us_disk m
    | Inr name \<Rightarrow> \<exists>x. name = temp_name directory pre x suf \<and> us_disk m name = None \<and> us_disk m' = (us_disk m)(name \<mapsto> Plain []))"
  by (rule yields_wrapped, rule yieldsI, erule create_temp_result) (auto simp: Let_def)

lemma yields_apply:
  assumes old: "us_disk m exe = Some (Plain old)" and prev: "previous = exe @ ''.previous''"
  shows "yields (Apply h os c mf exe) m (\<lambda>r m'. settled os exe previous (us_disk m) old (from_release h c mf) r (us_disk m'))"
    (is "yields _ _ ?Q")
proof (cases "Verify h mf (uc_key c) = None \<and> (\<exists>asset. map_of (mf_assets mf) (platform_of h c) = Some asset) \<and> is_abs exe")
  case False
  have "settled os exe previous (us_disk m) old (from_release h c mf) (Inl e) (us_disk m)" for e
    using settled_kept [of previous "us_disk m" "us_disk m" exe old] old by simp
  with False show ?thesis by (auto simp: Apply_def split: option.splits)
next
  case True
  then obtain asset where asset: "map_of (mf_assets mf) (platform_of h c) = Some asset" by blast
  let ?d0 = "us_disk m"
  have fails: "?Q (Inl e) m'" if "kept previous ?d0 (us_disk m')" for e m' using settled_kept [of previous "us_disk m" "us_disk m'" exe old] that old by simp
  let ?extracting = "\<lambda>archive. followed (extractExecutable h os archive (dir exe) (as_url asset)) (\<lambda>staged.
      finally_remove os staged (followed (wrapped ''secure staged executable: '' (call os)) (\<lambda>_. activate os mf exe staged)))"
  let ?rest = "\<lambda>archive. followed (download h os asset archive) (\<lambda>_.
      followed (wrapped ''close update archive: '' (call os)) (\<lambda>_. ?extracting archive))"
  have unpack: "yields (?extracting archive) m2 ?Q"
    if k: "kept previous ?d0 (us_disk m2)" and body: "us_disk m2 archive = Some (Plain body)" and v: "vouched asset body" for archive body m2
  proof (rule yields_followed, rule yields_extract [where ?d0.0 = "us_disk m" and exe = exe and previous = previous and body = body])
    fix staged and m3 :: update_state
    assume "kept previous ?d0 (us_disk m3) \<and> (\<forall>p. (Inr staged :: string + string) = Inr p \<longrightarrow> free_name previous ?d0 p \<and> p \<noteq> exe
        \<and> (\<exists>new. us_disk m3 p = Some (Plain new) \<and> executable_in h (as_url asset) body = Inr new))"
    then obtain new where k3: "kept previous ?d0 (us_disk m3)" and st: "free_name previous ?d0 staged" "staged \<noteq> exe"
      "us_disk m3 staged = Some (Plain new)" "executable_in h (as_url asset) body = Inr new" by auto
    have good: "from_release h c mf new" using True asset v st(4) by (auto simp: from_release_def)
    have "yields (followed (wrapped ''secure staged executable: '' (call os)) (\<lambda>_. activate os mf exe staged)) m3 ?Q"
    proof (rule yields_followed [OF yields_call])
      fix x and m4 :: update_state
      assume "us_disk m4 = us_disk m3"
      with k3 st prev old good show "yields (activate os mf exe staged) m4 ?Q"
        by (intro yields_activate [where ?d0.0 = "us_disk m" and new = new]) simp_all
    qed (use fails k3 in simp)
    then show "yields (finally_remove os staged (followed (wrapped ''secure staged executable: '' (call os)) (\<lambda>_. activate os mf exe staged))) m3 ?Q"
      by (rule yields_finally) (rule settled_remove [where ?d0.0 = "us_disk m"], simp_all add: st)
  qed (use k prev body old fails in auto)
  have rest: "yields (?rest archive) m1 ?Q" if k: "kept previous ?d0 (us_disk m1)" and f: "free_name previous ?d0 archive" for archive m1
  proof (rule yields_followed [OF yields_download [OF k f]])
    fix x and m2 :: update_state
    assume R: "kept previous ?d0 (us_disk m2) \<and> ((Inr x :: string + unit) = Inr () \<longrightarrow>
       (\<exists>body. us_disk m2 archive = Some (Plain body) \<and> vouched asset body))"
    show "yields (followed (wrapped ''close update archive: '' (call os)) (\<lambda>_. ?extracting archive)) m2 ?Q"
      by (rule yields_followed [OF yields_call]) (use R unpack fails in auto)
  qed (use fails in auto)
  show ?thesis
  proof -
    have "yields (followed (requireRegularFile os exe ''current executable'') (\<lambda>_.
        followed (wrapped ''stage update archive: '' (create_temp os (dir exe) ''.overgent-update-'' ''.archive''))
          (\<lambda>archive. finally_remove os archive (?rest archive)))) m ?Q"
    proof (rule yields_followed [OF yields_requireRegular])
      fix x and m1 :: update_state
      assume "us_disk m1 = us_disk m \<and> ((Inr x :: string + unit) = Inr () \<longrightarrow> (\<exists>y. us_disk m exe = Some (Plain y)))"
      then have d1: "us_disk m1 = us_disk m" by blast
      show "yields (followed (wrapped ''stage update archive: '' (create_temp os (dir exe) ''.overgent-update-'' ''.archive''))
          (\<lambda>archive. finally_remove os archive (?rest archive))) m1 ?Q"
      proof (rule yields_followed [OF yields_create])
        fix archive and m2 :: update_state
        assume "case Inr archive :: string + string of Inl _ \<Rightarrow> us_disk m2 = us_disk m1 | Inr name \<Rightarrow>
          \<exists>x. name = temp_name (dir exe) ''.overgent-update-'' x ''.archive'' \<and> us_disk m1 name = None
            \<and> us_disk m2 = (us_disk m1)(name \<mapsto> Plain [])"
        then obtain x where x: "archive = temp_name (dir exe) ''.overgent-update-'' x ''.archive''" "us_disk m archive = None"
          "us_disk m2 = (us_disk m)(archive \<mapsto> Plain [])" by (auto simp: d1)
        have f: "free_name previous ?d0 archive \<and> archive \<noteq> exe"
          using temp_free [OF kept_others [OF kept_refl] _ prev, of ?d0 "''.archive''" "dir exe" "''.overgent-update-''" x] old x by simp
        then have "kept previous ?d0 (us_disk m2)" using x(3) by (simp add: kept_upd)
        then show "yields (finally_remove os archive (?rest archive)) m2 ?Q"
          using f by (intro yields_finally [OF rest]) (auto intro: settled_remove)
      qed (use d1 fails in auto)
    qed (use fails in auto)
    with True asset show ?thesis by (simp add: Apply_def)
  qed
qed

text \<open>C34. An update never loses the executable that was running: whichever calls of the operating system fail,
  after a success the new executable is the one the signed release vouches for and the old one is at the
  rollback path, and after an error the old one is at one of the two paths; no other file that was there changes.\<close>

theorem update_is_recoverable:
  assumes "us_disk m exe = Some (Plain old)" and "Apply h os c mf exe m = (r, m')"
  shows "(case r of
       Inr _ \<Rightarrow> us_disk m' (exe @ ''.previous'') = Some (Plain old)
         \<and> (\<exists>new. us_disk m' exe = Some (Plain new) \<and> from_release h c mf new)
     | Inl _ \<Rightarrow> us_disk m' exe = Some (Plain old) \<or> us_disk m' (exe @ ''.previous'') = Some (Plain old))
    \<and> (\<forall>p. p \<noteq> exe \<longrightarrow> p \<noteq> exe @ ''.previous'' \<longrightarrow> us_disk m p \<noteq> None \<longrightarrow> us_disk m' p = us_disk m p)"
proof -
  have s: "settled os exe (exe @ ''.previous'') (us_disk m) old (from_release h c mf) r (us_disk m')"
    using yields_apply [OF assms(1) refl] assms(2) by (rule yieldsD)
  show ?thesis
  proof (cases r)
    case (Inl e)
    with s show ?thesis by (simp add: settled_def others_kept_def)
  next
    case (Inr x)
    with s show ?thesis unfolding settled_def others_kept_def by auto
  qed
qed

text \<open>C35. A single failure is undone completely: if at most one call fails and the update reports an error,
  every file that was there is as before, the executable and an older rollback image included, and no rollback
  image has appeared.\<close>

theorem one_failure_is_undone:
  assumes "us_disk m exe = Some (Plain old)" and "Apply h os c mf exe m = (Inl e, m')"
    and "\<And>i j. uo_fault os i \<noteq> None \<Longrightarrow> uo_fault os j \<noteq> None \<Longrightarrow> i = j"
    and "us_disk m p \<noteq> None \<or> p = exe @ ''.previous''"
  shows "us_disk m' p = us_disk m p"
proof -
  have "settled os exe (exe @ ''.previous'') (us_disk m) old (from_release h c mf) (Inl e) (us_disk m')"
    using yields_apply [OF assms(1) refl] assms(2) by (rule yieldsD)
  then have "kept (exe @ ''.previous'') (us_disk m) (us_disk m')" using assms(3) by (auto simp: settled_def lone_def)
  with assms(4) show ?thesis by (auto simp: kept_def)
qed

section \<open>Rollback\<close>

definition both_there :: "string \<Rightarrow> string \<Rightarrow> string \<Rightarrow> string + Result \<Rightarrow> update_state \<Rightarrow> bool" where
  "both_there exe old new r m \<longleftrightarrow>
     (case r of Inr _ \<Rightarrow> us_disk m exe = Some (Plain old)
      | Inl _ \<Rightarrow> (\<exists>p. us_disk m p = Some (Plain old)) \<and> (\<exists>p. us_disk m p = Some (Plain new)))"

lemma yields_restore_previous:
  assumes ne: "failed \<noteq> exe" "failed \<noteq> previous" and prev: "previous = exe @ ''.previous''"
    and d: "us_disk m previous = Some (Plain old)" "us_disk m exe = None" "us_disk m failed = Some (Plain new)"
  shows "yields (restore_previous os exe failed) m (both_there exe old new)"
proof (rule yieldsI)
  fix r m' assume "restore_previous os exe failed m = (r, m')"
  note run = this [unfolded restore_previous_def Let_def, folded prev]
  obtain r1 m3 where m3: "move os previous exe m = (r1, m3)" by force
  show "both_there exe old new r m'"
  proof (cases r1)
    case (Inl e)
    obtain r2 m4 where m4: "move os failed exe m3 = (r2, m4)" by force
    have "us_disk m3 = us_disk m" using move_result [OF m3] Inl by auto
    moreover have "m' = m4" "\<exists>e. r = Inl e" using run m3 Inl m4 by auto
    moreover have "exe \<noteq> previous" using prev by simp
    ultimately show ?thesis using move_result [OF m4] d ne by (force simp: both_there_def)
  next
    case (Inr u)
    then have d3: "us_disk m3 = (us_disk m)(previous := None, exe \<mapsto> Plain old)" using move_result [OF m3] d by auto
    have there: "us_disk m3 exe = Some (Plain old)" "us_disk m3 failed = Some (Plain new)" using d3 d ne by auto
    obtain r4 m4 where m4: "call os m3 = (r4, m4)" by force
    show ?thesis
    proof (cases r4)
      case (Inl e)
      with run m3 Inr m4 call_result [OF m4] there show ?thesis
        by (auto simp: followed_def wrapped_def both_there_def)
    next
      case Inr4: (Inr v)
      with run m3 Inr m4 call_result [OF m4] there remove_result [of os failed m4] ne show ?thesis
        by (auto simp: followed_def wrapped_def both_there_def succeed_def ignoring_def)
    qed
  qed
qed

lemma yields_move:
  "yields (wrapped msg (move os a b)) m (\<lambda>r m'. case r of Inl _ \<Rightarrow> us_disk m' = us_disk m
    | Inr _ \<Rightarrow> \<exists>x. us_disk m a = Some x \<and> us_disk m' = (us_disk m)(a := None, b \<mapsto> x))"
  by (rule yields_wrapped, rule yieldsI, erule move_result) auto

lemma yields_require: "yields (wrapped msg (requireRegularFile os p label)) m (\<lambda>r m'. us_disk m' = us_disk m)"
  by (rule yields_wrapped, rule yields_requireRegular) auto

lemma yields_vacant:
  "yields (wrapped msg (vacantPath os directory pre suf)) m (\<lambda>r m'. case r of Inr n \<Rightarrow> us_disk m n = None \<and> us_disk m' = us_disk m
      | Inl _ \<Rightarrow> \<forall>p. us_disk m p \<noteq> None \<longrightarrow> us_disk m' p = us_disk m p)"
  by (rule yields_wrapped, rule yieldsI, erule vacantPath_result) auto

lemma rollback_result:
  assumes new: "us_disk m exe = Some (Plain new)" and old: "us_disk m (exe @ ''.previous'') = Some (Plain old)"
  shows "yields (Rollback os exe) m (both_there exe old new)"
proof -
  have both: "both_there exe old new (Inl e) m1" if "us_disk m1 = us_disk m" for e and m1 :: update_state
    using that new old by (auto simp: both_there_def)
  have last: "yields (followed (wrapped ''preserve failed update: '' (move os exe failed)) (\<lambda>_. restore_previous os exe failed)) m2
      (both_there exe old new)" if d2: "us_disk m2 = us_disk m" and free: "us_disk m failed = None" for failed and m2 :: update_state
  proof (rule yields_followed [OF yields_move])
    fix x and m3 :: update_state
    assume "case Inr x :: string + unit of Inl _ \<Rightarrow> us_disk m3 = us_disk m2
      | Inr _ \<Rightarrow> \<exists>y. us_disk m2 exe = Some y \<and> us_disk m3 = (us_disk m2)(exe := None, failed \<mapsto> y)"
    then have d3: "us_disk m3 = (us_disk m)(exe := None, failed \<mapsto> Plain new)" using d2 new by auto
    have "failed \<noteq> exe" "failed \<noteq> exe @ ''.previous''" using free new old by auto
    with d3 old show "yields (restore_previous os exe failed) m3 (both_there exe old new)"
      by (intro yields_restore_previous [OF _ _ refl]) auto
  qed (use d2 both in auto)
  have reserve: "yields (followed (wrapped ''reserve failed executable path: '' (vacantPath os (dir exe) ''.overgent-failed-'' ''.bin''))
      (\<lambda>failed. followed (wrapped ''preserve failed update: '' (move os exe failed)) (\<lambda>_. restore_previous os exe failed))) m2
      (both_there exe old new)" if d2: "us_disk m2 = us_disk m" for m2 :: update_state
  proof (rule yields_followed [OF yields_vacant])
    fix e and m3 :: update_state
    assume "case Inl e :: string + string of Inr n \<Rightarrow> us_disk m2 n = None \<and> us_disk m3 = us_disk m2
      | Inl _ \<Rightarrow> \<forall>p. us_disk m2 p \<noteq> None \<longrightarrow> us_disk m3 p = us_disk m2 p"
    then have m3: "\<forall>p. us_disk m p \<noteq> None \<longrightarrow> us_disk m3 p = us_disk m p" using d2 by simp
    from m3 new old have "us_disk m3 exe = Some (Plain new)" "us_disk m3 (exe @ ''.previous'') = Some (Plain old)" by auto
    then show "both_there exe old new (Inl e) m3" by (auto simp: both_there_def)
  qed (use d2 last in auto)
  have "yields (followed (requireRegularFile os exe ''current executable'') (\<lambda>_.
        followed (wrapped ''no rollback executable is available: '' (requireRegularFile os (exe @ ''.previous'') ''rollback executable'')) (\<lambda>_.
        followed (wrapped ''reserve failed executable path: '' (vacantPath os (dir exe) ''.overgent-failed-'' ''.bin'')) (\<lambda>failed.
        followed (wrapped ''preserve failed update: '' (move os exe failed)) (\<lambda>_. restore_previous os exe failed))))) m
      (both_there exe old new)"
  proof (rule yields_followed [OF yields_requireRegular])
    fix x and m1 :: update_state
    assume "us_disk m1 = us_disk m \<and> ((Inr x :: string + unit) = Inr () \<longrightarrow> (\<exists>y. us_disk m exe = Some (Plain y)))"
    then have d1: "us_disk m1 = us_disk m" by blast
    show "yields (followed (wrapped ''no rollback executable is available: '' (requireRegularFile os (exe @ ''.previous'') ''rollback executable''))
        (\<lambda>_. followed (wrapped ''reserve failed executable path: '' (vacantPath os (dir exe) ''.overgent-failed-'' ''.bin'')) (\<lambda>failed.
        followed (wrapped ''preserve failed update: '' (move os exe failed)) (\<lambda>_. restore_previous os exe failed)))) m1
      (both_there exe old new)"
      by (rule yields_followed [OF yields_require]) (use d1 both reserve in auto)
  qed (use both in auto)
  with both [of m] show ?thesis by (simp add: Rollback_def)
qed

text \<open>C36. Rolling an update back restores the executable it replaced; and a rollback that fails, at whatever
  call, loses neither of the two images.\<close>

theorem rollback_restores:
  assumes "us_disk m exe = Some (Plain old)" and "Apply h os c mf exe m = (Inr x, m1)" and "Rollback os' exe m1 = (r, m2)"
  shows "case r of
      Inr _ \<Rightarrow> us_disk m2 exe = Some (Plain old)
    | Inl _ \<Rightarrow> (\<exists>p. us_disk m2 p = Some (Plain old))
        \<and> (\<exists>p new. us_disk m2 p = Some (Plain new) \<and> from_release h c mf new)"
proof -
  have "settled os exe (exe @ ''.previous'') (us_disk m) old (from_release h c mf) (Inr x) (us_disk m1)"
    using yields_apply [OF assms(1) refl] assms(2) by (rule yieldsD)
  then obtain new where new: "from_release h c mf new" "us_disk m1 exe = Some (Plain new)" "us_disk m1 (exe @ ''.previous'') = Some (Plain old)"
    by (auto simp: settled_def)
  have "both_there exe old new r m2" by (rule yieldsD [OF rollback_result [OF new(2,3)] assms(3)])
  with new(1) show ?thesis by (auto simp: both_there_def split: sum.splits)
qed

section \<open>A release\<close>

lemma hex_digit_text: "d < 16 \<Longrightarrow> hex_char (hex_digit d)"
proof -
  assume "d < 16"
  have "byte (hex_digit d) = (if d < 10 then 48 + d else 87 + d)" using \<open>d < 16\<close> by (simp add: byte_def hex_digit_def)
  with \<open>d < 16\<close> show "hex_char (hex_digit d)" by (simp add: hex_char_def)
qed

lemma be_bytes_small: "b \<in> set (be_bytes n v) \<Longrightarrow> b < 256"
  by (induction n arbitrary: v) auto

lemma hex_text_sha: "hex_text (sha256_hex s)"
proof -
  have "list_all hex_char (hex_bytes bs)" if "\<forall>b \<in> set bs. b < 256" for bs
    using that by (induction bs) (auto simp: hex_bytes_def intro!: hex_digit_text)
  moreover have "\<forall>b \<in> set (sha256 s). b < 256" by (auto simp: sha256_def dest: be_bytes_small)
  ultimately show ?thesis by (simp add: hex_text_def sha256_hex_def)
qed

definition sample_archive :: string where "sample_archive = ''archive''"

definition sample_asset :: Asset where
  "sample_asset = \<lparr>as_url = ''https://r/a.tgz'', as_sha256 = sha256_hex sample_archive, as_size = 7\<rparr>"

definition release_manifest :: Manifest where
  "release_manifest = \<lparr>mf_schema = 1, mf_version = ''v2'', mf_published = ''2026-01-02T03:04:05Z'',
     mf_assets = [(''linux_amd64'', sample_asset)], mf_signature = ''c2ln''\<rparr>"

definition sample_release :: release_host where
  "sample_release = \<lparr>rl_goos = ''linux'', rl_goarch = ''amd64'',
     rl_url = (\<lambda>raw. Some \<lparr>pu_scheme = ''https'', pu_host = ''r'', pu_hostname = ''r'', pu_user = False, pu_fragment = [],
       pu_path = ''/a.tgz'', pu_text = raw\<rparr>),
     rl_loopback = (\<lambda>_. False), rl_ed25519 = (\<lambda>key payload signature. signature = ''sig''), rl_json = (\<lambda>_. None),
     rl_get = (\<lambda>_. Inr \<lparr>rp_status = 200, rp_body = sample_archive, rp_broken = None\<rparr>),
     rl_zip = (\<lambda>_. Inr []),
     rl_gzip = (\<lambda>_. Inr ([\<lparr>te_name = ''overgent'', te_regular = True, te_size = 3, te_data = (''new'', None)\<rparr>], None))\<rparr>"

definition sample_client :: update_client where
  "sample_client = \<lparr>uc_key = replicate 32 (CHR ''k''), uc_goos = [], uc_goarch = []\<rparr>"

definition sample_calls :: "nat option \<Rightarrow> update_os" where
  "sample_calls failing = \<lparr>uo_fault = (\<lambda>n. if failing = Some n then Some ''refused'' else None), uo_random = (\<lambda>n. replicate n (CHR ''1''))\<rparr>"

definition release_disk :: update_state where
  "release_disk = \<lparr>us_disk = [''/o/x'' \<mapsto> Plain ''old''], us_calls = 0\<rparr>"

lemma sample_verified: "Verify sample_release release_manifest (replicate 32 (CHR ''k'')) = None"
proof -
  have url: "secureURL sample_release u = Inr \<lparr>pu_scheme = ''https'', pu_host = ''r'', pu_hostname = ''r'', pu_user = False, pu_fragment = [],
       pu_path = ''/a.tgz'', pu_text = u\<rparr>" for u by (simp add: secureURL_def sample_release_def)
  have "asset_error sample_release (''linux_amd64'', sample_asset) = None"
    by (simp add: asset_error_def Let_def url) (simp add: sample_asset_def hex_text_sha artifactLimit_def)
  moreover have "valid_rfc3339 ''2026-01-02T03:04:05Z''" by code_simp
  moreover have "base64_decode ''c2ln'' = Some ''sig''" by code_simp
  moreover have "validVersion ''v2''" by code_simp
  ultimately show ?thesis by (simp add: Verify_def release_manifest_def) (simp add: sample_release_def)
qed

lemma release_facts:
  "Verify sample_release release_manifest (uc_key sample_client) = None"
  "map_of (mf_assets release_manifest) (platform_of sample_release sample_client) = Some sample_asset"
  "download sample_release os sample_asset f = followed (wrapped ''write update archive: '' (write_file os f sample_archive)) (\<lambda>_. succeed ())"
  "executable_in sample_release (as_url sample_asset) sample_archive = Inr ''new''"
  "dir ''/o/x'' = ''/o''" "dir ''/o/x.previous'' = ''/o''" "\<not> has_suffix ''/o'' ''/''"
proof -
  show "Verify sample_release release_manifest (uc_key sample_client) = None" using sample_verified by (simp add: sample_client_def)
  show "map_of (mf_assets release_manifest) (platform_of sample_release sample_client) = Some sample_asset"
    by (simp add: release_manifest_def platform_of_def goos_of_def goarch_of_def sample_release_def sample_client_def)
  show "download sample_release os sample_asset f = followed (wrapped ''write update archive: '' (write_file os f sample_archive)) (\<lambda>_. succeed ())"
    by (simp add: download_def sample_release_def sample_asset_def secureURL_def limited_def sample_archive_def equal_fold_def)
  have "\<not> has_suffix (lower_text ''/a.tgz'') ''.zip''" by code_simp
  moreover have "base ''overgent'' = ''overgent''" by code_simp
  ultimately show "executable_in sample_release (as_url sample_asset) sample_archive = Inr ''new''"
    by (simp add: executable_in_def zip_archive_def newURLPath_def sample_release_def tar_executable_def limited_def artifactLimit_def)
qed code_simp+

lemmas run_defs = requireRegularFile_def lstat_def create_temp_def sample_calls_def release_disk_def temp_name_def is_abs_def
  extractExecutable_def activate_def preserveExisting_def replace_executable_def move_def call_def write_file_def read_file_def
  finally_remove_def removePreserved_def restoreFailedActivation_def set_aside_def vacantPath_def restoreExisting_def remove_file_def
  Rollback_def restore_previous_def ignoring_def act_defs

lemma sample_apply: "\<exists>x. fst (Apply sample_release (sample_calls None) sample_client release_manifest ''/o/x'' release_disk) = Inr x"
  unfolding Apply_def release_facts(1,2) by (simp add: release_facts run_defs)

text \<open>The last call of the update, the flush of the directory, fails.\<close>

lemma sample_failure: "\<exists>e. fst (Apply sample_release (sample_calls (Some 12)) sample_client release_manifest ''/o/x'' release_disk) = Inl e"
  unfolding Apply_def release_facts(1,2) by (simp add: release_facts run_defs)

lemma sample_rollback:
  "\<exists>x. fst (Rollback (sample_calls None) ''/o/x'' (snd (Apply sample_release (sample_calls None) sample_client release_manifest ''/o/x'' release_disk))) = Inr x"
  unfolding Apply_def release_facts(1,2) by (simp add: release_facts run_defs)

lemma update_is_recoverable_witness:
  "\<exists>x m'. Apply sample_release (sample_calls None) sample_client release_manifest ''/o/x'' release_disk = (Inr x, m')
     \<and> us_disk m' ''/o/x.previous'' = Some (Plain ''old'')"
proof -
  obtain x m' where run: "Apply sample_release (sample_calls None) sample_client release_manifest ''/o/x'' release_disk = (Inr x, m')"
    using sample_apply by (metis prod.collapse)
  from update_is_recoverable [OF _ run, of "''old''"] show ?thesis using run by (simp add: release_disk_def)
qed

lemma one_failure_is_undone_witness:
  "us_disk (snd (Apply sample_release (sample_calls (Some 12)) sample_client release_manifest ''/o/x'' release_disk)) ''/o/x'' = Some (Plain ''old'')"
proof -
  obtain e m' where run: "Apply sample_release (sample_calls (Some 12)) sample_client release_manifest ''/o/x'' release_disk = (Inl e, m')"
    using sample_failure by (metis prod.collapse)
  have "us_disk m' ''/o/x'' = us_disk release_disk ''/o/x''"
    by (rule one_failure_is_undone [OF _ run, of "''old''"]) (auto simp: release_disk_def sample_calls_def split: if_splits)
  with run show ?thesis by (simp add: release_disk_def)
qed

lemma rollback_restores_witness:
  "us_disk (snd (Rollback (sample_calls None) ''/o/x'' (snd (Apply sample_release (sample_calls None) sample_client release_manifest ''/o/x'' release_disk))))
     ''/o/x'' = Some (Plain ''old'')"
proof -
  obtain x m1 where run: "Apply sample_release (sample_calls None) sample_client release_manifest ''/o/x'' release_disk = (Inr x, m1)"
    using sample_apply by (metis prod.collapse)
  with sample_rollback obtain y m2 where roll: "Rollback (sample_calls None) ''/o/x'' m1 = (Inr y, m2)" by (metis prod.collapse snd_conv)
  from rollback_restores [OF _ run roll, of "''old''"] run roll show ?thesis by (simp add: release_disk_def)
qed

end
