(* ===== verification/Session_Record.thy ===== *)
theory Session_Record
  imports App_Lifecycle Hook_Command
begin

text \<open>
  The records of a vendor's session file: one JSON document per line, read by the adapter of its format
  (\<^verbatim>\<open>codexAdapter\<close> and \<^verbatim>\<open>claudeAdapter\<close> of \<^verbatim>\<open>internal/sessiontranscript\<close>).

  The parser of JSON text is the parameter \<open>parse\<close>. Only members that are strings, lists and objects are
  read, so what a number is mapped to does not matter. A record that does not decode yields nothing.
\<close>

section \<open>Bounded text\<close>

definition MaxMessageBytes_transcript :: nat where "MaxMessageBytes_transcript = 8000"

text \<open>The last position up to the limit at which a rune starts.\<close>

fun rune_cut :: "string \<Rightarrow> nat \<Rightarrow> nat" where
  "rune_cut v 0 = 0"
| "rune_cut v (Suc n) = (if cont_byte (v ! Suc n) then rune_cut v n else Suc n)"

definition bounded :: "string \<Rightarrow> nat \<Rightarrow> string" where
  "bounded value limit =
     (let v = trim_space value in
      if v = [] \<or> \<not> valid_utf8 v \<or> contains_any v [NUL] then []
      else if limit < length v then trim_space (take (rune_cut v limit) v) else v)"

definition single :: "string \<Rightarrow> string \<Rightarrow> string \<Rightarrow> transcript_message list" where
  "single kind text at =
     (let body = bounded text MaxMessageBytes_transcript in
      if body = [] then [] else [\<lparr>tm_kind = kind, tm_text = body, tm_tool = [], tm_at = at\<rparr>])"

text \<open>A tool is named, its arguments and results are not read.\<close>

definition tool_named :: "string \<Rightarrow> string \<Rightarrow> transcript_message list" where
  "tool_named name at =
     (let tool = bounded name 64 in
      if tool = [] then [] else [\<lparr>tm_kind = ''tool'', tm_text = [], tm_tool = tool, tm_at = at\<rparr>])"

section \<open>Decoding\<close>

text \<open>A struct that ignores unknown members; a \<^verbatim>\<open>json.RawMessage\<close> keeps \<^verbatim>\<open>null\<close>.\<close>

definition struct_of :: "json \<Rightarrow> string + (string \<times> json) list" where
  "struct_of j = (case object_members j of None \<Rightarrow> Inl ''cannot unmarshal into struct'' | Some kvs \<Rightarrow> Inr kvs)"

definition raw_field :: "string \<Rightarrow> (string \<times> json) list \<Rightarrow> json option" where
  "raw_field k kvs = map_option snd (find (\<lambda>kv. to_lower (fst kv) = to_lower k) (rev kvs))"

record codexLine =
  cl_timestamp :: string
  cl_type :: string
  cl_payload :: "json option"

record codexPart =
  xp_type :: string
  xp_text :: string

record codexItem =
  xi_type :: string
  xi_content :: "codexPart list"

record codexPayload =
  pl_type :: string
  pl_role :: string
  pl_name :: string
  pl_text :: string
  pl_message :: string
  pl_content :: "codexPart list"
  pl_id :: string
  pl_session_id :: string
  pl_item :: "codexItem option"

definition dec_codex_line :: "json \<Rightarrow> string + codexLine" where
  "dec_codex_line j = bindE (struct_of j) (\<lambda>m. bindE (dec_string ''timestamp'' m) (\<lambda>t. bindE (dec_string ''type'' m) (\<lambda>k.
     Inr \<lparr>cl_timestamp = t, cl_type = k, cl_payload = raw_field ''payload'' m\<rparr>)))"

definition dec_codex_part :: "json \<Rightarrow> string + codexPart" where
  "dec_codex_part j = bindE (struct_of j) (\<lambda>m. bindE (dec_string ''type'' m) (\<lambda>k. bindE (dec_string ''text'' m) (\<lambda>t.
     Inr \<lparr>xp_type = k, xp_text = t\<rparr>)))"

definition dec_codex_item :: "json \<Rightarrow> string + codexItem" where
  "dec_codex_item j = bindE (struct_of j) (\<lambda>m. bindE (dec_string ''type'' m) (\<lambda>k.
     bindE (dec_list dec_codex_part ''content'' m) (\<lambda>ps. Inr \<lparr>xi_type = k, xi_content = ps\<rparr>)))"

definition dec_codex_payload :: "json \<Rightarrow> string + codexPayload" where
  "dec_codex_payload j = bindE (struct_of j) (\<lambda>m.
     bindE (dec_string ''type'' m) (\<lambda>ty. bindE (dec_string ''role'' m) (\<lambda>ro. bindE (dec_string ''name'' m) (\<lambda>na.
     bindE (dec_string ''text'' m) (\<lambda>te. bindE (dec_string ''message'' m) (\<lambda>me.
     bindE (dec_list dec_codex_part ''content'' m) (\<lambda>co. bindE (dec_string ''id'' m) (\<lambda>i.
     bindE (dec_string ''session_id'' m) (\<lambda>si. bindE (dec_string ''cwd'' m) (\<lambda>_.
     bindE (case member ''item'' m of None \<Rightarrow> Inr None | Some x \<Rightarrow> map_sum id Some (dec_codex_item x)) (\<lambda>it.
       Inr \<lparr>pl_type = ty, pl_role = ro, pl_name = na, pl_text = te, pl_message = me, pl_content = co, pl_id = i,
            pl_session_id = si, pl_item = it\<rparr>)))))))))))"

record claudeLine =
  dl_type :: string
  dl_session_id :: string
  dl_timestamp :: string
  dl_git_branch :: string
  dl_ai_title :: string
  dl_custom_text :: string
  dl_message :: "json option"
  dl_tool_use_result :: "json option"

record claudePart =
  dp_type :: string
  dp_text :: string
  dp_thinking :: string
  dp_name :: string

definition dec_claude_line :: "json \<Rightarrow> string + claudeLine" where
  "dec_claude_line j = bindE (struct_of j) (\<lambda>m.
     bindE (dec_string ''type'' m) (\<lambda>ty. bindE (dec_string ''sessionId'' m) (\<lambda>si. bindE (dec_string ''timestamp'' m) (\<lambda>ti.
     bindE (dec_string ''gitBranch'' m) (\<lambda>gb. bindE (dec_string ''aiTitle'' m) (\<lambda>ai. bindE (dec_string ''customTitle'' m) (\<lambda>cu.
       Inr \<lparr>dl_type = ty, dl_session_id = si, dl_timestamp = ti, dl_git_branch = gb, dl_ai_title = ai, dl_custom_text = cu,
            dl_message = raw_field ''message'' m, dl_tool_use_result = raw_field ''toolUseResult'' m\<rparr>)))))))"

definition dec_claude_message :: "json \<Rightarrow> string + (string \<times> json option)" where
  "dec_claude_message j = bindE (struct_of j) (\<lambda>m. bindE (dec_string ''role'' m) (\<lambda>r. Inr (r, raw_field ''content'' m)))"

definition dec_claude_part :: "json \<Rightarrow> string + claudePart" where
  "dec_claude_part j = bindE (struct_of j) (\<lambda>m.
     bindE (dec_string ''type'' m) (\<lambda>ty. bindE (dec_string ''text'' m) (\<lambda>te. bindE (dec_string ''thinking'' m) (\<lambda>th.
     bindE (dec_string ''name'' m) (\<lambda>na. Inr \<lparr>dp_type = ty, dp_text = te, dp_thinking = th, dp_name = na\<rparr>)))))"

section \<open>The Codex adapter\<close>

datatype vendor = Codex | Claude

record session =
  ss_id :: string
  ss_vendor :: string
  ss_title :: string
  ss_branch :: string
  ss_messages :: "transcript_message list"

definition vendor_name :: "vendor \<Rightarrow> string" where
  "vendor_name v = (case v of Codex \<Rightarrow> ''codex'' | Claude \<Rightarrow> ''claude'')"

definition codexRecordTypes :: "string list" where
  "codexRecordTypes = [''session_meta'', ''response_item'', ''event_msg'', ''turn_context'', ''world_state'', ''compacted'']"

text \<open>A line and its payload; \<^term>\<open>None\<close> when either does not decode.\<close>

definition codex_record :: "json \<Rightarrow> (codexLine \<times> codexPayload) option" where
  "codex_record j =
     (case dec_codex_line j of Inl _ \<Rightarrow> None
      | Inr l \<Rightarrow> (case cl_payload l of None \<Rightarrow> None
          | Some p \<Rightarrow> (case dec_codex_payload p of Inl _ \<Rightarrow> None | Inr pl \<Rightarrow> Some (l, pl))))"

definition codex_meta :: "json \<Rightarrow> session \<Rightarrow> session" where
  "codex_meta j s =
     (case codex_record j of None \<Rightarrow> s
      | Some (l, p) \<Rightarrow>
          if cl_type l \<noteq> ''session_meta'' then s
          else if pl_session_id p \<noteq> [] then s\<lparr>ss_id := pl_session_id p\<rparr>
          else if pl_id p \<noteq> [] then s\<lparr>ss_id := pl_id p\<rparr> else s)"

definition itemText :: "codexPart list \<Rightarrow> string" where
  "itemText parts =
     join [LF, LF] (map xp_text (filter (\<lambda>p. equal_fold (xp_type p) ''text'' \<and> trim_space (xp_text p) \<noteq> []) parts))"

definition instruction_text :: "codexPart list \<Rightarrow> string" where
  "instruction_text parts =
     join [LF, LF] (map xp_text (filter (\<lambda>p. xp_type p = ''input_text'' \<and> trim_space (xp_text p) \<noteq> []) parts))"

definition codex_event :: "codexPayload \<Rightarrow> string \<Rightarrow> transcript_message list" where
  "codex_event p at =
     (if pl_type p = ''user_message'' then single ''user'' (pl_message p) at
      else if pl_type p = ''agent_message'' then single ''assistant'' (pl_message p) at
      else if pl_type p = ''agent_reasoning'' then single ''thinking'' (pl_text p) at
      else if pl_type p = ''item_completed'' then
        (case pl_item p of None \<Rightarrow> []
         | Some i \<Rightarrow>
             if xi_type i = ''UserMessage'' then single ''user'' (itemText (xi_content i)) at
             else if xi_type i = ''AgentMessage'' then single ''assistant'' (itemText (xi_content i)) at else [])
      else [])"

definition codex_response :: "codexPayload \<Rightarrow> string \<Rightarrow> transcript_message list" where
  "codex_response p at =
     (if pl_type p = ''function_call'' \<or> pl_type p = ''custom_tool_call'' then tool_named (pl_name p) at
      else if pl_type p = ''message'' \<and> pl_role p = ''developer'' then single ''system'' (instruction_text (pl_content p)) at
      else [])"

definition codex_messages :: "json \<Rightarrow> transcript_message list" where
  "codex_messages j =
     (case codex_record j of None \<Rightarrow> []
      | Some (l, p) \<Rightarrow>
          if cl_type l = ''event_msg'' then codex_event p (cl_timestamp l)
          else if cl_type l = ''response_item'' then codex_response p (cl_timestamp l) else [])"

section \<open>The Claude adapter\<close>

definition claudeRecordTypes :: "string list" where
  "claudeRecordTypes = [''user'', ''assistant'', ''ai-title'', ''custom-title'']"

definition claude_title :: "claudeLine \<Rightarrow> session \<Rightarrow> session" where
  "claude_title l s =
     (if dl_type l = ''custom-title'' then
        (let title = bounded (dl_custom_text l) 160 in if title \<noteq> [] then s\<lparr>ss_title := title\<rparr> else s)
      else if dl_type l = ''ai-title'' \<and> ss_title s = [] then s\<lparr>ss_title := bounded (dl_ai_title l) 160\<rparr> else s)"

definition claude_meta :: "json \<Rightarrow> session \<Rightarrow> session" where
  "claude_meta j s =
     (case dec_claude_line j of Inl _ \<Rightarrow> s
      | Inr l \<Rightarrow>
          let s1 = (if dl_session_id l \<noteq> [] then s\<lparr>ss_id := dl_session_id l\<rparr> else s);
              s2 = (if dl_git_branch l \<noteq> [] then s1\<lparr>ss_branch := dl_git_branch l\<rparr> else s1)
          in claude_title l s2)"

definition part_messages :: "string \<Rightarrow> string \<Rightarrow> claudePart \<Rightarrow> transcript_message list" where
  "part_messages role at p =
     (if dp_type p = ''text'' then single role (dp_text p) at
      else if dp_type p = ''thinking'' then single ''thinking'' (dp_thinking p) at
      else if dp_type p = ''tool_use'' then tool_named (dp_name p) at else [])"

text \<open>The content is one text or a list of parts; \<^verbatim>\<open>null\<close> is the empty text.\<close>

definition content_messages :: "string \<Rightarrow> string \<Rightarrow> json \<Rightarrow> transcript_message list" where
  "content_messages role at content =
     (case content of
        JStr text \<Rightarrow> single role text at
      | JArr parts \<Rightarrow>
          (case foldE (\<lambda>x acc. bindE (dec_claude_part x) (\<lambda>p. Inr (acc @ [p]))) parts [] of
             Inl _ \<Rightarrow> [] | Inr ps \<Rightarrow> concat (map (part_messages role at) ps))
      | _ \<Rightarrow> [])"

definition claude_messages :: "json \<Rightarrow> transcript_message list" where
  "claude_messages j =
     (case dec_claude_line j of Inl _ \<Rightarrow> []
      | Inr l \<Rightarrow>
          if dl_type l \<noteq> ''user'' \<and> dl_type l \<noteq> ''assistant'' then []
          else if dl_tool_use_result l \<noteq> None then []
          else (case dl_message l of None \<Rightarrow> []
            | Some message \<Rightarrow>
                (case dec_claude_message message of
                   Inr (role, Some content) \<Rightarrow>
                     content_messages (if role = ''assistant'' then ''assistant'' else ''user'') (dl_timestamp l) content
                 | _ \<Rightarrow> [])))"

section \<open>Either\<close>

definition format_meta :: "(string \<Rightarrow> json option) \<Rightarrow> vendor \<Rightarrow> string \<Rightarrow> session \<Rightarrow> session" where
  "format_meta parse v line s =
     (case parse line of None \<Rightarrow> s | Some j \<Rightarrow> (case v of Codex \<Rightarrow> codex_meta j s | Claude \<Rightarrow> claude_meta j s))"

definition format_messages :: "(string \<Rightarrow> json option) \<Rightarrow> vendor \<Rightarrow> string \<Rightarrow> transcript_message list" where
  "format_messages parse v line =
     (case parse line of None \<Rightarrow> [] | Some j \<Rightarrow> (case v of Codex \<Rightarrow> codex_messages j | Claude \<Rightarrow> claude_messages j))"

definition record_format :: "json \<Rightarrow> vendor option" where
  "record_format j =
     (case bindE (struct_of j) (\<lambda>m. bindE (dec_string ''type'' m) (\<lambda>ty. bindE (dec_string ''sessionId'' m) (\<lambda>si.
          Inr (ty, si, raw_field ''payload'' m, raw_field ''message'' m)))) of
        Inl _ \<Rightarrow> None
      | Inr (ty, si, payload, message) \<Rightarrow>
          if payload \<noteq> None \<and> ty \<in> set codexRecordTypes then Some Codex
          else if si \<noteq> [] \<or> message \<noteq> None \<or> ty \<in> set claudeRecordTypes then Some Claude else None)"

section \<open>What a message can be\<close>

text \<open>A message is a bounded text of a speaker, or a tool's bounded name and nothing else.\<close>

definition readable :: "nat \<Rightarrow> string \<Rightarrow> bool" where
  "readable limit t \<longleftrightarrow> t \<noteq> [] \<and> length t \<le> limit \<and> \<not> contains_any t [NUL]"

definition proper_message :: "transcript_message \<Rightarrow> bool" where
  "proper_message m \<longleftrightarrow>
     (if tm_kind m = ''tool'' then tm_text m = [] \<and> readable 64 (tm_tool m)
      else tm_kind m \<in> {''user'', ''assistant'', ''thinking'', ''system''} \<and> tm_tool m = [] \<and> readable MaxMessageBytes_transcript (tm_text m))"

end
