(* ===== verification/Session_Transcript.thy ===== *)
theory Session_Transcript
  imports Session_Record Contract_Symbol
begin

text \<open>
  Reading a session's record file (\<^verbatim>\<open>Read\<close> of \<^verbatim>\<open>internal/sessiontranscript/transcript.go\<close>) and finding the one
  of a Codex session (\<^verbatim>\<open>LocateCodexRollout\<close>).

  Parameters: the parser of JSON text, the file system (what opening answers, and the bytes delivered from
  an offset until the end or an error, which need not agree with the size), and \<open>grow\<close>, the capacity
  that \<^verbatim>\<open>append\<close> gives a full slice, which the language leaves open.
\<close>

section \<open>Files\<close>

record stored_file =
  sf_stat :: "string option"
  sf_regular :: bool
  sf_size :: nat
  sf_seek :: "nat \<Rightarrow> string option"
  sf_from :: "nat \<Rightarrow> string \<times> string option"

record record_files =
  rc_eval :: "string \<Rightarrow> string + string"
  rc_open :: "string \<Rightarrow> string + stored_file"
  rc_walk :: "string \<Rightarrow> (string \<times> bool) list"

definition MaxTailBytes :: nat where "MaxTailBytes = 2097152"
definition headBytes :: nat where "headBytes = 262144"
definition MaxMessages :: int where "MaxMessages = 200"
definition maxLineBytes :: nat where "maxLineBytes = 8388608"
definition maxRecordBytes :: nat where "maxRecordBytes = 524288"
definition detect_budget :: nat where "detect_budget = 4194304"

definition path_extension :: "string \<Rightarrow> string" where
  "path_extension p = (let b = last (split_on (CHR ''/'') p) in
     if CHR ''.'' \<in> set b then CHR ''.'' # rev (takeWhile (\<lambda>c. c \<noteq> CHR ''.'') (rev b)) else [])"

definition validatePath :: "record_files \<Rightarrow> string \<Rightarrow> string + string" where
  "validatePath fs path =
     (if path = [] \<or> 4096 < length path \<or> contains_any path [NUL] then Inl ''transcript path is missing or invalid''
      else if \<not> is_abs path then Inl ''transcript path must be absolute''
      else let c = clean path in
        if path_extension c \<noteq> ''.jsonl'' then Inl ''transcript path is not a JSONL transcript''
        else map_sum (\<lambda>e. ''resolve transcript: '' @ e) id (rc_eval fs c))"

text \<open>\<^verbatim>\<open>bufio.ScanLines\<close>: no line after the last line end, a carriage return before it dropped.\<close>

definition drop_cr :: "string \<Rightarrow> string" where
  "drop_cr l = (if l \<noteq> [] \<and> last l = CR then butlast l else l)"

definition text_lines :: "string \<Rightarrow> string list" where
  "text_lines data = (let ls = split_on LF data in if last ls = [] then butlast ls else ls)"

text \<open>A line that does not fit the buffer ends the scan.\<close>

definition each_line :: "string \<Rightarrow> string list" where
  "each_line data =
     filter (\<lambda>l. 0 < length l \<and> length l \<le> maxRecordBytes)
       (map drop_cr (takeWhile (\<lambda>l. length l < maxLineBytes) (text_lines data)))"

section \<open>The format\<close>

fun first_format :: "(string \<Rightarrow> json option) \<Rightarrow> string list \<Rightarrow> vendor option" where
  "first_format parse [] = None"
| "first_format parse (l # ls) =
     (case Option.bind (parse l) record_format of Some v \<Rightarrow> Some v | None \<Rightarrow> first_format parse ls)"

definition detect :: "(string \<Rightarrow> json option) \<Rightarrow> string \<Rightarrow> vendor option" where
  "detect parse head = first_format parse (each_line head)"

text \<open>What \<^verbatim>\<open>ReadBytes\<close> returns in turn: every line with its end, then what is left.\<close>

fun line_pieces :: "string list \<Rightarrow> string list" where
  "line_pieces [] = []"
| "line_pieces [l] = [l]"
| "line_pieces (l # ls) = (l @ [LF]) # line_pieces ls"

fun detect_pieces :: "(string \<Rightarrow> json option) \<Rightarrow> nat \<Rightarrow> string list \<Rightarrow> vendor option" where
  "detect_pieces parse consumed [] = None"
| "detect_pieces parse consumed (l # ls) =
     (if detect_budget \<le> consumed then None
      else case (if l \<noteq> [] \<and> length l \<le> maxRecordBytes then detect parse l else None) of
        Some v \<Rightarrow> Some v
      | None \<Rightarrow> detect_pieces parse (consumed + length l) ls)"

definition detectStream :: "(string \<Rightarrow> json option) \<Rightarrow> string \<Rightarrow> vendor option" where
  "detectStream parse data = detect_pieces parse 0 (line_pieces (split_on LF data))"

section \<open>Titles\<close>

definition syntheticPreambles :: "string list" where
  "syntheticPreambles = [''the following is the codex agent history'', ''this session is being continued from a previous'',
     ''caveat: the messages below were generated'', ''<recommended_plugins>'', ''# agents.md instructions'']"

definition isSyntheticPreamble :: "string \<Rightarrow> bool" where
  "isSyntheticPreamble title \<longleftrightarrow> (\<exists>p \<in> set syntheticPreambles. has_prefix (lower_text title) p)"

definition ellipsis :: string where "ellipsis = [CHR 0xE2, CHR 0x80, CHR 0xA6]"

definition title_from :: "string \<Rightarrow> string" where
  "title_from title =
     (let t = trim_space (trim_prefix title ''&#x20;'')
      in if 72 < rune_count t then trim_space (take_runes 72 t) @ ellipsis else t)"

fun derivedTitle :: "transcript_message list \<Rightarrow> string" where
  "derivedTitle [] = []"
| "derivedTitle (m # ms) =
     (if tm_kind m \<noteq> ''user'' \<or> tm_text m = [] then derivedTitle ms
      else let title = trim_space (takeWhile (\<lambda>c. c \<noteq> LF) (trim_space (tm_text m))) in
        if title = [] \<or> isSyntheticPreamble title then derivedTitle ms
        else if title_from title \<noteq> [] then title_from title else derivedTitle ms)"

section \<open>Read\<close>

text \<open>\<^verbatim>\<open>io.ReadFull\<close>: bytes that are not there stay zero; an end right at the start is an error.\<close>

definition read_head :: "stored_file \<Rightarrow> string + string" where
  "read_head f =
     (let n = min (sf_size f) headBytes in
      case sf_from f 0 of (data, broken) \<Rightarrow>
        if n \<le> length data then Inr (take n data)
        else case broken of Some e \<Rightarrow> Inl e
          | None \<Rightarrow> if data = [] then Inl ''EOF'' else Inr (data @ replicate (n - length data) NUL))"

text \<open>The opening requests, their number and capacity checked before each line.\<close>

fun add_opening :: "(nat \<Rightarrow> nat) \<Rightarrow> transcript_message list \<Rightarrow> nat \<times> transcript_message list \<Rightarrow> nat \<times> transcript_message list" where
  "add_opening grow [] st = st"
| "add_opening grow (m # ms) (cap, opening) =
     (if tm_kind m = ''user''
      then add_opening grow ms (if length opening < cap then cap else grow cap, opening @ [m])
      else add_opening grow ms (cap, opening))"

fun read_opening :: "(string \<Rightarrow> json option) \<Rightarrow> (nat \<Rightarrow> nat) \<Rightarrow> vendor \<Rightarrow> string list \<Rightarrow> session \<times> nat \<times> transcript_message list
    \<Rightarrow> session \<times> nat \<times> transcript_message list" where
  "read_opening parse grow v [] st = st"
| "read_opening parse grow v (l # ls) (s, cap, opening) =
     read_opening parse grow v ls (format_meta parse v l s,
       (if cap \<le> length opening then (cap, opening) else add_opening grow (format_messages parse v l) (cap, opening)))"

text \<open>A message that repeats the last one is dropped.\<close>

fun add_messages :: "transcript_message list \<Rightarrow> transcript_message list \<Rightarrow> transcript_message list" where
  "add_messages [] out = out"
| "add_messages (m # ms) out = add_messages ms (if out \<noteq> [] \<and> last out = m then out else out @ [m])"

fun read_messages :: "(string \<Rightarrow> json option) \<Rightarrow> vendor \<Rightarrow> bool \<Rightarrow> string list \<Rightarrow> session \<Rightarrow> session" where
  "read_messages parse v small [] s = s"
| "read_messages parse v small (l # ls) s =
     (let s' = (if small then format_meta parse v l s else s)
      in read_messages parse v small ls (s'\<lparr>ss_messages := add_messages (format_messages parse v l) (ss_messages s')\<rparr>))"

definition seek_to :: "stored_file \<Rightarrow> nat \<Rightarrow> string + (string \<times> string option)" where
  "seek_to f n = (case sf_seek f n of Some e \<Rightarrow> Inl (''seek transcript: '' @ e) | None \<Rightarrow> Inr (sf_from f n))"

text \<open>The bytes of the tail window; the seek lands inside a record, whose rest is dropped.\<close>

definition tail_data :: "stored_file \<Rightarrow> string + string" where
  "tail_data f =
     (if MaxTailBytes < sf_size f then
        bindE (seek_to f (sf_size f - MaxTailBytes)) (\<lambda>(data, broken).
          case dropWhile (\<lambda>c. c \<noteq> LF) data of
            _ # rest \<Rightarrow> Inr rest
          | [] \<Rightarrow> (case broken of Some e \<Rightarrow> Inl (''read transcript: '' @ e) | None \<Rightarrow> Inr []))
      else bindE (seek_to f 0) (\<lambda>(data, _). Inr data))"

definition find_format :: "(string \<Rightarrow> json option) \<Rightarrow> stored_file \<Rightarrow> string \<Rightarrow> string + vendor" where
  "find_format parse f head =
     (case detect parse head of Some v \<Rightarrow> Inr v
      | None \<Rightarrow>
          bindE (seek_to f 0) (\<lambda>(data, _).
            case detectStream parse data of Some v \<Rightarrow> Inr v | None \<Rightarrow> Inl ''transcript format is not recognized''))"

definition last_messages :: "int \<Rightarrow> transcript_message list \<Rightarrow> transcript_message list" where
  "last_messages limit ms = (if limit < int (length ms) then drop (length ms - nat limit) ms else ms)"

definition titled :: "transcript_message list \<Rightarrow> session \<Rightarrow> session" where
  "titled opening s =
     (let t1 = (if ss_title s = [] then derivedTitle opening else ss_title s);
          t2 = (if t1 = [] then derivedTitle (ss_messages s) else t1)
      in s\<lparr>ss_title := t2\<rparr>)"

definition read_session :: "(string \<Rightarrow> json option) \<Rightarrow> (nat \<Rightarrow> nat) \<Rightarrow> stored_file \<Rightarrow> int \<Rightarrow> string + session" where
  "read_session parse grow f limit =
     bindE (map_sum (\<lambda>e. ''read transcript: '' @ e) id (read_head f)) (\<lambda>head.
     bindE (find_format parse f head) (\<lambda>v.
       let (s, _, opening) = read_opening parse grow v (each_line head)
             (\<lparr>ss_id = [], ss_vendor = vendor_name v, ss_title = [], ss_branch = [], ss_messages = []\<rparr>, 4, [])
       in bindE (tail_data f) (\<lambda>data.
         let s1 = read_messages parse v (sf_size f \<le> MaxTailBytes) (each_line data) s
         in Inr (titled opening (s1\<lparr>ss_messages := last_messages limit (ss_messages s1)\<rparr>)))))"

definition Read :: "(string \<Rightarrow> json option) \<Rightarrow> (nat \<Rightarrow> nat) \<Rightarrow> record_files \<Rightarrow> string \<Rightarrow> int \<Rightarrow> string + session" where
  "Read parse grow fs path limit =
     bindE (validatePath fs path) (\<lambda>p.
     bindE (map_sum (\<lambda>e. ''open transcript: '' @ e) id (rc_open fs p)) (\<lambda>f.
       case sf_stat f of Some e \<Rightarrow> Inl (''stat transcript: '' @ e)
       | None \<Rightarrow>
           if \<not> sf_regular f then Inl ''transcript is not a regular file''
           else read_session parse grow f (if limit < 1 \<or> MaxMessages < limit then MaxMessages else limit)))"

text \<open>What the service takes of it.\<close>

definition transcript_reader :: "(string \<Rightarrow> json option) \<Rightarrow> (nat \<Rightarrow> nat) \<Rightarrow> record_files \<Rightarrow> string \<Rightarrow> transcript option" where
  "transcript_reader parse grow fs path =
     (case Read parse grow fs path MaxMessages of Inl _ \<Rightarrow> None
      | Inr s \<Rightarrow> Some \<lparr>tr_title = ss_title s, tr_branch = ss_branch s, tr_messages = ss_messages s\<rparr>)"

section \<open>Finding a rollout\<close>

definition hex_digit_char :: "char \<Rightarrow> bool" where
  "hex_digit_char c \<longleftrightarrow> (let n = byte c in 48 \<le> n \<and> n \<le> 57 \<or> 97 \<le> n \<and> n \<le> 102 \<or> 65 \<le> n \<and> n \<le> 70)"

definition validCodexSessionID :: "string \<Rightarrow> bool" where
  "validCodexSessionID v \<longleftrightarrow> length v = 36 \<and>
     list_all (\<lambda>(i, c). if i \<in> {8, 13, 18, 23 :: nat} then c = CHR ''-'' else hex_digit_char c) (enumerate 0 v)"

text \<open>\<open>rc_walk\<close> lists the entries below a directory in the order of the walk, with whether each is a directory.\<close>

definition rollout_entry :: "string \<Rightarrow> string \<times> bool \<Rightarrow> bool" where
  "rollout_entry suffix e \<longleftrightarrow> \<not> snd e \<and> has_prefix (base (fst e)) ''rollout-'' \<and> has_suffix (base (fst e)) suffix"

definition LocateCodexRollout :: "record_files \<Rightarrow> string \<Rightarrow> string \<Rightarrow> string" where
  "LocateCodexRollout fs home sid =
     (if home = [] \<or> \<not> validCodexSessionID sid then []
      else let suffix = ''-'' @ sid @ ''.jsonl'';
               codex = join_path home ''.codex'';
               hit = (\<lambda>root. find (rollout_entry suffix) (rc_walk fs root)) in
        case hit (join_path codex ''sessions'') of Some e \<Rightarrow> fst e
        | None \<Rightarrow> (case hit (join_path codex ''archived_sessions'') of Some e \<Rightarrow> fst e | None \<Rightarrow> []))"

end
