(* ===== verification/Session_Safety.thy ===== *)
theory Session_Safety
  imports Session_Transcript App_Registry
begin

text \<open>
  What a session's record file can put in front of the member or on the wire: bounded messages, and nothing
  of what the tools answered.
\<close>

section \<open>Bounds\<close>

lemma trim_left_drop: "\<exists>n. trim_left s = drop n s"
proof (induction s rule: trim_left.induct)
  case (1 s)
  show ?case
  proof (cases "0 < space_width s")
    case True
    with 1 obtain n where "trim_left (drop (space_width s) s) = drop n (drop (space_width s) s)" by blast
    then show ?thesis using True by (subst trim_left.simps) (auto intro: exI [of _ "n + space_width s"])
  next
    case False
    then show ?thesis by (subst trim_left.simps) (auto intro: exI [of _ 0])
  qed
qed

lemma trim_right_take: "\<exists>n. trim_right s = take n s"
proof (induction s)
  case (Cons c s)
  then obtain n where n: "trim_right s = take n s" by blast
  have "trim_right (c # s) = take 0 (c # s) \<or> trim_right (c # s) = take (Suc n) (c # s)" by (simp add: n)
  then show ?case by blast
qed simp

lemma trim_space_length: "length (trim_space s) \<le> length s"
  using trim_left_drop [of s] trim_right_take [of "trim_left s"] by (auto simp: trim_space_def)

lemma trim_space_subset: "set (trim_space s) \<subseteq> set s"
  using trim_left_drop [of s] trim_right_take [of "trim_left s"] set_take_subset set_drop_subset
  unfolding trim_space_def by (metis order_trans)

lemma bounded_readable:
  assumes "bounded v limit \<noteq> []"
  shows "readable limit (bounded v limit)"
proof -
  let ?v = "trim_space v"
  have v: "\<not> contains_any ?v [NUL]" "limit < length ?v \<Longrightarrow> bounded v limit = trim_space (take (rune_cut ?v limit) ?v)"
    "\<not> limit < length ?v \<Longrightarrow> bounded v limit = ?v"
    using assms by (auto simp: bounded_def Let_def split: if_splits)
  have cut: "rune_cut w n \<le> n" for w n by (induction n) auto
  show ?thesis
  proof (cases "limit < length ?v")
    case True
    have "length (trim_space (take (rune_cut ?v limit) ?v)) \<le> limit"
      using trim_space_length [of "take (rune_cut ?v limit) ?v"] cut [of ?v limit] by simp
    moreover have "set (trim_space (take (rune_cut ?v limit) ?v)) \<subseteq> set ?v"
      using trim_space_subset [of "take (rune_cut ?v limit) ?v"] by (meson order_trans set_take_subset)
    ultimately show ?thesis using assms v(1) v(2) [OF True] by (auto simp: readable_def contains_any_def)
  next
    case False
    with assms v(1) v(3) [OF False] show ?thesis by (simp add: readable_def)
  qed
qed

definition all_proper :: "transcript_message list \<Rightarrow> bool" where
  "all_proper ms \<longleftrightarrow> (\<forall>m \<in> set ms. proper_message m)"

lemma all_proper_simps [simp]: "all_proper []" "all_proper (concat (map f xs)) \<longleftrightarrow> (\<forall>x \<in> set xs. all_proper (f x))"
  by (auto simp: all_proper_def)

lemma single_proper: "kind \<in> {''user'', ''assistant'', ''thinking'', ''system''} \<Longrightarrow> all_proper (single kind text at)"
  using bounded_readable by (auto simp: all_proper_def single_def Let_def proper_message_def)

lemma tool_named_proper [simp]: "all_proper (tool_named name at)"
  using bounded_readable by (auto simp: all_proper_def tool_named_def Let_def proper_message_def)

lemma codex_proper: "all_proper (codex_messages j)"
proof -
  have e: "all_proper (codex_event p at)" for p at
    by (cases "pl_item p") (simp_all add: codex_event_def single_proper)
  have r: "all_proper (codex_response p at)" for p at by (simp add: codex_response_def single_proper)
  show ?thesis unfolding codex_messages_def using e r by (cases "codex_record j") (simp_all add: split_beta)
qed

lemma content_proper: "role \<in> {''user'', ''assistant''} \<Longrightarrow> all_proper (content_messages role at content)"
proof -
  assume role: "role \<in> {''user'', ''assistant''}"
  have p: "all_proper (part_messages role at p)" for p using role by (auto simp: part_messages_def single_proper)
  show ?thesis unfolding content_messages_def using role p single_proper [of role] by (cases content) (auto split: sum.split)
qed

lemma claude_proper: "all_proper (claude_messages j)"
  unfolding claude_messages_def
  by (cases "dec_claude_line j") (simp_all add: content_proper split: option.split sum.split)

lemma format_messages_proper: "all_proper (format_messages parse v l)"
  by (simp add: format_messages_def codex_proper claude_proper split: option.split vendor.split)

text \<open>Neighbours differ.\<close>

definition tidy :: "transcript_message list \<Rightarrow> bool" where
  "tidy ms \<longleftrightarrow> all_proper ms \<and> distinct_adj ms"

lemma tidy_snoc: "tidy out \<Longrightarrow> proper_message m \<Longrightarrow> tidy (if out \<noteq> [] \<and> last out = m then out else out @ [m])"
  using distinct_adj_append_iff [of out "[m]"] unfolding tidy_def all_proper_def by simp

lemma add_messages_tidy: "tidy out \<Longrightarrow> all_proper ms \<Longrightarrow> tidy (add_messages ms out)"
proof (induction ms out rule: add_messages.induct)
  case (2 m ms out)
  from 2(3) have "proper_message m" "all_proper ms" by (simp_all add: all_proper_def)
  from 2(1) [OF tidy_snoc [OF 2(2) this(1)] this(2)] show ?case by simp
qed simp

text \<open>The title of a session is at most 291 bytes: 72 runes and the mark that more was there.\<close>

definition title_ok :: "string \<Rightarrow> bool" where "title_ok t \<longleftrightarrow> length t \<le> 291"

lemma rune_width_le4: "rune_width s \<le> 4"
  by (cases s rule: rune_width.cases) (auto split: list.splits)

lemma take_runes_length: "length (take_runes n s) \<le> 4 * n"
proof (induction n s rule: take_runes.induct)
  case (2 n s)
  show ?case
  proof (cases "s = [] \<or> rune_width s = 0")
    case True
    with 2 show ?thesis by auto
  next
    case False
    then have "length (take_runes n (drop (rune_width s) s)) \<le> 4 * n" using 2 by (simp add: Let_def)
    moreover have "take_runes (Suc n) s = take (rune_width s) s @ take_runes n (drop (rune_width s) s)" using False by (simp add: Let_def)
    moreover have "length (take (rune_width s) s) \<le> 4" using rune_width_le4 [of s] by simp
    ultimately show ?thesis by (simp only: length_append mult_Suc_right)
  qed
qed simp

lemma length_le_runes: "length s \<le> 4 * rune_count s"
proof (induction s rule: rune_count.induct)
  case (1 s)
  show ?case
  proof (cases "s = []")
    case False
    with 1 have "length (drop (max 1 (rune_width s)) s) \<le> 4 * rune_count (drop (max 1 (rune_width s)) s)" by simp
    moreover have "max 1 (rune_width s) \<le> 4" using rune_width_le4 [of s] by simp
    moreover have "rune_count s = 1 + rune_count (drop (max 1 (rune_width s)) s)" using False by (subst rune_count.simps) simp
    ultimately show ?thesis by simp
  qed simp
qed

lemma title_from_ok: "title_ok (title_from t)"
proof -
  let ?t = "trim_space (trim_prefix t ''&#x20;'')"
  have "length (trim_space (take_runes 72 ?t)) \<le> 288"
    using trim_space_length [of "take_runes 72 ?t"] take_runes_length [of 72 ?t] by simp
  moreover have "\<not> 72 < rune_count ?t \<Longrightarrow> length ?t \<le> 288" using length_le_runes [of ?t] by simp
  ultimately show ?thesis by (auto simp: title_ok_def title_from_def Let_def ellipsis_def)
qed

lemma derivedTitle_ok: "title_ok (derivedTitle ms)"
proof (induction ms)
  case Nil
  show ?case by (simp add: title_ok_def)
qed (simp add: Let_def title_from_ok)

lemma bounded_title: "title_ok (bounded t 160)"
  using bounded_readable [of t 160] by (cases "bounded t 160 = []") (auto simp: title_ok_def readable_def)

lemma format_meta_keeps:
  "ss_messages (format_meta parse v l s) = ss_messages s"
  "title_ok (ss_title s) \<Longrightarrow> title_ok (ss_title (format_meta parse v l s))"
  by (auto simp: format_meta_def codex_meta_def claude_meta_def claude_title_def Let_def bounded_title
      split: option.splits vendor.splits sum.splits)

lemma read_opening_ok:
  "read_opening parse grow v ls (s, st) = (s', st') \<Longrightarrow> title_ok (ss_title s) \<Longrightarrow>
     title_ok (ss_title s') \<and> ss_messages s' = ss_messages s"
proof (induction ls arbitrary: s st)
  case (Cons l ls)
  obtain cap first where st: "st = (cap, first)" by force
  from Cons.prems(1) [unfolded st read_opening.simps] Cons.IH [OF _ format_meta_keeps(2) [OF Cons.prems(2)]]
  show ?case using format_meta_keeps(1) by metis
qed simp

lemma read_messages_ok:
  "title_ok (ss_title s) \<Longrightarrow> tidy (ss_messages s) \<Longrightarrow>
     title_ok (ss_title (read_messages parse v small ls s)) \<and> tidy (ss_messages (read_messages parse v small ls s))"
proof (induction ls arbitrary: s)
  case (Cons l ls)
  have "tidy (add_messages (format_messages parse v l) (ss_messages s))"
    using Cons.prems(2) format_messages_proper by (blast intro: add_messages_tidy)
  then show ?case
    using Cons.prems(1) format_meta_keeps(2) [of s parse v l]
      Cons.IH [of "(if small then format_meta parse v l s else s)
        \<lparr>ss_messages := add_messages (format_messages parse v l) (ss_messages (if small then format_meta parse v l s else s))\<rparr>"]
    by (cases small) (simp_all add: Let_def format_meta_keeps(1))
qed simp

lemma tidy_drop: "tidy ms \<Longrightarrow> tidy (drop n ms)"
proof -
  assume t: "tidy ms"
  have "distinct_adj (take n ms @ drop n ms)" using t by (simp add: tidy_def)
  then have "distinct_adj (drop n ms)" unfolding distinct_adj_append_iff by blast
  with t show ?thesis by (auto simp: tidy_def all_proper_def dest: in_set_dropD)
qed

lemma last_messages_ok:
  assumes "tidy ms" "1 \<le> limit"
  shows "tidy (last_messages limit ms) \<and> int (length (last_messages limit ms)) \<le> limit"
  using assms tidy_drop by (auto simp: last_messages_def)

text \<open>C37. Whatever a session's file holds, what is read of it is small: at most as many messages as asked for,
  each a readable text of a speaker of at most 8000 bytes or the bare name of a tool, no message twice in a
  row, and a title of at most 291 bytes.\<close>

theorem transcript_is_bounded:
  assumes "Read parse grow fs path limit = Inr s"
  shows "length (ss_messages s) \<le> 200 \<and> (1 \<le> limit \<longrightarrow> int (length (ss_messages s)) \<le> limit)
    \<and> (\<forall>m \<in> set (ss_messages s). proper_message m) \<and> distinct_adj (ss_messages s) \<and> length (ss_title s) \<le> 291"
proof -
  define n where "n = (if limit < 1 \<or> MaxMessages < limit then MaxMessages else limit)"
  from assms obtain f where "read_session parse grow f n = Inr s"
    by (auto simp: Read_def n_def split: option.splits if_splits)
  then obtain head v where run: "(case read_opening parse grow v (each_line head)
        (\<lparr>ss_id = [], ss_vendor = vendor_name v, ss_title = [], ss_branch = [], ss_messages = []\<rparr>, 4, []) of (s, _, opening) \<Rightarrow>
      bindE (tail_data f) (\<lambda>data. let s1 = read_messages parse v (sf_size f \<le> MaxTailBytes) (each_line data) s
        in Inr (titled opening (s1\<lparr>ss_messages := last_messages n (ss_messages s1)\<rparr>)))) = Inr s"
    unfolding read_session_def Let_def by auto
  obtain s1 cap first where start: "read_opening parse grow v (each_line head)
      (\<lparr>ss_id = [], ss_vendor = vendor_name v, ss_title = [], ss_branch = [], ss_messages = []\<rparr>, 4, []) = (s1, cap, first)"
    by (metis prod_cases3)
  from run obtain data where s: "s = (let s2 = read_messages parse v (sf_size f \<le> MaxTailBytes) (each_line data) s1
      in titled first (s2\<lparr>ss_messages := last_messages n (ss_messages s2)\<rparr>))"
    by (auto simp: start Let_def)
  have "title_ok (ss_title s1)" "tidy (ss_messages s1)"
    using read_opening_ok [OF start] by (auto simp: title_ok_def tidy_def)
  then have m: "title_ok (ss_title s2) \<and> tidy (ss_messages s2)"
    if "s2 = read_messages parse v (sf_size f \<le> MaxTailBytes) (each_line data) s1" for s2
    using that read_messages_ok by blast
  have n: "1 \<le> n" "n \<le> 200" "1 \<le> limit \<longrightarrow> n \<le> limit" by (auto simp: n_def MaxMessages_def)
  from m s have "title_ok (ss_title s) \<and> tidy (ss_messages s) \<and> int (length (ss_messages s)) \<le> n"
    using last_messages_ok [OF _ n(1)] derivedTitle_ok by (auto simp: titled_def Let_def split: prod.splits)
  with n show ?thesis by (auto simp: title_ok_def tidy_def all_proper_def)
qed

end
