(* ===== verification/Session_Withheld.thy ===== *)
theory Session_Withheld
  imports Session_Safety
begin

text \<open>
  What the tools were given and what they answered, withheld reasoning and attachments have no influence on what is
  read of a session, and so none on what the local service answers, stores or sends.
\<close>

section \<open>Records that differ in what is withheld\<close>

text \<open>
  Two records of the same line that agree on everything that may be shown. The first form is a Codex response item
  that is not a developer message: its payload may differ in all but the name of a called tool. The second is
  a Claude record that carries a tool result, the third a Claude message some of whose parts are tool results,
  unknown, or calls of the same tool.
\<close>

definition shown_call :: "string \<Rightarrow> bool" where
  "shown_call ty \<longleftrightarrow> ty = ''function_call'' \<or> ty = ''custom_tool_call''"

definition alike_payload :: "json \<Rightarrow> json \<Rightarrow> bool" where
  "alike_payload x y \<longleftrightarrow> (\<exists>p q. dec_codex_payload x = Inr p \<and> dec_codex_payload y = Inr q \<and> pl_type p = pl_type q
     \<and> (shown_call (pl_type p) \<longrightarrow> pl_name p = pl_name q)
     \<and> (pl_type p = ''message'' \<longrightarrow> pl_role p \<noteq> ''developer'' \<and> pl_role q \<noteq> ''developer''))"

definition alike_part :: "json \<Rightarrow> json \<Rightarrow> bool" where
  "alike_part x y \<longleftrightarrow> x = y \<or> (\<exists>p q. dec_claude_part x = Inr p \<and> dec_claude_part y = Inr q \<and> dp_type p = dp_type q
     \<and> dp_type p \<noteq> ''text'' \<and> dp_type p \<noteq> ''thinking'' \<and> (dp_type p = ''tool_use'' \<longrightarrow> dp_name p = dp_name q))"

inductive alike :: "json \<Rightarrow> json \<Rightarrow> bool" where
  same: "alike j j"
| response: "dec_string ''type'' env = Inr ''response_item'' \<Longrightarrow> alike_payload x y \<Longrightarrow>
    alike (JMap (env @ [(''payload'', x)])) (JMap (env @ [(''payload'', y)]))"
| tool_result:
    "alike (JMap (env @ [(''message'', m), (''toolUseResult'', x)])) (JMap (env @ [(''message'', m'), (''toolUseResult'', y)]))"
| parts: "list_all2 alike_part xs ys \<Longrightarrow>
    alike (JMap (env @ [(''message'', JMap [(''role'', JStr role), (''content'', JArr xs)])]))
          (JMap (env @ [(''message'', JMap [(''role'', JStr role), (''content'', JArr ys)])]))"

section \<open>They are read alike\<close>

lemma member_skip: "to_lower k \<noteq> to_lower k' \<Longrightarrow> member k (env @ [(k', x)]) = member k env"
  by (simp add: member_def)

lemma raw_field_skip: "to_lower k \<noteq> to_lower k' \<Longrightarrow> raw_field k (env @ [(k', x)]) = raw_field k env"
  by (simp add: raw_field_def)

lemma raw_field_last [simp]: "raw_field k (env @ [(k, x)]) = Some x"
  by (simp add: raw_field_def)

lemma dec_string_skip: "to_lower k \<noteq> to_lower k' \<Longrightarrow> dec_string k (env @ [(k', x)]) = dec_string k env"
  by (simp add: dec_string_def member_skip)

lemma names_differ [simp]:
  "to_lower ''payload'' = ''payload''" "to_lower ''message'' = ''message''" "to_lower ''toolUseResult'' = ''tooluseresult''"
  "to_lower ''type'' = ''type''" "to_lower ''timestamp'' = ''timestamp''" "to_lower ''sessionId'' = ''sessionid''"
  "to_lower ''gitBranch'' = ''gitbranch''" "to_lower ''aiTitle'' = ''aititle''" "to_lower ''customTitle'' = ''customtitle''"
  "to_lower ''role'' = ''role''" "to_lower ''content'' = ''content''"
  by code_simp+

lemmas skips = member_skip raw_field_skip dec_string_skip

lemma append_two: "env @ [a, b] = (env @ [a]) @ [b]" by simp

lemma alike_format: "alike j1 j2 \<Longrightarrow> record_format j1 = record_format j2"
  by (induction rule: alike.induct) (auto simp: record_format_def struct_of_def skips append_two bindE_def simp del: append_assoc split: sum.split)

lemma alike_codex: "alike j1 j2 \<Longrightarrow> codex_meta j1 = codex_meta j2 \<and> codex_messages j1 = codex_messages j2"
proof (induction rule: alike.induct)
  case (response env x y)
  let ?l = "\<lambda>z. dec_codex_line (JMap (env @ [(''payload'', z)]))"
  obtain p q where pq: "dec_codex_payload x = Inr p" "dec_codex_payload y = Inr q" "pl_type p = pl_type q"
    "shown_call (pl_type p) \<longrightarrow> pl_name p = pl_name q"
    "pl_type p = ''message'' \<longrightarrow> pl_role p \<noteq> ''developer'' \<and> pl_role q \<noteq> ''developer''"
    using response(2) by (auto simp: alike_payload_def)
  then have r: "codex_response p at = codex_response q at" for at by (auto simp: codex_response_def shown_call_def)
  have l: "?l z = (case dec_string ''timestamp'' env of Inl e \<Rightarrow> Inl e
      | Inr t \<Rightarrow> Inr \<lparr>cl_timestamp = t, cl_type = ''response_item'', cl_payload = Some z\<rparr>)" for z
    using response(1) by (cases "dec_string ''timestamp'' env") (simp_all add: dec_codex_line_def struct_of_def skips)
  show ?case using pq(1,2) r
    by (cases "dec_string ''timestamp'' env") (simp_all add: fun_eq_iff codex_meta_def codex_messages_def codex_record_def l)
qed (simp_all add: fun_eq_iff codex_meta_def codex_messages_def codex_record_def dec_codex_line_def struct_of_def skips append_two del: append_assoc)

lemma alike_parts:
  assumes "list_all2 alike_part xs ys" and "concat (map (part_messages role at) acc) = concat (map (part_messages role at) acc')"
  defines "dec \<equiv> \<lambda>x acc. bindE (dec_claude_part x) (\<lambda>p. Inr (acc @ [p]))"
  shows "(case foldE dec xs acc of Inl _ \<Rightarrow> [] | Inr ps \<Rightarrow> concat (map (part_messages role at) ps))
       = (case foldE dec ys acc' of Inl _ \<Rightarrow> [] | Inr ps \<Rightarrow> concat (map (part_messages role at) ps))"
  using assms(1,2)
proof (induction xs ys arbitrary: acc acc' rule: list_all2_induct)
  case (Cons x xs y ys acc acc')
  show ?case
  proof (cases "dec_claude_part x")
    case (Inl e)
    with Cons(1) have "dec_claude_part y = Inl e" by (auto simp: alike_part_def)
    with Inl show ?thesis by (simp add: dec_def)
  next
    case (Inr p)
    with Cons(1) obtain q where q: "dec_claude_part y = Inr q" "part_messages role at p = part_messages role at q"
      by (auto simp: alike_part_def part_messages_def)
    with Inr Cons(3) [of "acc @ [p]" "acc' @ [q]"] Cons(4) show ?thesis by (simp add: dec_def)
  qed
qed (simp add: dec_def)

lemma claude_line_update:
  "dec_claude_line j1 = Inr a \<Longrightarrow> dec_claude_line j2 = Inr (a\<lparr>dl_message := m, dl_tool_use_result := r\<rparr>) \<Longrightarrow> claude_meta j1 = claude_meta j2"
  by (simp add: fun_eq_iff claude_meta_def claude_title_def Let_def)

lemma claude_line_fails:
  "dec_claude_line j1 = Inl e \<Longrightarrow> dec_claude_line j2 = Inl e \<Longrightarrow>
     claude_meta j1 = claude_meta j2 \<and> claude_messages j1 = claude_messages j2"
  by (simp add: fun_eq_iff claude_meta_def claude_messages_def)

text \<open>Records with the same other members decode alike.\<close>

lemma claude_line_env [consumes 1, case_names fails reads]:
  assumes "\<forall>k \<in> {''type'', ''sessionId'', ''timestamp'', ''gitBranch'', ''aiTitle'', ''customTitle''}. dec_string k env1 = dec_string k env2"
  obtains (fails) e where "dec_claude_line (JMap env1) = Inl e" "dec_claude_line (JMap env2) = Inl e"
  | (reads) a where "dec_claude_line (JMap env1) = Inr a" "dl_message a = raw_field ''message'' env1"
      "dl_tool_use_result a = raw_field ''toolUseResult'' env1"
      "dec_claude_line (JMap env2) = Inr (a\<lparr>dl_message := raw_field ''message'' env2, dl_tool_use_result := raw_field ''toolUseResult'' env2\<rparr>)"
proof -
  have k: "dec_string ''type'' env1 = dec_string ''type'' env2" "dec_string ''sessionId'' env1 = dec_string ''sessionId'' env2"
    "dec_string ''timestamp'' env1 = dec_string ''timestamp'' env2" "dec_string ''gitBranch'' env1 = dec_string ''gitBranch'' env2"
    "dec_string ''aiTitle'' env1 = dec_string ''aiTitle'' env2" "dec_string ''customTitle'' env1 = dec_string ''customTitle'' env2"
    using assms by simp_all
  show ?thesis
  proof (cases "dec_claude_line (JMap env1)")
    case (Inl e)
    then have "dec_claude_line (JMap env2) = Inl e" by (auto simp: dec_claude_line_def struct_of_def k bindE_eq_Inl)
    with Inl show ?thesis by (rule fails)
  next
    case (Inr a)
    then show ?thesis by (intro reads [of a]) (auto simp: dec_claude_line_def struct_of_def k)
  qed
qed

lemma alike_claude: "alike j1 j2 \<Longrightarrow> claude_meta j1 = claude_meta j2 \<and> claude_messages j1 = claude_messages j2"
proof (induction rule: alike.induct)
  case (parts xs ys env role)
  let ?env = "\<lambda>zs. env @ [(''message'', JMap [(''role'', JStr role), (''content'', JArr zs)])]"
  have m: "dec_claude_message (JMap [(''role'', JStr role), (''content'', JArr zs)]) = Inr (role, Some (JArr zs))" for zs
    by (simp add: dec_claude_message_def struct_of_def dec_string_def member_def raw_field_def)
  have c: "content_messages r at (JArr xs) = content_messages r at (JArr ys)" for r at
    using alike_parts [OF parts, of r at "[]" "[]"] by (simp add: content_messages_def)
  have "\<forall>k \<in> {''type'', ''sessionId'', ''timestamp'', ''gitBranch'', ''aiTitle'', ''customTitle''}.
      dec_string k (?env xs) = dec_string k (?env ys)"
    by (simp add: skips)
  then show ?case
  proof (cases rule: claude_line_env)
    case (fails e)
    then show ?thesis by (rule claude_line_fails)
  next
    case a: (reads a)
    have "raw_field ''toolUseResult'' (?env xs) = raw_field ''toolUseResult'' (?env ys)" by (simp add: skips)
    with a m c show ?thesis using claude_line_update [OF a(1,4)] by (simp add: claude_messages_def)
  qed
next
  case (tool_result env m x m' y)
  let ?env = "\<lambda>m x. env @ [(''message'', m), (''toolUseResult'', x)]"
  have "\<forall>k \<in> {''type'', ''sessionId'', ''timestamp'', ''gitBranch'', ''aiTitle'', ''customTitle''}.
      dec_string k (?env m x) = dec_string k (?env m' y)"
    by (simp add: skips append_two del: append_assoc)
  then show ?case
  proof (cases rule: claude_line_env)
    case (fails e)
    then show ?thesis by (rule claude_line_fails)
  next
    case a: (reads a)
    have "raw_field ''toolUseResult'' (?env z w) = Some w" for z w by (simp add: append_two del: append_assoc)
    with a show ?thesis using claude_line_update [OF a(1,4)] by (simp add: claude_messages_def)
  qed
qed (simp_all add: fun_eq_iff claude_meta_def claude_messages_def dec_claude_line_def struct_of_def skips)

text \<open>What the reading of a file needs of the parser is the same for two parsers whose answers are alike.\<close>

lemma alike_reading:
  assumes "\<And>l. rel_option alike (parse1 l) (parse2 l)"
  shows "format_meta parse1 = format_meta parse2" "format_messages parse1 = format_messages parse2" "first_format parse1 = first_format parse2"
proof -
  have one: "format_meta parse1 v l = format_meta parse2 v l \<and> format_messages parse1 v l = format_messages parse2 v l
      \<and> Option.bind (parse1 l) record_format = Option.bind (parse2 l) record_format" for v l
    using assms [of l] by (cases rule: option.rel_cases)
      (auto simp: fun_eq_iff format_meta_def format_messages_def dest: alike_format alike_codex alike_claude split: vendor.split)
  show "format_meta parse1 = format_meta parse2" "format_messages parse1 = format_messages parse2" using one by blast+
  have "first_format parse1 ls = first_format parse2 ls" for ls
    by (induction ls) (simp_all add: one split: option.split)
  then show "first_format parse1 = first_format parse2" by blast
qed

lemma alike_Read:
  assumes "\<And>l. rel_option alike (parse1 l) (parse2 l)"
  shows "Read parse1 = Read parse2"
proof -
  note eq = alike_reading [of parse1 parse2, OF assms]
  have o: "read_opening parse1 grow v ls st = read_opening parse2 grow v ls st" for grow v ls st
  proof (induction ls arbitrary: st)
    case (Cons l ls)
    obtain s cap first where "st = (s, cap, first)" by (metis prod_cases3)
    with Cons show ?case by (simp only: read_opening.simps eq)
  qed simp
  have m: "read_messages parse1 v small ls s = read_messages parse2 v small ls s" for v small ls s
    by (induction ls arbitrary: s) (auto simp: eq Let_def)
  have p: "detect_pieces parse1 n ls = detect_pieces parse2 n ls" for n ls
    by (induction ls arbitrary: n) (simp_all add: detect_def eq split: option.split)
  have d: "detectStream parse1 = detectStream parse2" "detect parse1 = detect parse2"
    by (simp_all add: fun_eq_iff detectStream_def detect_def eq p)
  have f: "find_format parse1 = find_format parse2"
    unfolding fun_eq_iff find_format_def d by blast
  show ?thesis unfolding fun_eq_iff Read_def read_session_def o m f by blast
qed


section \<open>Rollouts\<close>

lemma codex_id_length: "validCodexSessionID v \<Longrightarrow> length v = 36"
  by (simp add: validCodexSessionID_def)

lemma codex_id_plain: "validCodexSessionID v \<Longrightarrow> CHR ''/'' \<notin> set v"
proof
  assume v: "validCodexSessionID v" and "CHR ''/'' \<in> set v"
  then obtain i where i: "i < length v" "v ! i = CHR ''/''" by (auto simp: in_set_conv_nth)
  then have "(i, CHR ''/'') \<in> set (enumerate 0 v)" by (auto simp: in_set_enumerate_eq)
  with v have "if i \<in> {8, 13, 18, 23 :: nat} then CHR ''/'' = CHR ''-'' else hex_digit_char (CHR ''/'')"
    by (auto simp: validCodexSessionID_def list_all_iff)
  then show False by (auto simp: hex_digit_char_def byte_def split: if_splits)
qed

lemma has_suffix_same: "has_suffix s a \<Longrightarrow> has_suffix s b \<Longrightarrow> length a = length b \<Longrightarrow> a = b"
  by (simp add: has_suffix_def)

lemma located_entry:
  assumes "LocateCodexRollout fs home sid = p" and "p \<noteq> []"
  shows "validCodexSessionID sid \<and> has_prefix (base p) ''rollout-'' \<and> has_suffix (base p) (''-'' @ sid @ ''.jsonl'')"
  using assms by (auto simp: LocateCodexRollout_def Let_def rollout_entry_def find_Some_iff split: if_splits option.splits)

text \<open>A file is the rollout of one session only.\<close>

lemma rollout_of_one_session:
  assumes "LocateCodexRollout fs home sid = p" "LocateCodexRollout fs' home' sid' = p" "p \<noteq> []"
  shows "sid = sid'"
proof -
  have "has_suffix (base p) (''-'' @ sid @ ''.jsonl'')" "has_suffix (base p) (''-'' @ sid' @ ''.jsonl'')"
    "length sid = 36" "length sid' = 36"
    using located_entry [OF assms(1,3)] located_entry [OF assms(2,3)] codex_id_length by auto
  then have "''-'' @ sid @ ''.jsonl'' = ''-'' @ sid' @ ''.jsonl''" by (intro has_suffix_same) auto
  then show ?thesis by simp
qed

section \<open>A file\<close>

text \<open>Two lines: what a member wrote, and a tool's result, which \<open>result\<close> holds.\<close>

definition sample_parse :: "string \<Rightarrow> string \<Rightarrow> json option" where
  "sample_parse result l =
     (if l = ''a'' then Some (JMap [(''type'', JStr ''user''), (''sessionId'', JStr ''s''), (''message'',
        JMap [(''role'', JStr ''user''), (''content'', JStr ''Tidy the tests'')])])
      else if l = ''b'' then Some (JMap ([(''type'', JStr ''user''), (''sessionId'', JStr ''s'')] @
        [(''message'', JMap [(''content'', JStr result)]), (''toolUseResult'', JStr result)]))
      else None)"

definition sample_files :: record_files where
  "sample_files = \<lparr>rc_eval = Inr, rc_open = (\<lambda>_. Inr \<lparr>sf_stat = None, sf_regular = True, sf_size = 4, sf_seek = (\<lambda>_. None),
      sf_from = (\<lambda>_. ([CHR ''a'', LF, CHR ''b'', LF], None))\<rparr>), rc_walk = (\<lambda>_. [])\<rparr>"

lemma sample_text: "trim_space ''Tidy the tests'' = ''Tidy the tests''" "valid_utf8 ''Tidy the tests''"
  by code_simp+

lemma sample_record:
  "sample_parse result ''a'' = Some (JMap [(''type'', JStr ''user''), (''sessionId'', JStr ''s''), (''message'',
        JMap [(''role'', JStr ''user''), (''content'', JStr ''Tidy the tests'')])])"
  by (simp add: sample_parse_def)

lemma sample_line:
  "dec_claude_line (JMap [(''type'', JStr ''user''), (''sessionId'', JStr ''s''), (''message'',
        JMap [(''role'', JStr ''user''), (''content'', JStr ''Tidy the tests'')])]) =
     Inr \<lparr>dl_type = ''user'', dl_session_id = ''s'', dl_timestamp = [], dl_git_branch = [], dl_ai_title = [], dl_custom_text = [],
       dl_message = Some (JMap [(''role'', JStr ''user''), (''content'', JStr ''Tidy the tests'')]), dl_tool_use_result = None\<rparr>"
  by code_simp

lemma sample_messages:
  "format_messages (sample_parse result) Claude ''a'' = [\<lparr>tm_kind = ''user'', tm_text = ''Tidy the tests'', tm_tool = [], tm_at = []\<rparr>]"
  "format_messages (sample_parse result) Claude ''b'' = []"
proof -
  have m: "dec_claude_message (JMap [(''role'', JStr ''user''), (''content'', JStr ''Tidy the tests'')]) = Inr (''user'', Some (JStr ''Tidy the tests''))"
    by code_simp
  show "format_messages (sample_parse result) Claude ''a'' = [\<lparr>tm_kind = ''user'', tm_text = ''Tidy the tests'', tm_tool = [], tm_at = []\<rparr>]"
    by (simp add: format_messages_def sample_record claude_messages_def sample_line m content_messages_def single_def bounded_def
        sample_text contains_any_def NUL_def MaxMessageBytes_transcript_def)
  have t: "raw_field ''toolUseResult'' [(''type'', JStr ''user''), (''sessionId'', JStr ''s''), (''message'', JMap [(''content'', JStr result)]),
      (''toolUseResult'', JStr result)] = Some (JStr result)"
    by (simp add: raw_field_def)
  show "format_messages (sample_parse result) Claude ''b'' = []"
    by (auto simp: format_messages_def sample_parse_def claude_messages_def dec_claude_line_def struct_of_def t split: sum.split)
qed

lemma sample_read:
  "map_sum id (map tm_text \<circ> ss_messages) (Read (sample_parse result) (\<lambda>n. 2 * n) sample_files ''/r.jsonl'' 50) = Inr [''Tidy the tests'']"
proof -
  let ?data = "[CHR ''a'', LF, CHR ''b'', LF]"
  have "clean ''/r.jsonl'' = ''/r.jsonl''" "path_extension ''/r.jsonl'' = ''.jsonl''" by code_simp+
  then have v: "validatePath sample_files ''/r.jsonl'' = Inr ''/r.jsonl''"
    by (simp add: validatePath_def sample_files_def is_abs_def contains_any_def NUL_def)
  have e: "each_line ?data = [''a'', ''b'']"
    by (simp add: each_line_def text_lines_def drop_cr_def maxRecordBytes_def maxLineBytes_def LF_def CR_def)
  have "record_format (JMap [(''type'', JStr ''user''), (''sessionId'', JStr ''s''), (''message'',
        JMap [(''role'', JStr ''user''), (''content'', JStr ''Tidy the tests'')])]) = Some Claude"
    by code_simp
  then have d: "detect (sample_parse result) ?data = Some Claude" by (simp add: detect_def e sample_record)
  show ?thesis
    by (simp add: Read_def v) (simp add: sample_files_def read_session_def read_head_def headBytes_def find_format_def d e
        tail_data_def MaxTailBytes_def seek_to_def sample_messages titled_def last_messages_def MaxMessages_def Let_def format_meta_keeps)
qed

text \<open>The one file when the tool answered one thing, and when it answered another.\<close>

lemma transcript_is_bounded_witness:
  "\<exists>s. Read (sample_parse ''r'') (\<lambda>n. 2 * n) sample_files ''/r.jsonl'' 50 = Inr s \<and> map tm_text (ss_messages s) = [''Tidy the tests''] \<and> length (ss_title s) \<le> 291"
proof -
  from sample_read [of "''r''"] obtain s where s: "Read (sample_parse ''r'') (\<lambda>n. 2 * n) sample_files ''/r.jsonl'' 50 = Inr s"
    "map tm_text (ss_messages s) = [''Tidy the tests'']"
    by (cases "Read (sample_parse ''r'') (\<lambda>n. 2 * n) sample_files ''/r.jsonl'' 50") auto
  from transcript_is_bounded [OF s(1)] s show ?thesis by auto
qed


end
