(* ===== verification/Mcp_Server.thy ===== *)
theory Mcp_Server
  imports App_Registry App_Injection
begin

text \<open>
  The tools an agent calls over MCP (\<^verbatim>\<open>internal/mcp/server.go\<close>), and the data of the replies of the local
  service as the server decodes them.

  Parameters: the environment, the working directory and \<^verbatim>\<open>filepath.EvalSymlinks\<close> of this process, and the
  local service behind its socket, which answers a request and keeps a state of its own. What the schema
  of a tool admits is the business of the SDK; a list that is left out is \<^term>\<open>None\<close> where the request keeps the
  difference. The documents of a brief and of a collaboration snapshot are passed on as they are.
\<close>

section \<open>Inputs and outputs\<close>

record intentInput =
  in_workspace_id :: string
  in_idempotency_key :: string
  in_revision :: int
  in_title :: string
  in_outcome :: string
  in_approach :: string
  in_components :: "string list"
  in_contracts :: "string list"
  in_waiting_on :: "string list option"
  in_anticipated_paths :: "string list"
  in_plan_item_ids :: "string list"

record checkInput =
  ci_workspace_id :: string
  ci_trigger :: string
  ci_since_cursor :: string
  ci_token_budget :: int

record verificationInput =
  vi_state :: string
  vi_check_kind :: string
  vi_label :: string
  vi_summary :: string
  vi_affected_component :: string
  vi_observed_at :: string
  vi_manifest_revision :: int

record checkpointInput =
  ki_workspace_id :: string
  ki_checkpoint_id :: string
  ki_summary :: string
  ki_discoveries :: "string list"
  ki_verification :: "verificationInput list"
  ki_manifest_revision :: int
  ki_based_on_brief_id :: string

record acknowledgeInput =
  ai_workspace_id :: string
  ai_idempotency_key :: string
  ai_brief_id :: string
  ai_considered_item_ids :: "string list"

record finishInput =
  fi_workspace_id :: string
  fi_idempotency_key :: string
  fi_outcome :: string
  fi_summary :: string
  fi_verification :: "verificationInput list"
  fi_manifest_revision :: int
  fi_based_on_brief_id :: string

record eventInput =
  ei_workspace_id :: string
  ei_idempotency_key :: string
  ei_kind :: string
  ei_summary :: string

record collaborationReadInput =
  ri_workspace_id :: string
  ri_since_revision :: int

record toolOutput =
  to_project_id :: string
  to_workspace_id :: string
  to_workstream_id :: string
  to_duplicate :: bool
  to_intent_revision :: int
  to_brief :: "json option"
  to_degraded :: bool
  to_degradation :: string
  to_collaboration :: "json option"

section \<open>The process\<close>

record mcp_server =
  ms_cfg :: config
  ms_socket :: string
  ms_agent :: string
  ms_cwd :: string

record mcp_host =
  mh_claude_session :: string
  mh_getwd :: "string + string"
  mh_eval :: "string \<Rightarrow> string + string"

text \<open>The outer error is the transport's, the inner one the service's answer.\<close>

type_synonym 's daemon = "ipc_request \<Rightarrow> 's \<Rightarrow> (string + json response) \<times> 's"

text \<open>\<^verbatim>\<open>^wrk_agent_[0-9a-f]{32}$\<close>.\<close>

definition agent_handle :: "string \<Rightarrow> bool" where
  "agent_handle v \<longleftrightarrow> has_prefix v ''wrk_agent_'' \<and> length v = 42
     \<and> list_all (\<lambda>c. 48 \<le> byte c \<and> byte c \<le> 57 \<or> 97 \<le> byte c \<and> byte c \<le> 102) (drop 10 v)"

definition decode_resolution :: "json \<Rightarrow> string" where
  "decode_resolution data =
     (case (case object_members data of None \<Rightarrow> Inl ''cannot unmarshal into struct''
            | Some m \<Rightarrow> bindE (dec_string ''workstreamId'' m) (\<lambda>w. bindE (dec_bool ''identified'' m) (\<lambda>i. Inr (w, i)))) of
        Inr (w, i) \<Rightarrow> if i \<and> agent_handle w then w else []
      | Inl _ \<Rightarrow> [])"

definition sessionWorkstream :: "mcp_host \<Rightarrow> string \<Rightarrow> string \<Rightarrow> 's daemon \<Rightarrow> 's \<Rightarrow> string \<times> 's" where
  "sessionWorkstream h socket cwd dc s =
     (if mh_claude_session h \<noteq> [] then
        ((case WorkstreamIDFor ''claude'' (mh_claude_session h) of Some (w, _) \<Rightarrow> w | None \<Rightarrow> []), s)
      else if socket = [] \<or> cwd = [] then ([], s)
      else case dc (blank_request\<lparr>ir_method := ''resolve_agent_session'', ir_agent_vendor := ''codex'', ir_agent_cwd := cwd\<rparr>) s of
        (Inr (Inr data), s') \<Rightarrow> (decode_resolution data, s')
      | (_, s') \<Rightarrow> ([], s'))"

definition callingSessionWorkstream :: "mcp_host \<Rightarrow> 's daemon \<Rightarrow> mcp_server \<Rightarrow> 's \<Rightarrow> string \<times> mcp_server \<times> 's" where
  "callingSessionWorkstream h dc srv s =
     (if ms_agent srv \<noteq> [] then (ms_agent srv, srv, s)
      else let cwd = (if ms_cwd srv = [] then (case mh_getwd h of Inr d \<Rightarrow> d | Inl _ \<Rightarrow> []) else ms_cwd srv);
               (resolved, s') = sessionWorkstream h (ms_socket srv) cwd dc s
           in (resolved, if resolved \<noteq> [] then srv\<lparr>ms_agent := resolved\<rparr> else srv, s'))"

definition inside_workspace :: "mcp_host \<Rightarrow> string \<Rightarrow> config_workspace \<Rightarrow> bool" where
  "inside_workspace h cwd w = (case mh_eval h (cw_root w) of Inl _ \<Rightarrow> False | Inr root \<Rightarrow> under root cwd)"

definition resolveWorkspace :: "mcp_host \<Rightarrow> mcp_server \<Rightarrow> string \<Rightarrow> string + config_workspace" where
  "resolveWorkspace h srv requested =
     (if requested \<noteq> [] then
        (case find (\<lambda>w. cw_id w = requested) (cf_workspaces (ms_cfg srv)) of
           Some w \<Rightarrow> Inr w | None \<Rightarrow> Inl ''workspace_not_registered'')
      else bindE (map_sum (\<lambda>e. ''resolve cwd: '' @ e) id (mh_getwd h)) (\<lambda>wd.
           bindE (map_sum (\<lambda>e. ''canonicalize cwd: '' @ e) id (mh_eval h wd)) (\<lambda>cwd.
             case filter (inside_workspace h cwd) (cf_workspaces (ms_cfg srv)) of
               [] \<Rightarrow> Inl ''workspace_not_registered''
             | [w] \<Rightarrow> Inr w
             | _ \<Rightarrow> Inl ''workspace_registration_ambiguous'')))"

text \<open>
  \<^verbatim>\<open>json.Unmarshal\<close> of the data over the output: a member that is there replaces the field, one of another type
  leaves it.
\<close>

definition over_string :: "string \<Rightarrow> (string \<times> json) list \<Rightarrow> string \<Rightarrow> string" where
  "over_string k m old = (case member k m of Some (JStr s) \<Rightarrow> s | _ \<Rightarrow> old)"

definition over_output :: "json \<Rightarrow> toolOutput \<Rightarrow> toolOutput" where
  "over_output data out =
     (case object_members data of None \<Rightarrow> out
      | Some m \<Rightarrow>
          out\<lparr>to_project_id := over_string ''projectId'' m (to_project_id out),
              to_workspace_id := over_string ''workspaceId'' m (to_workspace_id out),
              to_workstream_id := over_string ''workstreamId'' m (to_workstream_id out),
              to_duplicate := (case member ''duplicate'' m of Some (JBool b) \<Rightarrow> b | _ \<Rightarrow> to_duplicate out),
              to_intent_revision := (case member ''intentRevision'' m of Some (JInt i) \<Rightarrow> i | _ \<Rightarrow> to_intent_revision out),
              to_brief := (case member ''brief'' m of Some b \<Rightarrow> Some b | None \<Rightarrow> to_brief out),
              to_degraded := (case member ''degraded'' m of Some (JBool b) \<Rightarrow> b | _ \<Rightarrow> to_degraded out),
              to_degradation := over_string ''degradation'' m (to_degradation out),
              to_collaboration := (case member ''collaboration'' m of Some c \<Rightarrow> Some c | None \<Rightarrow> to_collaboration out)\<rparr>)"

type_synonym 's tool = "mcp_server \<Rightarrow> 's \<Rightarrow> (string + toolOutput) \<times> mcp_server \<times> 's"

definition mcp_call :: "mcp_host \<Rightarrow> 's daemon \<Rightarrow> ipc_request \<Rightarrow> 's tool" where
  "mcp_call h dc q srv s =
     (case resolveWorkspace h srv (ir_workspace_id q) of
        Inl e \<Rightarrow> (Inl e, srv, s)
      | Inr w \<Rightarrow>
          let (agent, srv', s1) = callingSessionWorkstream h dc srv s in
          case dc (q\<lparr>ir_workspace_id := cw_id w, ir_agent_workstream_id := agent\<rparr>) s1 of
            (Inl e, s2) \<Rightarrow> (Inl (''local Overgent service unavailable: '' @ e), srv', s2)
          | (Inr (Inl e), s2) \<Rightarrow> (Inl e, srv', s2)
          | (Inr (Inr data), s2) \<Rightarrow>
              (Inr (over_output data
                 \<lparr>to_project_id = cw_project_id w, to_workspace_id = cw_id w,
                  to_workstream_id = (if agent \<noteq> [] then agent else cw_workstream_id w), to_duplicate = False,
                  to_intent_revision = 0, to_brief = None, to_degraded = False, to_degradation = [], to_collaboration = None\<rparr>),
               srv', s2))"

section \<open>The tools\<close>

definition validateWaitingOn :: "string list \<Rightarrow> string option" where
  "validateWaitingOn values =
     (if 8 < length values then Some ''waiting_on exceeds 8 claims''
      else if \<not> list_all (\<lambda>v. 1 \<le> length v \<and> length v \<le> 160 \<and> \<not> contains_any v [CR, LF, NUL]) values
      then Some ''waiting_on claim must be 1-160 safe characters'' else None)"

definition verification :: "verificationInput list \<Rightarrow> verification_summary list" where
  "verification = map (\<lambda>v. \<lparr>vs_state = vi_state v, vs_check_kind = vi_check_kind v, vs_label = vi_label v, vs_summary = vi_summary v,
     vs_affected_component = vi_affected_component v, vs_source = [], vs_observed_at = vi_observed_at v,
     vs_manifest_revision = vi_manifest_revision v\<rparr>)"

definition intent_request :: "string \<Rightarrow> intentInput \<Rightarrow> ipc_request" where
  "intent_request mth i = blank_request\<lparr>ir_method := mth, ir_workspace_id := in_workspace_id i,
     ir_idempotency_key := in_idempotency_key i, ir_revision := in_revision i, ir_title := in_title i,
     ir_intended_outcome := in_outcome i, ir_approach_summary := in_approach i, ir_components := in_components i,
     ir_contracts := in_contracts i, ir_waiting_on := in_waiting_on i, ir_anticipated_paths := in_anticipated_paths i,
     ir_plan_item_ids := in_plan_item_ids i\<rparr>"

definition intent :: "mcp_host \<Rightarrow> 's daemon \<Rightarrow> string \<Rightarrow> intentInput \<Rightarrow> 's tool" where
  "intent h dc mth i srv s =
     (case validateWaitingOn (case in_waiting_on i of None \<Rightarrow> [] | Some vs \<Rightarrow> vs) of
        Some e \<Rightarrow> (Inl e, srv, s)
      | None \<Rightarrow> mcp_call h dc (intent_request mth i) srv s)"

definition beginWork :: "mcp_host \<Rightarrow> 's daemon \<Rightarrow> intentInput \<Rightarrow> 's tool" where
  "beginWork h dc = intent h dc ''begin_work''"

definition updateIntent :: "mcp_host \<Rightarrow> 's daemon \<Rightarrow> intentInput \<Rightarrow> 's tool" where
  "updateIntent h dc = intent h dc ''update_intent''"

definition checkCoordination :: "mcp_host \<Rightarrow> 's daemon \<Rightarrow> checkInput \<Rightarrow> 's tool" where
  "checkCoordination h dc i = mcp_call h dc (blank_request\<lparr>ir_method := ''check_coordination'', ir_workspace_id := ci_workspace_id i,
     ir_trigger := ci_trigger i, ir_since_cursor := ci_since_cursor i, ir_token_budget := ci_token_budget i\<rparr>)"

definition reportCheckpoint :: "mcp_host \<Rightarrow> 's daemon \<Rightarrow> checkpointInput \<Rightarrow> 's tool" where
  "reportCheckpoint h dc i = mcp_call h dc (blank_request\<lparr>ir_method := ''report_checkpoint'', ir_workspace_id := ki_workspace_id i,
     ir_checkpoint_id := ki_checkpoint_id i, ir_summary := ki_summary i, ir_discoveries := ki_discoveries i,
     ir_manifest_revision := ki_manifest_revision i, ir_brief_id := ki_based_on_brief_id i,
     ir_verification := verification (ki_verification i)\<rparr>)"

definition acknowledgeContext :: "mcp_host \<Rightarrow> 's daemon \<Rightarrow> acknowledgeInput \<Rightarrow> 's tool" where
  "acknowledgeContext h dc i = mcp_call h dc (blank_request\<lparr>ir_method := ''acknowledge_context'', ir_workspace_id := ai_workspace_id i,
     ir_idempotency_key := ai_idempotency_key i, ir_brief_id := ai_brief_id i, ir_considered_item_ids := ai_considered_item_ids i\<rparr>)"

definition finishWork :: "mcp_host \<Rightarrow> 's daemon \<Rightarrow> finishInput \<Rightarrow> 's tool" where
  "finishWork h dc i = mcp_call h dc (blank_request\<lparr>ir_method := ''finish_work'', ir_workspace_id := fi_workspace_id i,
     ir_idempotency_key := fi_idempotency_key i, ir_outcome := fi_outcome i, ir_summary := fi_summary i,
     ir_manifest_revision := fi_manifest_revision i, ir_brief_id := fi_based_on_brief_id i,
     ir_verification := verification (fi_verification i)\<rparr>)"

definition reportEvent :: "mcp_host \<Rightarrow> 's daemon \<Rightarrow> eventInput \<Rightarrow> 's tool" where
  "reportEvent h dc i = mcp_call h dc (blank_request\<lparr>ir_method := ''report_event'', ir_workspace_id := ei_workspace_id i,
     ir_idempotency_key := ei_idempotency_key i, ir_kind := ei_kind i, ir_summary := ei_summary i\<rparr>)"

definition getResolutions :: "mcp_host \<Rightarrow> 's daemon \<Rightarrow> collaborationReadInput \<Rightarrow> 's tool" where
  "getResolutions h dc i = mcp_call h dc (blank_request\<lparr>ir_method := ''get_resolutions'', ir_workspace_id := ri_workspace_id i,
     ir_since_revision := ri_since_revision i\<rparr>)"

text \<open>The tools the server registers.\<close>

datatype tool_input =
    BeginWork intentInput
  | UpdateIntent intentInput
  | CheckCoordination checkInput
  | ReportCheckpoint checkpointInput
  | AcknowledgeContext acknowledgeInput
  | FinishWork finishInput
  | ReportEvent eventInput
  | GetResolutions collaborationReadInput

definition newSDK :: "mcp_host \<Rightarrow> 's daemon \<Rightarrow> tool_input \<Rightarrow> 's tool" where
  "newSDK h dc t =
     (case t of BeginWork i \<Rightarrow> beginWork h dc i | UpdateIntent i \<Rightarrow> updateIntent h dc i | CheckCoordination i \<Rightarrow> checkCoordination h dc i
      | ReportCheckpoint i \<Rightarrow> reportCheckpoint h dc i | AcknowledgeContext i \<Rightarrow> acknowledgeContext h dc i
      | FinishWork i \<Rightarrow> finishWork h dc i | ReportEvent i \<Rightarrow> reportEvent h dc i | GetResolutions i \<Rightarrow> getResolutions h dc i)"

section \<open>The data of the service's replies\<close>

definition lifecycle_json :: "(coordination_brief \<Rightarrow> json) \<Rightarrow> lifecycle_result \<Rightarrow> json" where
  "lifecycle_json enc r = JStruct
     (optional ''workstreamId'' (lr_workstream_id r) @ [(''duplicate'', JBool (lr_duplicate r))] @
      (if lr_intent_revision r = 0 then [] else [(''intentRevision'', JInt (lr_intent_revision r))]) @
      (case lr_brief r of None \<Rightarrow> [] | Some b \<Rightarrow> [(''brief'', enc b)]) @
      [(''degraded'', JBool (lr_degraded r))] @ optional ''degradation'' (lr_degradation r))"

definition resolution_json :: "session_resolution \<Rightarrow> json" where
  "resolution_json r = JStruct
     (optional ''workstreamId'' (sr_workstream_id r) @ [(''identified'', JBool (sr_identified r)), (''ambiguous'', JBool (sr_ambiguous r))])"

record encoders =
  en_brief :: "coordination_brief \<Rightarrow> json"
  en_snapshot :: "collaboration_snapshot \<Rightarrow> json"
  en_other :: "reply \<Rightarrow> json"

definition reply_json :: "encoders \<Rightarrow> reply \<Rightarrow> json" where
  "reply_json en r =
     (case r of RLifecycle l \<Rightarrow> lifecycle_json (en_brief en) l
      | RResolution x \<Rightarrow> resolution_json x
      | RCollaboration c \<Rightarrow> JMap [(''collaboration'', en_snapshot en c)]
      | _ \<Rightarrow> en_other en r)"

text \<open>The local service as the server sees it: its state is the service with the tick of its clock.\<close>

definition service_daemon :: "host \<Rightarrow> registry \<Rightarrow> local_backend option \<Rightarrow> int \<Rightarrow> bool \<Rightarrow> encoders \<Rightarrow> (nat \<times> service) daemon" where
  "service_daemon h rg lb pid expired en q st =
     (let (r, n, s) = handle h rg lb pid expired q (fst st) (snd st) in (Inr (map_sum id (reply_json en) r), n, s))"

end
