(* ===== verification/Mcp_Safety.thy ===== *)
theory Mcp_Safety
  imports Mcp_Server
begin

text \<open>
  The tools over the local service of the model: which request a tool makes of it, for which workspace and on whose
  behalf, and which workstream the tool reports.
\<close>

section \<open>The request of a tool\<close>

definition tool_request :: "tool_input \<Rightarrow> ipc_request" where
  "tool_request t =
     (case t of BeginWork i \<Rightarrow> intent_request ''begin_work'' i | UpdateIntent i \<Rightarrow> intent_request ''update_intent'' i
      | CheckCoordination i \<Rightarrow> blank_request\<lparr>ir_method := ''check_coordination'', ir_workspace_id := ci_workspace_id i,
          ir_trigger := ci_trigger i, ir_since_cursor := ci_since_cursor i, ir_token_budget := ci_token_budget i\<rparr>
      | ReportCheckpoint i \<Rightarrow> blank_request\<lparr>ir_method := ''report_checkpoint'', ir_workspace_id := ki_workspace_id i,
          ir_checkpoint_id := ki_checkpoint_id i, ir_summary := ki_summary i, ir_discoveries := ki_discoveries i,
          ir_manifest_revision := ki_manifest_revision i, ir_brief_id := ki_based_on_brief_id i,
          ir_verification := verification (ki_verification i)\<rparr>
      | AcknowledgeContext i \<Rightarrow> blank_request\<lparr>ir_method := ''acknowledge_context'', ir_workspace_id := ai_workspace_id i,
          ir_idempotency_key := ai_idempotency_key i, ir_brief_id := ai_brief_id i, ir_considered_item_ids := ai_considered_item_ids i\<rparr>
      | FinishWork i \<Rightarrow> blank_request\<lparr>ir_method := ''finish_work'', ir_workspace_id := fi_workspace_id i,
          ir_idempotency_key := fi_idempotency_key i, ir_outcome := fi_outcome i, ir_summary := fi_summary i,
          ir_manifest_revision := fi_manifest_revision i, ir_brief_id := fi_based_on_brief_id i,
          ir_verification := verification (fi_verification i)\<rparr>
      | ReportEvent i \<Rightarrow> blank_request\<lparr>ir_method := ''report_event'', ir_workspace_id := ei_workspace_id i,
          ir_idempotency_key := ei_idempotency_key i, ir_kind := ei_kind i, ir_summary := ei_summary i\<rparr>
      | GetResolutions i \<Rightarrow> blank_request\<lparr>ir_method := ''get_resolutions'', ir_workspace_id := ri_workspace_id i,
          ir_since_revision := ri_since_revision i\<rparr>)"

lemma newSDK_call:
  "newSDK h dc t srv s = (r, srv', s') \<Longrightarrow>
     (\<exists>e. r = Inl e \<and> srv' = srv \<and> s' = s) \<or> mcp_call h dc (tool_request t) srv s = (r, srv', s')"
  by (cases t)
    (auto simp: newSDK_def tool_request_def beginWork_def updateIntent_def intent_def checkCoordination_def reportCheckpoint_def
      acknowledgeContext_def finishWork_def reportEvent_def getResolutions_def split: option.splits)

section \<open>The workspace\<close>

text \<open>The workspace a call is for: the one it names, or the only one whose root contains the working directory.\<close>

definition chosen :: "mcp_host \<Rightarrow> mcp_server \<Rightarrow> string \<Rightarrow> config_workspace \<Rightarrow> bool" where
  "chosen h srv requested w \<longleftrightarrow> w \<in> set (cf_workspaces (ms_cfg srv)) \<and>
     (if requested \<noteq> [] then cw_id w = requested
      else \<exists>wd cwd. mh_getwd h = Inr wd \<and> mh_eval h wd = Inr cwd \<and> inside_workspace h cwd w
        \<and> (\<forall>v \<in> set (cf_workspaces (ms_cfg srv)). inside_workspace h cwd v \<longrightarrow> v = w))"

lemma resolved_chosen:
  assumes "resolveWorkspace h srv requested = Inr w"
  shows "chosen h srv requested w"
proof (cases "requested = []")
  case False
  with assms show ?thesis by (auto simp: resolveWorkspace_def chosen_def find_Some_iff split: option.splits)
next
  case True
  with assms obtain wd cwd where "mh_getwd h = Inr wd" "mh_eval h wd = Inr cwd"
    "filter (inside_workspace h cwd) (cf_workspaces (ms_cfg srv)) = [w]"
    by (cases "mh_getwd h"; cases "mh_eval h (projr (mh_getwd h))") (auto simp: resolveWorkspace_def split: list.splits)
  moreover from this(3) have "{v \<in> set (cf_workspaces (ms_cfg srv)). inside_workspace h cwd v} = {w}"
    by (metis list.set(1,2) set_filter)
  then have "w \<in> set (cf_workspaces (ms_cfg srv)) \<and> inside_workspace h cwd w
      \<and> (\<forall>v \<in> set (cf_workspaces (ms_cfg srv)). inside_workspace h cwd v \<longrightarrow> v = w)"
    by blast
  ultimately show ?thesis using True by (auto simp: chosen_def)
qed

section \<open>The caller\<close>

lemma service_resolution:
  "ir_method q = ''resolve_agent_session'' \<Longrightarrow>
     \<exists>x. service_daemon sh rg lb pid expired en q (n, s) = (Inr (Inr (resolution_json x)), n + 3, s)"
  by (auto simp: service_daemon_def handle_def reply_json_def)

lemma caller_result:
  assumes "callingSessionWorkstream h (service_daemon sh rg lb pid expired en) srv (n, s) = (agent, srv', st)"
  shows "snd st = s \<and> ms_cfg srv' = ms_cfg srv \<and> (agent = [] \<or> agent = ms_agent srv \<or> agent_handle agent
    \<or> (\<exists>a. WorkstreamIDFor ''claude'' (mh_claude_session h) = Some (agent, a)))"
proof (cases "ms_agent srv = [] \<and> mh_claude_session h = [] \<and> ms_socket srv \<noteq> []")
  case False
  with assms show ?thesis
    by (auto simp: callingSessionWorkstream_def sessionWorkstream_def Let_def split: if_splits option.splits prod.splits)
next
  case True
  let ?q = "\<lambda>cwd. blank_request\<lparr>ir_method := ''resolve_agent_session'', ir_agent_vendor := ''codex'', ir_agent_cwd := cwd\<rparr>"
  have d: "agent_handle (decode_resolution x) \<or> decode_resolution x = []" for x
    by (auto simp: decode_resolution_def split: option.splits sum.splits)
  have "\<exists>x. service_daemon sh rg lb pid expired en (?q cwd) (n, s) = (Inr (Inr x), n + 3, s)" for cwd
    using service_resolution [of "?q cwd" sh rg lb pid expired en n s] by (simp, blast)
  then obtain f where f: "service_daemon sh rg lb pid expired en (?q cwd) (n, s) = (Inr (Inr (f cwd)), n + 3, s)" for cwd
    by metis
  from assms True d show ?thesis
    by (auto simp: callingSessionWorkstream_def sessionWorkstream_def Let_def f split: if_splits sum.splits)
qed

section \<open>What the service does\<close>

lemma service_call:
  assumes "mcp_call h (service_daemon sh rg lb pid expired en) q srv (n, s) = (r, srv', n', s')"
  shows "(\<exists>e. r = Inl e \<and> s' = s)
    \<or> (\<exists>w agent n0 a. chosen h srv (ir_workspace_id q) w
        \<and> (agent = [] \<or> agent = ms_agent srv \<or> agent_handle agent \<or> (\<exists>a. WorkstreamIDFor ''claude'' (mh_claude_session h) = Some (agent, a)))
        \<and> handle sh rg lb pid expired (q\<lparr>ir_workspace_id := cw_id w, ir_agent_workstream_id := agent\<rparr>) n0 s = (a, n', s')
        \<and> r = map_sum id (\<lambda>x. over_output (reply_json en x)
             \<lparr>to_project_id = cw_project_id w, to_workspace_id = cw_id w,
              to_workstream_id = (if agent \<noteq> [] then agent else cw_workstream_id w), to_duplicate = False,
              to_intent_revision = 0, to_brief = None, to_degraded = False, to_degradation = [], to_collaboration = None\<rparr>) a)"
proof (cases "resolveWorkspace h srv (ir_workspace_id q)")
  case (Inl e)
  with assms show ?thesis by (intro disjI1) (auto simp: mcp_call_def)
next
  case (Inr w)
  obtain agent srv1 n0 s1 where c: "callingSessionWorkstream h (service_daemon sh rg lb pid expired en) srv (n, s) = (agent, srv1, n0, s1)"
    by (metis prod_cases4)
  note caller = caller_result [OF c]
  then have s1: "s1 = s" by simp
  obtain a n2 s2 where a: "handle sh rg lb pid expired (q\<lparr>ir_workspace_id := cw_id w, ir_agent_workstream_id := agent\<rparr>) n0 s = (a, n2, s2)"
    by (metis prod_cases3)
  show ?thesis
    using assms resolved_chosen [OF Inr] caller
    by (intro disjI2 exI [of _ w] exI [of _ agent] exI [of _ n0] exI [of _ a])
      (cases a; simp add: mcp_call_def Inr c s1 service_daemon_def a; auto)
qed


section \<open>Which workstream a tool reports\<close>

lemma fetch_brief_workstream: "lr_workstream_id (fst (fetch_brief h w ws trigger q r s)) = lr_workstream_id r"
  by (simp add: fetch_brief_def Let_def split: option.split prod.split sum.split)

lemma lifecycle_reply:
  assumes "handleLifecycle h q n s = (Inr x, n', s')"
  obtains w where "workspaceByID (sv_config s) (ir_workspace_id q) = Some w" "cw_workstream_id w \<noteq> []"
    "lr_workstream_id x = lifecycle_workstream w q"
proof -
  from assms obtain w where w: "workspaceByID (sv_config s) (ir_workspace_id q) = Some w" "cw_workstream_id w \<noteq> []"
    by (auto simp: handleLifecycle_def split: option.splits if_splits)
  have b: "fetch_brief h w ws trigger q r s1 = (y, s2) \<Longrightarrow> lr_workstream_id y = lr_workstream_id r" for ws trigger r s1 y s2
    using fetch_brief_workstream by (metis fst_conv)
  from w assms have "lr_workstream_id x = lifecycle_workstream w q"
    by (auto simp: handleLifecycle_def Let_def dest!: b split: sum.splits prod.splits)
  with w show ?thesis by (rule that)
qed

lemma workstream_nonempty: "cw_workstream_id w \<noteq> [] \<Longrightarrow> lifecycle_workstream w q \<noteq> []"
  by (simp add: lifecycle_workstream_def PublishedWorkstreamID_def)

lemma output_names:
  "to_lower ''workstreamId'' = ''workstreamid''" "to_lower ''duplicate'' = ''duplicate''" "to_lower ''intentRevision'' = ''intentrevision''"
  "to_lower ''brief'' = ''brief''" "to_lower ''degraded'' = ''degraded''" "to_lower ''degradation'' = ''degradation''"
  "to_lower ''collaboration'' = ''collaboration''"
  by code_simp+

lemma lifecycle_json_workstream: "lr_workstream_id x \<noteq> [] \<Longrightarrow> to_workstream_id (over_output (lifecycle_json enc x) out) = lr_workstream_id x"
  by (auto simp: lifecycle_json_def over_output_def over_string_def member_def optional_def find_append output_names split: option.split)

lemma lifecycle_json_workspace:
  "to_workspace_id (over_output (lifecycle_json enc x) out) = to_workspace_id out"
  "to_workspace_id (over_output (JMap [(''collaboration'', c)]) out) = to_workspace_id out"
  "to_workstream_id (over_output (JMap [(''collaboration'', c)]) out) = to_workstream_id out"
proof -
  have "to_lower ''workspaceId'' = ''workspaceid''" by code_simp
  then show "to_workspace_id (over_output (lifecycle_json enc x) out) = to_workspace_id out"
    "to_workspace_id (over_output (JMap [(''collaboration'', c)]) out) = to_workspace_id out"
    "to_workstream_id (over_output (JMap [(''collaboration'', c)]) out) = to_workstream_id out"
    by (auto simp: lifecycle_json_def over_output_def over_string_def member_def optional_def find_append output_names split: option.split)
qed

definition resolutions_tool :: "tool_input \<Rightarrow> bool" where
  "resolutions_tool t \<longleftrightarrow> (case t of GetResolutions _ \<Rightarrow> True | _ \<Rightarrow> False)"

lemma tool_method:
  "resolutions_tool t \<Longrightarrow> ir_method (tool_request t) = ''get_resolutions''"
  "\<not> resolutions_tool t \<Longrightarrow> ir_method (tool_request t) \<in> set [''begin_work'', ''update_intent'', ''check_coordination'',
     ''report_checkpoint'', ''acknowledge_context'', ''finish_work'', ''report_event'']"
  by (cases t; simp add: resolutions_tool_def tool_request_def intent_request_def)+

lemma lifecycle_dispatch:
  "ir_method q \<in> set [''begin_work'', ''update_intent'', ''check_coordination'', ''report_checkpoint'', ''acknowledge_context'',
     ''finish_work'', ''report_event''] \<Longrightarrow>
   handle sh rg lb pid expired q n s = (case handleLifecycle sh q n s of (r, st) \<Rightarrow> (answer RLifecycle r, st))"
  by (auto simp: handle_def split: prod.split)

lemma resolutions_dispatch:
  "ir_method q = ''get_resolutions'' \<Longrightarrow>
   handle sh rg lb pid expired q n s = (case handleCollaboration sh q s of (r, s') \<Rightarrow> (answer RCollaboration r, n, s'))"
  by (auto simp: handle_def)


end
