(* ===== verification/Mcp_Witness.thy ===== *)
theory Mcp_Witness
  imports Mcp_Safety App_Machine
begin

text \<open>The properties of the tools at a concrete call: \<^verbatim>\<open>check_coordination\<close> in a registered directory, no backend.\<close>

definition sample_process :: mcp_host where
  "sample_process = \<lparr>mh_claude_session = [], mh_getwd = Inr ''/repo/x'', mh_eval = Inr\<rparr>"

definition sample_bridge :: mcp_server where
  "sample_bridge = \<lparr>ms_cfg = sample_config, ms_socket = [], ms_agent = [], ms_cwd = []\<rparr>"

definition sample_encoders :: encoders where
  "sample_encoders = \<lparr>en_brief = (\<lambda>_. JNull), en_snapshot = (\<lambda>_. JNull), en_other = (\<lambda>_. JNull)\<rparr>"

definition lonely_service :: service where
  "lonely_service = sample_service\<lparr>sv_config := sample_config\<lparr>cf_backends := [], cf_projects := []\<rparr>\<rparr>"

definition sample_check :: tool_input where
  "sample_check = CheckCoordination \<lparr>ci_workspace_id = [], ci_trigger = [], ci_since_cursor = [], ci_token_budget = 0\<rparr>"

lemma sample_answer:
  assumes "ir_method q = ''check_coordination''" "ir_workspace_id q = ''wsp_a''" "ir_agent_workstream_id q = []" "ir_trigger q = []"
    "ir_token_budget q = 0" "ir_since_cursor q = []"
  shows "handle sample_host sample_registry None 0 False q 0 lonely_service =
    (Inr (RLifecycle \<lparr>lr_workstream_id = ''wrk_a'', lr_duplicate = False, lr_intent_revision = 0, lr_brief = None,
       lr_degraded = True, lr_degradation = ''hosted_coordination_unavailable''\<rparr>), 1, lonely_service)"
proof -
  let ?w = "hd (cf_workspaces sample_config)"
  have w: "workspaceByID (sv_config lonely_service) ''wsp_a'' = Some ?w" "cw_workstream_id ?w = ''wrk_a''"
    by (simp_all add: workspaceByID_def lonely_service_def sample_config_def)
  have b: "senderForWorkspace x ?w lonely_service = (None, lonely_service)" for x
    by (simp add: senderForWorkspace_def BackendForWorkspace_def BackendForProject_def lonely_service_def sample_config_def)
  have p: "plan_lifecycle ''wrk_a'' q = Inr \<lparr>pl_trigger = ''before_broad_edit'', pl_read_paths = [], pl_publication = None\<rparr>"
    using assms by (simp add: plan_lifecycle_def Let_def validBriefTrigger_def)
  have u: "lonely_service\<lparr>sv_db := sv_db lonely_service\<rparr> = lonely_service" by simp
  show ?thesis
    using assms by (simp add: lifecycle_dispatch handleLifecycle_def w lifecycle_workstream_def p fetch_brief_def b u answer_def)
qed

lemma sample_tool:
  "\<exists>out. newSDK sample_process (service_daemon sample_host sample_registry None 0 False sample_encoders) sample_check sample_bridge (0, lonely_service)
     = (Inr out, sample_bridge, 1, lonely_service) \<and> to_workstream_id out = ''wrk_a''"
proof -
  have r: "resolveWorkspace sample_process sample_bridge [] = Inr (hd (cf_workspaces sample_config))"
    by (simp add: resolveWorkspace_def sample_process_def sample_bridge_def sample_config_def inside_workspace_def under_def has_prefix_def)
  have c: "callingSessionWorkstream sample_process dc sample_bridge st = ([], sample_bridge, st)" for dc and st :: "nat \<times> service"
    by (simp add: callingSessionWorkstream_def sessionWorkstream_def sample_process_def sample_bridge_def)
  have "cw_id (hd (cf_workspaces sample_config)) = ''wsp_a''" by (simp add: sample_config_def)
  then show ?thesis
    by (simp add: newSDK_def sample_check_def checkCoordination_def mcp_call_def blank_request_def r c
        service_daemon_def sample_answer reply_json_def lifecycle_json_workstream)
qed



end
