(* ===== verification/Cursor_Setup.thy ===== *)
theory Cursor_Setup
  imports Hook_Config Agent_Activity
begin

text \<open>
  The managed hooks of a Cursor project (\<^verbatim>\<open>internal/cursorsetup/setup.go\<close>) over parsed JSON documents.

  A map is an association list without duplicate keys, its iteration order the order of the list; nil and empty
  maps and slices behave alike here and are not told apart. Parameters: whether the project directory resolves,
  \<^verbatim>\<open>filepath.Abs\<close>, the length of an encoded document, the results of the file operations, and what a failed
  restore leaves behind.
\<close>

section \<open>Handlers\<close>

definition hookTimeoutSeconds :: int where "hookTimeoutSeconds = 5"
definition injectionTimeoutSeconds :: int where "injectionTimeoutSeconds = 2"
definition maxConfigBytes :: int where "maxConfigBytes = 1048576"
definition schemaVersion :: int where "schemaVersion = 1"

record cursor_handler =
  ch_command :: string
  ch_type :: string
  ch_timeout :: int
  ch_matcher :: string
  ch_fail_closed :: bool

definition zero_cursor_handler :: cursor_handler where
  "zero_cursor_handler = \<lparr>ch_command = [], ch_type = [], ch_timeout = 0, ch_matcher = [], ch_fail_closed = False\<rparr>"

definition decode_cursor_field :: "string \<times> raw \<Rightarrow> cursor_handler \<Rightarrow> string + cursor_handler" where
  "decode_cursor_field kv h =
     (let (k, v) = kv in
      if equal_fold k ''command'' then bindE (decode_string v (ch_command h)) (\<lambda>s. Inr (h\<lparr>ch_command := s\<rparr>))
      else if equal_fold k ''type'' then bindE (decode_string v (ch_type h)) (\<lambda>s. Inr (h\<lparr>ch_type := s\<rparr>))
      else if equal_fold k ''timeout'' then bindE (decode_int v (ch_timeout h)) (\<lambda>n. Inr (h\<lparr>ch_timeout := n\<rparr>))
      else if equal_fold k ''matcher'' then bindE (decode_string v (ch_matcher h)) (\<lambda>s. Inr (h\<lparr>ch_matcher := s\<rparr>))
      else if equal_fold k ''failClosed'' then bindE (decode_bool v (ch_fail_closed h)) (\<lambda>b. Inr (h\<lparr>ch_fail_closed := b\<rparr>))
      else Inr h)"

definition decode_cursor_handler :: "raw \<Rightarrow> string + cursor_handler" where
  "decode_cursor_handler v =
     (case v of RNull \<Rightarrow> Inr zero_cursor_handler | RObj ms \<Rightarrow> foldE decode_cursor_field ms zero_cursor_handler
      | _ \<Rightarrow> Inl decode_error)"

definition decode_cursor_handlers :: "raw \<Rightarrow> string + cursor_handler list" where
  "decode_cursor_handlers v =
     (case v of RNull \<Rightarrow> Inr [] | RArr xs \<Rightarrow> mapE decode_cursor_handler xs | _ \<Rightarrow> Inl decode_error)"

definition encode_cursor_handler :: "cursor_handler \<Rightarrow> raw" where
  "encode_cursor_handler h = RObj
     ([(''command'', RStr (ch_command h)), (''type'', RStr (ch_type h)), (''timeout'', RNum (int_dec (ch_timeout h)))]
      @ (if ch_matcher h \<noteq> [] then [(''matcher'', RStr (ch_matcher h))] else [])
      @ [(''failClosed'', RBool (ch_fail_closed h))])"

section \<open>Documents\<close>

text \<open>\<open>cd_raw\<close> holds the events as they were read, \<open>cd_modeled\<close> names those that decoded.\<close>

record cursor_document =
  cd_version :: int
  cd_hooks :: "(string \<times> cursor_handler list) list"
  cd_rest :: members
  cd_raw :: members
  cd_modeled :: "string list"

definition empty_document :: cursor_document where
  "empty_document = \<lparr>cd_version = 0, cd_hooks = [], cd_rest = [], cd_raw = [], cd_modeled = []\<rparr>"

datatype cursor_file = NoFile | FailedRead string | Blank int | NotJSON int | Document int raw

definition entries :: "gomap \<Rightarrow> members" where
  "entries m = (case m of None \<Rightarrow> [] | Some fs \<Rightarrow> fs)"

definition model_event :: "string \<times> raw \<Rightarrow> (string \<times> cursor_handler list) option" where
  "model_event kv = (case decode_cursor_handlers (snd kv) of Inl _ \<Rightarrow> None | Inr hs \<Rightarrow> Some (fst kv, hs))"

definition parse_document :: "raw \<Rightarrow> string + cursor_document" where
  "parse_document v =
     bindE (map_sum (\<lambda>_. ''parse Cursor hooks configuration'') entries (unmarshal_map v)) (\<lambda>rest.
     bindE (case map_of rest ''version'' of None \<Rightarrow> Inr 0
            | Some x \<Rightarrow> map_sum (\<lambda>_. ''Cursor hooks.json version is not a number; refusing to edit it'') id (decode_int x 0)) (\<lambda>version.
     bindE (case map_of rest ''hooks'' of None \<Rightarrow> Inr []
            | Some x \<Rightarrow> map_sum (\<lambda>_. ''Cursor hooks.json hooks must be a JSON object; refusing to edit it'') entries (unmarshal_map x)) (\<lambda>raws.
       let hooks = List.map_filter model_event raws in
       Inr \<lparr>cd_version = version, cd_hooks = hooks, cd_rest = AList.delete ''hooks'' (AList.delete ''version'' rest),
            cd_raw = raws, cd_modeled = map fst hooks\<rparr>)))"

definition read_cursor :: "cursor_file \<Rightarrow> string + cursor_document" where
  "read_cursor f =
     (let limited = (\<lambda>n r. if maxConfigBytes < n then Inl ''Cursor hooks configuration exceeds 1 MiB'' else r) in
      case f of NoFile \<Rightarrow> Inr empty_document
      | FailedRead e \<Rightarrow> Inl (''read Cursor hooks configuration: '' @ e)
      | Blank n \<Rightarrow> limited n (Inr empty_document)
      | NotJSON n \<Rightarrow> limited n (Inl ''parse Cursor hooks configuration'')
      | Document n v \<Rightarrow> limited n (parse_document v))"

text \<open>Events that did not decode keep their bytes, unless an event of their name was installed.\<close>

definition written_hooks :: "cursor_document \<Rightarrow> members" where
  "written_hooks d =
     fold (\<lambda>(e, hs). AList.update e (RArr (map encode_cursor_handler hs))) (cd_hooks d)
       (filter (\<lambda>kv. fst kv \<notin> set (cd_modeled d)) (cd_raw d))"

definition encode_document :: "cursor_document \<Rightarrow> raw" where
  "encode_document d =
     encode_map (Some (AList.update ''hooks'' (encode_map (Some (written_hooks d)))
       (AList.update ''version'' (RNum (int_dec (cd_version d))) (cd_rest d))))"

definition write_cursor :: "write_steps \<Rightarrow> cursor_document \<Rightarrow> string + cursor_file" where
  "write_cursor w d =
     (case ws_mkdir w of Some e \<Rightarrow> Inl (''create Cursor configuration directory: '' @ e)
      | None \<Rightarrow> (case ws_temporary w of Some e \<Rightarrow> Inl (''create temporary Cursor hooks configuration: '' @ e)
        | None \<Rightarrow> (case ws_fill w of Some e \<Rightarrow> Inl (''write temporary Cursor hooks configuration: '' @ e)
          | None \<Rightarrow> (case ws_replace w of Some e \<Rightarrow> Inl (''activate Cursor hooks configuration: '' @ e)
            | None \<Rightarrow> Inr (Document (ws_length w (encode_document d)) (encode_document d))))))"

section \<open>Ownership\<close>

definition CursorEvents :: "string list" where
  "CursorEvents = [''sessionStart'', ''beforeSubmitPrompt'', ''beforeReadFile'', ''afterFileEdit'', ''stop'', ''sessionEnd'']"

definition expected_cursor :: "string \<Rightarrow> string \<Rightarrow> cursor_handler" where
  "expected_cursor event cmd =
     \<lparr>ch_command = cmd @ '' --event '' @ event, ch_type = ''command'',
      ch_timeout = (if event = ''sessionStart'' \<or> event = ''beforeSubmitPrompt'' then injectionTimeoutSeconds else hookTimeoutSeconds),
      ch_matcher = (if event = ''beforeReadFile'' \<or> event = ''afterFileEdit'' then ''*'' else []), ch_fail_closed = False\<rparr>"

definition managed_cursor :: "string \<Rightarrow> bool" where
  "managed_cursor command \<longleftrightarrow> str_contains command '' agent-hook --vendor cursor --event ''"

definition managedOwner :: "string \<Rightarrow> string \<Rightarrow> (string \<times> string) option" where
  "managedOwner command event =
     (let suffix = '' agent-hook --vendor cursor --event '' @ event in
      if \<not> has_suffix command suffix \<or> contains_any command [CR, LF, NUL] then None
      else case ParseManagedPrefix (trim_suffix command suffix) of
        None \<Rightarrow> None
      | Some (binary, root) \<Rightarrow>
          if root = [] \<and> binary = ''overgent'' then Some (''portable'', ''overgent'')
          else if root = [] \<or> binary = [] then None else Some (root, binary))"

definition managedProfile :: "string \<Rightarrow> string \<Rightarrow> string option" where
  "managedProfile command event = map_option fst (managedOwner command event)"

record cursor_inspection =
  cn_state :: BindingState
  cn_profile :: string
  cn_executable :: string

text \<open>Profiles, executables and events seen.\<close>

type_synonym cursor_seen = "string list \<times> string list \<times> string list"

definition inspect_cursor_handler :: "string \<Rightarrow> string \<Rightarrow> cursor_handler \<Rightarrow> cursor_seen \<Rightarrow> string + cursor_seen" where
  "inspect_cursor_handler cmd event h seen =
     (let (profiles, executables, present) = seen in
      if \<not> managed_cursor (ch_command h) then Inr seen
      else if \<not> SupportedCursorEvent event
      then Inl ''managed Overgent Cursor hook is configured for an unknown event; refusing to overwrite it''
      else case managedOwner (ch_command h) event of
        None \<Rightarrow> Inl ''managed Overgent Cursor hook drifted; refusing to overwrite it''
      | Some (profile, executable) \<Rightarrow>
          let ps = List.insert profile profiles; xs = List.insert executable executables in
          if h = expected_cursor event cmd then Inr (ps, xs, List.insert event present)
          else if ch_command h \<noteq> ch_command (expected_cursor event cmd) then Inr (ps, xs, present)
          else Inl ''managed Overgent Cursor hook drifted; refusing to overwrite it'')"

definition inspect_cursor_hooks :: "string \<Rightarrow> (string \<times> cursor_handler list) list \<Rightarrow> string + cursor_seen" where
  "inspect_cursor_hooks cmd hooks =
     foldE (\<lambda>(event, hs). foldE (inspect_cursor_handler cmd event) hs) hooks ([], [], [])"

definition inspect_cursor :: "cursor_document \<Rightarrow> string \<Rightarrow> string + cursor_inspection" where
  "inspect_cursor d cmd =
     (if cd_version d \<noteq> 0 \<and> cd_version d \<noteq> schemaVersion
      then Inl ''Cursor hooks.json declares an unsupported schema version; refusing to edit it''
      else bindE (inspect_cursor_hooks cmd (cd_hooks d)) (\<lambda>(profiles, executables, present).
        if profiles = [] then Inr \<lparr>cn_state = BindingNotConfigured, cn_profile = [], cn_executable = []\<rparr>
        else if 1 < length profiles then Inl ''conflicting managed Overgent Cursor hooks''
        else let profile = hd profiles;
                 executable = (if length executables = 1 then hd executables else []);
                 want = (case managedProfile (ch_command (expected_cursor ''sessionStart'' cmd)) ''sessionStart'' of Some p \<Rightarrow> p | None \<Rightarrow> []);
                 found = (\<lambda>st. Inr \<lparr>cn_state = st, cn_profile = profile, cn_executable = executable\<rparr>)
             in if profile \<noteq> want then found BindingOtherProfile
                else if length present \<noteq> length CursorEvents then found BindingPartial else found BindingCurrent))"

section \<open>Editing\<close>

definition keep_unmanaged :: "cursor_handler list \<Rightarrow> cursor_handler list" where
  "keep_unmanaged = filter (\<lambda>h. \<not> managed_cursor (ch_command h))"

definition removeManaged :: "cursor_document \<Rightarrow> bool \<times> cursor_document" where
  "removeManaged d =
     (\<exists>eh \<in> set (cd_hooks d). \<exists>h \<in> set (snd eh). managed_cursor (ch_command h),
      d\<lparr>cd_hooks := filter (\<lambda>eh. snd eh \<noteq> []) (map (\<lambda>(e, hs). (e, keep_unmanaged hs)) (cd_hooks d))\<rparr>)"

definition add_handler :: "string \<Rightarrow> string \<Rightarrow> (string \<times> cursor_handler list) list \<Rightarrow> (string \<times> cursor_handler list) list" where
  "add_handler cmd event hooks =
     AList.update event ((case map_of hooks event of None \<Rightarrow> [] | Some hs \<Rightarrow> hs) @ [expected_cursor event cmd]) hooks"

definition install_cursor :: "cursor_document \<Rightarrow> string \<Rightarrow> cursor_document" where
  "install_cursor d cmd =
     (let d' = snd (removeManaged d)
      in d'\<lparr>cd_hooks := fold (add_handler cmd) CursorEvents (cd_hooks d'), cd_version := schemaVersion\<rparr>)"

section \<open>The manager\<close>

record cursor_manager =
  cm_project :: "string option"
  cm_config_root :: string
  cm_executable :: string
  cm_portable :: bool

record cursor_host =
  cu_files :: profile_files
  cu_write :: write_steps
  cu_capture :: "string option"
  cu_restore :: "string option"
  cu_broken :: cursor_file

record cursor_status =
  cs_configured :: bool
  cs_binding :: BindingState
  cs_previous_profile :: string
  cs_previous_executable :: string
  cs_checked_profile :: string
  cs_restart_required :: bool

definition resolve_manager :: "cursor_host \<Rightarrow> cursor_manager \<Rightarrow> string + string" where
  "resolve_manager c m =
     (case cm_project m of Some e \<Rightarrow> Inl e
      | None \<Rightarrow>
          let hh = pf_host (cu_files c) in
          if cm_portable m then portableCommandForOS (hh_os hh) ''cursor''
          else commandForOS hh (hh_os hh) (cm_executable m) (cm_config_root m) ''cursor'')"

definition checkedProfile :: "cursor_host \<Rightarrow> cursor_manager \<Rightarrow> string" where
  "checkedProfile c m =
     (if cm_portable m then ''portable''
      else case hh_abs (pf_host (cu_files c)) (cm_config_root m) of Inr a \<Rightarrow> a | Inl _ \<Rightarrow> cm_config_root m)"

definition installed_status :: "cursor_host \<Rightarrow> cursor_manager \<Rightarrow> cursor_status" where
  "installed_status c m = \<lparr>cs_configured = True, cs_binding = BindingCurrent, cs_previous_profile = [], cs_previous_executable = [],
     cs_checked_profile = checkedProfile c m, cs_restart_required = True\<rparr>"

definition found_status :: "cursor_host \<Rightarrow> cursor_manager \<Rightarrow> cursor_inspection \<Rightarrow> cursor_status" where
  "found_status c m i = \<lparr>cs_configured = (cn_state i = BindingCurrent), cs_binding = cn_state i, cs_previous_profile = cn_profile i,
     cs_previous_executable = cn_executable i, cs_checked_profile = checkedProfile c m,
     cs_restart_required = (cn_state i \<noteq> BindingNotConfigured)\<rparr>"

text \<open>The file is replaced as a whole, so a failed write leaves it as it was; so does a restore that succeeds.\<close>

definition cursor_Rebind :: "cursor_host \<Rightarrow> cursor_manager \<Rightarrow> cursor_file \<Rightarrow> (string + cursor_status) \<times> cursor_file" where
  "cursor_Rebind c m f =
     (case bindE (resolve_manager c m) (\<lambda>cmd. bindE (read_cursor f) (\<lambda>d. bindE (inspect_cursor d cmd) (\<lambda>_.
             case cu_capture c of Some e \<Rightarrow> Inl e | None \<Rightarrow> Inr (install_cursor (snd (removeManaged d)) cmd)))) of
        Inl e \<Rightarrow> (Inl e, f)
      | Inr d \<Rightarrow>
          (case write_cursor (cu_write c) d of
             Inr f' \<Rightarrow> (Inr (installed_status c m), f')
           | Inl e \<Rightarrow>
               (case cu_restore c of
                  Some r \<Rightarrow> (Inl (''rebind Cursor hooks: '' @ e @ ''; rollback: '' @ r), cu_broken c)
                | None \<Rightarrow> (Inl (''rebind Cursor hooks: '' @ e), f))))"

definition abandoned_binding :: "cursor_host \<Rightarrow> cursor_manager \<Rightarrow> cursor_inspection \<Rightarrow> bool" where
  "abandoned_binding c m i \<longleftrightarrow> Abandoned (cu_files c) (checkedProfile c m) (cn_profile i) (cn_executable i)"

definition Setup :: "cursor_host \<Rightarrow> cursor_manager \<Rightarrow> cursor_file \<Rightarrow> (string + cursor_status) \<times> cursor_file" where
  "Setup c m f =
     (case bindE (resolve_manager c m) (\<lambda>cmd. bindE (read_cursor f) (\<lambda>d. bindE (inspect_cursor d cmd) (\<lambda>i. Inr (cmd, d, i)))) of
        Inl e \<Rightarrow> (Inl e, f)
      | Inr (cmd, d, i) \<Rightarrow>
          if cn_state i = BindingOtherProfile then
            (if abandoned_binding c m i then cursor_Rebind c m f
             else (Inl ''Cursor is connected to another Overgent profile; explicit reconnect is required'', f))
          else (case write_cursor (cu_write c) (install_cursor d cmd) of
              Inl e \<Rightarrow> (Inl e, f) | Inr f' \<Rightarrow> (Inr (installed_status c m), f')))"

definition cursor_Status :: "cursor_host \<Rightarrow> cursor_manager \<Rightarrow> cursor_file \<Rightarrow> string + cursor_status" where
  "cursor_Status c m f =
     bindE (resolve_manager c m) (\<lambda>cmd. bindE (read_cursor f) (\<lambda>d. bindE (inspect_cursor d cmd) (\<lambda>i. Inr (found_status c m i))))"

definition Repair :: "cursor_host \<Rightarrow> cursor_manager \<Rightarrow> cursor_file \<Rightarrow> (string + cursor_status) \<times> cursor_file" where
  "Repair c m f =
     (case bindE (resolve_manager c m) (\<lambda>cmd. bindE (read_cursor f) (\<lambda>d. inspect_cursor d cmd)) of
        Inl e \<Rightarrow> (Inl e, f)
      | Inr i \<Rightarrow>
          if cn_state i \<noteq> BindingOtherProfile \<or> \<not> abandoned_binding c m i then (Inr (found_status c m i), f)
          else cursor_Rebind c m f)"

definition cursor_Remove :: "cursor_host \<Rightarrow> cursor_manager \<Rightarrow> cursor_file \<Rightarrow> (string + cursor_status) \<times> cursor_file" where
  "cursor_Remove c m f =
     (let removed = \<lparr>cs_configured = False, cs_binding = BindingNotConfigured, cs_previous_profile = [], cs_previous_executable = [],
            cs_checked_profile = checkedProfile c m, cs_restart_required = False\<rparr> in
      case bindE (resolve_manager c m) (\<lambda>cmd. bindE (read_cursor f) (\<lambda>d. bindE (inspect_cursor d cmd) (\<lambda>_. Inr (removeManaged d)))) of
        Inl e \<Rightarrow> (Inl e, f)
      | Inr (changed, d) \<Rightarrow>
          if \<not> changed then (Inr removed, f)
          else (case write_cursor (cu_write c) d of Inl e \<Rightarrow> (Inl e, f) | Inr f' \<Rightarrow> (Inr removed, f')))"

end
