(* ===== verification/Cursor_Safety.thy ===== *)
theory Cursor_Safety
  imports Cursor_Setup
begin

text \<open>
  Setup and removal of the Cursor hooks: what was installed is found again, and what the member had is kept.
\<close>

section \<open>Handlers\<close>

definition cursor_handler_ok :: "cursor_handler \<Rightarrow> bool" where
  "cursor_handler_ok h \<longleftrightarrow> - (2 ^ 63) \<le> ch_timeout h \<and> ch_timeout h < 2 ^ 63"

lemma cursor_keys:
  "equal_fold ''command'' ''command''" "\<not> equal_fold ''type'' ''command''" "\<not> equal_fold ''timeout'' ''command''"
  "\<not> equal_fold ''matcher'' ''command''" "\<not> equal_fold ''failClosed'' ''command''" "equal_fold ''type'' ''type''"
  "\<not> equal_fold ''timeout'' ''type''" "\<not> equal_fold ''matcher'' ''type''" "\<not> equal_fold ''failClosed'' ''type''"
  "equal_fold ''timeout'' ''timeout''" "\<not> equal_fold ''matcher'' ''timeout''" "\<not> equal_fold ''failClosed'' ''timeout''"
  "equal_fold ''matcher'' ''matcher''" "\<not> equal_fold ''failClosed'' ''matcher''" "equal_fold ''failClosed'' ''failClosed''"
  by code_simp+

lemma decode_encode_cursor: "cursor_handler_ok h \<Longrightarrow> decode_cursor_handler (encode_cursor_handler h) = Inr h"
  by (cases h) (simp add: decode_cursor_handler_def encode_cursor_handler_def decode_cursor_field_def cursor_keys decode_string_def
    decode_bool_def decode_int_def zero_cursor_handler_def cursor_handler_ok_def int_literal_dec foldE_append)

lemma decode_cursor_field_ok:
  assumes "cursor_handler_ok h" "decode_cursor_field (k, v) h = Inr h'"
  shows "cursor_handler_ok h'"
proof -
  have t: "ch_timeout h' = ch_timeout h \<or> decode_int v (ch_timeout h) = Inr (ch_timeout h')"
    using assms(2) by (auto simp: decode_cursor_field_def Let_def split: if_splits)
  then show ?thesis using assms(1) decode_int_ok [of v "ch_timeout h" "ch_timeout h'"] by (auto simp: cursor_handler_ok_def)
qed

lemma decode_cursor_handler_ok: "decode_cursor_handler v = Inr h \<Longrightarrow> cursor_handler_ok h"
proof (cases v)
  case (RObj ms)
  assume "decode_cursor_handler v = Inr h"
  then have "foldE decode_cursor_field ms zero_cursor_handler = Inr h" using RObj by (simp add: decode_cursor_handler_def)
  then show ?thesis
  proof (rule foldE_invariant [where P = cursor_handler_ok])
    show "cursor_handler_ok zero_cursor_handler" by (simp add: cursor_handler_ok_def zero_cursor_handler_def)
  qed (metis decode_cursor_field_ok surj_pair)
qed (auto simp: decode_cursor_handler_def cursor_handler_ok_def zero_cursor_handler_def)

lemma decode_cursor_handlers_ok: "decode_cursor_handlers v = Inr hs \<Longrightarrow> list_all cursor_handler_ok hs"
  using mapE_all [of decode_cursor_handler _ hs cursor_handler_ok] decode_cursor_handler_ok
  by (auto simp: decode_cursor_handlers_def list_all_iff split: raw.splits)

lemma decode_encode_handlers: "list_all cursor_handler_ok hs \<Longrightarrow> decode_cursor_handlers (RArr (map encode_cursor_handler hs)) = Inr hs"
  by (simp add: decode_cursor_handlers_def mapE_encode decode_encode_cursor list_all_iff)

section \<open>Documents\<close>

text \<open>What a document says: its handlers and what it keeps unread, event by event.\<close>

definition handlers_of :: "cursor_document \<Rightarrow> string \<Rightarrow> cursor_handler list" where
  "handlers_of d e = (case map_of (cd_hooks d) e of None \<Rightarrow> [] | Some hs \<Rightarrow> hs)"

definition unread_of :: "cursor_document \<Rightarrow> string \<Rightarrow> raw option" where
  "unread_of d e = (if e \<in> set (cd_modeled d) then None else map_of (cd_raw d) e)"

definition document_ok :: "cursor_document \<Rightarrow> bool" where
  "document_ok d \<longleftrightarrow> distinct (map fst (cd_hooks d)) \<and> distinct (map fst (cd_rest d)) \<and> distinct (map fst (cd_raw d))
     \<and> map_of (cd_rest d) ''version'' = None \<and> map_of (cd_rest d) ''hooks'' = None
     \<and> (\<forall>eh \<in> set (cd_hooks d). list_all cursor_handler_ok (snd eh))
     \<and> (\<forall>er \<in> set (cd_raw d). fst er \<notin> set (cd_modeled d) \<longrightarrow> model_event er = None)
     \<and> - (2 ^ 63) \<le> cd_version d \<and> cd_version d < 2 ^ 63"

lemma map_filter_model:
  assumes "distinct (map fst raws)"
  shows "distinct (map fst (List.map_filter model_event raws))"
    and "map_of (List.map_filter model_event raws) e = Option.bind (map_of raws e) (\<lambda>r. map_option snd (model_event (e, r)))"
proof -
  have "fst ` set (List.map_filter model_event raws) \<subseteq> fst ` set raws"
    by (force simp: map_filter_def model_event_def split: sum.splits)
  have k: "model_event x = Some y \<Longrightarrow> fst y = fst x" for x y by (auto simp: model_event_def split: sum.splits)
  have sub: "fst ` set (List.map_filter model_event xs) \<subseteq> fst ` set xs" for xs
    by (induction xs) (auto simp: map_filter_simps dest: k split: option.splits)
  show "distinct (map fst (List.map_filter model_event raws))"
    using assms
  proof (induction raws)
    case (Cons x xs)
    then show ?case using sub [of xs] k [of x] by (auto simp: map_filter_simps split: option.split)
  qed (simp add: map_filter_simps)
  show "map_of (List.map_filter model_event raws) e = Option.bind (map_of raws e) (\<lambda>r. map_option snd (model_event (e, r)))"
    using assms
  proof (induction raws)
    case (Cons x xs)
    have "e \<notin> fst ` set xs \<Longrightarrow> map_of (List.map_filter model_event xs) e = None"
      using sub [of xs] by (auto simp: map_of_eq_None_iff)
    with Cons k [of x] show ?case
      by (cases "fst x = e") (auto simp: map_filter_simps split: option.split)
  qed (simp add: map_filter_simps)
qed

lemma entries_good: "unmarshal_map v = Inr m \<Longrightarrow> distinct (map fst (entries m))"
  using unmarshal_good [of v m] by (cases m) (auto simp: entries_def good_map_def)

lemma model_event_ok: "model_event er = Some eh \<Longrightarrow> list_all cursor_handler_ok (snd eh)"
  using decode_cursor_handlers_ok by (auto simp: model_event_def split: sum.splits)

lemma map_sum_Inr: "map_sum f g x = Inr y \<longleftrightarrow> (\<exists>z. x = Inr z \<and> y = g z)"
  by (cases x) auto

lemma parse_document_ok:
  assumes "parse_document v = Inr d"
  shows "document_ok d"
proof -
  from assms obtain m rest version raws where d: "d = \<lparr>cd_version = version, cd_hooks = List.map_filter model_event raws,
      cd_rest = AList.delete ''hooks'' (AList.delete ''version'' rest), cd_raw = raws, cd_modeled = map fst (List.map_filter model_event raws)\<rparr>"
    and rest: "unmarshal_map v = Inr m" "rest = entries m"
    and version: "version = 0 \<or> (\<exists>x. decode_int x 0 = Inr version)"
    and raws: "raws = [] \<or> (\<exists>x mm. unmarshal_map x = Inr mm \<and> raws = entries mm)"
    by (auto simp: parse_document_def Let_def map_sum_Inr split: option.splits) blast+
  have r: "distinct (map fst raws)" using raws entries_good by auto
  have v: "- (2 ^ 63) \<le> version \<and> version < 2 ^ 63" using version decode_int_ok by fastforce
  have un: "model_event er = None" if "er \<in> set raws" "fst er \<notin> set (map fst (List.map_filter model_event raws))" for er
  proof -
    have "map_of (List.map_filter model_event raws) (fst er) = None" using that(2) by (simp add: map_of_eq_None_iff)
    moreover have "map_of raws (fst er) = Some (snd er)" using that(1) r by simp
    ultimately show ?thesis using map_filter_model(2) [OF r, of "fst er"] by simp
  qed
  have ok: "list_all cursor_handler_ok (snd eh)" if "eh \<in> set (List.map_filter model_event raws)" for eh
    using that model_event_ok by (auto simp: map_filter_def)
  show ?thesis
    using r v un ok map_filter_model(1) [OF r] entries_good [OF rest(1)]
    by (auto simp: document_ok_def d rest(2) distinct_delete delete_conv')
qed

lemma read_cursor_ok: "read_cursor f = Inr d \<Longrightarrow> document_ok d"
proof (cases f)
  case (Document n v)
  assume "read_cursor f = Inr d"
  with Document show ?thesis using parse_document_ok by (auto simp: read_cursor_def Let_def split: if_splits)
qed (auto simp: read_cursor_def Let_def document_ok_def empty_document_def split: if_splits)

text \<open>A document is read back as it was written.\<close>

lemma map_of_other: "map_of (filter (\<lambda>kv. fst kv \<notin> set ks) fs) e = (if e \<in> set ks then None else map_of fs e)"
  by (induction fs) auto

lemma written_hooks_map:
  assumes "document_ok d"
  shows "distinct (map fst (written_hooks d))"
    and "map_of (written_hooks d) e = (case map_of (cd_hooks d) e of Some hs \<Rightarrow> Some (RArr (map encode_cursor_handler hs)) | None \<Rightarrow> unread_of d e)"
proof -
  let ?g = "\<lambda>(e, hs). AList.update e (RArr (map encode_cursor_handler hs))"
  have f: "distinct (map fst fs) \<Longrightarrow> distinct (map fst (fold ?g hooks fs))
      \<and> (distinct (map fst hooks) \<longrightarrow> map_of (fold ?g hooks fs) e = (case map_of hooks e of Some hs \<Rightarrow> Some (RArr (map encode_cursor_handler hs)) | None \<Rightarrow> map_of fs e))"
    for hooks fs
  proof (induction hooks arbitrary: fs)
    case (Cons x hooks)
    obtain a hs where x: "x = (a, hs)" by force
    have "a \<notin> fst ` set hooks \<Longrightarrow> map_of hooks a = None" by (simp add: map_of_eq_None_iff)
    with Cons.IH [of "AList.update a (RArr (map encode_cursor_handler hs)) fs"] Cons.prems show ?case
      by (auto simp: x distinct_update update_conv' split: option.splits)
  qed simp
  let ?fs = "filter (\<lambda>kv. fst kv \<notin> set (cd_modeled d)) (cd_raw d)"
  have d: "distinct (map fst ?fs)" using assms by (auto simp: document_ok_def distinct_map_filter)
  have m: "map_of ?fs e = unread_of d e"
    using map_of_other [of "cd_modeled d" "cd_raw d" e] by (simp add: unread_of_def)
  show "distinct (map fst (written_hooks d))" using f [OF d] by (simp add: written_hooks_def)
  show "map_of (written_hooks d) e = (case map_of (cd_hooks d) e of Some hs \<Rightarrow> Some (RArr (map encode_cursor_handler hs)) | None \<Rightarrow> unread_of d e)"
    using f [OF d, of "cd_hooks d"] m assms unfolding written_hooks_def document_ok_def by (cases "map_of (cd_hooks d) e") simp_all
qed

definition same_content :: "cursor_document \<Rightarrow> cursor_document \<Rightarrow> bool" where
  "same_content d d' \<longleftrightarrow> cd_version d' = cd_version d \<and> map_of (cd_hooks d') = map_of (cd_hooks d) \<and> map_of (cd_rest d') = map_of (cd_rest d)
     \<and> (\<forall>e. unread_of d' e = (if map_of (cd_hooks d) e = None then unread_of d e else None))"

lemma parse_encode:
  assumes "document_ok d"
  shows "\<exists>d'. parse_document (encode_document d) = Inr d' \<and> same_content d d'"
proof -
  let ?out = "AList.update ''hooks'' (encode_map (Some (written_hooks d))) (AList.update ''version'' (RNum (int_dec (cd_version d))) (cd_rest d))"
  have good: "good_map (Some ?out)" using assms by (simp add: document_ok_def good_map_def distinct_update)
  obtain rest where rest: "unmarshal_map (encode_map (Some ?out)) = Inr (Some rest)" "map_of rest = map_of ?out"
    using unmarshal_encode [OF good] by blast
  obtain raws where raws: "unmarshal_map (encode_map (Some (written_hooks d))) = Inr (Some raws)" "map_of raws = map_of (written_hooks d)"
    using unmarshal_encode [of "written_hooks d"] written_hooks_map(1) [OF assms] by (auto simp: good_map_def)
  have dist: "distinct (map fst raws)" "distinct (map fst rest)"
    using unmarshal_good [OF raws(1)] unmarshal_good [OF rest(1)] by (simp_all add: good_map_def)
  have v: "decode_int (RNum (int_dec (cd_version d))) 0 = Inr (cd_version d)"
    using assms by (simp add: decode_int_def int_literal_dec document_ok_def)
  let ?hooks = "List.map_filter model_event raws"
  let ?d = "\<lparr>cd_version = cd_version d, cd_hooks = ?hooks, cd_rest = AList.delete ''hooks'' (AList.delete ''version'' rest),
      cd_raw = raws, cd_modeled = map fst ?hooks\<rparr>"
  have "map_of rest ''version'' = Some (RNum (int_dec (cd_version d)))" "map_of rest ''hooks'' = Some (encode_map (Some (written_hooks d)))"
    by (simp_all add: rest(2) update_conv')
  then have parse: "parse_document (encode_document d) = Inr ?d"
    by (simp add: parse_document_def encode_document_def rest(1) entries_def v raws(1) Let_def)
  have e: "map_of ?hooks e = map_of (cd_hooks d) e" for e
  proof (cases "map_of (cd_hooks d) e")
    case (Some hs)
    then have "list_all cursor_handler_ok hs" using assms by (auto simp: document_ok_def dest: map_of_SomeD)
    with Some show ?thesis
      by (simp add: map_filter_model(2) [OF dist(1)] raws(2) written_hooks_map(2) [OF assms] model_event_def decode_encode_handlers)
  next
    case None
    have "model_event (e, r) = None" if "unread_of d e = Some r" for r
      using that assms by (auto simp: unread_of_def document_ok_def dest: map_of_SomeD split: if_splits)
    with None show ?thesis
      by (auto simp: map_filter_model(2) [OF dist(1)] raws(2) written_hooks_map(2) [OF assms] split: option.split bind_split)
  qed
  have modeled: "e \<in> set (map fst ?hooks) \<longleftrightarrow> map_of (cd_hooks d) e \<noteq> None" for e
    using e [of e] by (metis map_of_eq_None_iff set_map)
  have u: "unread_of ?d e = (if map_of (cd_hooks d) e = None then unread_of d e else None)" for e
    using modeled [of e] by (auto simp: unread_of_def raws(2) written_hooks_map(2) [OF assms])
  have r: "map_of (AList.delete ''hooks'' (AList.delete ''version'' rest)) = map_of (cd_rest d)"
    using assms by (auto simp: fun_eq_iff delete_conv' rest(2) update_conv' document_ok_def)
  have "same_content d ?d" unfolding same_content_def using e u r by (simp add: fun_eq_iff)
  with parse show ?thesis by blast
qed

section \<open>Inspection\<close>

text \<open>Every managed handler is the expected one of its event.\<close>

definition only_expected :: "string \<Rightarrow> string \<times> cursor_handler list \<Rightarrow> bool" where
  "only_expected cmd eh \<longleftrightarrow> (\<forall>h \<in> set (snd eh). managed_cursor (ch_command h) \<longrightarrow> h = expected_cursor (fst eh) cmd \<and> fst eh \<in> set CursorEvents)"

definition has_managed :: "string \<times> cursor_handler list \<Rightarrow> bool" where
  "has_managed eh \<longleftrightarrow> (\<exists>h \<in> set (snd eh). managed_cursor (ch_command h))"

text \<open>A generated command is parsed back to one owner for each event.\<close>

definition owned_by :: "string \<Rightarrow> string \<Rightarrow> string \<Rightarrow> bool" where
  "owned_by cmd p x \<longleftrightarrow> (\<forall>e \<in> set CursorEvents. managed_cursor (ch_command (expected_cursor e cmd))
     \<and> managedOwner (ch_command (expected_cursor e cmd)) e = Some (p, x))"

lemma supported_events: "e \<in> set CursorEvents \<Longrightarrow> SupportedCursorEvent e"
  by (auto simp: CursorEvents_def SupportedCursorEvent_def cursorEvents_def)

definition seen_with :: "string \<Rightarrow> string \<Rightarrow> string list \<Rightarrow> cursor_seen \<Rightarrow> bool" where
  "seen_with p x es seen \<longleftrightarrow> (case seen of (ps, xs, present) \<Rightarrow>
     ps = (if es = [] then [] else [p]) \<and> xs = (if es = [] then [] else [x]) \<and> distinct present \<and> set present = set es)"

lemma inspect_event_expected:
  assumes "owned_by cmd p x" "only_expected cmd (e, hs)" "seen_with p x es seen"
  shows "\<exists>seen'. foldE (inspect_cursor_handler cmd e) hs seen = Inr seen' \<and> seen_with p x (if has_managed (e, hs) then e # es else es) seen'"
  using assms(2,3)
proof (induction hs arbitrary: seen es)
  case (Cons h hs)
  have later: "only_expected cmd (e, hs)" using Cons.prems(1) by (simp add: only_expected_def)
  show ?case
  proof (cases "managed_cursor (ch_command h)")
    case False
    then have "inspect_cursor_handler cmd e h seen = Inr seen" by (simp add: inspect_cursor_handler_def split: prod.split)
    with Cons.IH [OF later Cons.prems(2)] False show ?thesis by (simp add: has_managed_def)
  next
    case True
    then have h: "h = expected_cursor e cmd" "e \<in> set CursorEvents" using Cons.prems(1) by (auto simp: only_expected_def)
    then have o: "managedOwner (ch_command h) e = Some (p, x)" using assms(1) by (simp add: owned_by_def)
    obtain ps xs pr where seen: "seen = (ps, xs, pr)" by (metis prod_cases3)
    let ?s = "(List.insert p ps, List.insert x xs, List.insert e pr)"
    have step: "inspect_cursor_handler cmd e h seen = Inr ?s"
      using True supported_events [OF h(2)] o h(1) by (simp add: inspect_cursor_handler_def seen Let_def)
    have "seen_with p x (e # es) ?s" using Cons.prems(2) by (auto simp: seen_with_def seen List.insert_def split: if_splits)
    from Cons.IH [OF later this] obtain seen' where "foldE (inspect_cursor_handler cmd e) hs ?s = Inr seen'"
      "seen_with p x (if has_managed (e, hs) then e # e # es else e # es) seen'" by blast
    then show ?thesis using step True by (auto simp: has_managed_def seen_with_def split: if_splits)
  qed
qed (simp add: has_managed_def)

lemma inspect_hooks_expected:
  assumes "owned_by cmd p x" "list_all (only_expected cmd) hooks" "seen_with p x es seen"
  shows "\<exists>seen'. foldE (\<lambda>(event, hs). foldE (inspect_cursor_handler cmd event) hs) hooks seen = Inr seen'
    \<and> seen_with p x (rev (map fst (filter has_managed hooks)) @ es) seen'"
  using assms(2,3)
proof (induction hooks arbitrary: seen es)
  case (Cons eh hooks)
  obtain e hs where eh: "eh = (e, hs)" by force
  have "only_expected cmd (e, hs)" using Cons.prems(1) by (simp add: eh)
  from inspect_event_expected [OF assms(1) this Cons.prems(2)] obtain s1
    where s1: "foldE (inspect_cursor_handler cmd e) hs seen = Inr s1" "seen_with p x (if has_managed (e, hs) then e # es else es) s1" by blast
  from Cons.IH [OF _ s1(2)] Cons.prems(1) s1(1) show ?case by (auto simp: eh)
qed simp

end
