(* ===== verification/Spec2Isabelle.thy ===== *)
theory Spec2Isabelle
  imports Store_Sessions Store_Delivery Profile_Config Watch_Tree App_Flush Activity_Safety App_Hooks App_Machine App_Local Hook_Config Update_Safety Session_Withheld Mcp_Witness Cursor_Safety
begin

text \<open>
  Verification of the local coordination service.
\<close>

end
